(* ===== verification/Bucket.thy ===== *)
theory Bucket
  imports Prelude
begin

text \<open>
  The storage driver.  \<open>gocloud.dev/blob\<close> is not part of the repository: a bucket is a
  parameter, a record of the operations the store calls on a state of any type \<open>'b\<close>, and what
  the store relies on is the locale \<open>blob_bucket\<close>, which restates the package's documentation.
  Every operation may fail with an arbitrary code; a failed write or delete may or may not
  have taken effect unless it was refused by its precondition or cancelled.
  \<open>reliable_bucket\<close> adds that no operation fails but for the documented reasons, and
  \<open>mem_ops\<close> is a concrete bucket, an association list, on which both are interpreted.
\<close>

record attrs =
  a_size :: int
  a_mod_time :: int

record 'b bucket_ops =
  bo_exists :: "'b \<Rightarrow> string \<Rightarrow> gccode + bool"
  bo_read_all :: "'b \<Rightarrow> string \<Rightarrow> gccode + string"
  bo_write_all :: "'b \<Rightarrow> string \<Rightarrow> string \<Rightarrow> bool \<Rightarrow> gccode option \<times> 'b"
  bo_new_reader :: "'b \<Rightarrow> string \<Rightarrow> gccode + (string \<times> gccode option)"
  bo_new_writer :: "'b \<Rightarrow> string \<Rightarrow> bool \<Rightarrow> gccode option"
  bo_write :: "'b \<Rightarrow> string \<Rightarrow> string \<Rightarrow> gccode option"
  bo_commit :: "'b \<Rightarrow> string \<Rightarrow> string \<Rightarrow> bool \<Rightarrow> gccode option \<times> 'b"
  bo_abort :: "'b \<Rightarrow> string \<Rightarrow> string \<Rightarrow> gccode option \<times> 'b"
  bo_delete :: "'b \<Rightarrow> string \<Rightarrow> gccode option \<times> 'b"
  bo_list :: "'b \<Rightarrow> string \<Rightarrow> bool \<Rightarrow> (string \<times> bool) list \<times> gccode option"
  bo_attributes :: "'b \<Rightarrow> string \<Rightarrow> gccode + attrs"
  bo_signed_url :: "'b \<Rightarrow> string \<Rightarrow> int \<Rightarrow> gccode + string"

text \<open>
  The boolean of \<open>bo_write_all\<close>, \<open>bo_new_writer\<close> and \<open>bo_commit\<close> is \<open>WriterOptions.IfNotExist\<close>.
  \<open>bo_new_reader\<close> gives the bytes a reader delivers and the error it then ends with, if any;
  \<open>bo_write\<close> the error of streaming bytes into an open writer; \<open>bo_commit\<close> is the writer's
  \<open>Close\<close> and \<open>bo_abort\<close> a \<open>Close\<close> after its context was cancelled.  \<open>bo_list\<close> gives the entries
  (key, is-directory) an iterator delivers before its end or error; its boolean asks for the
  delimiter \<open>/\<close>.
\<close>

definition list_spec :: "(string \<rightharpoonup> string) \<Rightarrow> string \<Rightarrow> bool \<Rightarrow> (string \<times> bool) set" where
  "list_spec m p delim =
     (if delim then
        {(k, False) |k. k \<in> dom m \<and> prefix p k \<and> CHR ''/'' \<notin> set (drop (length p) k)}
        \<union> {(p @ seg @ ''/'', True) |seg. CHR ''/'' \<notin> set seg \<and> (\<exists>r. p @ seg @ ''/'' @ r \<in> dom m)}
      else {(k, False) |k. k \<in> dom m \<and> prefix p k})"

locale blob_bucket =
  fixes ops :: "'b bucket_ops"
    and objs :: "'b \<Rightarrow> string \<rightharpoonup> string"
  assumes exists_Inr: "bo_exists ops b k = Inr v \<Longrightarrow> v \<longleftrightarrow> objs b k \<noteq> None"
    and read_Inr: "bo_read_all ops b k = Inr d \<Longrightarrow> objs b k = Some d"
    and read_NotFound: "bo_read_all ops b k = Inl GcNotFound \<Longrightarrow> objs b k = None"
    and write_None: "bo_write_all ops b k d ine = (None, b') \<Longrightarrow>
          objs b' = (objs b)(k \<mapsto> d) \<and> (ine \<longrightarrow> objs b k = None)"
    and write_Some: "bo_write_all ops b k d ine = (Some c, b') \<Longrightarrow>
          objs b' = objs b \<or> (objs b' = (objs b)(k \<mapsto> d) \<and> (ine \<longrightarrow> objs b k = None))"
    and write_refused: "bo_write_all ops b k d ine = (Some GcFailedPrecondition, b') \<Longrightarrow>
          ine \<and> objs b k \<noteq> None \<and> objs b' = objs b"
    and reader_Inr: "bo_new_reader ops b k = Inr (d, None) \<Longrightarrow> objs b k = Some d"
    and commit_None: "bo_commit ops b k d ine = (None, b') \<Longrightarrow>
          objs b' = (objs b)(k \<mapsto> d) \<and> (ine \<longrightarrow> objs b k = None)"
    and commit_Some: "bo_commit ops b k d ine = (Some c, b') \<Longrightarrow>
          objs b' = objs b \<or> (objs b' = (objs b)(k \<mapsto> d) \<and> (ine \<longrightarrow> objs b k = None))"
    and commit_refused: "bo_commit ops b k d ine = (Some GcFailedPrecondition, b') \<Longrightarrow>
          ine \<and> objs b k \<noteq> None \<and> objs b' = objs b"
    and abort_objs: "objs (snd (bo_abort ops b k d)) = objs b"
    and delete_None: "bo_delete ops b k = (None, b') \<Longrightarrow> objs b' = (objs b)(k := None)"
    and delete_Some: "bo_delete ops b k = (Some c, b') \<Longrightarrow>
          objs b' = objs b \<or> objs b' = (objs b)(k := None)"
    and delete_NotFound: "bo_delete ops b k = (Some GcNotFound, b') \<Longrightarrow>
          objs b k = None \<and> objs b' = objs b"
    and list_None: "bo_list ops b p delim = (es, None) \<Longrightarrow>
          set es = list_spec (objs b) p delim \<and> distinct es"
    and list_some: "bo_list ops b p delim = (es, e) \<Longrightarrow> set es \<subseteq> list_spec (objs b) p delim"
begin

text \<open>Whatever a write or commit returns, it touches at most its own key.\<close>

lemma write_frame:
  assumes "bo_write_all ops b k d ine = (r, b')" "k' \<noteq> k"
  shows "objs b' k' = objs b k'"
  using assms write_None [of b k d ine b'] write_Some [of b k d ine _ b'] by (cases r) auto

lemma commit_frame:
  assumes "bo_commit ops b k d ine = (r, b')" "k' \<noteq> k"
  shows "objs b' k' = objs b k'"
  using assms commit_None [of b k d ine b'] commit_Some [of b k d ine _ b'] by (cases r) auto

lemma delete_frame:
  assumes "bo_delete ops b k = (r, b')" "k' \<noteq> k"
  shows "objs b' k' = objs b k'"
  using assms delete_None [of b k b'] delete_Some [of b k _ b'] by (cases r) auto

text \<open>An \<open>IfNotExist\<close> write never changes an existing object.\<close>

lemma write_ine_keeps:
  assumes "bo_write_all ops b k d True = (r, b')" "objs b k' = Some x"
  shows "objs b' k' = Some x"
  using assms write_None [of b k d True b'] write_Some [of b k d True _ b']
  by (cases r; cases "k' = k") auto

lemma commit_ine_keeps:
  assumes "bo_commit ops b k d True = (r, b')" "objs b k' = Some x"
  shows "objs b' k' = Some x"
  using assms commit_None [of b k d True b'] commit_Some [of b k d True _ b']
  by (cases r; cases "k' = k") auto

end

locale reliable_bucket = blob_bucket +
  assumes exists_total: "bo_exists ops b k = Inr (objs b k \<noteq> None)"
    and read_total: "bo_read_all ops b k = (case objs b k of None \<Rightarrow> Inl GcNotFound | Some d \<Rightarrow> Inr d)"
    and write_total: "fst (bo_write_all ops b k d ine)
          = (if ine \<and> objs b k \<noteq> None then Some GcFailedPrecondition else None)"
    and reader_total: "bo_new_reader ops b k
          = (case objs b k of None \<Rightarrow> Inl GcNotFound | Some d \<Rightarrow> Inr (d, None))"
    and open_total: "bo_new_writer ops b k ine = None"
    and stream_total: "bo_write ops b k d = None"
    and commit_total: "fst (bo_commit ops b k d ine)
          = (if ine \<and> objs b k \<noteq> None then Some GcFailedPrecondition else None)"
    and delete_total: "fst (bo_delete ops b k) = (if objs b k = None then Some GcNotFound else None)"
    and list_total: "snd (bo_list ops b p delim) = None"
begin

lemma write_ok: "\<not> ine \<or> objs b k = None \<Longrightarrow>
    \<exists>b'. bo_write_all ops b k d ine = (None, b') \<and> objs b' = (objs b)(k \<mapsto> d)"
  using write_total [of b k d ine] write_None [of b k d ine]
  by (cases "bo_write_all ops b k d ine") auto

lemma commit_ok: "\<not> ine \<or> objs b k = None \<Longrightarrow>
    \<exists>b'. bo_commit ops b k d ine = (None, b') \<and> objs b' = (objs b)(k \<mapsto> d)"
  using commit_total [of b k d ine] commit_None [of b k d ine]
  by (cases "bo_commit ops b k d ine") auto

end

section \<open>A concrete bucket\<close>

type_synonym mem_bucket = "(string \<times> string) list"

definition mem_put :: "string \<Rightarrow> string \<Rightarrow> mem_bucket \<Rightarrow> mem_bucket" where
  "mem_put k d b = (k, d) # filter (\<lambda>e. fst e \<noteq> k) b"

definition mem_write :: "mem_bucket \<Rightarrow> string \<Rightarrow> string \<Rightarrow> bool \<Rightarrow> gccode option \<times> mem_bucket" where
  "mem_write b k d ine =
     (if ine \<and> map_of b k \<noteq> None then (Some GcFailedPrecondition, b) else (None, mem_put k d b))"

definition mem_list_entry :: "string \<Rightarrow> string \<Rightarrow> string \<times> bool" where
  "mem_list_entry p k =
     (let rest = drop (length p) k
      in if CHR ''/'' \<in> set rest
         then (p @ takeWhile (\<lambda>c. c \<noteq> CHR ''/'') rest @ ''/'', True) else (k, False))"

definition mem_list :: "mem_bucket \<Rightarrow> string \<Rightarrow> bool \<Rightarrow> (string \<times> bool) list \<times> gccode option" where
  "mem_list b p delim =
     (let keys = filter (prefix p) (map fst b)
      in (remdups (map (if delim then mem_list_entry p else (\<lambda>k. (k, False))) keys), None))"

definition mem_ops :: "mem_bucket bucket_ops" where
  "mem_ops =
     \<lparr>bo_exists = (\<lambda>b k. Inr (map_of b k \<noteq> None)),
      bo_read_all = (\<lambda>b k. case map_of b k of None \<Rightarrow> Inl GcNotFound | Some d \<Rightarrow> Inr d),
      bo_write_all = mem_write,
      bo_new_reader =
        (\<lambda>b k. case map_of b k of None \<Rightarrow> Inl GcNotFound | Some d \<Rightarrow> Inr (d, None)),
      bo_new_writer = (\<lambda>b k ine. None),
      bo_write = (\<lambda>b k d. None),
      bo_commit = mem_write,
      bo_abort = (\<lambda>b k d. (Some GcCanceled, b)),
      bo_delete = (\<lambda>b k. if map_of b k = None then (Some GcNotFound, b)
                         else (None, filter (\<lambda>e. fst e \<noteq> k) b)),
      bo_list = mem_list,
      bo_attributes =
        (\<lambda>b k. case map_of b k of None \<Rightarrow> Inl GcNotFound
               | Some d \<Rightarrow> Inr \<lparr>a_size = int (length d), a_mod_time = 0\<rparr>),
      bo_signed_url = (\<lambda>b k ttl. Inl GcUnimplemented)\<rparr>"

lemma map_of_filter_neq: "map_of (filter (\<lambda>e. fst e \<noteq> k) b) = (map_of b)(k := None)"
  by (induction b) (auto simp: fun_eq_iff)

lemma map_of_mem_put: "map_of (mem_put k d b) = (map_of b)(k \<mapsto> d)"
  by (simp add: mem_put_def map_of_filter_neq)

lemma fst_set_dom: "fst ` set b = dom (map_of b)"
  by (simp add: dom_map_of_conv_image_fst)

lemma takeWhile_slash:
  "CHR ''/'' \<in> set s \<Longrightarrow> \<exists>r. s = takeWhile (\<lambda>c. c \<noteq> CHR ''/'') s @ ''/'' @ r"
proof (induction s)
  case (Cons c s)
  then show ?case by (cases "c = CHR ''/''") auto
qed simp

lemma mem_list_entry_dir:
  "CHR ''/'' \<notin> set seg \<Longrightarrow> mem_list_entry p (p @ seg @ ''/'' @ r) = (p @ seg @ ''/'', True)"
  by (simp add: mem_list_entry_def Let_def takeWhile_append)

lemma mem_list_entry_in_spec:
  assumes "p @ s \<in> dom m"
  shows "mem_list_entry p (p @ s) \<in> list_spec m p True"
proof (cases "CHR ''/'' \<in> set s")
  case True
  with takeWhile_slash obtain r where r: "s = takeWhile (\<lambda>c. c \<noteq> CHR ''/'') s @ ''/'' @ r"
    by blast
  define seg where "seg = takeWhile (\<lambda>c. c \<noteq> CHR ''/'') s"
  have seg: "CHR ''/'' \<notin> set seg" "s = seg @ ''/'' @ r"
    using r by (auto simp: seg_def dest: set_takeWhileD)
  then show ?thesis
    using assms mem_list_entry_dir [of seg p r] by (auto simp: list_spec_def)
next
  case False
  with assms show ?thesis by (auto simp: list_spec_def mem_list_entry_def)
qed

lemma list_spec_mem_list_entry:
  assumes "e \<in> list_spec m p True"
  obtains k where "k \<in> dom m" "prefix p k" "e = mem_list_entry p k"
proof -
  from assms consider (is_obj) k where "e = (k, False)" "k \<in> dom m" "prefix p k"
      "CHR ''/'' \<notin> set (drop (length p) k)"
    | (is_dir) seg r where "e = (p @ seg @ ''/'', True)" "CHR ''/'' \<notin> set seg"
      "p @ seg @ ''/'' @ r \<in> dom m"
    by (auto simp: list_spec_def)
  then show ?thesis
  proof cases
    case is_obj
    then show ?thesis by (intro that [of k]) (auto simp: mem_list_entry_def)
  next
    case is_dir
    then show ?thesis
      using mem_list_entry_dir [of seg p r] by (intro that [of "p @ seg @ ''/'' @ r"]) simp_all
  qed
qed

lemma mem_list_set:
  "set (fst (mem_list b p delim)) = list_spec (map_of b) p delim"
proof (cases delim)
  case False
  then show ?thesis
    by (auto simp: mem_list_def list_spec_def fst_set_dom [symmetric] image_iff)
next
  case True
  have "set (fst (mem_list b p True))
      = mem_list_entry p ` {k \<in> dom (map_of b). prefix p k}"
    by (auto simp: mem_list_def fst_set_dom [symmetric])
  also have "\<dots> = list_spec (map_of b) p True"
    by (blast elim: list_spec_mem_list_entry prefixE intro: mem_list_entry_in_spec)
  finally show ?thesis using True by simp
qed

lemma mem_list_distinct: "distinct (fst (mem_list b p delim))" "snd (mem_list b p delim) = None"
  by (simp_all add: mem_list_def Let_def)

lemma mem_write_cases:
  assumes "mem_write b k d ine = (r, b')"
  shows "(r = None \<and> map_of b' = (map_of b)(k \<mapsto> d) \<and> (ine \<longrightarrow> map_of b k = None))
    \<or> (r = Some GcFailedPrecondition \<and> ine \<and> map_of b k \<noteq> None \<and> b' = b)"
  using assms by (auto simp: mem_write_def map_of_mem_put split: if_splits)

lemma mem_ops_simps [simp]:
  "bo_exists mem_ops b k = Inr (map_of b k \<noteq> None)"
  "bo_read_all mem_ops b k = (case map_of b k of None \<Rightarrow> Inl GcNotFound | Some d \<Rightarrow> Inr d)"
  "bo_write_all mem_ops = mem_write"
  "bo_new_reader mem_ops b k
     = (case map_of b k of None \<Rightarrow> Inl GcNotFound | Some d \<Rightarrow> Inr (d, None))"
  "bo_new_writer mem_ops b k ine = None"
  "bo_write mem_ops b k d = None"
  "bo_commit mem_ops = mem_write"
  "bo_abort mem_ops b k d = (Some GcCanceled, b)"
  "bo_delete mem_ops b k = (if map_of b k = None then (Some GcNotFound, b)
                            else (None, filter (\<lambda>e. fst e \<noteq> k) b))"
  "bo_list mem_ops = mem_list"
  by (simp_all add: mem_ops_def)

lemma mem_bucket: "blob_bucket mem_ops map_of"
proof (unfold_locales, goal_cases)
  case (15 b p delim es)
  then show ?case
    using mem_list_set [of b p delim] mem_list_distinct [of b p delim] by simp
next
  case (16 b p delim es e)
  then show ?case
    using mem_list_set [of b p delim] by simp
qed (auto simp: map_of_filter_neq split: option.splits if_splits dest!: mem_write_cases)

lemma mem_reliable: "reliable_bucket mem_ops map_of"
  by (intro reliable_bucket.intro mem_bucket reliable_bucket_axioms.intro)
    (auto simp: mem_write_def mem_list_distinct split: option.splits)

interpretation mem: reliable_bucket mem_ops map_of
  by (rule mem_reliable)

end
