(* ===== verification/Core.thy ===== *)
theory Core
  imports Prelude "HOL-Library.AList"
begin

text \<open>
  The core data nouns, \<open>pkg/core\<close>: formats, the metadata envelope, creation options.  A Go map
  is an association list read through \<open>map_of\<close> and written through \<open>AList.update\<close>; nil and
  empty maps are not distinguished.
\<close>

section \<open>Formats\<close>

definition format_pypi :: string where "format_pypi = ''pypi''"
definition format_npm :: string where "format_npm = ''npm''"
definition format_maven :: string where "format_maven = ''maven''"
definition format_debian :: string where "format_debian = ''debian''"
definition format_generic :: string where "format_generic = ''generic''"

lemmas format_defs = format_pypi_def format_npm_def format_maven_def format_debian_def
  format_generic_def

definition format_is_known :: "string \<Rightarrow> bool" where
  "format_is_known f =
     (f \<in> {format_pypi, format_npm, format_maven, format_debian, format_generic})"

definition parse_format :: "string \<Rightarrow> string \<times> bool" where
  "parse_format s = (s, format_is_known s)"

section \<open>Metadata\<close>

text \<open>An annotation value: a string, or another JSON value given by its text.\<close>

datatype jval = JStr string | JOther string

type_synonym annotations = "(string \<times> jval) list"

record meta =
  m_digest :: string
  m_digests :: "(string \<times> string) list"
  m_size :: int
  m_created_at :: int
  m_updated_at :: int
  m_annotations :: annotations

definition zero_meta :: meta where
  "zero_meta = \<lparr>m_digest = '''', m_digests = [], m_size = 0, m_created_at = 0,
                m_updated_at = 0, m_annotations = []\<rparr>"

section \<open>Hashes\<close>

text \<open>\<open>crypto.Hash\<close>, the members the program names.\<close>

datatype hash_alg = MD5 | SHA1 | SHA256 | SHA512

fun hash_string :: "hash_alg \<Rightarrow> string" where
  "hash_string MD5 = ''MD5''"
| "hash_string SHA1 = ''SHA-1''"
| "hash_string SHA256 = ''SHA-256''"
| "hash_string SHA512 = ''SHA-512''"

definition hex_lower :: "nat \<Rightarrow> char" where
  "hex_lower n = (if n < 10 then char_of (48 + n) else char_of (87 + n))"

definition hex_encode :: "string \<Rightarrow> string" where
  "hex_encode s =
     concat (map (\<lambda>c. [hex_lower (of_char c div 16), hex_lower (of_char c mod 16)]) s)"

text \<open>\<open>digestKey\<close> of \<open>blobstore/store.go\<close>.\<close>

definition digest_key :: "hash_alg \<Rightarrow> string" where
  "digest_key h = to_lower (filter (\<lambda>c. c \<noteq> CHR ''-'') (hash_string h))"

lemma digest_key_values:
  "digest_key MD5 = ''md5''" "digest_key SHA1 = ''sha1''"
  "digest_key SHA256 = ''sha256''" "digest_key SHA512 = ''sha512''"
  by code_simp+

section \<open>Readers\<close>

text \<open>A body: the bytes its reader delivers, and the error it ends with instead of EOF.\<close>

record body =
  bd_data :: string
  bd_err :: "err option"

definition bytes_body :: "string \<Rightarrow> body" where
  "bytes_body d = \<lparr>bd_data = d, bd_err = None\<rparr>"

section \<open>Creation options\<close>

record expected_digest =
  ed_hash :: hash_alg
  ed_sum :: string

record create_config =
  cc_annotations :: annotations
  cc_allow_overwrite :: bool
  cc_expected :: "expected_digest list"

datatype create_option =
    WithAnnotations annotations
  | WithAllowOverwrite bool
  | WithExpectedDigests "expected_digest list"

fun merge_annotations :: "annotations \<Rightarrow> annotations \<Rightarrow> annotations" where
  "merge_annotations acc [] = acc"
| "merge_annotations acc ((k, v) # kvs) = merge_annotations (AList.update k v acc) kvs"

fun apply_option :: "create_option \<Rightarrow> create_config \<Rightarrow> create_config" where
  "apply_option (WithAnnotations a) c =
     (if a = [] then c
      else c\<lparr>cc_annotations := merge_annotations (cc_annotations c) a\<rparr>)"
| "apply_option (WithAllowOverwrite b) c = c\<lparr>cc_allow_overwrite := b\<rparr>"
| "apply_option (WithExpectedDigests es) c = c\<lparr>cc_expected := cc_expected c @ es\<rparr>"

definition empty_config :: create_config where
  "empty_config = \<lparr>cc_annotations = [], cc_allow_overwrite = False, cc_expected = []\<rparr>"

definition new_create_config :: "create_option list \<Rightarrow> create_config" where
  "new_create_config opts = fold apply_option opts empty_config"

lemma map_of_merge_annotations:
  "map_of (merge_annotations acc kvs) = map_of acc ++ map_of (rev kvs)"
  by (induction acc kvs rule: merge_annotations.induct)
    (simp_all add: update_conv' map_add_def fun_eq_iff split: option.splits)

lemma new_create_config_Nil [simp]: "new_create_config [] = empty_config"
  by (simp add: new_create_config_def)

end
