(* ===== verification/Ttl_Cache.thy ===== *)
theory Ttl_Cache
  imports Prelude
begin

text \<open>
  What the three in-memory caches of the program promise their users, stated once: the
  negative cache (\<open>pkg/proxy/negcache\<close>), the policy cache (\<open>pkg/namespace/authz.go\<close>) and the
  store's memo cache (\<open>pkg/core/blobstore/cache.go\<close>).  Each interprets the locale
  \<open>ttl_cache\<close> on its own operations; the locale's lemma bounds what a lookup can return by
  the history of the cache.
\<close>

datatype ('k, 'v) cache_event = CPut int 'k 'v | CDel 'k | CGet int 'k

text \<open>The last write of a key that no later delete of it undid.\<close>

fun last_put :: "'k \<Rightarrow> ('k, 'v) cache_event list \<Rightarrow> (int \<times> 'v) option" where
  "last_put k [] = None"
| "last_put k (CPut t k' v # es) = (if k' = k then Some (t, v) else last_put k es)"
| "last_put k (CDel k' # es) = (if k' = k then None else last_put k es)"
| "last_put k (CGet t k' # es) = last_put k es"

fun event_time_le :: "int \<Rightarrow> ('k, 'v) cache_event \<Rightarrow> bool" where
  "event_time_le now (CPut t k v) = (t \<le> now)"
| "event_time_le now (CGet t k) = (t \<le> now)"
| "event_time_le now (CDel k) = True"

text \<open>
  A history is a list of events, the newest first.  \<open>put\<close>, \<open>del\<close> and \<open>touch\<close> (the effect a
  lookup has on the cache) are the operations of the cache.
\<close>

fun run_cache ::
  "(int \<Rightarrow> 'k \<Rightarrow> 'v \<Rightarrow> 's \<Rightarrow> 's) \<Rightarrow> ('k \<Rightarrow> 's \<Rightarrow> 's) \<Rightarrow> (int \<Rightarrow> 'k \<Rightarrow> 's \<Rightarrow> 's) \<Rightarrow> 's
    \<Rightarrow> ('k, 'v) cache_event list \<Rightarrow> 's" where
  "run_cache put del touch s [] = s"
| "run_cache put del touch s (CPut t k v # es) = put t k v (run_cache put del touch s es)"
| "run_cache put del touch s (CDel k # es) = del k (run_cache put del touch s es)"
| "run_cache put del touch s (CGet t k # es) = touch t k (run_cache put del touch s es)"

text \<open>
  \<open>live s t k\<close> is what a lookup of \<open>k\<close> at time \<open>t\<close> shows; \<open>fresh t t0\<close> says that an entry
  written at \<open>t0\<close> is still valid at \<open>t\<close>.
\<close>

locale ttl_cache =
  fixes empty :: 's
    and put :: "int \<Rightarrow> 'k \<Rightarrow> 'v \<Rightarrow> 's \<Rightarrow> 's"
    and del :: "'k \<Rightarrow> 's \<Rightarrow> 's"
    and touch :: "int \<Rightarrow> 'k \<Rightarrow> 's \<Rightarrow> 's"
    and live :: "'s \<Rightarrow> int \<Rightarrow> 'k \<Rightarrow> 'v option"
    and fresh :: "int \<Rightarrow> int \<Rightarrow> bool"
    and invar :: "'s \<Rightarrow> bool"
  assumes invar_empty: "invar empty"
    and invar_put: "invar s \<Longrightarrow> invar (put t k v s)"
    and invar_del: "invar s \<Longrightarrow> invar (del k s)"
    and invar_touch: "invar s \<Longrightarrow> invar (touch t k s)"
    and live_empty: "live empty t k = None"
    and live_put_same: "invar s \<Longrightarrow> live (put t0 k v s) t k = Some w \<Longrightarrow> fresh t t0 \<and> w = v"
    and live_put_other: "invar s \<Longrightarrow> k' \<noteq> k \<Longrightarrow> live (put t0 k v s) t k' = Some w
          \<Longrightarrow> live s t k' = Some w"
    and live_del_same: "invar s \<Longrightarrow> live (del k s) t k = None"
    and live_del_other: "invar s \<Longrightarrow> live (del k s) t k' = Some w \<Longrightarrow> live s t k' = Some w"
    and live_touch: "invar s \<Longrightarrow> live (touch t0 k s) t k' = Some w \<Longrightarrow> live s t k' = Some w"
begin

lemma invar_run: "invar (run_cache put del touch empty es)"
proof (induction es)
  case Nil
  then show ?case by (simp add: invar_empty)
next
  case (Cons e es)
  then show ?case by (cases e) (simp_all add: invar_put invar_del invar_touch)
qed

lemma live_from_last_put:
  "live (run_cache put del touch empty es) t k = Some w
    \<Longrightarrow> \<exists>t0. last_put k es = Some (t0, w) \<and> fresh t t0"
proof (induction es)
  case Nil
  then show ?case by (simp add: live_empty)
next
  case (Cons e es)
  have inv: "invar (run_cache put del touch empty es)" by (rule invar_run)
  show ?case
  proof (cases e)
    case (CPut t1 k1 v1)
    then show ?thesis
      using Cons live_put_same [OF inv] live_put_other [OF inv, of k k1 t1 v1 t w]
      by (cases "k1 = k") fastforce+
  next
    case (CDel k1)
    then show ?thesis
      using Cons live_del_same [OF inv] live_del_other [OF inv, of k1 t k w]
      by (cases "k1 = k") auto
  next
    case (CGet t1 k1)
    then show ?thesis using Cons live_touch [OF inv] by auto
  qed
qed

end

end
