(* ===== verification/Memo_Cache.thy ===== *)
theory Memo_Cache
  imports Ttl_Cache
begin

text \<open>
  The store's memo cache, \<open>memoCache\<close> of \<open>pkg/core/blobstore/cache.go\<close>: a doubly linked list
  of entries in order of use, an index from keys to list elements, a capacity and a lifetime.
  Elements are numbered; \<open>mc_heap\<close> holds what an element points to, \<open>mc_ll\<close> the list front
  first, \<open>mc_items\<close> the index.  Clock readings are arguments; the mutex makes \<open>peek\<close> and
  \<open>store\<close> atomic.
\<close>

section \<open>Lifetimes\<close>

text \<open>Go's integer division truncates towards zero; a positive \<open>ttl\<close> reaches it only.\<close>

definition minute :: int where
  "minute = 60 * 10 ^ 9"

definition default_url_cache_ttl :: int where
  "default_url_cache_ttl = 19 * minute"

definition default_stat_cache_ttl :: int where
  "default_stat_cache_ttl = minute"

definition clamp_cache_ttl :: "int \<Rightarrow> int" where
  "clamp_cache_ttl ttl =
     (if ttl \<le> 0 then ttl
      else
        (let margin = ttl div 10;
             margin = (if margin > minute then minute else margin)
         in ttl - margin))"

lemma clamp_cache_ttl_bounds:
  "ttl \<le> 0 \<Longrightarrow> clamp_cache_ttl ttl = ttl"
  "0 < ttl \<Longrightarrow> 0 < clamp_cache_ttl ttl \<and> clamp_cache_ttl ttl \<le> ttl
      \<and> ttl - clamp_cache_ttl ttl \<le> minute"
  "10 \<le> ttl \<Longrightarrow> clamp_cache_ttl ttl < ttl"
  by (auto simp: clamp_cache_ttl_def minute_def Let_def)

section \<open>The cache\<close>

record 'v cache_entry =
  ce_key :: string
  ce_val :: 'v
  ce_expiry :: int

record 'v memo_cache =
  mc_heap :: "nat \<rightharpoonup> 'v cache_entry"
  mc_ll :: "nat list"
  mc_items :: "string \<rightharpoonup> nat"
  mc_next :: nat
  mc_cap :: int
  mc_ttl :: int

definition new_memo_cache :: "int \<Rightarrow> int \<Rightarrow> 'v memo_cache" where
  "new_memo_cache capacity ttl =
     \<lparr>mc_heap = Map.empty, mc_ll = [], mc_items = Map.empty, mc_next = 0,
      mc_cap = capacity, mc_ttl = ttl\<rparr>"

definition move_to_front :: "nat \<Rightarrow> nat list \<Rightarrow> nat list" where
  "move_to_front el ll = (if el \<in> set ll then el # remove1 el ll else ll)"

text \<open>An element without a heap cell is a nil pointer; \<open>memo_inv\<close> excludes it.\<close>

definition memo_peek :: "int \<Rightarrow> string \<Rightarrow> 'v memo_cache \<Rightarrow> 'v option \<times> 'v memo_cache" where
  "memo_peek now key c =
     (case mc_items c key of
        None \<Rightarrow> (None, c)
      | Some el \<Rightarrow>
          (case mc_heap c el of
             None \<Rightarrow> (None, c)
           | Some ent \<Rightarrow>
               (if now > ce_expiry ent then
                  (None, c\<lparr>mc_ll := remove1 el (mc_ll c), mc_items := (mc_items c)(key := None)\<rparr>)
                else (Some (ce_val ent), c\<lparr>mc_ll := move_to_front el (mc_ll c)\<rparr>))))"

text \<open>The eviction loop: drop the last element while the list is over capacity.\<close>

function memo_evict :: "'v memo_cache \<Rightarrow> 'v memo_cache" where
  "memo_evict c =
     (if mc_cap c > 0 \<and> int (length (mc_ll c)) > mc_cap c \<and> mc_ll c \<noteq> [] then
        (case mc_heap c (last (mc_ll c)) of
           None \<Rightarrow> c
         | Some oldest \<Rightarrow>
             memo_evict (c\<lparr>mc_ll := butlast (mc_ll c),
                           mc_items := (mc_items c)(ce_key oldest := None)\<rparr>))
      else c)"
  by pat_completeness auto
termination
  by (relation "measure (\<lambda>c. length (mc_ll c))") auto

declare memo_evict.simps [simp del]

definition memo_store :: "int \<Rightarrow> string \<Rightarrow> 'v \<Rightarrow> 'v memo_cache \<Rightarrow> 'v memo_cache" where
  "memo_store now key val c =
     (let expiry = now + mc_ttl c in
      case mc_items c key of
        Some el \<Rightarrow>
          c\<lparr>mc_heap := (mc_heap c)(el \<mapsto> \<lparr>ce_key = key, ce_val = val, ce_expiry = expiry\<rparr>),
            mc_ll := move_to_front el (mc_ll c)\<rparr>
      | None \<Rightarrow>
          (let el = mc_next c in
           memo_evict
             (c\<lparr>mc_heap := (mc_heap c)(el \<mapsto> \<lparr>ce_key = key, ce_val = val, ce_expiry = expiry\<rparr>),
                mc_ll := el # mc_ll c,
                mc_items := (mc_items c)(key \<mapsto> el),
                mc_next := Suc el\<rparr>)))"

text \<open>
  \<open>getOrCompute\<close> for a caller that leads its flight: the two peeks and the store read the clock
  one after the other.  The computation may change the state \<open>'w\<close> of the world.
\<close>

definition get_or_compute ::
  "int \<Rightarrow> int \<Rightarrow> int \<Rightarrow> string \<Rightarrow> ('w \<Rightarrow> 'v res \<times> 'w) \<Rightarrow> 'w \<Rightarrow> 'v memo_cache
    \<Rightarrow> 'v res \<times> 'w \<times> 'v memo_cache" where
  "get_or_compute t1 t2 t3 key fn w c =
     (case memo_peek t1 key c of
        (Some v, c1) \<Rightarrow> (Inr v, w, c1)
      | (None, c1) \<Rightarrow>
          (case memo_peek t2 key c1 of
             (Some v, c2) \<Rightarrow> (Inr v, w, c2)
           | (None, c2) \<Rightarrow>
               (case fn w of
                  (Inl e, w1) \<Rightarrow> (Inl e, w1, c2)
                | (Inr v, w1) \<Rightarrow> (Inr v, w1, memo_store t3 key v c2))))"

section \<open>The structural invariant\<close>

text \<open>
  List and index agree: every listed element has a cell and is indexed under its key, and
  every indexed element is listed.
\<close>

definition memo_inv :: "'v memo_cache \<Rightarrow> bool" where
  "memo_inv c \<longleftrightarrow>
     distinct (mc_ll c)
     \<and> (\<forall>el \<in> set (mc_ll c). el < mc_next c
           \<and> (\<exists>e. mc_heap c el = Some e \<and> mc_items c (ce_key e) = Some el))
     \<and> (\<forall>k el. mc_items c k = Some el \<longrightarrow>
           el \<in> set (mc_ll c) \<and> (\<exists>e. mc_heap c el = Some e \<and> ce_key e = k))"

lemma memo_invD:
  assumes "memo_inv c"
  shows "distinct (mc_ll c)"
    and "el \<in> set (mc_ll c) \<Longrightarrow> el < mc_next c"
    and "el \<in> set (mc_ll c) \<Longrightarrow> \<exists>e. mc_heap c el = Some e \<and> mc_items c (ce_key e) = Some el"
    and "mc_items c k = Some el \<Longrightarrow> el \<in> set (mc_ll c)"
    and "mc_items c k = Some el \<Longrightarrow> \<exists>e. mc_heap c el = Some e \<and> ce_key e = k"
  using assms by (auto simp: memo_inv_def)

lemma memo_inv_new: "memo_inv (new_memo_cache cap ttl)"
  by (simp add: memo_inv_def new_memo_cache_def)

lemma set_move_to_front [simp]: "distinct ll \<Longrightarrow> set (move_to_front el ll) = set ll"
  by (auto simp: move_to_front_def set_remove1_eq)

lemma distinct_move_to_front [simp]: "distinct ll \<Longrightarrow> distinct (move_to_front el ll)"
  by (auto simp: move_to_front_def)

lemma length_move_to_front [simp]: "length (move_to_front el ll) = length ll"
proof (cases "el \<in> set ll")
  case True
  then have "0 < length ll" by (cases ll) auto
  with True show ?thesis by (simp add: move_to_front_def length_remove1)
qed (simp add: move_to_front_def)

lemma memo_inv_move:
  "memo_inv c \<Longrightarrow> memo_inv (c\<lparr>mc_ll := move_to_front el (mc_ll c)\<rparr>)"
  by (simp add: memo_inv_def)

lemma memo_inv_remove:
  assumes inv: "memo_inv c" and it: "mc_items c k = Some el"
  shows "memo_inv (c\<lparr>mc_ll := remove1 el (mc_ll c), mc_items := (mc_items c)(k := None)\<rparr>)"
proof -
  from memo_invD(5) [OF inv it] obtain e where e: "mc_heap c el = Some e" "ce_key e = k" by auto
  have "k' = k" if "mc_items c k' = Some el" for k'
    using memo_invD(5) [OF inv that] e by auto
  moreover have "ce_key e' \<noteq> k" if "x \<in> set (mc_ll c)" "x \<noteq> el" "mc_heap c x = Some e'" for x e'
    using memo_invD(3) [OF inv that(1)] that it by auto
  ultimately show ?thesis
    using inv by (fastforce simp: memo_inv_def)
qed

lemma memo_inv_peek: "memo_inv c \<Longrightarrow> memo_inv (snd (memo_peek now key c))"
  by (auto simp: memo_peek_def memo_inv_move memo_inv_remove split: option.splits)

lemma butlast_remove1_last: "distinct xs \<Longrightarrow> xs \<noteq> [] \<Longrightarrow> butlast xs = remove1 (last xs) xs"
  by (cases xs rule: rev_cases) (auto simp: remove1_append)

lemma memo_inv_evict: "memo_inv c \<Longrightarrow> memo_inv (memo_evict c)"
proof (induction c rule: memo_evict.induct)
  case (1 c)
  show ?case
  proof (cases "mc_cap c > 0 \<and> int (length (mc_ll c)) > mc_cap c \<and> mc_ll c \<noteq> []")
    case True
    then have "last (mc_ll c) \<in> set (mc_ll c)" by simp
    then obtain e where e: "mc_heap c (last (mc_ll c)) = Some e"
        "mc_items c (ce_key e) = Some (last (mc_ll c))"
      using memo_invD(3) [OF "1.prems"] by blast
    have "memo_inv (c\<lparr>mc_ll := butlast (mc_ll c), mc_items := (mc_items c)(ce_key e := None)\<rparr>)"
      using memo_inv_remove [OF "1.prems" e(2)] butlast_remove1_last [OF memo_invD(1) [OF "1.prems"]] True
      by simp
    from "1.IH" [OF True e(1) this] show ?thesis
      using True e(1) by (subst memo_evict.simps) simp
  next
    case False
    then show ?thesis using "1.prems" by (subst memo_evict.simps) auto
  qed
qed

lemma memo_inv_insert:
  assumes inv: "memo_inv c" and new: "mc_items c key = None"
  shows "memo_inv (c\<lparr>mc_heap := (mc_heap c)(mc_next c \<mapsto> \<lparr>ce_key = key, ce_val = v, ce_expiry = x\<rparr>),
      mc_ll := mc_next c # mc_ll c, mc_items := (mc_items c)(key \<mapsto> mc_next c),
      mc_next := Suc (mc_next c)\<rparr>)"
proof -
  have "mc_next c \<notin> set (mc_ll c)"
    using memo_invD(2) [OF inv] by blast
  moreover have "ce_key e \<noteq> key" if "el \<in> set (mc_ll c)" "mc_heap c el = Some e" for el e
    using memo_invD(3) [OF inv that(1)] that(2) new by auto
  ultimately show ?thesis
    using inv by (fastforce simp: memo_inv_def less_Suc_eq)
qed

lemma memo_inv_update:
  assumes inv: "memo_inv c" and it: "mc_items c key = Some el"
  shows "memo_inv (c\<lparr>mc_heap := (mc_heap c)(el \<mapsto> \<lparr>ce_key = key, ce_val = v, ce_expiry = x\<rparr>)\<rparr>)"
proof -
  have only: "k' = key" if "mc_items c k' = Some el" for k'
    using memo_invD(5) [OF inv that] memo_invD(5) [OF inv it] by auto
  let ?c = "c\<lparr>mc_heap := (mc_heap c)(el \<mapsto> \<lparr>ce_key = key, ce_val = v, ce_expiry = x\<rparr>)\<rparr>"
  have "\<exists>e. mc_heap ?c y = Some e \<and> mc_items ?c (ce_key e) = Some y" if "y \<in> set (mc_ll c)" for y
    using memo_invD(3) [OF inv that] it by (cases "y = el") auto
  moreover have "\<exists>e. mc_heap ?c y = Some e \<and> ce_key e = k" if "mc_items c k = Some y" for k y
    using memo_invD(5) [OF inv that] that only by (cases "y = el") auto
  ultimately show ?thesis
    using memo_invD(1,2,4) [OF inv] by (simp add: memo_inv_def)
qed

lemma memo_inv_store: "memo_inv c \<Longrightarrow> memo_inv (memo_store now key v c)"
  using memo_inv_update [of c key _ v "now + mc_ttl c"]
    memo_inv_move [of "c\<lparr>mc_heap := _\<rparr>"] memo_inv_insert [of c key v "now + mc_ttl c"]
  by (auto simp: memo_store_def Let_def memo_inv_evict split: option.splits)

section \<open>Capacity\<close>

definition memo_bounded :: "'v memo_cache \<Rightarrow> bool" where
  "memo_bounded c = (mc_cap c > 0 \<longrightarrow> int (length (mc_ll c)) \<le> mc_cap c)"

lemma memo_evict_config [simp]:
  "mc_cap (memo_evict c) = mc_cap c" "mc_ttl (memo_evict c) = mc_ttl c"
  by (induction c rule: memo_evict.induct; subst memo_evict.simps; simp split: option.splits)+

lemma memo_peek_config [simp]:
  "mc_cap (snd (memo_peek now k c)) = mc_cap c" "mc_ttl (snd (memo_peek now k c)) = mc_ttl c"
  by (auto simp: memo_peek_def split: option.splits)

lemma memo_store_config [simp]:
  "mc_cap (memo_store now k v c) = mc_cap c" "mc_ttl (memo_store now k v c) = mc_ttl c"
  by (auto simp: memo_store_def Let_def split: option.splits)

lemma memo_evict_bounded: "memo_inv c \<Longrightarrow> memo_bounded (memo_evict c)"
proof (induction c rule: memo_evict.induct)
  case (1 c)
  show ?case
  proof (cases "mc_cap c > 0 \<and> int (length (mc_ll c)) > mc_cap c \<and> mc_ll c \<noteq> []")
    case True
    then have "last (mc_ll c) \<in> set (mc_ll c)" by simp
    then obtain e where e: "mc_heap c (last (mc_ll c)) = Some e"
        "mc_items c (ce_key e) = Some (last (mc_ll c))"
      using memo_invD(3) [OF "1.prems"] by blast
    have "memo_inv (c\<lparr>mc_ll := butlast (mc_ll c), mc_items := (mc_items c)(ce_key e := None)\<rparr>)"
      using memo_inv_remove [OF "1.prems" e(2)] butlast_remove1_last [OF memo_invD(1) [OF "1.prems"]] True
      by simp
    from "1.IH" [OF True e(1) this] show ?thesis
      using True e(1) by (subst memo_evict.simps) simp
  next
    case False
    then show ?thesis
      by (subst memo_evict.simps) (auto simp: memo_bounded_def)
  qed
qed

lemma memo_store_bounded:
  assumes "memo_inv c" "memo_bounded c"
  shows "memo_bounded (memo_store now key v c)"
proof (cases "mc_items c key")
  case None
  then show ?thesis
    using memo_evict_bounded [OF memo_inv_insert [OF assms(1) None, of v "now + mc_ttl c"]]
    by (simp add: memo_store_def Let_def)
next
  case (Some el)
  then show ?thesis using assms(2) by (simp add: memo_store_def Let_def memo_bounded_def)
qed

lemma memo_peek_bounded: "memo_bounded c \<Longrightarrow> memo_bounded (snd (memo_peek now key c))"
  by (auto simp: memo_peek_def memo_bounded_def length_remove1 split: option.splits)

section \<open>The cache contract\<close>

definition memo_live :: "'v memo_cache \<Rightarrow> int \<Rightarrow> string \<Rightarrow> 'v option" where
  "memo_live c t k = fst (memo_peek t k c)"

definition memo_put :: "int \<Rightarrow> string \<Rightarrow> 'v \<Rightarrow> 'v memo_cache \<Rightarrow> 'v memo_cache" where
  "memo_put t k v c = memo_store t k v c"



lemma memo_live_eq:
  "memo_live c t k = (case mc_items c k of None \<Rightarrow> None
     | Some el \<Rightarrow> (case mc_heap c el of None \<Rightarrow> None
         | Some e \<Rightarrow> if t > ce_expiry e then None else Some (ce_val e)))"
  by (auto simp: memo_live_def memo_peek_def split: option.splits)

lemma memo_evict_heap [simp]: "mc_heap (memo_evict c) = mc_heap c"
  by (induction c rule: memo_evict.induct; subst memo_evict.simps; simp split: option.splits)

lemma memo_evict_items:
  "mc_items (memo_evict c) k = Some el \<Longrightarrow> mc_items c k = Some el"
proof (induction c rule: memo_evict.induct)
  case (1 c)
  then show ?case
    by (subst (asm) memo_evict.simps [of c]) (auto split: if_splits option.splits)
qed

lemma memo_evict_live: "memo_live (memo_evict c) t k = Some w \<Longrightarrow> memo_live c t k = Some w"
  by (auto simp: memo_live_eq split: option.splits dest: memo_evict_items)

lemma memo_live_peek:
  "memo_inv c \<Longrightarrow> memo_live (snd (memo_peek t0 k c)) t k' = Some w \<Longrightarrow> memo_live c t k' = Some w"
  by (auto simp: memo_live_eq memo_peek_def split: option.splits if_splits)

lemma memo_live_store_same:
  assumes "memo_live (memo_store t0 k v c) t k = Some w"
  shows "t \<le> t0 + mc_ttl c \<and> w = v"
proof (cases "mc_items c k")
  case None
  with assms show ?thesis
    by (auto simp: memo_store_def Let_def dest!: memo_evict_live)
      (auto simp: memo_live_eq split: if_splits)
next
  case (Some el)
  with assms show ?thesis
    by (auto simp: memo_store_def Let_def memo_live_eq split: if_splits)
qed

lemma memo_live_store_other:
  assumes inv: "memo_inv c" and ne: "k' \<noteq> k"
    and live: "memo_live (memo_store t0 k v c) t k' = Some w"
  shows "memo_live c t k' = Some w"
proof (cases "mc_items c k")
  case None
  have "mc_items c k' \<noteq> Some (mc_next c)"
    using memo_invD(2,4) [OF inv] by blast
  with None ne live show ?thesis
    by (auto simp: memo_store_def Let_def dest!: memo_evict_live)
      (auto simp: memo_live_eq split: option.splits if_splits)
next
  case (Some el)
  have "mc_items c k' \<noteq> Some el"
    using memo_invD(5) [OF inv, of k' el] memo_invD(5) [OF inv Some] ne by auto
  with Some ne live show ?thesis
    by (auto simp: memo_store_def Let_def memo_live_eq split: option.splits if_splits)
qed

text \<open>A stored value is found again, while it is fresh, when the bound leaves room for it.\<close>

lemma memo_store_present:
  assumes inv: "memo_inv c" and bnd: "memo_bounded c" and t: "t \<le> t0 + mc_ttl c"
  shows "memo_live (memo_store t0 k v c) t k = Some v"
proof (cases "mc_items c k")
  case None
  define d where "d = c\<lparr>mc_heap := (mc_heap c)(mc_next c \<mapsto> \<lparr>ce_key = k, ce_val = v,
      ce_expiry = t0 + mc_ttl c\<rparr>), mc_ll := mc_next c # mc_ll c,
      mc_items := (mc_items c)(k \<mapsto> mc_next c), mc_next := Suc (mc_next c)\<rparr>"
  have d_inv: "memo_inv d" unfolding d_def by (rule memo_inv_insert [OF inv None])
  have keep: "memo_inv e \<Longrightarrow> mc_items e k = Some el \<Longrightarrow> mc_ll e = el # rest \<Longrightarrow>
      mc_items (memo_evict e) k = Some el" for e :: "'a memo_cache" and el rest
  proof (induction e arbitrary: rest rule: memo_evict.induct)
    case (1 e)
    show ?case
    proof (cases "mc_cap e > 0 \<and> int (length (mc_ll e)) > mc_cap e \<and> mc_ll e \<noteq> []")
      case True
      then have "rest \<noteq> []" using "1.prems"(3) by auto
      then have lst: "last (mc_ll e) \<in> set (mc_ll e)" "last (mc_ll e) \<noteq> el"
        using "1.prems"(3) memo_invD(1) [OF "1.prems"(1)] by auto
      then obtain o' where o': "mc_heap e (last (mc_ll e)) = Some o'"
          "mc_items e (ce_key o') = Some (last (mc_ll e))"
        using memo_invD(3) [OF "1.prems"(1)] by blast
      have "ce_key o' \<noteq> k" using o'(2) "1.prems"(2) lst(2) by auto
      moreover have "memo_inv (e\<lparr>mc_ll := butlast (mc_ll e), mc_items := (mc_items e)(ce_key o' := None)\<rparr>)"
        using memo_inv_remove [OF "1.prems"(1) o'(2)]
          butlast_remove1_last [OF memo_invD(1) [OF "1.prems"(1)]] True
        by simp
      ultimately show ?thesis
        using "1.IH" [OF True o'(1), of "butlast rest"] True o'(1) "1.prems" \<open>rest \<noteq> []\<close>
        by (subst memo_evict.simps) simp
    next
      case False
      then show ?thesis using "1.prems" by (subst memo_evict.simps) auto
    qed
  qed
  have "mc_items (memo_evict d) k = Some (mc_next c)"
    by (rule keep [OF d_inv, of _ "mc_ll c"]) (simp_all add: d_def)
  then show ?thesis
    using None t by (simp add: memo_store_def Let_def memo_live_eq d_def)
next
  case (Some el)
  then show ?thesis using t by (simp add: memo_store_def Let_def memo_live_eq)
qed

text \<open>
  The memo cache deletes only inside \<open>peek\<close>, on expiry; the contract's delete is that removal.
\<close>

definition memo_del :: "string \<Rightarrow> 'v memo_cache \<Rightarrow> 'v memo_cache" where
  "memo_del k c =
     (case mc_items c k of
        None \<Rightarrow> c
      | Some el \<Rightarrow> c\<lparr>mc_ll := remove1 el (mc_ll c), mc_items := (mc_items c)(k := None)\<rparr>)"

lemma memo_cache_contract:
  "ttl_cache (new_memo_cache cap ttl) memo_put memo_del (\<lambda>t k c. snd (memo_peek t k c)) memo_live
     (\<lambda>t t0. t \<le> t0 + ttl) (\<lambda>c. memo_inv c \<and> memo_bounded c \<and> mc_cap c = cap \<and> mc_ttl c = ttl)"
proof (unfold_locales, goal_cases)
  case 1
  show ?case by (simp add: memo_inv_new) (simp add: new_memo_cache_def memo_bounded_def)
next
  case (2 s t k v)
  then show ?case by (simp add: memo_put_def memo_inv_store memo_store_bounded)
next
  case (3 s k)
  then show ?case
    by (auto simp: memo_del_def memo_inv_remove memo_bounded_def length_remove1 split: option.splits)
next
  case (4 s t k)
  then show ?case by (simp add: memo_inv_peek memo_peek_bounded)
next
  case (5 t k)
  show ?case by (simp add: memo_live_eq new_memo_cache_def)
next
  case (6 s t0 k v t w)
  then show ?case using memo_live_store_same [of t0 k v s t w] by (simp add: memo_put_def)
next
  case (7 s k' k t0 v t w)
  then show ?case using memo_live_store_other by (auto simp: memo_put_def)
next
  case (8 s k t)
  then show ?case by (auto simp: memo_del_def memo_live_eq split: option.splits)
next
  case (9 s k t k' w)
  then show ?case by (auto simp: memo_del_def memo_live_eq split: option.splits if_splits)
next
  case (10 s t0 k t k' w)
  then show ?case using memo_live_peek [of s t0 k t k' w] by simp
qed

interpretation memo: ttl_cache "new_memo_cache cap ttl" memo_put memo_del
  "\<lambda>t k c. snd (memo_peek t k c)" memo_live "\<lambda>t t0. t \<le> t0 + ttl"
  "\<lambda>c. memo_inv c \<and> memo_bounded c \<and> mc_cap c = cap \<and> mc_ttl c = ttl"
  for cap ttl
  by (rule memo_cache_contract)

section \<open>Properties\<close>

text \<open>Whatever the history of stores, evictions, expiries and lookups, a value served by the
  memo cache is the last one stored under that key, and its lifetime has not passed.\<close>

theorem memo_lookup_fresh:
  assumes "fst (memo_peek t k (run_cache memo_put memo_del (\<lambda>t k c. snd (memo_peek t k c))
             (new_memo_cache cap ttl) es)) = Some v"
  shows "\<exists>t0. last_put k es = Some (t0, v) \<and> t \<le> t0 + ttl"
proof (rule memo.live_from_last_put)
  show "memo_live (run_cache memo_put memo_del (\<lambda>t k c. snd (memo_peek t k c))
      (new_memo_cache cap ttl) es) t k = Some v"
    using assms by (simp add: memo_live_def)
qed

theorem memo_lookup_fresh_witness:
  "fst (memo_peek 7 ''k'' (run_cache memo_put memo_del (\<lambda>t k c. snd (memo_peek t k c))
             (new_memo_cache 2 5) [CPut 3 ''k'' (8::nat)])) = Some 8
   \<and> (\<exists>t0. last_put ''k'' [CPut 3 ''k'' (8::nat)] = Some (t0, 8) \<and> 7 \<le> t0 + 5)"
proof -
  have h: "fst (memo_peek 7 ''k'' (run_cache memo_put memo_del (\<lambda>t k c. snd (memo_peek t k c))
             (new_memo_cache 2 5) [CPut 3 ''k'' (8::nat)])) = Some 8"
    by (simp add: memo_put_def memo_store_def new_memo_cache_def memo_peek_def Let_def
        memo_evict.simps)
  with memo_lookup_fresh [OF h] show ?thesis by simp
qed

text \<open>After any sequence of operations the recency list and the index of the memo cache hold
  the same elements, without duplicates, and a positive capacity bounds them.\<close>

theorem memo_well_formed:
  "memo_inv (run_cache memo_put memo_del (\<lambda>t k c. snd (memo_peek t k c))
      (new_memo_cache cap ttl) es)
   \<and> memo_bounded (run_cache memo_put memo_del (\<lambda>t k c. snd (memo_peek t k c))
      (new_memo_cache cap ttl) es)"
  using memo.invar_run [of cap ttl es] by simp



end
