(* ===== verification/Blob_World.thy ===== *)
theory Blob_World
  imports Bucket Core Memo_Cache
begin

text \<open>
  The store's view of the world and the instrumented bucket primitives, \<open>metrics.go\<close> of
  \<open>pkg/core/blobstore\<close>.  An operation maps a world to a result and a new world; \<open>act_bind\<close>
  stops at the first error, as the code's early returns do.  A world holds the bucket, the two
  caches of a store and the metric emissions so far.
\<close>

section \<open>Worlds and actions\<close>

datatype metric = BlobStoreCall string string | BlobRedirect string

record 'b world =
  w_bucket :: 'b
  w_url :: "string memo_cache"
  w_stat :: "attrs memo_cache"
  w_metrics :: "metric list"

type_synonym ('b, 'a) act = "'b world \<Rightarrow> 'a res \<times> 'b world"

definition act_ret :: "'a \<Rightarrow> ('b, 'a) act" where
  "act_ret x w = (Inr x, w)"

definition act_fail :: "err \<Rightarrow> ('b, 'a) act" where
  "act_fail e w = (Inl e, w)"

definition act_bind :: "('b, 'a) act \<Rightarrow> ('a \<Rightarrow> ('b, 'c) act) \<Rightarrow> ('b, 'c) act" where
  "act_bind m f w = (case m w of (Inl e, w1) \<Rightarrow> (Inl e, w1) | (Inr x, w1) \<Rightarrow> f x w1)"

text \<open>\<open>act_catch\<close>: continue on either outcome; \<open>act_wrap\<close>: map the error returned.\<close>

definition act_catch :: "('b, 'a) act \<Rightarrow> ('a res \<Rightarrow> ('b, 'c) act) \<Rightarrow> ('b, 'c) act" where
  "act_catch m f w = (case m w of (r, w1) \<Rightarrow> f r w1)"

definition act_wrap :: "(err \<Rightarrow> err) \<Rightarrow> ('b, 'a) act \<Rightarrow> ('b, 'a) act" where
  "act_wrap g m w = (case m w of (Inl e, w1) \<Rightarrow> (Inl (g e), w1) | (Inr x, w1) \<Rightarrow> (Inr x, w1))"

fun act_check :: "err option \<Rightarrow> ('b, unit) act" where
  "act_check None = act_ret ()"
| "act_check (Some e) = act_fail e"

text \<open>The result of an action run for its result only.\<close>

abbreviation result :: "('b, 'a) act \<Rightarrow> 'b world \<Rightarrow> 'a res" where
  "result m w \<equiv> fst (m w)"

abbreviation after :: "('b, 'a) act \<Rightarrow> 'b world \<Rightarrow> 'b world" where
  "after m w \<equiv> snd (m w)"

lemma act_eval: "fst x = r \<Longrightarrow> x = (r, snd x)"
  by (metis prod.collapse)

lemma act_bind_Inr:
  assumes "act_bind m f w = (Inr y, w')"
  obtains x w1 where "m w = (Inr x, w1)" "f x w1 = (Inr y, w')"
  using assms by (auto simp: act_bind_def split: prod.splits sum.splits)

lemma act_wrap_Inr: "act_wrap g m w = (Inr y, w') \<longleftrightarrow> m w = (Inr y, w')"
  by (auto simp: act_wrap_def split: prod.splits sum.splits)

lemma act_bind_step [simp]:
  "m w = (Inr x, w1) \<Longrightarrow> act_bind m f w = f x w1"
  "m w = (Inl e, w1) \<Longrightarrow> act_bind m f w = (Inl e, w1)"
  by (simp_all add: act_bind_def)

lemma act_check_Inr [simp]: "act_check e w = (Inr u, w') \<longleftrightarrow> e = None \<and> w' = w"
  by (cases e) (auto simp: act_ret_def act_fail_def)

lemma act_ret_Inr [simp]: "act_ret x w = (Inr y, w') \<longleftrightarrow> y = x \<and> w' = w"
  by (auto simp: act_ret_def)

lemma act_fail_Inr [simp]: "act_fail e w \<noteq> (Inr y, w')"
  by (auto simp: act_fail_def)

section \<open>Errors of the backend\<close>

text \<open>\<open>gcerrors.Code\<close> of a non-nil error.\<close>

fun gc_code :: "err \<Rightarrow> gccode" where
  "gc_code (ErrBackend c) = c"
| "gc_code _ = GcUnknown"

definition map_err :: "err \<Rightarrow> err" where
  "map_err e = (if gc_code e = GcNotFound then ErrNotFound else e)"

definition map_create_err :: "err \<Rightarrow> err" where
  "map_create_err e = (if gc_code e = GcFailedPrecondition then ErrAlreadyExists else map_err e)"

text \<open>\<open>None\<close> is \<open>gcerrors.OK\<close>.\<close>

fun blob_status :: "err option \<Rightarrow> string" where
  "blob_status None = ''ok''"
| "blob_status (Some e) =
     (case gc_code e of
        GcNotFound \<Rightarrow> ''not_found''
      | GcAlreadyExists \<Rightarrow> ''already_exists''
      | GcFailedPrecondition \<Rightarrow> ''already_exists''
      | GcUnimplemented \<Rightarrow> ''unsupported''
      | _ \<Rightarrow> ''error'')"

section \<open>The store\<close>

text \<open>
  \<open>Store\<close> with what it calls: the bucket's operations, the guard, whether a metrics observer is
  installed, the hash functions (\<open>st_hash\<close> is \<open>None\<close> where \<open>crypto.Hash.Available\<close> is false)
  and the JSON codec of \<open>core.Meta\<close>, which \<open>encodeMeta\<close> and \<open>decodeMeta\<close> call.
\<close>

record 'b store =
  st_ops :: "'b bucket_ops"
  st_scope :: string
  st_url_ttl :: int
  st_stat_ttl :: int
  st_guard :: "(bool \<Rightarrow> err option) option"
  st_metrics :: bool
  st_sha256 :: "string \<Rightarrow> string"
  st_hash :: "hash_alg \<Rightarrow> (string \<Rightarrow> string) option"
  st_encode :: "meta \<Rightarrow> string res"
  st_decode :: "string \<Rightarrow> meta res"

definition observe :: "'b store \<Rightarrow> string \<Rightarrow> err option \<Rightarrow> 'b world \<Rightarrow> 'b world" where
  "observe s op e w =
     (if \<not> st_metrics s then w
      else w\<lparr>w_metrics := w_metrics w @ [BlobStoreCall op (blob_status e)]\<rparr>)"

definition redirect :: "'b store \<Rightarrow> string \<Rightarrow> 'b world \<Rightarrow> 'b world" where
  "redirect s outcome w =
     (if st_metrics s then w\<lparr>w_metrics := w_metrics w @ [BlobRedirect outcome]\<rparr> else w)"

text \<open>A read-only primitive, then the primitives that may change the bucket.\<close>

definition b_query ::
  "'b store \<Rightarrow> string \<Rightarrow> ('b \<Rightarrow> gccode + 'a) \<Rightarrow> ('b, 'a) act" where
  "b_query s op f w =
     (case f (w_bucket w) of
        Inl c \<Rightarrow> (Inl (ErrBackend c), observe s op (Some (ErrBackend c)) w)
      | Inr v \<Rightarrow> (Inr v, observe s op None w))"

definition b_update ::
  "'b store \<Rightarrow> string \<Rightarrow> ('b \<Rightarrow> gccode option \<times> 'b) \<Rightarrow> ('b, unit) act" where
  "b_update s op f w =
     (case f (w_bucket w) of
        (None, b) \<Rightarrow> (Inr (), observe s op None (w\<lparr>w_bucket := b\<rparr>))
      | (Some c, b) \<Rightarrow>
          (Inl (ErrBackend c), observe s op (Some (ErrBackend c)) (w\<lparr>w_bucket := b\<rparr>)))"

definition b_exists :: "'b store \<Rightarrow> string \<Rightarrow> ('b, bool) act" where
  "b_exists s key = b_query s ''exists'' (\<lambda>b. bo_exists (st_ops s) b key)"

definition b_read_all :: "'b store \<Rightarrow> string \<Rightarrow> ('b, string) act" where
  "b_read_all s key = b_query s ''read_all'' (\<lambda>b. bo_read_all (st_ops s) b key)"

definition b_write_all :: "'b store \<Rightarrow> string \<Rightarrow> string \<Rightarrow> bool \<Rightarrow> ('b, unit) act" where
  "b_write_all s key p if_not_exist =
     b_update s ''write_all'' (\<lambda>b. bo_write_all (st_ops s) b key p if_not_exist)"

definition b_new_reader :: "'b store \<Rightarrow> string \<Rightarrow> ('b, string \<times> gccode option) act" where
  "b_new_reader s key = b_query s ''new_reader'' (\<lambda>b. bo_new_reader (st_ops s) b key)"

definition b_new_writer :: "'b store \<Rightarrow> string \<Rightarrow> bool \<Rightarrow> ('b, unit) act" where
  "b_new_writer s key if_not_exist =
     b_query s ''new_writer''
       (\<lambda>b. case bo_new_writer (st_ops s) b key if_not_exist of
              None \<Rightarrow> Inr () | Some c \<Rightarrow> Inl c)"

definition b_delete :: "'b store \<Rightarrow> string \<Rightarrow> ('b, unit) act" where
  "b_delete s key = b_update s ''delete'' (\<lambda>b. bo_delete (st_ops s) b key)"

text \<open>\<open>closeWriter\<close>: a commit, and a close after \<open>cancelWrite\<close>.\<close>

definition close_writer :: "'b store \<Rightarrow> string \<Rightarrow> string \<Rightarrow> bool \<Rightarrow> ('b, unit) act" where
  "close_writer s key p if_not_exist =
     b_update s ''writer_close'' (\<lambda>b. bo_commit (st_ops s) b key p if_not_exist)"

definition abort_writer :: "'b store \<Rightarrow> string \<Rightarrow> string \<Rightarrow> ('b, unit) act" where
  "abort_writer s key p = b_update s ''writer_close'' (\<lambda>b. bo_abort (st_ops s) b key p)"

lemma observe_fields [simp]:
  "w_bucket (observe s op e w) = w_bucket w"
  "w_url (observe s op e w) = w_url w"
  "w_stat (observe s op e w) = w_stat w"
  by (simp_all add: observe_def)

lemma redirect_fields [simp]:
  "w_bucket (redirect s r w) = w_bucket w"
  "w_url (redirect s r w) = w_url w"
  "w_stat (redirect s r w) = w_stat w"
  by (simp_all add: redirect_def)

lemma b_update_bucket [simp]: "w_bucket (after (b_update s op f) w) = snd (f (w_bucket w))"
  by (auto simp: b_update_def split: prod.splits option.splits)

section \<open>Frames\<close>

text \<open>Actions that leave the bucket alone.\<close>

named_theorems keeps_intros \<open>actions that leave the bucket unchanged\<close>

definition keeps :: "('b, 'a) act \<Rightarrow> bool" where
  "keeps m \<longleftrightarrow> (\<forall>w. w_bucket (after m w) = w_bucket w)"

lemma keepsD: "keeps m \<Longrightarrow> m w = (r, w') \<Longrightarrow> w_bucket w' = w_bucket w"
  by (metis keeps_def snd_conv)

lemma keeps_ret [keeps_intros]: "keeps (act_ret x)"
  by (simp add: keeps_def act_ret_def)

lemma keeps_fail [keeps_intros]: "keeps (act_fail e)"
  by (simp add: keeps_def act_fail_def)

lemma keeps_check [keeps_intros]: "keeps (act_check e)"
  by (cases e) (simp_all add: keeps_ret keeps_fail)

lemma keeps_bind [keeps_intros]: "keeps m \<Longrightarrow> (\<And>x. keeps (f x)) \<Longrightarrow> keeps (act_bind m f)"
  by (auto simp: keeps_def act_bind_def split: prod.splits sum.splits) (metis snd_conv)+

lemma keeps_catch [keeps_intros]: "keeps m \<Longrightarrow> (\<And>x. keeps (f x)) \<Longrightarrow> keeps (act_catch m f)"
  by (auto simp: keeps_def act_catch_def split: prod.splits) (metis snd_conv)

lemma keeps_wrap [keeps_intros]: "keeps m \<Longrightarrow> keeps (act_wrap g m)"
  by (auto simp: keeps_def act_wrap_def split: prod.splits sum.splits) (metis snd_conv)+

lemma keeps_query [keeps_intros]: "keeps (b_query s op f)"
  by (auto simp: keeps_def b_query_def split: sum.splits)

lemma keeps_prims [keeps_intros]:
  "keeps (b_exists s k)" "keeps (b_read_all s k)" "keeps (b_new_reader s k)"
  "keeps (b_new_writer s k ine)"
  by (simp_all add: b_exists_def b_read_all_def b_new_reader_def b_new_writer_def keeps_query)

lemma keeps_if [keeps_intros]: "keeps m \<Longrightarrow> keeps n \<Longrightarrow> keeps (if c then m else n)"
  by simp

text \<open>Actions that change only the objects whose key is in a set, and only towards values
  allowed for the key.\<close>

definition touches ::
  "('b \<Rightarrow> string \<rightharpoonup> string) \<Rightarrow> string set \<Rightarrow> ('b, 'a) act \<Rightarrow> bool" where
  "touches objs K m \<longleftrightarrow>
     (\<forall>w k. k \<notin> K \<longrightarrow> objs (w_bucket (after m w)) k = objs (w_bucket w) k)"

named_theorems touches_intros \<open>actions that change only some keys\<close>

lemma touchesD:
  "touches objs K m \<Longrightarrow> m w = (r, w') \<Longrightarrow> k \<notin> K \<Longrightarrow> objs (w_bucket w') k = objs (w_bucket w) k"
  by (metis touches_def snd_conv)

lemma touches_keeps: "keeps m \<Longrightarrow> touches objs K m"
  by (simp add: keeps_def touches_def)

lemma touches_mono: "touches objs K m \<Longrightarrow> K \<subseteq> K' \<Longrightarrow> touches objs K' m"
  by (auto simp: touches_def)

lemma touches_bind [touches_intros]:
  "touches objs K m \<Longrightarrow> (\<And>x. touches objs K (f x)) \<Longrightarrow> touches objs K (act_bind m f)"
  unfolding touches_def act_bind_def
  by (intro allI impI, rename_tac w k, case_tac "m w") (auto split: sum.splits; metis snd_conv)

lemma touches_catch [touches_intros]:
  "touches objs K m \<Longrightarrow> (\<And>x. touches objs K (f x)) \<Longrightarrow> touches objs K (act_catch m f)"
  unfolding touches_def act_catch_def
  by (intro allI impI, rename_tac w k, case_tac "m w") (auto; metis snd_conv)

lemma touches_wrap [touches_intros]: "touches objs K m \<Longrightarrow> touches objs K (act_wrap g m)"
  unfolding touches_def act_wrap_def
  by (intro allI impI, rename_tac w k, case_tac "m w") (auto split: sum.splits; metis snd_conv)

text \<open>Objects that exist stay as they are.\<close>

definition preserves :: "('b \<Rightarrow> string \<rightharpoonup> string) \<Rightarrow> ('b, 'a) act \<Rightarrow> bool" where
  "preserves objs m \<longleftrightarrow>
     (\<forall>w k d. objs (w_bucket w) k = Some d \<longrightarrow> objs (w_bucket (after m w)) k = Some d)"

named_theorems preserves_intros \<open>actions under which every existing object stays as it is\<close>

lemma preservesD:
  "preserves objs m \<Longrightarrow> m w = (r, w') \<Longrightarrow> objs (w_bucket w) k = Some d
    \<Longrightarrow> objs (w_bucket w') k = Some d"
  by (metis preserves_def snd_conv)

lemma preserves_keeps: "keeps m \<Longrightarrow> preserves objs m"
  by (simp add: keeps_def preserves_def)

lemma preserves_bind [preserves_intros]:
  "preserves objs m \<Longrightarrow> (\<And>x. preserves objs (f x)) \<Longrightarrow> preserves objs (act_bind m f)"
  unfolding preserves_def act_bind_def
  by (intro allI impI, rename_tac w k d, case_tac "m w") (auto split: sum.splits; metis snd_conv)

lemma preserves_catch [preserves_intros]:
  "preserves objs m \<Longrightarrow> (\<And>x. preserves objs (f x)) \<Longrightarrow> preserves objs (act_catch m f)"
  unfolding preserves_def act_catch_def
  by (intro allI impI, rename_tac w k d, case_tac "m w") (auto; metis snd_conv)

lemma preserves_wrap [preserves_intros]: "preserves objs m \<Longrightarrow> preserves objs (act_wrap g m)"
  unfolding preserves_def act_wrap_def
  by (intro allI impI, rename_tac w k d, case_tac "m w") (auto split: sum.splits; metis snd_conv)

lemma preserves_if [preserves_intros]:
  "(c \<Longrightarrow> preserves objs m) \<Longrightarrow> (\<not> c \<Longrightarrow> preserves objs n) \<Longrightarrow> preserves objs (if c then m else n)"
  by simp

section \<open>The mutating primitives on a bucket\<close>

context blob_bucket
begin

lemma b_write_all_Inr:
  assumes "b_write_all s k d ine w = (Inr u, w')" "st_ops s = ops"
  shows "objs (w_bucket w') = (objs (w_bucket w))(k \<mapsto> d)" "ine \<Longrightarrow> objs (w_bucket w) k = None"
  using assms write_None
  by (force simp: b_write_all_def b_update_def split: prod.splits option.splits)+

lemma close_writer_Inr:
  assumes "close_writer s k d ine w = (Inr u, w')" "st_ops s = ops"
  shows "objs (w_bucket w') = (objs (w_bucket w))(k \<mapsto> d)" "ine \<Longrightarrow> objs (w_bucket w) k = None"
  using assms commit_None
  by (force simp: close_writer_def b_update_def split: prod.splits option.splits)+

lemma b_read_all_Inr:
  assumes "b_read_all s k w = (Inr d, w')" "st_ops s = ops"
  shows "objs (w_bucket w) k = Some d"
  using assms read_Inr by (auto simp: b_read_all_def b_query_def split: sum.splits)

lemma b_new_reader_Inr:
  assumes "b_new_reader s k w = (Inr (d, None), w')" "st_ops s = ops"
  shows "objs (w_bucket w) k = Some d"
  using assms reader_Inr by (auto simp: b_new_reader_def b_query_def split: sum.splits)

lemma b_exists_Inr:
  assumes "b_exists s k w = (Inr v, w')" "st_ops s = ops"
  shows "v \<longleftrightarrow> objs (w_bucket w) k \<noteq> None"
  using assms exists_Inr by (auto simp: b_exists_def b_query_def split: sum.splits)

lemma touches_prims [touches_intros]:
  assumes "st_ops s = ops"
  shows "k \<in> K \<Longrightarrow> touches objs K (b_write_all s k d ine)"
    "k \<in> K \<Longrightarrow> touches objs K (close_writer s k d ine)"
    "touches objs K (abort_writer s k d)"
    "k \<in> K \<Longrightarrow> touches objs K (b_delete s k)"
  unfolding touches_def b_write_all_def close_writer_def abort_writer_def b_delete_def
    b_update_bucket assms
  by (metis write_frame surjective_pairing, metis commit_frame surjective_pairing,
      simp add: abort_objs, metis delete_frame surjective_pairing)

lemma abort_writer_objs:
  assumes "abort_writer s k d w = (r, w')" "st_ops s = ops"
  shows "objs (w_bucket w') = objs (w_bucket w)"
  using assms abort_objs [of "w_bucket w" k d]
  by (auto simp: abort_writer_def b_update_def split: prod.splits option.splits)

lemma preserves_prims [preserves_intros]:
  assumes "st_ops s = ops"
  shows "preserves objs (b_write_all s k d True)"
    "preserves objs (close_writer s k d True)"
    "preserves objs (abort_writer s k d)"
  unfolding preserves_def b_write_all_def close_writer_def abort_writer_def
    b_update_bucket assms
  by (metis write_ine_keeps surjective_pairing, metis commit_ine_keeps surjective_pairing,
      simp add: abort_objs)

end

end
