(* ===== verification/Go_Url.thy ===== *)
theory Go_Url
  imports Prelude
begin

text \<open>
  The escaping functions of Go's \<open>net/url\<close> that the storage layer and the path codecs call:
  \<open>QueryEscape\<close>, \<open>QueryUnescape\<close> and \<open>PathUnescape\<close>.  The first flag of \<open>url_unescape\<close>
  selects query mode, where \<open>+\<close> stands for a space.  The locale \<open>segment_codec\<close> states what
  the bucket layout needs of a name encoder; \<open>Paths\<close> interprets it on the store's encoder.
\<close>

section \<open>Hexadecimal digits\<close>

definition hex_upper :: "nat \<Rightarrow> char" where
  "hex_upper n = (if n < 10 then char_of (48 + n) else char_of (55 + n))"

definition is_hex :: "char \<Rightarrow> bool" where
  "is_hex c =
     (let n = (of_char c :: nat)
      in (48 \<le> n \<and> n \<le> 57) \<or> (97 \<le> n \<and> n \<le> 102) \<or> (65 \<le> n \<and> n \<le> 70))"

definition unhex :: "char \<Rightarrow> nat" where
  "unhex c =
     (let n = (of_char c :: nat)
      in if 48 \<le> n \<and> n \<le> 57 then n - 48
         else if 97 \<le> n \<and> n \<le> 102 then n - 97 + 10
         else if 65 \<le> n \<and> n \<le> 70 then n - 65 + 10
         else 0)"

lemma of_char_hex_upper: "n < 16 \<Longrightarrow> (of_char (hex_upper n) :: nat) = (if n < 10 then 48 + n else 55 + n)"
  by (simp add: hex_upper_def)

lemma unhex_hex_upper [simp]: "n < 16 \<Longrightarrow> unhex (hex_upper n) = n"
  by (auto simp: unhex_def of_char_hex_upper Let_def)

lemma is_hex_hex_upper [simp]: "n < 16 \<Longrightarrow> is_hex (hex_upper n)"
  by (auto simp: is_hex_def of_char_hex_upper Let_def)

lemma of_char_less_256 [simp]: "(of_char c :: nat) < 256"
  by (cases c) (simp add: of_char_def)

lemma hex_byte_roundtrip [simp]:
  "char_of (16 * ((of_char c :: nat) div 16) + of_char c mod 16) = c"
  by (simp only: mult_div_mod_eq char_of_char)

section \<open>Escaping\<close>

definition unreserved :: "char \<Rightarrow> bool" where
  "unreserved c =
     (is_lower c \<or> is_upper c \<or> is_digit c \<or> c \<in> {CHR ''-'', CHR ''_'', CHR ''.'', CHR ''~''})"

definition escape_byte :: "char \<Rightarrow> string" where
  "escape_byte c =
     (if unreserved c then [c]
      else if c = CHR '' '' then ''+''
      else [CHR ''%'', hex_upper (of_char c div 16), hex_upper (of_char c mod 16)])"

definition query_escape :: "string \<Rightarrow> string" where
  "query_escape s = concat (map escape_byte s)"

fun url_unescape :: "bool \<Rightarrow> string \<Rightarrow> string option" where
  "url_unescape q [] = Some []"
| "url_unescape q (c # cs) =
     (if c = CHR ''%'' then
        (case cs of
           h # l # rest \<Rightarrow>
             (if is_hex h \<and> is_hex l
              then map_option (Cons (char_of (16 * unhex h + unhex l))) (url_unescape q rest)
              else None)
         | _ \<Rightarrow> None)
      else map_option (Cons (if q \<and> c = CHR ''+'' then CHR '' '' else c)) (url_unescape q cs))"

definition query_unescape :: "string \<Rightarrow> string option" where
  "query_unescape s = url_unescape True s"

definition path_unescape :: "string \<Rightarrow> string option" where
  "path_unescape s = url_unescape False s"

lemma unreserved_not_special:
  "unreserved c \<Longrightarrow> c \<noteq> CHR ''%'' \<and> c \<noteq> CHR ''+'' \<and> c \<noteq> CHR ''/''"
  by (auto simp: unreserved_def is_lower_def is_upper_def is_digit_def)

lemma unescape_escape_byte:
  "url_unescape True (escape_byte c @ t) = map_option (Cons c) (url_unescape True t)"
  using unreserved_not_special [of c]
  by (auto simp: escape_byte_def less_mult_imp_div_less)

lemma query_unescape_escape: "query_unescape (query_escape s) = Some s"
  unfolding query_unescape_def
  by (induction s) (simp_all add: query_escape_def unescape_escape_byte)

lemma path_unescape_plain:
  "CHR ''%'' \<notin> set s \<Longrightarrow> path_unescape s = Some s"
  unfolding path_unescape_def by (induction s) auto

lemma hex_upper_not_slash: "n < 16 \<Longrightarrow> hex_upper n \<noteq> CHR ''/''"
  using is_hex_hex_upper [of n] by (auto simp: is_hex_def Let_def)

lemma slash_notin_escape_byte: "CHR ''/'' \<notin> set (escape_byte c)"
proof -
  have "(of_char c :: nat) div 16 < 16"
    by (simp add: less_mult_imp_div_less)
  then show ?thesis
    using unreserved_not_special [of c] hex_upper_not_slash
    by (auto simp: escape_byte_def dest: sym)
qed

lemma slash_notin_query_escape: "CHR ''/'' \<notin> set (query_escape s)"
  by (simp add: query_escape_def slash_notin_escape_byte)

lemma escape_byte_nonempty [simp]: "escape_byte c \<noteq> []"
  by (simp add: escape_byte_def)

lemma query_escape_eq_Nil [simp]: "query_escape s = [] \<longleftrightarrow> s = []"
  by (cases s) (auto simp: query_escape_def)

lemma hd_escape_byte_dot: "hd (escape_byte c) = CHR ''.'' \<longleftrightarrow> c = CHR ''.''"
  by (auto simp: escape_byte_def unreserved_def)

lemma hd_query_escape_dot:
  "s \<noteq> [] \<Longrightarrow> hd (query_escape s) = CHR ''.'' \<longleftrightarrow> hd s = CHR ''.''"
  by (cases s) (auto simp: query_escape_def hd_append hd_escape_byte_dot)

section \<open>What the bucket layout needs of a name encoder\<close>

text \<open>
  \<open>enc\<close> renders a name as one bucket segment, \<open>dec\<close> reads a listed segment back, \<open>valid\<close> is
  the name check made before any name reaches the bucket.
\<close>

locale segment_codec =
  fixes enc :: "string \<Rightarrow> string"
    and dec :: "string \<Rightarrow> string"
    and valid :: "string \<Rightarrow> bool"
  assumes dec_enc: "dec (enc n) = n"
    and enc_no_slash: "CHR ''/'' \<notin> set (enc n)"
    and enc_nonempty: "valid n \<Longrightarrow> enc n \<noteq> []"
    and enc_no_dot: "valid n \<Longrightarrow> enc n \<noteq> CHR ''.'' # r"
begin

lemma enc_inj [simp]: "enc a = enc b \<longleftrightarrow> a = b"
  by (metis dec_enc)

lemma enc_dot_simps [simp]:
  "valid n \<Longrightarrow> enc n \<noteq> CHR ''.'' # r"
  "valid n \<Longrightarrow> CHR ''.'' # r \<noteq> enc n"
  using enc_no_dot [of n r] by auto

lemma enc_map_inj: "map enc xs = map enc ys \<longleftrightarrow> xs = ys"
  by (metis enc_inj inj_def inj_map_eq_map)

lemma enc_segment_unique:
  assumes "enc a @ CHR ''/'' # r = enc b @ CHR ''/'' # s"
  shows "a = b \<and> r = s"
proof -
  have "takeWhile (\<lambda>c. c \<noteq> CHR ''/'') (enc a @ CHR ''/'' # r)
      = takeWhile (\<lambda>c. c \<noteq> CHR ''/'') (enc b @ CHR ''/'' # s)"
    using assms by simp
  moreover have "takeWhile (\<lambda>c. c \<noteq> CHR ''/'') (enc n @ CHR ''/'' # t) = enc n" for n t
    using enc_no_slash [of n] by (subst takeWhile_append2) (auto dest: sym)
  ultimately have "enc a = enc b" by simp
  with assms show ?thesis by simp
qed

end

text \<open>\<open>hex.DecodeString\<close>.\<close>

fun hex_decode :: "string \<Rightarrow> string option" where
  "hex_decode [] = Some []"
| "hex_decode [c] = None"
| "hex_decode (a # b # cs) =
     (if is_hex a \<and> is_hex b
      then map_option (Cons (char_of (16 * unhex a + unhex b))) (hex_decode cs) else None)"

text \<open>\<open>url.PathEscape\<close>.\<close>

definition path_escape :: "string \<Rightarrow> string" where
  "path_escape s =
     concat (map (\<lambda>c. if unreserved c \<or> c \<in> set ''$&+:=@'' then [c]
       else [CHR ''%'', hex_upper (of_char c div 16), hex_upper (of_char c mod 16)]) s)"

end
