(* ===== verification/Paths.thy ===== *)
theory Paths
  imports Go_Url
begin

text \<open>
  The on-bucket path scheme, \<open>pkg/core/blobstore/paths.go\<close>: one function per Go function,
  building the same strings by the same concatenations.  \<open>store_object\<close> enumerates every
  kind of object the store owns under one scope and \<open>object_path\<close> gives its key; the lemmas
  show that the scheme separates all of them.
\<close>

section \<open>Constants and name validation\<close>

definition Root :: string where
  "Root = ''open-artifact/v1/''"

definition meta_name :: string where
  "meta_name = ''.meta''"

definition meta_file_prefix :: string where
  "meta_file_prefix = ''.meta.''"

definition tags_name :: string where
  "tags_name = ''.tags''"

definition cache_dir :: string where
  "cache_dir = ''.cache/''"

definition files_dir :: string where
  "files_dir = ''.files/''"

lemmas dir_names = meta_name_def meta_file_prefix_def tags_name_def cache_dir_def files_dir_def

definition scope_prefix :: "string \<Rightarrow> string" where
  "scope_prefix scope =
     (let scope = trim_byte CHR ''/'' scope
      in if scope = '''' then Root else Root @ scope @ ''/'')"

definition encode_segment :: "string \<Rightarrow> string" where
  "encode_segment name = query_escape name"

text \<open>\<open>None\<close> is the nil error.\<close>

definition validate_name :: "string \<Rightarrow> err option" where
  "validate_name name =
     (if name = '''' then Some ErrInvalidName
      else if has_prefix name ''.'' then Some ErrInvalidName
      else None)"

fun first_err :: "err option list \<Rightarrow> err option" where
  "first_err [] = None"
| "first_err (e # es) = (case e of Some x \<Rightarrow> Some x | None \<Rightarrow> first_err es)"

definition decode_segment :: "string \<Rightarrow> string" where
  "decode_segment seg = (case query_unescape seg of Some dec \<Rightarrow> dec | None \<Rightarrow> seg)"

definition is_dot_entry :: "string \<Rightarrow> bool" where
  "is_dot_entry name = has_prefix name ''.''"

section \<open>Paths of the records\<close>

definition package_prefix :: "string \<Rightarrow> string \<Rightarrow> string" where
  "package_prefix scope pkg = scope_prefix scope @ encode_segment pkg @ ''/''"

definition package_meta_path :: "string \<Rightarrow> string \<Rightarrow> string" where
  "package_meta_path scope pkg = package_prefix scope pkg @ meta_name"

definition package_tags_prefix :: "string \<Rightarrow> string \<Rightarrow> string" where
  "package_tags_prefix scope pkg = package_prefix scope pkg @ tags_name @ ''/''"

definition tag_path :: "string \<Rightarrow> string \<Rightarrow> string \<Rightarrow> string" where
  "tag_path scope pkg tag = package_tags_prefix scope pkg @ encode_segment tag"

definition files_prefix :: "string \<Rightarrow> string" where
  "files_prefix dir = dir @ files_dir"

definition level_file_path :: "string \<Rightarrow> string \<Rightarrow> string" where
  "level_file_path dir name = files_prefix dir @ encode_segment name"

definition level_file_meta_path :: "string \<Rightarrow> string \<Rightarrow> string" where
  "level_file_meta_path dir name = files_prefix dir @ meta_file_prefix @ encode_segment name"

definition store_file_path :: "string \<Rightarrow> string \<Rightarrow> string" where
  "store_file_path scope file = level_file_path (scope_prefix scope) file"

definition store_file_meta_path :: "string \<Rightarrow> string \<Rightarrow> string" where
  "store_file_meta_path scope file = level_file_meta_path (scope_prefix scope) file"

definition package_file_path :: "string \<Rightarrow> string \<Rightarrow> string \<Rightarrow> string" where
  "package_file_path scope pkg file = level_file_path (package_prefix scope pkg) file"

definition package_file_meta_path :: "string \<Rightarrow> string \<Rightarrow> string \<Rightarrow> string" where
  "package_file_meta_path scope pkg file = level_file_meta_path (package_prefix scope pkg) file"

definition version_prefix :: "string \<Rightarrow> string \<Rightarrow> string \<Rightarrow> string" where
  "version_prefix scope pkg version =
     package_prefix scope pkg @ encode_segment version @ ''/''"

definition version_meta_path :: "string \<Rightarrow> string \<Rightarrow> string \<Rightarrow> string" where
  "version_meta_path scope pkg version = version_prefix scope pkg version @ meta_name"

definition file_path :: "string \<Rightarrow> string \<Rightarrow> string \<Rightarrow> string \<Rightarrow> string" where
  "file_path scope pkg version file = level_file_path (version_prefix scope pkg version) file"

definition file_meta_path :: "string \<Rightarrow> string \<Rightarrow> string \<Rightarrow> string \<Rightarrow> string" where
  "file_meta_path scope pkg version file =
     level_file_meta_path (version_prefix scope pkg version) file"

definition cache_file_path :: "string \<Rightarrow> string \<Rightarrow> string" where
  "cache_file_path dir name = dir @ cache_dir @ encode_segment name"

definition cache_meta_path :: "string \<Rightarrow> string \<Rightarrow> string" where
  "cache_meta_path dir name = dir @ cache_dir @ meta_file_prefix @ encode_segment name"

lemmas path_defs =
  package_prefix_def package_meta_path_def package_tags_prefix_def tag_path_def
  files_prefix_def level_file_path_def level_file_meta_path_def store_file_path_def
  store_file_meta_path_def package_file_path_def package_file_meta_path_def
  version_prefix_def version_meta_path_def file_path_def file_meta_path_def
  cache_file_path_def cache_meta_path_def

section \<open>The store's encoder meets the layout's needs\<close>

abbreviation valid_name :: "string \<Rightarrow> bool" where
  "valid_name n \<equiv> validate_name n = None"

lemma valid_name_iff: "valid_name n \<longleftrightarrow> n \<noteq> [] \<and> hd n \<noteq> CHR ''.''"
  by (cases n) (auto simp: validate_name_def has_prefix_def)

interpretation seg: segment_codec encode_segment decode_segment "\<lambda>n. valid_name n"
proof (unfold_locales, goal_cases)
  case (1 n)
  show ?case by (simp add: decode_segment_def encode_segment_def query_unescape_escape)
next
  case (2 n)
  show ?case by (simp add: encode_segment_def slash_notin_query_escape)
next
  case (3 n)
  then show ?case by (simp add: encode_segment_def valid_name_iff)
next
  case (4 n r)
  then show ?case
    using hd_query_escape_dot [of n] by (auto simp: encode_segment_def valid_name_iff)
qed

section \<open>All objects of a scope\<close>

datatype store_object =
    StoreFile string | StoreFileMeta string
  | StoreCache string | StoreCacheMeta string
  | PackageMeta string
  | PackageTag string string
  | PackageFile string string | PackageFileMeta string string
  | PackageCache string string | PackageCacheMeta string string
  | VersionMeta string string
  | VersionFile string string string | VersionFileMeta string string string
  | VersionCache string string string | VersionCacheMeta string string string

fun object_path :: "string \<Rightarrow> store_object \<Rightarrow> string" where
  "object_path sc (StoreFile f) = store_file_path sc f"
| "object_path sc (StoreFileMeta f) = store_file_meta_path sc f"
| "object_path sc (StoreCache k) = cache_file_path (scope_prefix sc) k"
| "object_path sc (StoreCacheMeta k) = cache_meta_path (scope_prefix sc) k"
| "object_path sc (PackageMeta p) = package_meta_path sc p"
| "object_path sc (PackageTag p t) = tag_path sc p t"
| "object_path sc (PackageFile p f) = package_file_path sc p f"
| "object_path sc (PackageFileMeta p f) = package_file_meta_path sc p f"
| "object_path sc (PackageCache p k) = cache_file_path (package_prefix sc p) k"
| "object_path sc (PackageCacheMeta p k) = cache_meta_path (package_prefix sc p) k"
| "object_path sc (VersionMeta p v) = version_meta_path sc p v"
| "object_path sc (VersionFile p v f) = file_path sc p v f"
| "object_path sc (VersionFileMeta p v f) = file_meta_path sc p v f"
| "object_path sc (VersionCache p v k) = cache_file_path (version_prefix sc p v) k"
| "object_path sc (VersionCacheMeta p v k) = cache_meta_path (version_prefix sc p v) k"

fun object_names :: "store_object \<Rightarrow> string list" where
  "object_names (StoreFile f) = [f]"
| "object_names (StoreFileMeta f) = [f]"
| "object_names (StoreCache k) = [k]"
| "object_names (StoreCacheMeta k) = [k]"
| "object_names (PackageMeta p) = [p]"
| "object_names (PackageTag p t) = [p, t]"
| "object_names (PackageFile p f) = [p, f]"
| "object_names (PackageFileMeta p f) = [p, f]"
| "object_names (PackageCache p k) = [p, k]"
| "object_names (PackageCacheMeta p k) = [p, k]"
| "object_names (VersionMeta p v) = [p, v]"
| "object_names (VersionFile p v f) = [p, v, f]"
| "object_names (VersionFileMeta p v f) = [p, v, f]"
| "object_names (VersionCache p v k) = [p, v, k]"
| "object_names (VersionCacheMeta p v k) = [p, v, k]"

definition valid_object :: "store_object \<Rightarrow> bool" where
  "valid_object ob = list_all (\<lambda>n. valid_name n) (object_names ob)"

text \<open>The segments below the scope prefix.\<close>

fun object_segments :: "store_object \<Rightarrow> string list" where
  "object_segments (StoreFile f) = [''.files'', encode_segment f]"
| "object_segments (StoreFileMeta f) = [''.files'', ''.meta.'' @ encode_segment f]"
| "object_segments (StoreCache k) = [''.cache'', encode_segment k]"
| "object_segments (StoreCacheMeta k) = [''.cache'', ''.meta.'' @ encode_segment k]"
| "object_segments (PackageMeta p) = [encode_segment p, ''.meta'']"
| "object_segments (PackageTag p t) = [encode_segment p, ''.tags'', encode_segment t]"
| "object_segments (PackageFile p f) = [encode_segment p, ''.files'', encode_segment f]"
| "object_segments (PackageFileMeta p f) =
     [encode_segment p, ''.files'', ''.meta.'' @ encode_segment f]"
| "object_segments (PackageCache p k) = [encode_segment p, ''.cache'', encode_segment k]"
| "object_segments (PackageCacheMeta p k) =
     [encode_segment p, ''.cache'', ''.meta.'' @ encode_segment k]"
| "object_segments (VersionMeta p v) = [encode_segment p, encode_segment v, ''.meta'']"
| "object_segments (VersionFile p v f) =
     [encode_segment p, encode_segment v, ''.files'', encode_segment f]"
| "object_segments (VersionFileMeta p v f) =
     [encode_segment p, encode_segment v, ''.files'', ''.meta.'' @ encode_segment f]"
| "object_segments (VersionCache p v k) =
     [encode_segment p, encode_segment v, ''.cache'', encode_segment k]"
| "object_segments (VersionCacheMeta p v k) =
     [encode_segment p, encode_segment v, ''.cache'', ''.meta.'' @ encode_segment k]"

lemma object_path_segments:
  "object_path sc ob = scope_prefix sc @ join ''/'' (object_segments ob)"
  by (cases ob) (simp_all add: path_defs dir_names)

lemma object_segments_nonempty [simp]: "object_segments ob \<noteq> []"
  by (cases ob) simp_all

lemma object_segments_no_slash: "x \<in> set (object_segments ob) \<Longrightarrow> CHR ''/'' \<notin> set x"
  by (cases ob) (auto simp: seg.enc_no_slash)

lemma object_segments_inj:
  assumes "valid_object a" "valid_object b" "object_segments a = object_segments b"
  shows "a = b"
  using assms by (cases a; cases b) (auto simp: valid_object_def)

text \<open>No two records of a scope share an object.\<close>

lemma object_path_inj:
  assumes "valid_object a" "valid_object b" "object_path sc a = object_path sc b"
  shows "a = b"
proof -
  have "join ''/'' (object_segments a) = join ''/'' (object_segments b)"
    using assms(3) by (simp add: object_path_segments)
  then have "object_segments a = object_segments b"
    by (rule join_inj) (auto dest: object_segments_no_slash)
  with assms(1,2) show ?thesis by (rule object_segments_inj)
qed

section \<open>Properties\<close>

text \<open>C8: no two records of a scope share an object of the bucket: envelopes, tags, files,
  sidecars and cache entries of the store, of every package and of every version have pairwise
  distinct keys, for all valid names, whatever their characters.\<close>

theorem records_do_not_collide:
  assumes "valid_object a" "valid_object b" "a \<noteq> b"
  shows "object_path sc a \<noteq> object_path sc b"
  using object_path_inj [OF assms(1,2)] assms(3) by blast

theorem records_do_not_collide_witness:
  "object_path ''npm/n'' (PackageFile ''a/b'' ''c'') \<noteq> object_path ''npm/n'' (VersionFile ''a'' ''b'' ''c'')"
  by (rule records_do_not_collide) (simp_all add: valid_object_def valid_name_iff)

end
