(* ===== verification/Blob_Store.thy ===== *)
theory Blob_Store
  imports Blob_World Paths
begin

text \<open>
  The blob-backed store, \<open>store.go\<close>, \<open>tags.go\<close>, \<open>meta.go\<close> and the facade methods of \<open>cache.go\<close>
  in \<open>pkg/core/blobstore\<close>: handles and one action per method.  Readings of the store's clock
  are arguments.
\<close>

section \<open>Helpers of the store\<close>

definition new_with_bucket ::
  "'b store \<Rightarrow> 'b \<Rightarrow> 'b world" where
  "new_with_bucket s b =
     \<lparr>w_bucket = b,
      w_url = new_memo_cache 4096 (clamp_cache_ttl (st_url_ttl s)),
      w_stat = new_memo_cache 4096 (st_stat_ttl s),
      w_metrics = []\<rparr>"

definition authorize :: "'b store \<Rightarrow> bool \<Rightarrow> ('b, unit) act" where
  "authorize s write =
     (case st_guard s of None \<Rightarrow> act_ret () | Some g \<Rightarrow> act_check (g write))"

definition list_child_names :: "'b store \<Rightarrow> string \<Rightarrow> ('b, string list) act" where
  "list_child_names s pre w =
     (case bo_list (st_ops s) (w_bucket w) pre True of
        (es, Some c) \<Rightarrow>
          (Inl (map_err (ErrBackend c)), observe s ''list'' (Some (ErrBackend c)) w)
      | (es, None) \<Rightarrow>
          (let names = map (\<lambda>e. trim_suffix (trim_prefix (fst e) pre) ''/'') es
           in (Inr (sort (filter (\<lambda>n. \<not> (n = '''' \<or> is_dot_entry n)) names)),
               observe s ''list'' None w)))"

definition has_descendant :: "'b store \<Rightarrow> string \<Rightarrow> ('b, bool) act" where
  "has_descendant s pre w =
     (case bo_list (st_ops s) (w_bucket w) pre False of
        ([], None) \<Rightarrow> (Inr False, observe s ''list'' None w)
      | ([], Some c) \<Rightarrow>
          (Inl (map_err (ErrBackend c)), observe s ''list'' (Some (ErrBackend c)) w)
      | (e # es, r) \<Rightarrow> (Inr True, observe s ''list'' None w))"

definition encode_meta :: "'b store \<Rightarrow> meta \<Rightarrow> string res" where
  "encode_meta s m = st_encode s m"

definition decode_meta :: "'b store \<Rightarrow> string \<Rightarrow> meta res" where
  "decode_meta s b = (case st_decode s b of Inl e \<Rightarrow> Inl e | Inr m \<Rightarrow> Inr m)"

definition read_meta :: "'b store \<Rightarrow> string \<Rightarrow> ('b, meta) act" where
  "read_meta s path =
     act_bind (act_wrap map_err (b_read_all s path))
       (\<lambda>raw. case decode_meta s raw of Inl e \<Rightarrow> act_fail e | Inr m \<Rightarrow> act_ret m)"

definition write_meta :: "'b store \<Rightarrow> string \<Rightarrow> meta \<Rightarrow> bool \<Rightarrow> ('b, unit) act" where
  "write_meta s path m overwrite =
     (case encode_meta s m of
        Inl e \<Rightarrow> act_fail e
      | Inr b \<Rightarrow>
          act_wrap (if overwrite then map_err else map_create_err)
            (b_write_all s path b (\<not> overwrite)))"

definition upsert_annotations ::
  "'b store \<Rightarrow> int \<Rightarrow> string \<Rightarrow> annotations \<Rightarrow> ('b, unit) act" where
  "upsert_annotations s now path annotations =
     act_catch (read_meta s path)
       (\<lambda>r. case r of
          Inl e \<Rightarrow>
            (if e \<noteq> ErrNotFound then act_fail e
             else write_meta s path
                    (zero_meta\<lparr>m_created_at := now, m_updated_at := now,
                               m_annotations := annotations\<rparr>) True)
        | Inr m \<Rightarrow>
            (let m = (if m_created_at m = 0 then m\<lparr>m_created_at := now\<rparr> else m)
             in write_meta s path (m\<lparr>m_updated_at := now, m_annotations := annotations\<rparr>) True))"

definition digest_of :: "'b store \<Rightarrow> string \<Rightarrow> string" where
  "digest_of s data = ''sha256:'' @ hex_encode (st_sha256 s data)"

section \<open>The write path\<close>

text \<open>The first declared digest whose hash is not linked in.\<close>

fun make_verifiers ::
  "'b store \<Rightarrow> expected_digest list \<Rightarrow> (string \<times> (string \<Rightarrow> string) \<times> string) list option" where
  "make_verifiers s [] = Some []"
| "make_verifiers s (e # es) =
     (case st_hash s (ed_hash e) of
        None \<Rightarrow> None
      | Some h \<Rightarrow> map_option ((#) (digest_key (ed_hash e), h, ed_sum e)) (make_verifiers s es))"

text \<open>\<open>None\<close> is a mismatch; otherwise the computed digests, later entries winning.\<close>

fun verify_all ::
  "string \<Rightarrow> (string \<times> (string \<Rightarrow> string) \<times> string) list \<Rightarrow> (string \<times> string) list
    \<Rightarrow> (string \<times> string) list option" where
  "verify_all data [] digests = Some digests"
| "verify_all data ((key, h, want) # vs) digests =
     (if h data \<noteq> want then None
      else verify_all data vs (AList.update key (hex_encode (h data)) digests))"

text \<open>\<open>io.Copy\<close> into the open writer: a failure of the backend, or of the body.\<close>

definition stream_body :: "'b store \<Rightarrow> string \<Rightarrow> body \<Rightarrow> ('b, unit) act" where
  "stream_body s key body w =
     (case bo_write (st_ops s) (w_bucket w) key (bd_data body) of
        Some c \<Rightarrow> (Inl (ErrBackend c), w)
      | None \<Rightarrow> act_check (bd_err body) w)"

text \<open>Cancel the writer's context, close it, and return the error.\<close>

definition abort_with :: "'b store \<Rightarrow> string \<Rightarrow> body \<Rightarrow> err \<Rightarrow> ('b, 'a) act" where
  "abort_with s key body e = act_catch (abort_writer s key (bd_data body)) (\<lambda>_. act_fail e)"

definition commit_file ::
  "'b store \<Rightarrow> int \<Rightarrow> string \<Rightarrow> string \<Rightarrow> body \<Rightarrow> create_config \<Rightarrow> (string \<times> string) list
    \<Rightarrow> ('b, meta) act" where
  "commit_file s now blob_key meta_key body cfg digests =
     act_bind (act_wrap map_create_err
                 (close_writer s blob_key (bd_data body) (\<not> cc_allow_overwrite cfg)))
       (\<lambda>_.
          (let meta = \<lparr>m_digest = digest_of s (bd_data body), m_digests = digests,
                       m_size = int (length (bd_data body)),
                       m_created_at = now, m_updated_at = now,
                       m_annotations = cc_annotations cfg\<rparr>
           in act_bind (write_meta s meta_key meta True) (\<lambda>_. act_ret meta)))"

definition write_opened ::
  "'b store \<Rightarrow> int \<Rightarrow> string \<Rightarrow> string \<Rightarrow> body \<Rightarrow> create_config \<Rightarrow> ('b, meta) act" where
  "write_opened s now blob_key meta_key body cfg =
     (case make_verifiers s (cc_expected cfg) of
        None \<Rightarrow> abort_with s blob_key \<lparr>bd_data = '''', bd_err = None\<rparr> ErrUnsupported
      | Some vs \<Rightarrow>
          act_catch (stream_body s blob_key body)
            (\<lambda>r. case r of
               Inl e \<Rightarrow> abort_with s blob_key body (map_err e)
             | Inr _ \<Rightarrow>
                 (case verify_all (bd_data body) vs [] of
                    None \<Rightarrow> abort_with s blob_key body ErrDigestMismatch
                  | Some digests \<Rightarrow> commit_file s now blob_key meta_key body cfg digests)))"

definition write_file ::
  "'b store \<Rightarrow> int \<Rightarrow> string \<Rightarrow> string \<Rightarrow> body \<Rightarrow> create_config \<Rightarrow> ('b, meta) act" where
  "write_file s now blob_key meta_key body cfg =
     act_bind
       (if cc_allow_overwrite cfg then act_ret ()
        else act_bind (act_wrap map_err (b_exists s blob_key))
               (\<lambda>ex. if ex then act_fail ErrAlreadyExists else act_ret ()))
       (\<lambda>_. act_bind
          (act_wrap map_err (b_new_writer s blob_key (\<not> cc_allow_overwrite cfg)))
          (\<lambda>_. write_opened s now blob_key meta_key body cfg))"

section \<open>Handles\<close>

record pkg =
  p_name :: string
  p_err :: "err option"

record version =
  v_pkg :: pkg
  v_name :: string
  v_err :: "err option"

record file_handle =
  f_name :: string
  f_blob_key :: string
  f_meta_key :: string
  f_pkg :: "pkg option"
  f_version :: "version option"
  f_err :: "err option"

record tag =
  t_pkg :: pkg
  t_name :: string
  t_err :: "err option"

definition store_package :: "string \<Rightarrow> pkg" where
  "store_package name = \<lparr>p_name = name, p_err = validate_name name\<rparr>"

definition pkg_version :: "pkg \<Rightarrow> string \<Rightarrow> version" where
  "pkg_version p name =
     \<lparr>v_pkg = p, v_name = name, v_err = first_err [p_err p, validate_name name]\<rparr>"

definition pkg_tag :: "pkg \<Rightarrow> string \<Rightarrow> tag" where
  "pkg_tag p name =
     \<lparr>t_pkg = p, t_name = name, t_err = first_err [p_err p, validate_name name]\<rparr>"

definition new_store_file :: "'b store \<Rightarrow> string \<Rightarrow> file_handle" where
  "new_store_file s name =
     \<lparr>f_name = name, f_blob_key = store_file_path (st_scope s) name,
      f_meta_key = store_file_meta_path (st_scope s) name,
      f_pkg = None, f_version = None, f_err = validate_name name\<rparr>"

definition new_package_file :: "'b store \<Rightarrow> pkg \<Rightarrow> string \<Rightarrow> file_handle" where
  "new_package_file s p name =
     \<lparr>f_name = name, f_blob_key = package_file_path (st_scope s) (p_name p) name,
      f_meta_key = package_file_meta_path (st_scope s) (p_name p) name,
      f_pkg = Some p, f_version = None, f_err = first_err [p_err p, validate_name name]\<rparr>"

definition new_file :: "'b store \<Rightarrow> version \<Rightarrow> string \<Rightarrow> file_handle" where
  "new_file s v name =
     \<lparr>f_name = name,
      f_blob_key = file_path (st_scope s) (p_name (v_pkg v)) (v_name v) name,
      f_meta_key = file_meta_path (st_scope s) (p_name (v_pkg v)) (v_name v) name,
      f_pkg = Some (v_pkg v), f_version = Some v,
      f_err = first_err [v_err v, validate_name name]\<rparr>"

definition new_cache_file :: "string \<Rightarrow> string \<Rightarrow> err option \<Rightarrow> file_handle" where
  "new_cache_file dir key parent_err =
     \<lparr>f_name = key, f_blob_key = cache_file_path dir key, f_meta_key = cache_meta_path dir key,
      f_pkg = None, f_version = None, f_err = first_err [parent_err, validate_name key]\<rparr>"

text \<open>The opening of every method: the handle's name error, then the guard.\<close>

definition enter :: "'b store \<Rightarrow> err option \<Rightarrow> bool \<Rightarrow> ('b, 'a) act \<Rightarrow> ('b, 'a) act" where
  "enter s name_err write m =
     act_bind (act_check name_err) (\<lambda>_. act_bind (authorize s write) (\<lambda>_. m))"

section \<open>The store's methods\<close>

definition store_packages :: "'b store \<Rightarrow> ('b, pkg list) act" where
  "store_packages s =
     enter s None False
       (act_bind (list_child_names s (scope_prefix (st_scope s)))
          (\<lambda>names. act_ret (map (\<lambda>n. \<lparr>p_name = decode_segment n, p_err = None\<rparr>) names)))"

definition add_package ::
  "'b store \<Rightarrow> int \<Rightarrow> string \<Rightarrow> create_option list \<Rightarrow> ('b, pkg) act" where
  "add_package s now name opts =
     enter s (validate_name name) True
       (let cfg = new_create_config opts;
            meta = zero_meta\<lparr>m_created_at := now, m_updated_at := now,
                              m_annotations := cc_annotations cfg\<rparr>
        in act_bind
             (write_meta s (package_meta_path (st_scope s) name) meta (cc_allow_overwrite cfg))
             (\<lambda>_. act_ret \<lparr>p_name = name, p_err = None\<rparr>))"

definition store_files :: "'b store \<Rightarrow> ('b, file_handle list) act" where
  "store_files s =
     enter s None False
       (act_bind (list_child_names s (files_prefix (scope_prefix (st_scope s))))
          (\<lambda>names. act_ret (map (\<lambda>n. new_store_file s (decode_segment n)) names)))"

text \<open>The three levels' \<open>AddFile\<close> run the same body on their handle.\<close>

definition add_file_at ::
  "'b store \<Rightarrow> int \<Rightarrow> file_handle \<Rightarrow> body \<Rightarrow> create_option list \<Rightarrow> ('b, file_handle) act" where
  "add_file_at s now f body opts =
     enter s (f_err f) True
       (act_bind
          (write_file s now (f_blob_key f) (f_meta_key f) body (new_create_config opts))
          (\<lambda>_. act_ret f))"

definition store_add_file ::
  "'b store \<Rightarrow> int \<Rightarrow> string \<Rightarrow> body \<Rightarrow> create_option list \<Rightarrow> ('b, file_handle) act" where
  "store_add_file s now name body opts = add_file_at s now (new_store_file s name) body opts"

definition add_cache ::
  "'b store \<Rightarrow> int \<Rightarrow> string \<Rightarrow> string \<Rightarrow> err option \<Rightarrow> body \<Rightarrow> ('b, file_handle) act" where
  "add_cache s now dir key parent_err body =
     (let f = new_cache_file dir key parent_err
      in enter s (f_err f) False
           (act_bind
              (write_file s now (f_blob_key f) (f_meta_key f) body
                 (empty_config\<lparr>cc_allow_overwrite := True\<rparr>))
              (\<lambda>_. act_ret f)))"

definition store_cache :: "'b store \<Rightarrow> string \<Rightarrow> file_handle" where
  "store_cache s key = new_cache_file (scope_prefix (st_scope s)) key None"

definition store_add_cache :: "'b store \<Rightarrow> int \<Rightarrow> string \<Rightarrow> body \<Rightarrow> ('b, file_handle) act" where
  "store_add_cache s now key body = add_cache s now (scope_prefix (st_scope s)) key None body"

section \<open>Packages\<close>

definition pkg_meta :: "'b store \<Rightarrow> pkg \<Rightarrow> ('b, meta) act" where
  "pkg_meta s p =
     enter s (p_err p) False (read_meta s (package_meta_path (st_scope s) (p_name p)))"

definition probe :: "'b store \<Rightarrow> string \<Rightarrow> ('b, bool) act" where
  "probe s path = act_wrap map_err (b_exists s path)"

definition pkg_exists :: "'b store \<Rightarrow> pkg \<Rightarrow> ('b, bool) act" where
  "pkg_exists s p =
     enter s (p_err p) False
       (act_bind (probe s (package_meta_path (st_scope s) (p_name p)))
          (\<lambda>ok. if ok then act_ret True
                else has_descendant s (package_prefix (st_scope s) (p_name p))))"

definition pkg_annotate :: "'b store \<Rightarrow> int \<Rightarrow> pkg \<Rightarrow> annotations \<Rightarrow> ('b, unit) act" where
  "pkg_annotate s now p annotations =
     enter s (p_err p) True
       (upsert_annotations s now (package_meta_path (st_scope s) (p_name p)) annotations)"

definition pkg_versions :: "'b store \<Rightarrow> pkg \<Rightarrow> ('b, version list) act" where
  "pkg_versions s p =
     enter s (p_err p) False
       (act_bind (list_child_names s (package_prefix (st_scope s) (p_name p)))
          (\<lambda>names. act_ret
             (map (\<lambda>n. \<lparr>v_pkg = p, v_name = decode_segment n, v_err = None\<rparr>) names)))"

definition pkg_add_version ::
  "'b store \<Rightarrow> int \<Rightarrow> pkg \<Rightarrow> string \<Rightarrow> create_option list \<Rightarrow> ('b, version) act" where
  "pkg_add_version s now p name opts =
     enter s (first_err [p_err p, validate_name name]) True
       (let cfg = new_create_config opts;
            meta = zero_meta\<lparr>m_created_at := now, m_updated_at := now,
                              m_annotations := cc_annotations cfg\<rparr>
        in act_bind
             (write_meta s (version_meta_path (st_scope s) (p_name p) name) meta
                (cc_allow_overwrite cfg))
             (\<lambda>_. act_ret \<lparr>v_pkg = p, v_name = name, v_err = None\<rparr>))"

definition pkg_files :: "'b store \<Rightarrow> pkg \<Rightarrow> ('b, file_handle list) act" where
  "pkg_files s p =
     enter s (p_err p) False
       (act_bind (list_child_names s (files_prefix (package_prefix (st_scope s) (p_name p))))
          (\<lambda>names. act_ret (map (\<lambda>n. new_package_file s p (decode_segment n)) names)))"

definition pkg_add_file ::
  "'b store \<Rightarrow> int \<Rightarrow> pkg \<Rightarrow> string \<Rightarrow> body \<Rightarrow> create_option list \<Rightarrow> ('b, file_handle) act" where
  "pkg_add_file s now p name body opts = add_file_at s now (new_package_file s p name) body opts"

definition pkg_cache :: "'b store \<Rightarrow> pkg \<Rightarrow> string \<Rightarrow> file_handle" where
  "pkg_cache s p key = new_cache_file (package_prefix (st_scope s) (p_name p)) key (p_err p)"

definition pkg_add_cache ::
  "'b store \<Rightarrow> int \<Rightarrow> pkg \<Rightarrow> string \<Rightarrow> body \<Rightarrow> ('b, file_handle) act" where
  "pkg_add_cache s now p key body =
     add_cache s now (package_prefix (st_scope s) (p_name p)) key (p_err p) body"

section \<open>Tags\<close>

definition read_tag_target :: "'b store \<Rightarrow> string \<Rightarrow> string \<Rightarrow> ('b, string) act" where
  "read_tag_target s pkg tag =
     act_bind (act_wrap map_err (b_read_all s (tag_path (st_scope s) pkg tag)))
       (\<lambda>raw. act_ret (trim_space raw))"

definition write_tag_target ::
  "'b store \<Rightarrow> string \<Rightarrow> string \<Rightarrow> string \<Rightarrow> ('b, unit) act" where
  "write_tag_target s pkg tag target =
     act_wrap map_err (b_write_all s (tag_path (st_scope s) pkg tag) target False)"

definition pkg_tags :: "'b store \<Rightarrow> pkg \<Rightarrow> ('b, tag list) act" where
  "pkg_tags s p =
     enter s (p_err p) False
       (act_bind (list_child_names s (package_tags_prefix (st_scope s) (p_name p)))
          (\<lambda>names. act_ret
             (map (\<lambda>n. \<lparr>t_pkg = p, t_name = decode_segment n, t_err = None\<rparr>) names)))"

text \<open>
  The per-tag goroutines of \<open>TagTargets\<close>, in the order in which they finish: every tag is read,
  the first error is kept, the others are recorded under the mutex.
\<close>

fun collect_targets ::
  "'b store \<Rightarrow> string \<Rightarrow> string list \<Rightarrow> err option \<Rightarrow> (string \<times> string) list
    \<Rightarrow> ('b, (string \<times> string) list) act" where
  "collect_targets s pkg [] first out =
     (case first of Some e \<Rightarrow> act_fail e | None \<Rightarrow> act_ret out)"
| "collect_targets s pkg (n # ns) first out =
     act_catch (read_tag_target s pkg (decode_segment n))
       (\<lambda>r. case r of
          Inl e \<Rightarrow>
            collect_targets s pkg ns (case first of None \<Rightarrow> Some e | Some e0 \<Rightarrow> Some e0) out
        | Inr target \<Rightarrow> collect_targets s pkg ns first (AList.update (decode_segment n) target out))"

definition pkg_tag_targets ::
  "'b store \<Rightarrow> (string list \<Rightarrow> string list) \<Rightarrow> pkg \<Rightarrow> ('b, (string \<times> string) list) act" where
  "pkg_tag_targets s finish p =
     enter s (p_err p) False
       (act_bind (list_child_names s (package_tags_prefix (st_scope s) (p_name p)))
          (\<lambda>names. collect_targets s (p_name p) (finish names) None []))"

definition pkg_set_tag :: "'b store \<Rightarrow> pkg \<Rightarrow> string \<Rightarrow> string \<Rightarrow> ('b, unit) act" where
  "pkg_set_tag s p name target =
     enter s (first_err [p_err p, validate_name name, validate_name target]) True
       (write_tag_target s (p_name p) name target)"

definition tag_ref :: "'b store \<Rightarrow> tag \<Rightarrow> ('b, version) act" where
  "tag_ref s t =
     enter s (t_err t) False
       (act_bind (read_tag_target s (p_name (t_pkg t)) (t_name t))
          (\<lambda>target. act_ret \<lparr>v_pkg = t_pkg t, v_name = target, v_err = None\<rparr>))"

definition tag_exists :: "'b store \<Rightarrow> tag \<Rightarrow> ('b, bool) act" where
  "tag_exists s t =
     enter s (t_err t) False (probe s (tag_path (st_scope s) (p_name (t_pkg t)) (t_name t)))"

section \<open>Versions\<close>

definition version_meta :: "'b store \<Rightarrow> version \<Rightarrow> ('b, meta) act" where
  "version_meta s v =
     enter s (v_err v) False
       (read_meta s (version_meta_path (st_scope s) (p_name (v_pkg v)) (v_name v)))"

definition version_exists :: "'b store \<Rightarrow> version \<Rightarrow> ('b, bool) act" where
  "version_exists s v =
     enter s (v_err v) False
       (act_bind (probe s (version_meta_path (st_scope s) (p_name (v_pkg v)) (v_name v)))
          (\<lambda>ok. if ok then act_ret True
                else has_descendant s
                       (version_prefix (st_scope s) (p_name (v_pkg v)) (v_name v))))"

definition version_annotate ::
  "'b store \<Rightarrow> int \<Rightarrow> version \<Rightarrow> annotations \<Rightarrow> ('b, unit) act" where
  "version_annotate s now v annotations =
     enter s (v_err v) True
       (upsert_annotations s now
          (version_meta_path (st_scope s) (p_name (v_pkg v)) (v_name v)) annotations)"

definition version_cache :: "'b store \<Rightarrow> version \<Rightarrow> string \<Rightarrow> file_handle" where
  "version_cache s v key =
     new_cache_file (version_prefix (st_scope s) (p_name (v_pkg v)) (v_name v)) key (v_err v)"

definition version_add_cache ::
  "'b store \<Rightarrow> int \<Rightarrow> version \<Rightarrow> string \<Rightarrow> body \<Rightarrow> ('b, file_handle) act" where
  "version_add_cache s now v key body =
     add_cache s now (version_prefix (st_scope s) (p_name (v_pkg v)) (v_name v)) key (v_err v)
       body"

definition version_files :: "'b store \<Rightarrow> version \<Rightarrow> ('b, file_handle list) act" where
  "version_files s v =
     enter s (v_err v) False
       (act_bind
          (list_child_names s
             (files_prefix (version_prefix (st_scope s) (p_name (v_pkg v)) (v_name v))))
          (\<lambda>names. act_ret (map (\<lambda>n. new_file s v (decode_segment n)) names)))"

definition version_add_file ::
  "'b store \<Rightarrow> int \<Rightarrow> version \<Rightarrow> string \<Rightarrow> body \<Rightarrow> create_option list \<Rightarrow> ('b, file_handle) act" where
  "version_add_file s now v name body opts = add_file_at s now (new_file s v name) body opts"

section \<open>Files\<close>

definition file_exists :: "'b store \<Rightarrow> file_handle \<Rightarrow> ('b, bool) act" where
  "file_exists s f = enter s (f_err f) False (probe s (f_blob_key f))"

text \<open>\<open>t1\<close>, \<open>t2\<close>, \<open>t3\<close> are the clock readings of \<open>getOrCompute\<close>.\<close>

definition attributes :: "'b store \<Rightarrow> int \<Rightarrow> int \<Rightarrow> int \<Rightarrow> string \<Rightarrow> ('b, attrs) act" where
  "attributes s t1 t2 t3 key w =
     (case get_or_compute t1 t2 t3 key
             (act_wrap map_err
                (b_query s ''attributes'' (\<lambda>b. bo_attributes (st_ops s) b key)))
             w (w_stat w) of
        (r, w1, c) \<Rightarrow> (r, w1\<lparr>w_stat := c\<rparr>))"

definition hash_blob :: "'b store \<Rightarrow> string \<Rightarrow> ('b, string) act" where
  "hash_blob s key =
     act_bind (act_wrap map_err (b_new_reader s key))
       (\<lambda>(data, e). case e of
          Some c \<Rightarrow> act_fail (map_err (ErrBackend c))
        | None \<Rightarrow> act_ret (digest_of s data))"

definition recompute_meta :: "'b store \<Rightarrow> int \<Rightarrow> int \<Rightarrow> int \<Rightarrow> file_handle \<Rightarrow> ('b, meta) act" where
  "recompute_meta s t1 t2 t3 f =
     act_bind (attributes s t1 t2 t3 (f_blob_key f))
       (\<lambda>a. act_bind (hash_blob s (f_blob_key f))
          (\<lambda>d. act_ret (zero_meta\<lparr>m_digest := d, m_size := a_size a,
                                   m_updated_at := a_mod_time a\<rparr>)))"

definition file_meta :: "'b store \<Rightarrow> int \<Rightarrow> int \<Rightarrow> int \<Rightarrow> file_handle \<Rightarrow> ('b, meta) act" where
  "file_meta s t1 t2 t3 f =
     enter s (f_err f) False
       (act_catch (b_read_all s (f_meta_key f))
          (\<lambda>r. case r of
             Inr raw \<Rightarrow>
               (case decode_meta s raw of
                  Inr m \<Rightarrow> act_ret m
                | Inl _ \<Rightarrow> recompute_meta s t1 t2 t3 f)
           | Inl e \<Rightarrow>
               (if gc_code e \<noteq> GcNotFound then act_fail (map_err e)
                else recompute_meta s t1 t2 t3 f)))"

text \<open>The reader \<open>Read\<close> returns: the bytes it delivers and the error it then reports.\<close>

definition file_read :: "'b store \<Rightarrow> file_handle \<Rightarrow> ('b, string \<times> gccode option) act" where
  "file_read s f = enter s (f_err f) False (act_wrap map_err (b_new_reader s (f_blob_key f)))"

definition sign_url :: "'b store \<Rightarrow> string \<Rightarrow> ('b, string) act" where
  "sign_url s key =
     act_catch (b_query s ''signed_url'' (\<lambda>b. bo_signed_url (st_ops s) b key (st_url_ttl s)))
       (\<lambda>r. case r of
          Inr u \<Rightarrow> act_ret u
        | Inl e \<Rightarrow> (if gc_code e = GcUnimplemented then act_ret '''' else act_fail (map_err e)))"

definition download_url :: "'b store \<Rightarrow> int \<Rightarrow> int \<Rightarrow> int \<Rightarrow> file_handle \<Rightarrow> ('b, string) act" where
  "download_url s t1 t2 t3 f =
     enter s (f_err f) False
       (\<lambda>w. case get_or_compute t1 t2 t3 (f_blob_key f) (sign_url s (f_blob_key f)) w (w_url w) of
              (r, w1, c) \<Rightarrow>
                (r, redirect s
                      (case r of
                         Inl e \<Rightarrow> ''error''
                       | Inr u \<Rightarrow> (if u = '''' then ''inline'' else ''redirected''))
                      (w1\<lparr>w_url := c\<rparr>)))"

fun delete_keys :: "'b store \<Rightarrow> string list \<Rightarrow> ('b, unit) act" where
  "delete_keys s [] = act_ret ()"
| "delete_keys s (k # ks) =
     act_catch (b_delete s k)
       (\<lambda>r. case r of
          Inl e \<Rightarrow>
            (if gc_code e \<noteq> GcNotFound then act_fail (map_err e) else delete_keys s ks)
        | Inr _ \<Rightarrow> delete_keys s ks)"

definition file_delete :: "'b store \<Rightarrow> file_handle \<Rightarrow> ('b, unit) act" where
  "file_delete s f = enter s (f_err f) False (delete_keys s [f_blob_key f, f_meta_key f])"

end
