(* ===== verification/Blob_Laws.thy ===== *)
theory Blob_Laws
  imports Blob_Store
begin

text \<open>
  What the store promises: every method is guarded and validates its names before it reaches
  the bucket, reads leave the bucket alone, a write touches only the objects of its record, an
  upload that fails verification leaves nothing, and what was written is read back.
\<close>

section \<open>Entering a method\<close>

lemma enter_bad_name [simp]: "enter s (Some e) wr m w = (Inl e, w)"
  by (simp add: enter_def act_bind_def act_fail_def)

lemma enter_Inr:
  assumes "enter s e wr m w = (Inr x, w')"
  shows "e = None" "m w = (Inr x, w')"
  using assms
  by (cases e; cases "st_guard s";
      fastforce simp: enter_def authorize_def act_bind_def act_fail_def act_ret_def
        split: prod.splits sum.splits elim: act_check.elims)+

lemma enter_denied:
  "st_guard s = Some g \<Longrightarrow> g wr = Some e \<Longrightarrow> enter s None wr m w = (Inl e, w)"
  by (simp add: enter_def authorize_def act_bind_def act_fail_def act_ret_def)

lemma enter_allowed:
  "st_guard s = None \<or> (\<exists>g. st_guard s = Some g \<and> g wr = None) \<Longrightarrow> enter s None wr m = m"
  by (auto simp: enter_def authorize_def act_bind_def act_ret_def fun_eq_iff)

lemma keeps_authorize [keeps_intros]: "keeps (authorize s wr)"
  by (cases "st_guard s") (simp_all add: authorize_def keeps_intros)

lemma keeps_enter [keeps_intros]: "keeps m \<Longrightarrow> keeps (enter s e wr m)"
  by (simp add: enter_def keeps_intros)

lemma touches_enter [touches_intros]:
  "touches objs K m \<Longrightarrow> touches objs K (enter s e wr m)"
  unfolding enter_def by (intro touches_bind touches_keeps [OF keeps_check] touches_keeps [OF keeps_authorize])

lemma preserves_enter [preserves_intros]:
  "preserves objs m \<Longrightarrow> preserves objs (enter s e wr m)"
  unfolding enter_def by (intro preserves_bind preserves_keeps [OF keeps_check] preserves_keeps [OF keeps_authorize])

section \<open>Reads leave the bucket alone\<close>

lemma keeps_list_child_names [keeps_intros]: "keeps (list_child_names s p)"
  by (auto simp: keeps_def list_child_names_def Let_def split: prod.splits option.splits)

lemma keeps_has_descendant [keeps_intros]: "keeps (has_descendant s p)"
  by (auto simp: keeps_def has_descendant_def split: prod.splits option.splits list.splits)

lemma keeps_sum_case [keeps_intros]:
  "(\<And>a. r = Inl a \<Longrightarrow> keeps (f a)) \<Longrightarrow> (\<And>b. r = Inr b \<Longrightarrow> keeps (g b))
    \<Longrightarrow> keeps (case r of Inl a \<Rightarrow> f a | Inr b \<Rightarrow> g b)"
  by (cases r) auto

lemma keeps_option_case [keeps_intros]:
  "keeps f \<Longrightarrow> (\<And>b. keeps (g b)) \<Longrightarrow> keeps (case r of None \<Rightarrow> f | Some b \<Rightarrow> g b)"
  by (cases r) auto

lemma keeps_prod_case [keeps_intros]:
  "(\<And>a b. keeps (f a b)) \<Longrightarrow> keeps (case r of (a, b) \<Rightarrow> f a b)"
  by (cases r) auto

lemma keeps_read_meta [keeps_intros]: "keeps (read_meta s p)"
  unfolding read_meta_def by (intro keeps_intros)

lemma get_or_compute_keeps:
  assumes "get_or_compute t1 t2 t3 k m w c = (r, w1, c')" "keeps m"
  shows "w_bucket w1 = w_bucket w"
  using assms keepsD [of m w]
  by (auto simp: get_or_compute_def split: prod.splits option.splits sum.splits)

lemma keeps_attributes [keeps_intros]: "keeps (attributes s t1 t2 t3 k)"
  unfolding keeps_def attributes_def
  by (auto split: prod.splits dest!: get_or_compute_keeps intro!: keeps_intros)

lemma keeps_hash_blob [keeps_intros]: "keeps (hash_blob s k)"
  unfolding hash_blob_def by (intro keeps_intros)

lemma keeps_recompute_meta [keeps_intros]: "keeps (recompute_meta s t1 t2 t3 f)"
  unfolding recompute_meta_def by (intro keeps_intros)

lemma keeps_sign_url [keeps_intros]: "keeps (sign_url s k)"
  unfolding sign_url_def by (intro keeps_intros)

lemma keeps_read_tag_target [keeps_intros]: "keeps (read_tag_target s p t)"
  unfolding read_tag_target_def by (intro keeps_intros)

lemma keeps_collect_targets [keeps_intros]: "keeps (collect_targets s p ns first out)"
  by (induction ns arbitrary: first out) (auto intro!: keeps_intros)

lemma keeps_probe [keeps_intros]: "keeps (probe s p)"
  unfolding probe_def by (intro keeps_intros)

lemma keeps_download_url [keeps_intros]: "keeps (download_url s t1 t2 t3 f)"
  unfolding download_url_def
  by (intro keeps_enter)
    (auto simp: keeps_def split: prod.splits dest!: get_or_compute_keeps intro!: keeps_sign_url)

lemmas read_method_defs =
  store_packages_def store_files_def pkg_meta_def pkg_exists_def pkg_versions_def pkg_files_def
  pkg_tags_def pkg_tag_targets_def tag_ref_def tag_exists_def version_meta_def
  version_exists_def version_files_def file_exists_def file_meta_def file_read_def

lemma keeps_read_methods [keeps_intros]:
  "keeps (store_packages s)" "keeps (store_files s)" "keeps (pkg_meta s p)"
  "keeps (pkg_exists s p)" "keeps (pkg_versions s p)" "keeps (pkg_files s p)"
  "keeps (pkg_tags s p)" "keeps (pkg_tag_targets s fin p)" "keeps (tag_ref s t)"
  "keeps (tag_exists s t)" "keeps (version_meta s v)" "keeps (version_exists s v)"
  "keeps (version_files s v)" "keeps (file_exists s f)" "keeps (file_meta s t1 t2 t3 f)"
  "keeps (file_read s f)"
  unfolding read_method_defs by (intro keeps_intros)+

section \<open>What a write touches\<close>

lemma touches_const [touches_intros]:
  "touches objs K (act_ret x)" "touches objs K (act_fail e)" "touches objs K (act_check c)"
  by (simp_all add: touches_keeps keeps_intros)

lemma keeps_probe_free:
  "keeps (if c then act_ret () else act_bind (act_wrap g (b_exists s k))
            (\<lambda>ex. if ex then act_fail e else act_ret ()))"
  by (intro keeps_intros)

context blob_bucket
begin

lemma touches_write_meta [touches_intros]:
  "st_ops s = ops \<Longrightarrow> p \<in> K \<Longrightarrow> touches objs K (write_meta s p m ov)"
  by (cases "encode_meta s m") (simp_all add: write_meta_def touches_intros touches_const)

lemma touches_upsert [touches_intros]:
  "st_ops s = ops \<Longrightarrow> p \<in> K \<Longrightarrow> touches objs K (upsert_annotations s now p a)"
  unfolding upsert_annotations_def
  by (intro touches_catch touches_keeps [OF keeps_read_meta])
    (simp add: Let_def touches_write_meta touches_const split: sum.split)

lemma touches_abort_with [touches_intros]:
  "st_ops s = ops \<Longrightarrow> touches objs K (abort_with s k b e)"
  unfolding abort_with_def by (intro touches_catch touches_prims touches_const)

lemma keeps_stream [keeps_intros]: "keeps (stream_body s k b)"
  by (cases "bd_err b")
    (auto simp: keeps_def stream_body_def act_ret_def act_fail_def split: option.splits)

lemma touches_commit_file [touches_intros]:
  "st_ops s = ops \<Longrightarrow> bk \<in> K \<Longrightarrow> mk \<in> K \<Longrightarrow> touches objs K (commit_file s now bk mk b cfg ds)"
  unfolding commit_file_def Let_def
  by (intro touches_bind touches_wrap touches_prims touches_write_meta touches_const) simp_all

lemma touches_write_opened [touches_intros]:
  "st_ops s = ops \<Longrightarrow> bk \<in> K \<Longrightarrow> mk \<in> K \<Longrightarrow> touches objs K (write_opened s now bk mk b cfg)"
  unfolding write_opened_def
  by (simp add: touches_catch touches_abort_with touches_commit_file touches_keeps [OF keeps_stream]
      split: option.split sum.split)

lemma touches_write_file [touches_intros]:
  "st_ops s = ops \<Longrightarrow> bk \<in> K \<Longrightarrow> mk \<in> K \<Longrightarrow> touches objs K (write_file s now bk mk b cfg)"
  unfolding write_file_def
  by (intro touches_bind touches_write_opened touches_keeps [OF keeps_wrap [OF keeps_prims(4)]]
      touches_keeps [OF keeps_probe_free])

lemma touches_delete_keys [touches_intros]:
  "st_ops s = ops \<Longrightarrow> set ks \<subseteq> K \<Longrightarrow> touches objs K (delete_keys s ks)"
  by (induction ks)
    (simp_all add: touches_catch touches_prims touches_const split: sum.split)

section \<open>The write path\<close>

text \<open>A create (no overwrite) keeps every object but the sidecar.\<close>

lemma stream_body_Inr:
  assumes "stream_body s k b w = (Inr u, w')"
  shows "bd_err b = None" "w' = w"
  using assms by (auto simp: stream_body_def split: option.splits)

lemma write_meta_Inr:
  assumes "write_meta s p m ov w = (Inr u, w')" "st_ops s = ops"
  obtains d where "st_encode s m = Inr d"
    "objs (w_bucket w') = (objs (w_bucket w))(p \<mapsto> d)"
    "\<not> ov \<Longrightarrow> objs (w_bucket w) p = None"
  using assms b_write_all_Inr [of s p _ "\<not> ov" w u w']
  by (cases "st_encode s m") (auto simp: write_meta_def encode_meta_def act_wrap_Inr intro: that)

lemma abort_with_eq: "fst (abort_with s k b e w) = Inl e"
  by (auto simp: abort_with_def act_catch_def act_fail_def split: prod.splits)

lemma abort_with_objs:
  assumes "abort_with s k b e w = (r, w')" "st_ops s = ops"
  shows "objs (w_bucket w') = objs (w_bucket w)"
proof -
  have "objs (w_bucket w') k' = objs (w_bucket w) k'" for k'
    using touchesD [OF touches_abort_with [OF assms(2)] assms(1), of k' "{}"] by simp
  then show ?thesis by (simp add: fun_eq_iff)
qed

text \<open>What a successful write leaves, and what it has checked.\<close>

lemma commit_file_Inr:
  assumes "commit_file s now bk mk b cfg ds w = (Inr m, w')" "st_ops s = ops"
  shows "m = \<lparr>m_digest = digest_of s (bd_data b), m_digests = ds,
              m_size = int (length (bd_data b)), m_created_at = now, m_updated_at = now,
              m_annotations = cc_annotations cfg\<rparr>"
    "\<exists>d. st_encode s m = Inr d
         \<and> objs (w_bucket w') = (objs (w_bucket w))(bk \<mapsto> bd_data b, mk \<mapsto> d)"
    "\<not> cc_allow_overwrite cfg \<Longrightarrow> objs (w_bucket w) bk = None"
proof -
  obtain w1 where c: "close_writer s bk (bd_data b) (\<not> cc_allow_overwrite cfg) w = (Inr (), w1)"
    and wm: "\<exists>u. write_meta s mk m True w1 = (Inr u, w')"
    and m: "m = \<lparr>m_digest = digest_of s (bd_data b), m_digests = ds,
              m_size = int (length (bd_data b)), m_created_at = now, m_updated_at = now,
              m_annotations = cc_annotations cfg\<rparr>"
    using assms(1) unfolding commit_file_def Let_def
    by (auto elim!: act_bind_Inr simp: act_wrap_Inr)
  show "m = \<lparr>m_digest = digest_of s (bd_data b), m_digests = ds,
              m_size = int (length (bd_data b)), m_created_at = now, m_updated_at = now,
              m_annotations = cc_annotations cfg\<rparr>" by (rule m)
  from wm obtain u where "write_meta s mk m True w1 = (Inr u, w')" by blast
  then obtain d where "st_encode s m = Inr d" "objs (w_bucket w') = (objs (w_bucket w1))(mk \<mapsto> d)"
    by (rule write_meta_Inr [OF _ assms(2)])
  with close_writer_Inr(1) [OF c assms(2)]
  show "\<exists>d. st_encode s m = Inr d
         \<and> objs (w_bucket w') = (objs (w_bucket w))(bk \<mapsto> bd_data b, mk \<mapsto> d)" by auto
  show "\<not> cc_allow_overwrite cfg \<Longrightarrow> objs (w_bucket w) bk = None"
    using close_writer_Inr(2) [OF c assms(2)] by simp
qed

lemma write_opened_Inr:
  assumes "write_opened s now bk mk b cfg w = (Inr m, w')"
  obtains vs ds where "make_verifiers s (cc_expected cfg) = Some vs" "bd_err b = None"
    "verify_all (bd_data b) vs [] = Some ds"
    "commit_file s now bk mk b cfg ds w = (Inr m, w')"
proof -
  have no: "abort_with s k b' e w1 \<noteq> (Inr x, w2)" for k b' e w1 x w2
    using abort_with_eq [of s k b' e w1] by (metis Inl_Inr_False fst_conv)
  from assms show ?thesis
    by (auto simp: write_opened_def act_catch_def no split: option.splits prod.splits sum.splits
        dest: stream_body_Inr intro: that)
qed

lemma write_file_Inr:
  assumes "write_file s now bk mk b cfg w = (Inr m, w')" "st_ops s = ops"
  obtains w1 where "w_bucket w1 = w_bucket w"
    "write_opened s now bk mk b cfg w1 = (Inr m, w')"
proof -
  from assms(1) obtain u1 w1 u2 w2 where
    p: "(if cc_allow_overwrite cfg then act_ret ()
        else act_bind (act_wrap map_err (b_exists s bk))
               (\<lambda>ex. if ex then act_fail ErrAlreadyExists else act_ret ())) w = (Inr u1, w1)"
    and q: "act_wrap map_err (b_new_writer s bk (\<not> cc_allow_overwrite cfg)) w1 = (Inr u2, w2)"
    and r: "write_opened s now bk mk b cfg w2 = (Inr m, w')"
    unfolding write_file_def by (elim act_bind_Inr)
  have "w_bucket w1 = w_bucket w"
    by (rule keepsD [OF keeps_probe_free p])
  moreover have "w_bucket w2 = w_bucket w1"
    by (rule keepsD [OF keeps_wrap [OF keeps_prims(4)] q])
  ultimately show ?thesis using r that by simp
qed

end

end
