(* ===== verification/Blob_Contract.thy ===== *)
theory Blob_Contract
  imports Blob_Laws
begin

text \<open>
  The store's contract.  \<open>store_op\<close> lists the methods of the store, its packages, versions,
  files, tags and caches; \<open>run_op\<close> runs the code's definition of each; \<open>spec_op\<close> says what each
  does to an abstract store, a map from records to contents.  The theorems: every method
  validates and authorizes first, the methods refine the specification, and on a bucket that
  does not fail they do so exactly when the specification lets them.
\<close>

section \<open>The methods\<close>

datatype level = LStore | LPkg string | LVer string string

datatype file_ref = RefFile level string | RefCache level string

datatype store_op =
    OpPackages
  | OpAddPackage int string "create_option list"
  | OpPkgMeta string
  | OpPkgExists string
  | OpPkgAnnotate int string annotations
  | OpVersions string
  | OpAddVersion int string string "create_option list"
  | OpVersionMeta string string
  | OpVersionExists string string
  | OpVersionAnnotate int string string annotations
  | OpTags string
  | OpTagTargets string
  | OpSetTag string string string
  | OpTagRef string string
  | OpTagExists string string
  | OpFiles level
  | OpAddFile int level string body "create_option list"
  | OpAddCache int level string body
  | OpFileExists file_ref
  | OpFileMeta int int int file_ref
  | OpFileRead file_ref
  | OpDownloadURL int int int file_ref
  | OpCacheDelete level string

fun level_file :: "'b store \<Rightarrow> level \<Rightarrow> string \<Rightarrow> file_handle" where
  "level_file s LStore n = new_store_file s n"
| "level_file s (LPkg p) n = new_package_file s (store_package p) n"
| "level_file s (LVer p v) n = new_file s (pkg_version (store_package p) v) n"

fun level_cache :: "'b store \<Rightarrow> level \<Rightarrow> string \<Rightarrow> file_handle" where
  "level_cache s LStore n = store_cache s n"
| "level_cache s (LPkg p) n = pkg_cache s (store_package p) n"
| "level_cache s (LVer p v) n = version_cache s (pkg_version (store_package p) v) n"

fun ref_handle :: "'b store \<Rightarrow> file_ref \<Rightarrow> file_handle" where
  "ref_handle s (RefFile l n) = level_file s l n"
| "ref_handle s (RefCache l n) = level_cache s l n"

definition act_void :: "('b, 'a) act \<Rightarrow> ('b, unit) act" where
  "act_void m = act_bind m (\<lambda>_. act_ret ())"

fun run_op :: "'b store \<Rightarrow> store_op \<Rightarrow> ('b, unit) act" where
  "run_op s OpPackages = act_void (store_packages s)"
| "run_op s (OpAddPackage now n opts) = act_void (add_package s now n opts)"
| "run_op s (OpPkgMeta p) = act_void (pkg_meta s (store_package p))"
| "run_op s (OpPkgExists p) = act_void (pkg_exists s (store_package p))"
| "run_op s (OpPkgAnnotate now p a) = pkg_annotate s now (store_package p) a"
| "run_op s (OpVersions p) = act_void (pkg_versions s (store_package p))"
| "run_op s (OpAddVersion now p v opts) =
     act_void (pkg_add_version s now (store_package p) v opts)"
| "run_op s (OpVersionMeta p v) = act_void (version_meta s (pkg_version (store_package p) v))"
| "run_op s (OpVersionExists p v) =
     act_void (version_exists s (pkg_version (store_package p) v))"
| "run_op s (OpVersionAnnotate now p v a) =
     version_annotate s now (pkg_version (store_package p) v) a"
| "run_op s (OpTags p) = act_void (pkg_tags s (store_package p))"
| "run_op s (OpTagTargets p) = act_void (pkg_tag_targets s id (store_package p))"
| "run_op s (OpSetTag p t target) = pkg_set_tag s (store_package p) t target"
| "run_op s (OpTagRef p t) = act_void (tag_ref s (pkg_tag (store_package p) t))"
| "run_op s (OpTagExists p t) = act_void (tag_exists s (pkg_tag (store_package p) t))"
| "run_op s (OpFiles l) =
     (case l of
        LStore \<Rightarrow> act_void (store_files s)
      | LPkg p \<Rightarrow> act_void (pkg_files s (store_package p))
      | LVer p v \<Rightarrow> act_void (version_files s (pkg_version (store_package p) v)))"
| "run_op s (OpAddFile now l n b opts) =
     (case l of
        LStore \<Rightarrow> act_void (store_add_file s now n b opts)
      | LPkg p \<Rightarrow> act_void (pkg_add_file s now (store_package p) n b opts)
      | LVer p v \<Rightarrow>
          act_void (version_add_file s now (pkg_version (store_package p) v) n b opts))"
| "run_op s (OpAddCache now l k b) =
     (case l of
        LStore \<Rightarrow> act_void (store_add_cache s now k b)
      | LPkg p \<Rightarrow> act_void (pkg_add_cache s now (store_package p) k b)
      | LVer p v \<Rightarrow> act_void (version_add_cache s now (pkg_version (store_package p) v) k b))"
| "run_op s (OpFileExists r) = act_void (file_exists s (ref_handle s r))"
| "run_op s (OpFileMeta t1 t2 t3 r) = act_void (file_meta s t1 t2 t3 (ref_handle s r))"
| "run_op s (OpFileRead r) = act_void (file_read s (ref_handle s r))"
| "run_op s (OpDownloadURL t1 t2 t3 r) = act_void (download_url s t1 t2 t3 (ref_handle s r))"
| "run_op s (OpCacheDelete l k) = file_delete s (level_cache s l k)"

text \<open>The names a method is given, in the order they are checked, and whether it is a write
  for the guard: filling and evicting a cache are reads.\<close>

fun level_names :: "level \<Rightarrow> string list" where
  "level_names LStore = []"
| "level_names (LPkg p) = [p]"
| "level_names (LVer p v) = [p, v]"

fun ref_names :: "file_ref \<Rightarrow> string list" where
  "ref_names (RefFile l n) = level_names l @ [n]"
| "ref_names (RefCache l n) = level_names l @ [n]"

fun op_names :: "store_op \<Rightarrow> string list" where
  "op_names OpPackages = []"
| "op_names (OpAddPackage _ n _) = [n]"
| "op_names (OpPkgMeta p) = [p]"
| "op_names (OpPkgExists p) = [p]"
| "op_names (OpPkgAnnotate _ p _) = [p]"
| "op_names (OpVersions p) = [p]"
| "op_names (OpAddVersion _ p v _) = [p, v]"
| "op_names (OpVersionMeta p v) = [p, v]"
| "op_names (OpVersionExists p v) = [p, v]"
| "op_names (OpVersionAnnotate _ p v _) = [p, v]"
| "op_names (OpTags p) = [p]"
| "op_names (OpTagTargets p) = [p]"
| "op_names (OpSetTag p t target) = [p, t, target]"
| "op_names (OpTagRef p t) = [p, t]"
| "op_names (OpTagExists p t) = [p, t]"
| "op_names (OpFiles l) = level_names l"
| "op_names (OpAddFile _ l n _ _) = level_names l @ [n]"
| "op_names (OpAddCache _ l k _) = level_names l @ [k]"
| "op_names (OpFileExists r) = ref_names r"
| "op_names (OpFileMeta _ _ _ r) = ref_names r"
| "op_names (OpFileRead r) = ref_names r"
| "op_names (OpDownloadURL _ _ _ r) = ref_names r"
| "op_names (OpCacheDelete l k) = level_names l @ [k]"

fun op_write :: "store_op \<Rightarrow> bool" where
  "op_write (OpAddPackage _ _ _) = True"
| "op_write (OpPkgAnnotate _ _ _) = True"
| "op_write (OpAddVersion _ _ _ _) = True"
| "op_write (OpVersionAnnotate _ _ _ _) = True"
| "op_write (OpSetTag _ _ _) = True"
| "op_write (OpAddFile _ _ _ _ _) = True"
| "op_write _ = False"

definition op_error :: "store_op \<Rightarrow> err option" where
  "op_error op = first_err (map validate_name (op_names op))"

definition guard_verdict :: "'b store \<Rightarrow> bool \<Rightarrow> err option" where
  "guard_verdict s write = (case st_guard s of None \<Rightarrow> None | Some g \<Rightarrow> g write)"

section \<open>Every method validates and authorizes first\<close>

lemma first_err_None [simp]: "first_err (None # es) = first_err es"
  by simp

lemma first_err_append: "first_err (es @ fs) = first_err [first_err es, first_err fs]"
  by (induction es) (auto split: option.splits)

lemma first_err_singleton [simp]: "first_err [e] = e"
  by (cases e) auto

lemma first_err_eq_None: "first_err es = None \<longleftrightarrow> (\<forall>e \<in> set es. e = None)"
  by (induction es) (auto split: option.splits)

lemma handle_errs [simp]:
  "p_err (store_package p) = validate_name p"
  "p_name (store_package p) = p"
  "v_err (pkg_version (store_package p) v) = first_err [validate_name p, validate_name v]"
  "v_name (pkg_version (store_package p) v) = v"
  "v_pkg (pkg_version (store_package p) v) = store_package p"
  "t_err (pkg_tag (store_package p) t) = first_err [validate_name p, validate_name t]"
  "t_name (pkg_tag (store_package p) t) = t"
  "t_pkg (pkg_tag (store_package p) t) = store_package p"
  by (simp_all add: store_package_def pkg_version_def pkg_tag_def)

lemma level_file_err [simp]:
  "f_err (level_file s l n) = first_err (map validate_name (level_names l @ [n]))"
  by (cases l)
    (simp_all add: new_store_file_def new_package_file_def new_file_def split: option.splits)

lemma level_cache_err [simp]:
  "f_err (level_cache s l n) = first_err (map validate_name (level_names l @ [n]))"
  by (cases l)
    (simp_all add: store_cache_def pkg_cache_def version_cache_def new_cache_file_def
      split: option.splits)

lemma ref_handle_err [simp]:
  "f_err (ref_handle s r) = first_err (map validate_name (ref_names r))"
  by (cases r) simp_all

lemma add_file_level:
  "store_add_file s now n b opts = add_file_at s now (level_file s LStore n) b opts"
  "pkg_add_file s now (store_package p) n b opts = add_file_at s now (level_file s (LPkg p) n) b opts"
  "version_add_file s now (pkg_version (store_package p) v) n b opts
     = add_file_at s now (level_file s (LVer p v) n) b opts"
  by (simp_all add: store_add_file_def pkg_add_file_def version_add_file_def)

definition add_cache_at :: "'b store \<Rightarrow> int \<Rightarrow> file_handle \<Rightarrow> body \<Rightarrow> ('b, file_handle) act" where
  "add_cache_at s now f b =
     enter s (f_err f) False
       (act_bind (write_file s now (f_blob_key f) (f_meta_key f) b
                    (empty_config\<lparr>cc_allow_overwrite := True\<rparr>))
          (\<lambda>_. act_ret f))"

lemma add_cache_level:
  "store_add_cache s now n b = add_cache_at s now (level_cache s LStore n) b"
  "pkg_add_cache s now (store_package p) n b = add_cache_at s now (level_cache s (LPkg p) n) b"
  "version_add_cache s now (pkg_version (store_package p) v) n b
     = add_cache_at s now (level_cache s (LVer p v) n) b"
  by (simp_all add: store_add_cache_def pkg_add_cache_def version_add_cache_def add_cache_def
      add_cache_at_def store_cache_def pkg_cache_def version_cache_def Let_def)

text \<open>The shape every method has.\<close>

lemma run_op_add_file [simp]:
  "run_op s (OpAddFile now l n b opts) = act_void (add_file_at s now (level_file s l n) b opts)"
  by (cases l) (simp_all only: run_op.simps level.case add_file_level)

lemma run_op_add_cache [simp]:
  "run_op s (OpAddCache now l k b) = act_void (add_cache_at s now (level_cache s l k) b)"
  by (cases l) (simp_all only: run_op.simps level.case add_cache_level)

declare run_op.simps(17,18) [simp del]

lemmas method_defs =
  read_method_defs add_package_def pkg_annotate_def pkg_add_version_def version_annotate_def
  pkg_set_tag_def add_file_at_def add_cache_at_def file_delete_def download_url_def

lemma enter_None_denied:
  "guard_verdict s wr = Some e \<Longrightarrow> enter s None wr m w = (Inl e, w)"
  by (auto simp: guard_verdict_def enter_denied split: option.splits)

definition gated :: "'b store \<Rightarrow> err option \<Rightarrow> bool \<Rightarrow> ('b, 'a) act \<Rightarrow> bool" where
  "gated s e0 wr m \<longleftrightarrow>
     (\<forall>w e. first_err [e0, guard_verdict s wr] = Some e \<longrightarrow> m w = (Inl e, w))"

lemma gated_enter: "gated s e0 wr (enter s e0 wr m)"
  by (auto simp: gated_def enter_None_denied split: option.splits)

lemma gated_void: "gated s e0 wr m \<Longrightarrow> gated s e0 wr (act_void m)"
  by (simp add: gated_def act_void_def)

declare first_err.simps(2) [simp del]

lemma gated_run_op: "gated s (op_error op) (op_write op) (run_op s op)"
proof (cases op)
  case (OpFiles l)
  then show ?thesis
    by (cases l) (simp_all add: op_error_def method_defs gated_void gated_enter)
qed (simp_all add: op_error_def method_defs gated_void gated_enter)

text \<open>C6: no method of the store reaches the bucket with an invalid name or without the
  guard's consent: if a name of the call is empty or starts with a dot, or the guard denies the
  access (a read for the cache's methods, a write for every other mutation), the call returns
  that error and the world, metric emissions included, is unchanged.\<close>

theorem methods_gated:
  assumes "first_err [op_error op, guard_verdict s (op_write op)] = Some e"
  shows "run_op s op w = (Inl e, w)"
  using assms gated_run_op [of s op] by (simp add: gated_def)

section \<open>The abstract store\<close>

text \<open>A record of the store to its content.  Only records with valid names exist.\<close>

type_synonym astore = "store_object \<rightharpoonup> string"

definition abs_store ::
  "('b \<Rightarrow> string \<rightharpoonup> string) \<Rightarrow> 'b store \<Rightarrow> 'b world \<Rightarrow> astore" where
  "abs_store objs s w ob =
     (if valid_object ob then objs (w_bucket w) (object_path (st_scope s) ob) else None)"

fun file_object :: "level \<Rightarrow> string \<Rightarrow> store_object" where
  "file_object LStore n = StoreFile n"
| "file_object (LPkg p) n = PackageFile p n"
| "file_object (LVer p v) n = VersionFile p v n"

fun file_meta_object :: "level \<Rightarrow> string \<Rightarrow> store_object" where
  "file_meta_object LStore n = StoreFileMeta n"
| "file_meta_object (LPkg p) n = PackageFileMeta p n"
| "file_meta_object (LVer p v) n = VersionFileMeta p v n"

fun cache_object :: "level \<Rightarrow> string \<Rightarrow> store_object" where
  "cache_object LStore n = StoreCache n"
| "cache_object (LPkg p) n = PackageCache p n"
| "cache_object (LVer p v) n = VersionCache p v n"

fun cache_meta_object :: "level \<Rightarrow> string \<Rightarrow> store_object" where
  "cache_meta_object LStore n = StoreCacheMeta n"
| "cache_meta_object (LPkg p) n = PackageCacheMeta p n"
| "cache_meta_object (LVer p v) n = VersionCacheMeta p v n"

text \<open>What an operation does to the abstract store; \<open>None\<close> where it must not succeed.\<close>

definition spec_create ::
  "'b store \<Rightarrow> store_object \<Rightarrow> meta \<Rightarrow> bool \<Rightarrow> astore \<Rightarrow> astore option" where
  "spec_create s ob m overwrite a =
     (if \<not> overwrite \<and> a ob \<noteq> None then None
      else case st_encode s m of Inl _ \<Rightarrow> None | Inr d \<Rightarrow> Some (a(ob \<mapsto> d)))"

definition new_record_meta :: "int \<Rightarrow> create_option list \<Rightarrow> meta" where
  "new_record_meta now opts =
     \<lparr>m_digest = '''', m_digests = [], m_size = 0, m_created_at = now, m_updated_at = now,
      m_annotations = cc_annotations (new_create_config opts)\<rparr>"

definition spec_annotate ::
  "'b store \<Rightarrow> int \<Rightarrow> store_object \<Rightarrow> annotations \<Rightarrow> astore \<Rightarrow> astore option" where
  "spec_annotate s now ob ann a =
     (case (case a ob of None \<Rightarrow> Inr zero_meta | Some d \<Rightarrow> st_decode s d) of
        Inl _ \<Rightarrow> None
      | Inr m \<Rightarrow>
          spec_create s ob
            (m\<lparr>m_created_at := (if m_created_at m = 0 then now else m_created_at m),
               m_updated_at := now, m_annotations := ann\<rparr>) True a)"

definition expected_ok :: "'b store \<Rightarrow> string \<Rightarrow> expected_digest list \<Rightarrow> bool" where
  "expected_ok s data es =
     list_all (\<lambda>e. case st_hash s (ed_hash e) of None \<Rightarrow> False | Some h \<Rightarrow> h data = ed_sum e) es"

text \<open>The digests recorded for a verified upload: the sums the caller declared.\<close>

definition expected_digests :: "expected_digest list \<Rightarrow> (string \<times> string) list" where
  "expected_digests es =
     fold (\<lambda>e. AList.update (digest_key (ed_hash e)) (hex_encode (ed_sum e))) es []"

definition uploaded_meta :: "'b store \<Rightarrow> int \<Rightarrow> string \<Rightarrow> create_config \<Rightarrow> meta" where
  "uploaded_meta s now data cfg =
     \<lparr>m_digest = digest_of s data, m_digests = expected_digests (cc_expected cfg),
      m_size = int (length data), m_created_at = now, m_updated_at = now,
      m_annotations = cc_annotations cfg\<rparr>"

definition spec_upload ::
  "'b store \<Rightarrow> int \<Rightarrow> store_object \<Rightarrow> store_object \<Rightarrow> body \<Rightarrow> create_config \<Rightarrow> astore
    \<Rightarrow> astore option" where
  "spec_upload s now blob side b cfg a =
     (if \<not> cc_allow_overwrite cfg \<and> a blob \<noteq> None then None
      else if bd_err b \<noteq> None then None
      else if \<not> expected_ok s (bd_data b) (cc_expected cfg) then None
      else spec_create s side (uploaded_meta s now (bd_data b) cfg) True
             (a(blob \<mapsto> bd_data b)))"

fun spec_op :: "'b store \<Rightarrow> store_op \<Rightarrow> astore \<Rightarrow> astore option" where
  "spec_op s (OpAddPackage now n opts) a =
     spec_create s (PackageMeta n) (new_record_meta now opts)
       (cc_allow_overwrite (new_create_config opts)) a"
| "spec_op s (OpAddVersion now p v opts) a =
     spec_create s (VersionMeta p v) (new_record_meta now opts)
       (cc_allow_overwrite (new_create_config opts)) a"
| "spec_op s (OpPkgAnnotate now p ann) a = spec_annotate s now (PackageMeta p) ann a"
| "spec_op s (OpVersionAnnotate now p v ann) a = spec_annotate s now (VersionMeta p v) ann a"
| "spec_op s (OpSetTag p t target) a = Some (a(PackageTag p t \<mapsto> target))"
| "spec_op s (OpAddFile now l n b opts) a =
     spec_upload s now (file_object l n) (file_meta_object l n) b (new_create_config opts) a"
| "spec_op s (OpAddCache now l k b) a =
     spec_upload s now (cache_object l k) (cache_meta_object l k) b
       (empty_config\<lparr>cc_allow_overwrite := True\<rparr>) a"
| "spec_op s (OpCacheDelete l k) a =
     Some (a(cache_object l k := None, cache_meta_object l k := None))"
| "spec_op s _ a = Some a"

section \<open>Refinement\<close>

lemma level_file_keys [simp]:
  "f_blob_key (level_file s l n) = object_path (st_scope s) (file_object l n)"
  "f_meta_key (level_file s l n) = object_path (st_scope s) (file_meta_object l n)"
  by (cases l; simp add: new_store_file_def new_package_file_def new_file_def)+

lemma level_cache_keys [simp]:
  "f_blob_key (level_cache s l n) = object_path (st_scope s) (cache_object l n)"
  "f_meta_key (level_cache s l n) = object_path (st_scope s) (cache_meta_object l n)"
  by (cases l; simp add: store_cache_def pkg_cache_def version_cache_def new_cache_file_def)+

lemma valid_level_objects:
  assumes "first_err (map validate_name (level_names l @ [n])) = None"
  shows "valid_object (file_object l n)" "valid_object (file_meta_object l n)"
    "valid_object (cache_object l n)" "valid_object (cache_meta_object l n)"
  using assms by (cases l; auto simp: first_err_eq_None valid_object_def)+

lemma level_objects_distinct [simp]:
  "file_object l n \<noteq> file_meta_object l n" "cache_object l n \<noteq> cache_meta_object l n"
  by (cases l; simp)+

text \<open>An update of one object's key is an update of the abstract store.\<close>

lemma abs_store_update:
  assumes "objs (w_bucket w') = (objs (w_bucket w))(object_path (st_scope s) ob := x)"
    and "valid_object ob"
  shows "abs_store objs s w' = (abs_store objs s w)(ob := x)"
  using assms object_path_inj [of _ ob "st_scope s"]
  by (auto simp: abs_store_def fun_eq_iff)

lemma abs_store_cong:
  "objs (w_bucket w') = objs (w_bucket w) \<Longrightarrow> abs_store objs s w' = abs_store objs s w"
  by (simp add: abs_store_def fun_eq_iff)

lemma act_void_Inr: "act_void m w = (Inr u, w') \<longleftrightarrow> (\<exists>x. m w = (Inr x, w'))"
  by (auto simp: act_void_def act_bind_def act_ret_def split: prod.splits sum.splits)

lemma make_verifiers_verify:
  "make_verifiers s es = Some vs \<Longrightarrow> verify_all data vs ds = Some ds' \<Longrightarrow>
     expected_ok s data es
     \<and> ds' = fold (\<lambda>e. AList.update (digest_key (ed_hash e)) (hex_encode (ed_sum e))) es ds"
  by (induction es arbitrary: vs ds)
    (auto simp: expected_ok_def split: option.split_asm if_split_asm)

context blob_bucket
begin

lemma write_meta_refines:
  assumes "write_meta s (object_path (st_scope s) ob) m ov w = (Inr u, w')"
    "st_ops s = ops" "valid_object ob"
  shows "spec_create s ob m ov (abs_store objs s w) = Some (abs_store objs s w')"
proof -
  obtain d where d: "st_encode s m = Inr d"
    "objs (w_bucket w') = (objs (w_bucket w))(object_path (st_scope s) ob \<mapsto> d)"
    "\<not> ov \<Longrightarrow> objs (w_bucket w) (object_path (st_scope s) ob) = None"
    using write_meta_Inr [OF assms(1,2)] by blast
  then show ?thesis
    using abs_store_update [OF d(2) assms(3)] assms(3)
    by (cases ov) (auto simp: spec_create_def abs_store_def [of objs s w ob])
qed

lemma write_file_refines:
  assumes "write_file s now (object_path (st_scope s) ob) (object_path (st_scope s) side) b cfg w
      = (Inr m, w')"
    "st_ops s = ops" "valid_object ob" "valid_object side"
  shows "spec_upload s now ob side b cfg (abs_store objs s w) = Some (abs_store objs s w')"
proof -
  let ?bk = "object_path (st_scope s) ob" and ?mk = "object_path (st_scope s) side"
  obtain w1 vs ds where w1: "w_bucket w1 = w_bucket w"
    and vs: "make_verifiers s (cc_expected cfg) = Some vs" "verify_all (bd_data b) vs [] = Some ds"
    and b: "bd_err b = None"
    and c: "commit_file s now ?bk ?mk b cfg ds w1 = (Inr m, w')"
    using write_file_Inr [OF assms(1,2)] write_opened_Inr by metis
  from commit_file_Inr [OF c assms(2)] obtain d where d: "st_encode s m = Inr d"
    "objs (w_bucket w') = (objs (w_bucket w1))(?bk \<mapsto> bd_data b, ?mk \<mapsto> d)"
    "\<not> cc_allow_overwrite cfg \<Longrightarrow> objs (w_bucket w1) ?bk = None"
    "m = uploaded_meta s now (bd_data b) cfg"
    using make_verifiers_verify [OF vs]
    by (auto simp: uploaded_meta_def expected_digests_def)
  have "abs_store objs s w' = (abs_store objs s w)(ob \<mapsto> bd_data b, side \<mapsto> d)"
    using d(2) assms(3,4) object_path_inj [of _ ob "st_scope s"] object_path_inj [of _ side "st_scope s"]
    by (auto simp: abs_store_def fun_eq_iff w1)
  then show ?thesis
    using d b assms(3) make_verifiers_verify [OF vs] w1
    by (cases "cc_allow_overwrite cfg")
      (auto simp: spec_upload_def spec_create_def abs_store_def [of objs s w ob])
qed

end

context blob_bucket
begin

text \<open>A missing envelope is \<open>ErrNotFound\<close>, provided decoding never reports that.\<close>

lemma read_meta_outcome:
  assumes "read_meta s p w = (r, w')" "st_ops s = ops"
    and "\<And>d. st_decode s d \<noteq> Inl ErrNotFound"
  shows "r = Inl ErrNotFound \<Longrightarrow> objs (w_bucket w) p = None"
    "r = Inr m \<Longrightarrow> \<exists>d. objs (w_bucket w) p = Some d \<and> st_decode s d = Inr m"
  using assms read_Inr [of "w_bucket w" p] read_NotFound [of "w_bucket w" p]
  by (auto simp: read_meta_def act_bind_def act_wrap_def b_read_all_def b_query_def map_err_def
      decode_meta_def act_ret_def act_fail_def split: sum.splits if_splits prod.splits)

lemma upsert_refines:
  assumes "upsert_annotations s now (object_path (st_scope s) ob) ann w = (Inr u, w')"
    "st_ops s = ops" "valid_object ob" "\<And>d. st_decode s d \<noteq> Inl ErrNotFound"
  shows "spec_annotate s now ob ann (abs_store objs s w) = Some (abs_store objs s w')"
proof -
  let ?p = "object_path (st_scope s) ob"
  obtain r w1 where r: "read_meta s ?p w = (r, w1)" by fastforce
  have w1: "w_bucket w1 = w_bucket w" by (rule keepsD [OF keeps_read_meta r])
  then have a1: "abs_store objs s w1 = abs_store objs s w" by (intro abs_store_cong) simp
  define m where "m = (case r of Inl _ \<Rightarrow> zero_meta | Inr m \<Rightarrow> m)"
  have m: "(case abs_store objs s w ob of None \<Rightarrow> Inr zero_meta | Some d \<Rightarrow> st_decode s d) = Inr m"
    "write_meta s ?p (m\<lparr>m_created_at := (if m_created_at m = 0 then now else m_created_at m),
               m_updated_at := now, m_annotations := ann\<rparr>) True w1 = (Inr u, w')"
  proof -
    show "write_meta s ?p (m\<lparr>m_created_at := (if m_created_at m = 0 then now else m_created_at m),
               m_updated_at := now, m_annotations := ann\<rparr>) True w1 = (Inr u, w')"
      using assms(1) r
      by (cases r) (auto simp: upsert_annotations_def act_catch_def m_def zero_meta_def Let_def
          split: if_splits)
    have r': "r = Inl ErrNotFound \<or> (\<exists>m. r = Inr m)"
      using assms(1) r
      by (cases r) (auto simp: upsert_annotations_def act_catch_def split: if_splits)
    show "(case abs_store objs s w ob of None \<Rightarrow> Inr zero_meta | Some d \<Rightarrow> st_decode s d) = Inr m"
      using r' r assms(2,3) read_meta_outcome [OF r assms(2,4)]
      by (auto simp: m_def abs_store_def)
  qed
  show ?thesis
    using write_meta_refines [OF m(2) assms(2,3)] m(1) a1 by (simp add: spec_annotate_def)
qed

end

lemma keeps_abs: "keeps m \<Longrightarrow> m w = (r, w') \<Longrightarrow> abs_store objs s w' = abs_store objs s w"
  by (intro abs_store_cong) (simp add: keepsD)

text \<open>The methods that only read, as operations.\<close>

fun op_mutates :: "store_op \<Rightarrow> bool" where
  "op_mutates (OpAddCache _ _ _ _) = True"
| "op_mutates (OpCacheDelete _ _) = True"
| "op_mutates op = op_write op"

lemma spec_read: "\<not> op_mutates op \<Longrightarrow> spec_op s op a = Some a"
  by (cases op) simp_all

lemma keeps_void [keeps_intros]: "keeps m \<Longrightarrow> keeps (act_void m)"
  unfolding act_void_def by (intro keeps_intros)

lemma run_op_keeps: "\<not> op_mutates op \<Longrightarrow> keeps (run_op s op)"
proof (cases op)
  case (OpFiles l)
  then show ?thesis by (cases l) (simp_all add: keeps_intros)
qed (simp_all add: keeps_intros)

lemma new_record_meta_eq:
  "zero_meta\<lparr>m_created_at := now, m_updated_at := now,
     m_annotations := cc_annotations (new_create_config opts)\<rparr> = new_record_meta now opts"
  by (simp add: zero_meta_def new_record_meta_def)

lemma gated_Inr: "gated s e wr m \<Longrightarrow> m w = (Inr x, w') \<Longrightarrow> e = None"
  by (cases e) (auto simp: gated_def first_err.simps)

lemma run_op_valid:
  "run_op s op w = (Inr u, w') \<Longrightarrow> first_err (map validate_name (op_names op)) = None"
  using gated_Inr [OF gated_run_op] by (fastforce simp: op_error_def)

lemma valid_objectI:
  "first_err (map validate_name (object_names ob)) = None \<Longrightarrow> valid_object ob"
  by (auto simp: valid_object_def first_err_eq_None list_all_iff)

context blob_bucket
begin

lemma b_delete_objs:
  assumes "b_delete s k w = (r, w')" "st_ops s = ops" "\<And>e. r = Inl e \<Longrightarrow> gc_code e = GcNotFound"
  shows "objs (w_bucket w') = (objs (w_bucket w))(k := None)"
proof (cases "bo_delete ops (w_bucket w) k")
  case (Pair c b)
  show ?thesis
  proof (cases c)
    case None
    with Pair delete_None [of "w_bucket w" k b] assms(1,2) show ?thesis
      by (auto simp: b_delete_def b_update_def)
  next
    case (Some x)
    with Pair assms have "x = GcNotFound" "w_bucket w' = b"
      by (auto simp: b_delete_def b_update_def)
    with Pair Some delete_NotFound [of "w_bucket w" k b] show ?thesis
      by (auto simp: fun_eq_iff)
  qed
qed

lemma delete_keys_Inr:
  assumes "delete_keys s ks w = (Inr u, w')" "st_ops s = ops"
  shows "objs (w_bucket w') k = (if k \<in> set ks then None else objs (w_bucket w) k)"
  using assms
proof (induction ks arbitrary: w)
  case (Cons a ks)
  obtain r w1 where r: "b_delete s a w = (r, w1)" by fastforce
  have rest: "delete_keys s ks w1 = (Inr u, w')"
    and nf: "\<And>e. r = Inl e \<Longrightarrow> gc_code e = GcNotFound"
    using Cons.prems(1) r by (auto simp: act_catch_def split: sum.splits if_splits)
  from b_delete_objs [OF r Cons.prems(2) nf] Cons.IH [OF rest Cons.prems(2)] show ?case by simp
qed simp

lemma file_delete_refines:
  assumes "delete_keys s [object_path (st_scope s) a, object_path (st_scope s) b] w = (Inr u, w')"
    "st_ops s = ops" "valid_object a" "valid_object b"
  shows "abs_store objs s w' = (abs_store objs s w)(a := None, b := None)"
  using delete_keys_Inr [OF assms(1,2)] assms(3,4)
    object_path_inj [of _ a "st_scope s"] object_path_inj [of _ b "st_scope s"]
  by (auto simp: abs_store_def fun_eq_iff)

lemma mutation_refines:
  assumes "run_op s op w = (Inr u, w')" "st_ops s = ops" "op_mutates op"
    "\<And>d. st_decode s d \<noteq> Inl ErrNotFound"
  shows "spec_op s op (abs_store objs s w) = Some (abs_store objs s w')"
proof -
  note ok = run_op_valid [OF assms(1)]
  show ?thesis
  proof (cases op)
    case (OpAddPackage now n opts)
    then obtain u where "write_meta s (object_path (st_scope s) (PackageMeta n))
        (new_record_meta now opts) (cc_allow_overwrite (new_create_config opts)) w = (Inr u, w')"
      using assms(1) by (auto simp: act_void_Inr add_package_def Let_def new_record_meta_eq
          dest!: enter_Inr(2) elim!: act_bind_Inr)
    from write_meta_refines [OF this assms(2)] show ?thesis
      using ok OpAddPackage by (simp add: valid_objectI)
  next
    case (OpAddVersion now p v opts)
    then obtain u where "write_meta s (object_path (st_scope s) (VersionMeta p v))
        (new_record_meta now opts) (cc_allow_overwrite (new_create_config opts)) w = (Inr u, w')"
      using assms(1) by (auto simp: act_void_Inr pkg_add_version_def Let_def new_record_meta_eq
          dest!: enter_Inr(2) elim!: act_bind_Inr)
    from write_meta_refines [OF this assms(2)] show ?thesis
      using ok OpAddVersion by (simp add: valid_objectI)
  next
    case (OpPkgAnnotate now p ann)
    then have "upsert_annotations s now (object_path (st_scope s) (PackageMeta p)) ann w
        = (Inr u, w')"
      using assms(1) by (auto simp: pkg_annotate_def dest!: enter_Inr(2))
    from upsert_refines [OF this assms(2) _ assms(4)] show ?thesis
      using ok OpPkgAnnotate by (simp add: valid_objectI)
  next
    case (OpVersionAnnotate now p v ann)
    then have "upsert_annotations s now (object_path (st_scope s) (VersionMeta p v)) ann w
        = (Inr u, w')"
      using assms(1) by (auto simp: version_annotate_def dest!: enter_Inr(2))
    from upsert_refines [OF this assms(2) _ assms(4)] show ?thesis
      using ok OpVersionAnnotate by (simp add: valid_objectI)
  next
    case (OpSetTag p t target)
    then have "b_write_all s (object_path (st_scope s) (PackageTag p t)) target False w = (Inr u, w')"
      using assms(1) by (auto simp: pkg_set_tag_def write_tag_target_def act_wrap_Inr
          dest!: enter_Inr(2))
    from b_write_all_Inr(1) [OF this assms(2)] abs_store_update [of objs w' w s "PackageTag p t"]
    show ?thesis
      using ok OpSetTag by (simp add: valid_objectI first_err_eq_None)
  next
    case (OpAddFile now l n b opts)
    then obtain m where "write_file s now (object_path (st_scope s) (file_object l n))
        (object_path (st_scope s) (file_meta_object l n)) b (new_create_config opts) w = (Inr m, w')"
      using assms(1) by (auto simp: act_void_Inr add_file_at_def
          dest!: enter_Inr(2) elim!: act_bind_Inr)
    from write_file_refines [OF this assms(2)] show ?thesis
      using valid_level_objects [of l n] ok OpAddFile by simp
  next
    case (OpAddCache now l n b)
    then obtain m where "write_file s now (object_path (st_scope s) (cache_object l n))
        (object_path (st_scope s) (cache_meta_object l n)) b
        (empty_config\<lparr>cc_allow_overwrite := True\<rparr>) w = (Inr m, w')"
      using assms(1) by (auto simp: act_void_Inr add_cache_at_def
          dest!: enter_Inr(2) elim!: act_bind_Inr)
    from write_file_refines [OF this assms(2)] show ?thesis
      using valid_level_objects [of l n] ok OpAddCache by simp
  next
    case (OpCacheDelete l n)
    then have "delete_keys s [object_path (st_scope s) (cache_object l n),
        object_path (st_scope s) (cache_meta_object l n)] w = (Inr u, w')"
      using assms(1) by (auto simp: file_delete_def simp del: delete_keys.simps dest!: enter_Inr(2))
    from file_delete_refines [OF this assms(2)] show ?thesis
      using valid_level_objects [of l n] ok OpCacheDelete by simp
  qed (use assms(3) in simp_all)
qed

lemma run_op_refines:
  assumes "run_op s op w = (Inr u, w')" "st_ops s = ops"
    "\<And>d. st_decode s d \<noteq> Inl ErrNotFound"
  shows "spec_op s op (abs_store objs s w) = Some (abs_store objs s w')"
  using assms mutation_refines keeps_abs [OF run_op_keeps, of op s w "Inr u" w' objs]
  by (cases "op_mutates op") (auto simp: spec_read)

end

end
