(* ===== verification/Blob_Properties.thy ===== *)
theory Blob_Properties
  imports Blob_Contract
begin

text \<open>
  The store's properties, over any bucket that meets the storage driver's contract: refinement
  of the abstract store, isolation, immutability, verified uploads, round trips and listings.
\<close>

section \<open>A store for the examples\<close>

definition demo_meta :: meta where
  "demo_meta = zero_meta\<lparr>m_digest := ''sha256:61'', m_size := 2, m_created_at := 7,
                          m_updated_at := 7\<rparr>"

definition demo_store :: "(bool \<Rightarrow> err option) option \<Rightarrow> mem_bucket store" where
  "demo_store g =
     \<lparr>st_ops = mem_ops, st_scope = ''npm/n'', st_url_ttl = 600, st_stat_ttl = 60, st_guard = g,
      st_metrics = True, st_sha256 = (\<lambda>d. take 1 d), st_hash = (\<lambda>h. if h = SHA1 then Some rev else None),
      st_encode = (\<lambda>m. Inr ''{}''),
      st_decode = (\<lambda>d. if d = ''{}'' then Inr demo_meta else Inl (ErrOther ''json''))\<rparr>"

definition demo_world :: "mem_bucket \<Rightarrow> mem_bucket world" where
  "demo_world b = new_with_bucket (demo_store None) b"

lemma demo_store_fields [simp]:
  "st_ops (demo_store g) = mem_ops" "st_scope (demo_store g) = ''npm/n''"
  "st_guard (demo_store g) = g"
  "st_encode (demo_store g) m = Inr ''{}''"
  "st_decode (demo_store g) d = (if d = ''{}'' then Inr demo_meta else Inl (ErrOther ''json''))"
  by (simp_all add: demo_store_def)

lemma demo_world_bucket [simp]: "w_bucket (demo_world b) = b"
  by (simp add: demo_world_def new_with_bucket_def)

section \<open>Refinement\<close>

text \<open>C1: whenever a method of the store returns successfully, what it did to the bucket is
  what the abstract store says: packages, versions and tags are created or replaced at their own
  record, an upload stores the streamed bytes together with a sidecar holding their SHA-256, size,
  declared digests and annotations, deleting a cache entry removes the entry and its sidecar,
  reads change nothing, and a create without overwrite found no previous record.\<close>

theorem store_refines:
  assumes "run_op s op w = (Inr u, w')"
    and "blob_bucket (st_ops s) objs"
    and "\<And>d. st_decode s d \<noteq> Inl ErrNotFound"
  shows "spec_op s op (abs_store objs s w) = Some (abs_store objs s w')"
  using blob_bucket.run_op_refines [OF assms(2,1) refl assms(3)] .

theorem store_refines_witness:
  "spec_op (demo_store None) (OpSetTag ''a'' ''latest'' ''1.0'')
      (abs_store map_of (demo_store None) (demo_world []))
    = Some (abs_store map_of (demo_store None)
        (after (run_op (demo_store None) (OpSetTag ''a'' ''latest'' ''1.0'')) (demo_world [])))"
proof -
  have "fst (run_op (demo_store None) (OpSetTag ''a'' ''latest'' ''1.0'') (demo_world [])) = Inr ()"
    by code_simp
  then have "run_op (demo_store None) (OpSetTag ''a'' ''latest'' ''1.0'') (demo_world [])
      = (Inr (), after (run_op (demo_store None) (OpSetTag ''a'' ''latest'' ''1.0'')) (demo_world []))"
    by (metis prod.collapse)
  from store_refines [OF this, of map_of] show ?thesis
    using mem_bucket by simp
qed

section \<open>Isolation\<close>

fun op_objects :: "store_op \<Rightarrow> store_object list" where
  "op_objects (OpAddPackage _ n _) = [PackageMeta n]"
| "op_objects (OpAddVersion _ p v _) = [VersionMeta p v]"
| "op_objects (OpPkgAnnotate _ p _) = [PackageMeta p]"
| "op_objects (OpVersionAnnotate _ p v _) = [VersionMeta p v]"
| "op_objects (OpSetTag p t _) = [PackageTag p t]"
| "op_objects (OpAddFile _ l n _ _) = [file_object l n, file_meta_object l n]"
| "op_objects (OpAddCache _ l k _) = [cache_object l k, cache_meta_object l k]"
| "op_objects (OpCacheDelete l k) = [cache_object l k, cache_meta_object l k]"
| "op_objects _ = []"

lemma object_names_level [simp]:
  "object_names (file_object l n) = level_names l @ [n]"
  "object_names (file_meta_object l n) = level_names l @ [n]"
  "object_names (cache_object l n) = level_names l @ [n]"
  "object_names (cache_meta_object l n) = level_names l @ [n]"
  by (cases l; simp)+

lemma op_objects_valid:
  "op_error op = None \<Longrightarrow> ob \<in> set (op_objects op) \<Longrightarrow> valid_object ob"
  by (cases op)
    (auto simp: op_error_def first_err_eq_None valid_object_def list_all_iff)

context blob_bucket
begin

lemma touches_void [touches_intros]: "touches objs K m \<Longrightarrow> touches objs K (act_void m)"
  unfolding act_void_def by (intro touches_bind touches_const)

lemma touches_run_op:
  assumes "st_ops s = ops"
  shows "touches objs (object_path (st_scope s) ` set (op_objects op)) (run_op s op)"
proof (cases "op_mutates op")
  case False
  then show ?thesis by (intro touches_keeps run_op_keeps)
next
  case True
  note rules = touches_void touches_enter touches_bind touches_const touches_write_meta
    touches_upsert touches_write_file touches_delete_keys touches_wrap touches_prims assms
  show ?thesis
  proof (cases op)
    case OpCacheDelete
    then show ?thesis
      by (simp del: delete_keys.simps add: file_delete_def) (intro rules; simp)
  qed (use True in \<open>auto simp: add_package_def pkg_add_version_def pkg_annotate_def
        version_annotate_def pkg_set_tag_def write_tag_target_def add_file_at_def
        add_cache_at_def Let_def intro!: rules\<close>)
qed

lemma run_op_frame:
  assumes "run_op s op w = (r, w')" "st_ops s = ops" "valid_object ob" "ob \<notin> set (op_objects op)"
  shows "objs (w_bucket w') (object_path (st_scope s) ob)
      = objs (w_bucket w) (object_path (st_scope s) ob)"
proof (cases "op_error op")
  case None
  have "object_path (st_scope s) ob \<notin> object_path (st_scope s) ` set (op_objects op)"
    using object_path_inj [of ob _ "st_scope s"] assms(3,4) op_objects_valid [OF None] by blast
  with touchesD [OF touches_run_op [OF assms(2)] assms(1)] show ?thesis by simp
next
  case (Some e)
  then have "run_op s op w = (Inl e, w)"
    using gated_run_op [of s op] by (simp add: gated_def first_err.simps)
  with assms(1) show ?thesis by simp
qed

end

text \<open>C7: a call changes no record but its own, whether it succeeds or fails, on any backend:
  every record of the store that the call does not name keeps its object as it was.\<close>

theorem method_isolation:
  assumes "blob_bucket (st_ops s) objs" "ob \<notin> set (op_objects op)"
    and "run_op s op w = (r, w')"
  shows "abs_store objs s w' ob = abs_store objs s w ob"
  using blob_bucket.run_op_frame [OF assms(1,3) refl _ assms(2)] by (simp add: abs_store_def)

theorem method_isolation_witness:
  "abs_store map_of (demo_store None)
      (after (run_op (demo_store None) (OpSetTag ''a'' ''latest'' ''1.0''))
         (demo_world [(object_path ''npm/n'' (PackageTag ''a'' ''next''), ''2.0'')]))
      (PackageTag ''a'' ''next'')
    = Some ''2.0''"
proof -
  let ?w = "demo_world [(object_path ''npm/n'' (PackageTag ''a'' ''next''), ''2.0'')]"
  let ?op = "OpSetTag ''a'' ''latest'' ''1.0''"
  have "abs_store map_of (demo_store None) (after (run_op (demo_store None) ?op) ?w)
      (PackageTag ''a'' ''next'')
    = abs_store map_of (demo_store None) ?w (PackageTag ''a'' ''next'')"
    by (rule method_isolation [where op = ?op and r = "fst (run_op (demo_store None) ?op ?w)"])
      (simp_all add: mem_bucket valid_object_def valid_name_iff del: run_op.simps)
  also have "\<dots> = Some ''2.0''"
    by (simp add: abs_store_def valid_object_def valid_name_iff)
  finally show ?thesis .
qed

section \<open>Immutability\<close>

text \<open>The operations that may change the bytes of a file: uploads of that file that opted into
  overwriting.\<close>

fun op_overwrites :: "level \<Rightarrow> string \<Rightarrow> store_op \<Rightarrow> bool" where
  "op_overwrites l n (OpAddFile now l' n' b opts) =
     (l' = l \<and> n' = n \<and> cc_allow_overwrite (new_create_config opts))"
| "op_overwrites l n op = False"

fun run_ops :: "'b store \<Rightarrow> store_op list \<Rightarrow> 'b world \<Rightarrow> 'b world" where
  "run_ops s [] w = w"
| "run_ops s (op # ops) w = run_ops s ops (snd (run_op s op w))"

lemma snd_then_ret: "snd (act_bind m (\<lambda>x. act_ret (g x)) w) = snd (m w)"
  by (auto simp: act_bind_def act_ret_def split: prod.splits sum.splits)

lemma enter_open:
  "first_err [e, guard_verdict s wr] = None \<Longrightarrow> enter s e wr m = m"
  by (cases e) (auto simp: guard_verdict_def first_err.simps enter_allowed split: option.splits)

lemma enter_cases: "snd (enter s e wr m w) = w \<or> enter s e wr m w = m w"
  using gated_enter [of s e wr m]
  by (cases "first_err [e, guard_verdict s wr]") (auto simp: gated_def enter_open)

lemma enter_then_ret:
  "snd (enter s e wr (act_bind m (\<lambda>x. act_ret (g x))) w) = w
    \<or> snd (enter s e wr (act_bind m (\<lambda>x. act_ret (g x))) w) = snd (m w)"
  using enter_cases [of s e wr "act_bind m (\<lambda>x. act_ret (g x))" w] by (metis snd_then_ret)

lemma file_object_eq [simp]:
  "file_object l n = file_object l' n' \<longleftrightarrow> l = l' \<and> n = n'"
  "file_object l n \<noteq> file_meta_object l' n'" "file_object l n \<noteq> cache_object l' n'"
  "file_object l n \<noteq> cache_meta_object l' n'" "file_object l n \<noteq> PackageMeta p"
  "file_object l n \<noteq> VersionMeta p v" "file_object l n \<noteq> PackageTag p v"
  by (cases l; cases l'; auto)+

lemma file_object_op:
  "file_object l n \<in> set (op_objects op) \<Longrightarrow> \<exists>now b opts. op = OpAddFile now l n b opts"
  by (cases op) auto

context blob_bucket
begin

text \<open>A failed or successful upload without overwrite keeps every object but its sidecar.\<close>

lemma upload_keeps:
  assumes "write_file s now bk mk b cfg w = (r, w')" "st_ops s = ops"
    "\<not> cc_allow_overwrite cfg" "k \<noteq> mk" "objs (w_bucket w) k = Some d"
  shows "objs (w_bucket w') k = Some d"
proof -
  define P where "P m \<longleftrightarrow> (\<forall>w. objs (w_bucket w) k = Some d \<longrightarrow> objs (w_bucket (after m w)) k = Some d)"
    for m :: "('b, meta) act"
  have bind: "P (act_bind m f)" if "\<And>w. objs (w_bucket w) k = Some d \<Longrightarrow>
      objs (w_bucket (after m w)) k = Some d" "\<And>x. P (f x)"
    for m :: "('b, 'c) act" and f
    using that by (fastforce simp: P_def act_bind_def split: prod.splits sum.splits)
  have catch: "P (act_catch m f)" if "\<And>w. objs (w_bucket w) k = Some d \<Longrightarrow>
      objs (w_bucket (after m w)) k = Some d" "\<And>x. P (f x)"
    for m :: "('b, 'c) act" and f
    using that by (fastforce simp: P_def act_catch_def split: prod.splits)
  have kp: "objs (w_bucket w) k = Some d \<Longrightarrow> keeps m \<Longrightarrow> objs (w_bucket (after m w)) k = Some d"
    for w and m :: "('b, 'c) act" by (simp add: keeps_def)
  have ab: "P (abort_with s bk b' e)" for b' e
  proof -
    have "touches objs {} (abort_with s bk b' e :: ('b, meta) act)"
      by (rule touches_abort_with [OF assms(2)])
    then show ?thesis by (simp add: P_def touches_def)
  qed
  have wm: "P (act_bind (write_meta s mk m True) (\<lambda>_. act_ret m))" for m
    using touches_write_meta [OF assms(2), of mk "{mk}" m True] assms(4)
    by (intro bind) (simp_all add: touches_def P_def act_ret_def)
  have cl: "objs (w_bucket w) k = Some d \<Longrightarrow>
      objs (w_bucket (after (act_wrap map_create_err (close_writer s bk (bd_data b) True)) w)) k = Some d"
    for w
    using preserves_wrap [OF preserves_prims(2) [OF assms(2)]] by (simp add: preserves_def)
  have cf: "P (commit_file s now bk mk b cfg ds)" for ds
    unfolding commit_file_def Let_def using assms(3) by (intro bind wm) (simp add: cl)
  have wo: "P (write_opened s now bk mk b cfg)"
    unfolding write_opened_def
    by (auto split: option.split sum.split intro!: catch ab cf kp keeps_stream)
  have "P (write_file s now bk mk b cfg)"
    unfolding write_file_def by (intro bind wo kp keeps_probe_free keeps_wrap keeps_prims)
  with assms(1,5) show ?thesis by (metis P_def snd_conv)
qed

lemma run_op_keeps_file:
  assumes "st_ops s = ops" "\<not> op_overwrites l n op" "valid_object (file_object l n)"
    "objs (w_bucket w) (object_path (st_scope s) (file_object l n)) = Some d"
  shows "objs (w_bucket (snd (run_op s op w))) (object_path (st_scope s) (file_object l n)) = Some d"
proof (cases "file_object l n \<in> set (op_objects op)")
  case False
  with run_op_frame [OF prod.collapse [symmetric] assms(1,3)] assms(4) show ?thesis by simp
next
  case True
  then obtain now b opts where op: "op = OpAddFile now l n b opts"
    by (auto dest: file_object_op)
  have no: "\<not> cc_allow_overwrite (new_create_config opts)" using assms(2) op by simp
  show ?thesis
  proof (cases "op_error op")
    case (Some e)
    then have "run_op s op w = (Inl e, w)"
      using gated_run_op [of s op] by (simp add: gated_def first_err.simps)
    with assms(4) show ?thesis by simp
  next
    case None
    define f where "f = level_file s l n"
    have ne: "object_path (st_scope s) (file_object l n)
        \<noteq> object_path (st_scope s) (file_meta_object l n)"
      using object_path_inj assms(3) op_objects_valid [OF None, of "file_meta_object l n"] op
        level_objects_distinct(1) by (metis list.set_intros(1,2) op_objects.simps(6))
    let ?m = "\<lambda>w. snd (write_file s now (f_blob_key f) (f_meta_key f) b (new_create_config opts) w)"
    have keep: "objs (w_bucket (?m w)) (f_blob_key f) = Some d"
      using upload_keeps [OF prod.collapse [symmetric] assms(1) no _ assms(4)] ne
      by (simp add: f_def)
    have "snd (run_op s op w) = w \<or> snd (run_op s op w) = ?m w"
      unfolding op run_op_add_file add_file_at_def act_void_def snd_then_ret f_def
      by (rule enter_then_ret)
    with keep assms(4) show ?thesis by (auto simp: f_def)
  qed
qed

end

text \<open>C2: a published file is immutable: once a file of the store, of a package or of a version
  has bytes, no sequence of method calls whatever, failed ones included, changes or removes
  them, as long as no upload of that same file opts into overwriting.\<close>

theorem published_file_immutable:
  assumes "blob_bucket (st_ops s) objs"
    and "\<forall>op \<in> set calls. \<not> op_overwrites l n op"
    and "abs_store objs s w (file_object l n) = Some d"
  shows "abs_store objs s (run_ops s calls w) (file_object l n) = Some d"
  using assms(2,3)
proof (induction calls arbitrary: w)
  case (Cons op calls)
  then have "abs_store objs s (snd (run_op s op w)) (file_object l n) = Some d"
    using blob_bucket.run_op_keeps_file [OF assms(1) refl, of l n op w d]
    by (auto simp: abs_store_def split: if_splits)
  with Cons show ?case by simp
qed simp

theorem published_file_immutable_witness:
  "abs_store map_of (demo_store None)
     (run_ops (demo_store None)
        [OpAddFile 9 (LVer ''a'' ''1'') ''f'' (bytes_body ''other'') [],
         OpCacheDelete (LVer ''a'' ''1'') ''f'']
        (demo_world [(object_path ''npm/n'' (VersionFile ''a'' ''1'' ''f''), ''bytes'')]))
     (file_object (LVer ''a'' ''1'') ''f'') = Some ''bytes''"
proof (rule published_file_immutable)
  show "abs_store map_of (demo_store None)
      (demo_world [(object_path ''npm/n'' (VersionFile ''a'' ''1'' ''f''), ''bytes'')])
      (file_object (LVer ''a'' ''1'') ''f'') = Some ''bytes''"
    by (simp add: abs_store_def valid_object_def valid_name_iff)
qed (simp_all add: mem_bucket new_create_config_def empty_config_def)

section \<open>Verified uploads\<close>

text \<open>What an upload is refused for.\<close>

definition upload_rejected :: "'b store \<Rightarrow> body \<Rightarrow> create_config \<Rightarrow> bool" where
  "upload_rejected s b cfg \<longleftrightarrow>
     bd_err b \<noteq> None \<or> \<not> expected_ok s (bd_data b) (cc_expected cfg)"

lemma expected_ok_simps [simp]:
  "expected_ok s data []"
  "expected_ok s data (e # es) \<longleftrightarrow>
     (\<exists>h. st_hash s (ed_hash e) = Some h \<and> h data = ed_sum e) \<and> expected_ok s data es"
  by (auto simp: expected_ok_def split: option.splits)

lemma verify_all_None:
  "make_verifiers s es = Some vs \<Longrightarrow> \<not> expected_ok s data es \<Longrightarrow> verify_all data vs ds = None"
  by (induction es arbitrary: vs ds)
    (auto split: option.split_asm)

context blob_bucket
begin

lemma abort_with_after:
  "st_ops s = ops \<Longrightarrow> objs (w_bucket (snd (abort_with s k b e w))) = objs (w_bucket w)"
  by (rule abort_with_objs [OF prod.collapse [symmetric]])

lemma rejected_write_file:
  assumes "write_file s now bk mk b cfg w = (r, w')" "st_ops s = ops" "upload_rejected s b cfg"
  shows "isl r" "objs (w_bucket w') = objs (w_bucket w)"
proof -
  have opened: "isl (fst (write_opened s now bk mk b cfg w1))
      \<and> objs (w_bucket (snd (write_opened s now bk mk b cfg w1))) = objs (w_bucket w1)" for w1
  proof (cases "make_verifiers s (cc_expected cfg)")
    case None
    then show ?thesis
      by (simp add: write_opened_def abort_with_eq abort_with_after [OF assms(2)])
  next
    case (Some vs)
    obtain r2 w2 where st: "stream_body s bk b w1 = (r2, w2)" by fastforce
    then have w2: "w_bucket w2 = w_bucket w1" using keepsD [OF keeps_stream] by blast
    have ab: "isl (fst ((abort_with s bk b e :: ('b, meta) act) w2)) \<and>
        objs (w_bucket (snd ((abort_with s bk b e :: ('b, meta) act) w2))) = objs (w_bucket w1)" for e
      by (simp add: abort_with_eq abort_with_after [OF assms(2)] w2)
    show ?thesis
    proof (cases r2)
      case (Inl e)
      with Some st ab show ?thesis by (simp add: write_opened_def act_catch_def)
    next
      case (Inr u)
      then have "bd_err b = None" using stream_body_Inr st by blast
      then have "verify_all (bd_data b) vs [] = None"
        using assms(3) verify_all_None [OF Some] by (simp add: upload_rejected_def)
      with Some st Inr ab show ?thesis by (simp add: write_opened_def act_catch_def)
    qed
  qed
  have "isl (fst (write_file s now bk mk b cfg w))
      \<and> objs (w_bucket (snd (write_file s now bk mk b cfg w))) = objs (w_bucket w)"
  proof -
    let ?p = "if cc_allow_overwrite cfg then act_ret ()
        else act_bind (act_wrap map_err (b_exists s bk))
               (\<lambda>ex. if ex then act_fail ErrAlreadyExists else act_ret ())"
    let ?q = "act_wrap map_err (b_new_writer s bk (\<not> cc_allow_overwrite cfg))"
    obtain r1 w1 where p: "?p w = (r1, w1)" by fastforce
    obtain r2 w2 where q: "?q w1 = (r2, w2)" by fastforce
    have k: "w_bucket w1 = w_bucket w" "w_bucket w2 = w_bucket w1"
      by (rule keepsD [OF keeps_probe_free p], rule keepsD [OF keeps_wrap [OF keeps_prims(4)] q])
    show ?thesis
      unfolding write_file_def
      using p q k opened [of w2] by (cases r1; cases r2) (simp_all del: if_split)
  qed
  with assms(1) show "isl r" "objs (w_bucket w') = objs (w_bucket w)" by auto
qed

end

lemma act_void_fst: "isl (fst (act_void m w)) = isl (fst (m w))"
  by (auto simp: act_void_def act_bind_def act_ret_def split: prod.splits sum.splits)

text \<open>C4: an upload whose body ends early, whose digest does not match one the caller declared,
  or that declares a digest of an unavailable hash, fails and leaves the bucket as it was: no
  partial or corrupt blob and no sidecar, on any backend.\<close>

theorem rejected_upload_leaves_nothing:
  assumes "blob_bucket (st_ops s) objs"
    and "upload_rejected s b (new_create_config opts)"
    and "run_op s (OpAddFile now l n b opts) w = (r, w')"
  shows "isl r \<and> objs (w_bucket w') = objs (w_bucket w)"
proof -
  let ?f = "level_file s l n"
  let ?m = "write_file s now (f_blob_key ?f) (f_meta_key ?f) b (new_create_config opts)"
  have m: "isl (fst (?m w))" "objs (w_bucket (snd (?m w))) = objs (w_bucket w)"
    using blob_bucket.rejected_write_file [OF assms(1) prod.collapse [symmetric] refl assms(2)]
    by blast+
  have "run_op s (OpAddFile now l n b opts) w = (Inl e, w)"
    if "first_err [f_err ?f, guard_verdict s True] = Some e" for e
    using that gated_run_op [of s "OpAddFile now l n b opts"]
    by (simp add: gated_def op_error_def del: run_op_add_file)
  moreover have "isl (fst (run_op s (OpAddFile now l n b opts) w))
      \<and> snd (run_op s (OpAddFile now l n b opts) w) = snd (?m w)"
    if "first_err [f_err ?f, guard_verdict s True] = None"
    using that m(1)
    by (simp only: run_op_add_file add_file_at_def enter_open act_void_fst)
      (auto simp: act_void_def snd_then_ret act_bind_def act_ret_def split: prod.splits sum.splits)
  ultimately show ?thesis
    using m(2) assms(3) by (cases "first_err [f_err ?f, guard_verdict s True]") auto
qed

theorem rejected_upload_leaves_nothing_witness:
  "isl (fst (run_op (demo_store None)
      (OpAddFile 9 LStore ''f'' (bytes_body ''ab'') [WithExpectedDigests [\<lparr>ed_hash = SHA1, ed_sum = ''ab''\<rparr>]])
      (demo_world [])))"
  using rejected_upload_leaves_nothing [where s = "demo_store None" and objs = map_of
      and opts = "[WithExpectedDigests [\<lparr>ed_hash = SHA1, ed_sum = ''ab''\<rparr>]]"
      and b = "bytes_body ''ab''" and now = 9 and l = LStore and n = "''f''" and w = "demo_world []",
      OF _ _ prod.collapse [symmetric]]
  by (simp add: mem_bucket upload_rejected_def expected_ok_def new_create_config_def
      empty_config_def demo_store_def bytes_body_def del: run_op.simps run_op_add_file)

end
