(* ===== verification/Blob_Listing.thy ===== *)
theory Blob_Listing
  imports Blob_Properties "HOL-Library.Multiset"
begin

text \<open>
  Listings and existence.  They hold for a store that owns its scope: every object below the
  scope's prefix is the object of a record with valid names, which every method preserves.
\<close>

section \<open>Ownership of the scope\<close>

definition owns_scope :: "('b \<Rightarrow> string \<rightharpoonup> string) \<Rightarrow> 'b store \<Rightarrow> 'b world \<Rightarrow> bool" where
  "owns_scope objs s w \<longleftrightarrow>
     (\<forall>k d. objs (w_bucket w) k = Some d \<longrightarrow> prefix (scope_prefix (st_scope s)) k \<longrightarrow>
        (\<exists>ob. valid_object ob \<and> k = object_path (st_scope s) ob))"

lemma owns_scopeD:
  assumes "owns_scope objs s w" "objs (w_bucket w) k = Some d"
    "prefix (scope_prefix (st_scope s)) k"
  obtains ob where "valid_object ob" "k = object_path (st_scope s) ob"
    "abs_store objs s w ob = Some d"
  using assms by (auto simp: owns_scope_def abs_store_def)

text \<open>C10: every method preserves the ownership of the scope: whatever it returns, each object
  below the scope's prefix still is the object of a record with valid names.\<close>

theorem ownership_preserved:
  assumes "blob_bucket (st_ops s) objs" "owns_scope objs s w" "run_op s op w = (r, w')"
  shows "owns_scope objs s w'"
proof (cases "op_error op")
  case (Some e)
  then have "w' = w" using gated_run_op [of s op] assms(3) by (simp add: gated_def first_err.simps)
  with assms(2) show ?thesis by simp
next
  case None
  have "\<exists>ob. valid_object ob \<and> k = object_path (st_scope s) ob"
    if k: "objs (w_bucket w') k = Some d" "prefix (scope_prefix (st_scope s)) k" for k d
  proof (cases "k \<in> object_path (st_scope s) ` set (op_objects op)")
    case True
    then show ?thesis using op_objects_valid [OF None] by blast
  next
    case False
    from touchesD [OF blob_bucket.touches_run_op [OF assms(1) refl] assms(3) this] k(1)
    have "objs (w_bucket w) k = Some d" by simp
    with assms(2) k(2) show ?thesis by (auto simp: owns_scope_def)
  qed
  then show ?thesis by (simp add: owns_scope_def)
qed

theorem ownership_preserved_witness:
  "owns_scope map_of (demo_store None)
     (snd (run_op (demo_store None) (OpSetTag ''a'' ''t'' ''1'') (demo_world [])))"
  by (rule ownership_preserved [where s = "demo_store None" and w = "demo_world []",
        OF _ _ prod.collapse [symmetric]])
    (simp_all add: mem_bucket owns_scope_def)

lemma demo_owns:
  "valid_object ob \<Longrightarrow> owns_scope map_of (demo_store g) (demo_world [(object_path ''npm/n'' ob, d)])"
  by (auto simp: owns_scope_def split: if_splits)

text \<open>The bucket of the examples: one version file.\<close>

definition demo_listed :: "mem_bucket world" where
  "demo_listed = demo_world [(object_path ''npm/n'' (VersionFile ''a'' ''1'' ''f''), ''x'')]"

lemma demo_listed_owns: "owns_scope map_of (demo_store g) demo_listed"
  unfolding demo_listed_def by (rule demo_owns) (simp add: valid_object_def valid_name_iff)

section \<open>Listings\<close>

text \<open>The base names directly below a prefix.\<close>

definition child_names :: "(string \<rightharpoonup> string) \<Rightarrow> string \<Rightarrow> string set" where
  "child_names m pre =
     {seg. seg \<noteq> '''' \<and> CHR ''/'' \<notin> set seg \<and> \<not> is_dot_entry seg
           \<and> (pre @ seg \<in> dom m \<or> (\<exists>r. pre @ seg @ ''/'' @ r \<in> dom m))}"

lemma trim_entry_dir:
  "CHR ''/'' \<notin> set seg \<Longrightarrow> trim_suffix (trim_prefix (pre @ seg @ ''/'') pre) ''/'' = seg"
  by (simp add: trim_prefix_def trim_suffix_def has_prefix_def has_suffix_def)

lemma trim_entry_obj:
  "CHR ''/'' \<notin> set seg \<Longrightarrow> trim_suffix (trim_prefix (pre @ seg) pre) ''/'' = seg"
  by (auto simp: trim_prefix_def trim_suffix_def has_prefix_def has_suffix_def suffix_def)

lemma list_spec_names:
  "(\<lambda>e. trim_suffix (trim_prefix (fst e) pre) ''/'') ` list_spec m pre True
     \<inter> {n. \<not> (n = '''' \<or> is_dot_entry n)} = child_names m pre"
proof (intro equalityI subsetI)
  fix n
  assume n: "n \<in> (\<lambda>e. trim_suffix (trim_prefix (fst e) pre) ''/'') ` list_spec m pre True
     \<inter> {n. \<not> (n = '''' \<or> is_dot_entry n)}"
  then obtain e where e: "e \<in> list_spec m pre True"
    "n = trim_suffix (trim_prefix (fst e) pre) ''/''" by blast
  from e(1) consider (is_obj) seg where "e = (pre @ seg, False)" "pre @ seg \<in> dom m" "CHR ''/'' \<notin> set seg"
    | (is_dir) seg r where "e = (pre @ seg @ ''/'', True)" "CHR ''/'' \<notin> set seg"
      "pre @ seg @ ''/'' @ r \<in> dom m"
    by (auto simp: list_spec_def prefix_def dom_def)
  then show "n \<in> child_names m pre"
  proof cases
    case is_obj
    with n e(2) show ?thesis by (auto simp: child_names_def trim_entry_obj)
  next
    case is_dir
    with n e(2) trim_entry_dir [of seg pre] show ?thesis by (auto simp: child_names_def)
  qed
next
  fix n
  assume n: "n \<in> child_names m pre"
  then have nn: "CHR ''/'' \<notin> set n" "\<not> (n = '''' \<or> is_dot_entry n)"
    by (auto simp: child_names_def)
  have "(pre @ n, False) \<in> list_spec m pre True \<or> (pre @ n @ ''/'', True) \<in> list_spec m pre True"
    using n by (auto simp: child_names_def list_spec_def)
  then show "n \<in> (\<lambda>e. trim_suffix (trim_prefix (fst e) pre) ''/'') ` list_spec m pre True
     \<inter> {n. \<not> (n = '''' \<or> is_dot_entry n)}"
    using nn trim_entry_dir [OF nn(1), of pre] trim_entry_obj [OF nn(1), of pre]
    by (auto simp: image_iff) (metis fst_conv)+
qed

context blob_bucket
begin

lemma list_child_names_Inr:
  assumes "list_child_names s pre w = (Inr names, w')" "st_ops s = ops"
  shows "set names = child_names (objs (w_bucket w)) pre" "sorted names"
proof -
  obtain es where es: "bo_list ops (w_bucket w) pre True = (es, None)"
    "names = sort (filter (\<lambda>n. \<not> (n = '''' \<or> is_dot_entry n))
        (map (\<lambda>e. trim_suffix (trim_prefix (fst e) pre) ''/'') es))"
    using assms by (auto simp: list_child_names_def Let_def split: prod.splits option.splits)
  then show "sorted names" by simp
  have "set names = (\<lambda>e. trim_suffix (trim_prefix (fst e) pre) ''/'') ` set es
      \<inter> {n. \<not> (n = '''' \<or> is_dot_entry n)}"
    using es(2) by auto
  also have "set es = list_spec (objs (w_bucket w)) pre True"
    using list_None [OF es(1)] by simp
  finally show "set names = child_names (objs (w_bucket w)) pre"
    by (simp only: list_spec_names)
qed

lemma has_descendant_Inr:
  assumes "has_descendant s pre w = (Inr b, w')" "st_ops s = ops"
  shows "b \<longleftrightarrow> (\<exists>k \<in> dom (objs (w_bucket w)). prefix pre k)"
proof -
  obtain es r where es: "bo_list ops (w_bucket w) pre False = (es, r)" by fastforce
  show ?thesis
  proof (cases es)
    case Nil
    with assms es have "r = None" "b = False"
      by (auto simp: has_descendant_def split: option.splits)
    with list_None [of "w_bucket w" pre False es] es Nil show ?thesis
      by (auto simp: list_spec_def)
  next
    case (Cons e es')
    with assms es have "b = True" by (auto simp: has_descendant_def)
    moreover have "e \<in> list_spec (objs (w_bucket w)) pre False"
      using list_some [OF es] Cons by auto
    ultimately show ?thesis by (auto simp: list_spec_def)
  qed
qed

end

section \<open>Listings over the abstract store\<close>

text \<open>A directory of the layout, given by its segments below the scope.\<close>

definition dir_path :: "string list \<Rightarrow> string" where
  "dir_path D = concat (map (\<lambda>d. d @ ''/'') D)"

lemma dir_path_simps [simp]: "dir_path [] = ''''" "dir_path (d # D) = d @ ''/'' @ dir_path D"
  by (simp_all add: dir_path_def)

lemma slash_split_eq:
  "(c :: char) \<notin> set x \<Longrightarrow> c \<notin> set d \<Longrightarrow> x @ c # a = d @ c # b \<longleftrightarrow> x = d \<and> a = b"
  using split_on_append [of c x a] split_on_append [of c d b] by auto

lemma join_dir_path:
  assumes "\<forall>x \<in> set D \<union> set xs. CHR ''/'' \<notin> set x" "xs \<noteq> []"
  shows "join ''/'' xs = dir_path D @ rest
    \<longleftrightarrow> (\<exists>ys. xs = D @ ys \<and> ys \<noteq> [] \<and> rest = join ''/'' ys)"
  using assms
proof (induction D arbitrary: xs)
  case (Cons d D)
  then obtain x xs' where xs: "xs = x # xs'" by (cases xs) auto
  show ?case
  proof (cases xs')
    case Nil
    then show ?thesis using Cons.prems xs by auto
  next
    case (Cons y zs)
    then have "join ''/'' xs = d @ CHR ''/'' # (dir_path D @ rest)
        \<longleftrightarrow> x = d \<and> join ''/'' xs' = dir_path D @ rest"
      using Cons.prems xs by (simp add: slash_split_eq)
    with Cons.IH [of xs'] Cons.prems xs Cons show ?thesis by auto
  qed
qed auto

lemma child_names_abs:
  assumes "owns_scope objs s w" "\<forall>x \<in> set D. CHR ''/'' \<notin> set x"
  shows "child_names (objs (w_bucket w)) (scope_prefix (st_scope s) @ dir_path D)
    = {seg. seg \<noteq> '''' \<and> \<not> is_dot_entry seg
         \<and> (\<exists>ob r. abs_store objs s w ob \<noteq> None \<and> object_segments ob = D @ seg # r)}"
    (is "?L = ?R")
proof (intro equalityI subsetI)
  let ?pre = "scope_prefix (st_scope s)"
  fix seg
  assume "seg \<in> ?L"
  then obtain k where k: "k \<in> dom (objs (w_bucket w))"
    "k = ?pre @ dir_path D @ seg \<or> (\<exists>r. k = ?pre @ dir_path D @ seg @ ''/'' @ r)"
    and seg: "seg \<noteq> ''''" "\<not> is_dot_entry seg" "CHR ''/'' \<notin> set seg"
    by (auto simp: child_names_def)
  then have "prefix ?pre k" by auto
  with k(1) obtain ob where ob: "k = object_path (st_scope s) ob" "abs_store objs s w ob \<noteq> None"
    by (auto elim!: owns_scopeD [OF assms(1)])
  have no: "\<forall>x \<in> set D \<union> set (object_segments ob). CHR ''/'' \<notin> set x"
    using assms(2) object_segments_no_slash by blast
  obtain rest where rest: "join ''/'' (object_segments ob) = dir_path D @ rest"
    "rest = seg \<or> (\<exists>r. rest = seg @ ''/'' @ r)"
    using k(2) ob(1) by (auto simp: object_path_segments)
  then obtain ys where ys: "object_segments ob = D @ ys" "ys \<noteq> []" "rest = join ''/'' ys"
    using join_dir_path [OF no object_segments_nonempty] by auto
  have "hd ys = seg"
  proof -
    have "ys = split_on CHR ''/'' rest"
      using ys no by (simp add: split_on_join)
    then show ?thesis
      using rest(2) seg(3) by (auto simp: split_on_no_sep split_on_append)
  qed
  with ys have "object_segments ob = D @ seg # tl ys" by (cases ys) auto
  with ob seg show "seg \<in> ?R" by blast
next
  fix seg
  assume "seg \<in> ?R"
  then obtain ob r where ob: "abs_store objs s w ob \<noteq> None" "object_segments ob = D @ seg # r"
    and seg: "seg \<noteq> ''''" "\<not> is_dot_entry seg" by blast
  have no: "CHR ''/'' \<notin> set seg"
    using object_segments_no_slash [of seg ob] ob(2) by simp
  have "\<exists>d. objs (w_bucket w) (object_path (st_scope s) ob) = Some d"
    using ob(1) by (auto simp: abs_store_def split: if_splits)
  moreover have "join ''/'' (D @ seg # r) = dir_path D @ join ''/'' (seg # r)"
    by (induction D) (auto simp: join_Cons)
  ultimately show "seg \<in> ?L"
    using seg no ob(2) by (cases r) (auto simp: child_names_def object_path_segments)
qed

text \<open>The package, the version, the tag and the file an object belongs to.\<close>

fun object_package :: "store_object \<Rightarrow> string option" where
  "object_package (StoreFile _) = None"
| "object_package (StoreFileMeta _) = None"
| "object_package (StoreCache _) = None"
| "object_package (StoreCacheMeta _) = None"
| "object_package ob = Some (hd (object_names ob))"

fun object_version :: "store_object \<Rightarrow> (string \<times> string) option" where
  "object_version (VersionMeta p v) = Some (p, v)"
| "object_version (VersionFile p v _) = Some (p, v)"
| "object_version (VersionFileMeta p v _) = Some (p, v)"
| "object_version (VersionCache p v _) = Some (p, v)"
| "object_version (VersionCacheMeta p v _) = Some (p, v)"
| "object_version _ = None"

fun level_segments :: "level \<Rightarrow> string list" where
  "level_segments LStore = []"
| "level_segments (LPkg p) = [encode_segment p]"
| "level_segments (LVer p v) = [encode_segment p, encode_segment v]"

lemma valid_enc [simp]:
  "valid_name n \<Longrightarrow> encode_segment n \<noteq> '''' \<and> \<not> is_dot_entry (encode_segment n)"
  using seg.enc_nonempty [of n] seg.enc_no_dot [of n]
  by (cases "encode_segment n") (auto simp: is_dot_entry_def has_prefix_def)

lemma dot_names [simp]:
  "is_dot_entry ''.files''" "is_dot_entry ''.cache''" "is_dot_entry ''.meta''"
  "is_dot_entry ''.tags''" "is_dot_entry (CHR ''.'' # x)"
  by (simp_all add: is_dot_entry_def has_prefix_def)

lemma abs_valid: "abs_store objs s w ob \<noteq> None \<Longrightarrow> valid_object ob"
  by (auto simp: abs_store_def split: if_splits)

text \<open>The non-dot entries of each directory, as images of names.\<close>

lemma entries_scope:
  "valid_object ob \<Longrightarrow> object_segments ob = seg # r \<Longrightarrow> \<not> is_dot_entry seg
    \<Longrightarrow> \<exists>p. object_package ob = Some p \<and> seg = encode_segment p"
  by (cases ob) auto

lemma entries_scope_conv:
  "object_package ob = Some p \<Longrightarrow> \<exists>r. object_segments ob = encode_segment p # r"
  by (cases ob) auto

lemma entries_package:
  "valid_object ob \<Longrightarrow> object_segments ob = encode_segment p # seg # r \<Longrightarrow> \<not> is_dot_entry seg
    \<Longrightarrow> valid_name p \<Longrightarrow> \<exists>v. object_version ob = Some (p, v) \<and> seg = encode_segment v"
  by (cases ob) (auto simp: valid_object_def)

lemma entries_package_conv:
  "object_version ob = Some (p, v) \<Longrightarrow> \<exists>r. object_segments ob = encode_segment p # encode_segment v # r"
  by (cases ob) auto

lemma entries_tags:
  "valid_object ob \<Longrightarrow> object_segments ob = [encode_segment p, ''.tags''] @ seg # r
    \<Longrightarrow> \<exists>t. ob = PackageTag p t \<and> seg = encode_segment t"
  by (cases ob) (auto simp: valid_object_def)

lemma entries_files:
  "valid_object ob \<Longrightarrow> object_segments ob = level_segments l @ [''.files''] @ seg # r
    \<Longrightarrow> \<forall>n \<in> set (level_names l). valid_name n \<Longrightarrow> \<not> is_dot_entry seg
    \<Longrightarrow> \<exists>n. ob = file_object l n \<and> seg = encode_segment n"
  by (cases ob; cases l) (auto simp: valid_object_def)

lemma entries_files_conv:
  "object_segments (file_object l n) = level_segments l @ [''.files''] @ [encode_segment n]"
  by (cases l) auto

context blob_bucket
begin

lemma listing_abs:
  assumes "list_child_names s (scope_prefix (st_scope s) @ dir_path D) w = (Inr names, w')"
    "st_ops s = ops" "owns_scope objs s w" "\<forall>x \<in> set D. CHR ''/'' \<notin> set x"
    and fwd: "\<And>ob sg r. abs_store objs s w ob \<noteq> None \<Longrightarrow> object_segments ob = D @ sg # r
        \<Longrightarrow> \<not> is_dot_entry sg \<Longrightarrow> \<exists>n \<in> N. sg = encode_segment n"
    and bwd: "\<And>n. n \<in> N \<Longrightarrow> valid_name n
        \<and> (\<exists>ob r. abs_store objs s w ob \<noteq> None \<and> object_segments ob = D @ encode_segment n # r)"
  shows "set (map decode_segment names) = N"
proof -
  have "child_names (objs (w_bucket w)) (scope_prefix (st_scope s) @ dir_path D)
      = encode_segment ` N"
    unfolding child_names_abs [OF assms(3,4)]
  proof (intro equalityI subsetI)
    fix x
    assume "x \<in> {seg. seg \<noteq> '''' \<and> \<not> is_dot_entry seg
         \<and> (\<exists>ob r. abs_store objs s w ob \<noteq> None \<and> object_segments ob = D @ seg # r)}"
    then obtain ob r where "abs_store objs s w ob \<noteq> None" "object_segments ob = D @ x # r"
      "\<not> is_dot_entry x" by blast
    from fwd [OF this] show "x \<in> encode_segment ` N" by blast
  next
    fix x
    assume "x \<in> encode_segment ` N"
    then obtain n where n: "n \<in> N" "x = encode_segment n" by blast
    from bwd [OF n(1)] valid_enc [of n] n(2)
    show "x \<in> {seg. seg \<noteq> '''' \<and> \<not> is_dot_entry seg
         \<and> (\<exists>ob r. abs_store objs s w ob \<noteq> None \<and> object_segments ob = D @ seg # r)}"
      by simp
  qed
  then have "set names = encode_segment ` N"
    using list_child_names_Inr(1) [OF assms(1,2)] by simp
  then show ?thesis by (force simp: seg.dec_enc image_iff)
qed

end

text \<open>C9: \<open>Packages\<close> lists exactly the packages under which the store holds some object: an
  envelope, a tag, a file, a cache entry or a version with any of these.\<close>

theorem packages_complete:
  assumes "blob_bucket (st_ops s) objs" "owns_scope objs s w"
    and "store_packages s w = (Inr ps, w')"
  shows "set (map p_name ps) = {p. \<exists>ob. abs_store objs s w ob \<noteq> None \<and> object_package ob = Some p}"
proof -
  obtain names w1 where names: "list_child_names s (scope_prefix (st_scope s) @ dir_path []) w = (Inr names, w1)"
    "ps = map (\<lambda>n. \<lparr>p_name = decode_segment n, p_err = None\<rparr>) names"
    using assms(3) by (auto simp: store_packages_def dest!: enter_Inr(2) elim!: act_bind_Inr)
  have "set (map decode_segment names)
      = {p. \<exists>ob. abs_store objs s w ob \<noteq> None \<and> object_package ob = Some p}"
  proof (rule blob_bucket.listing_abs [OF assms(1) names(1) refl assms(2)], simp, goal_cases)
    case (1 ob sg r)
    with entries_scope [OF abs_valid [OF 1(1)]] show ?case by auto
  next
    case (2 p)
    then obtain ob where ob: "abs_store objs s w ob \<noteq> None" "object_package ob = Some p" by blast
    then have "valid_name p"
      using abs_valid [OF ob(1)] by (cases ob) (auto simp: valid_object_def)
    with ob entries_scope_conv [OF ob(2)] show ?case by auto
  qed
  then show ?thesis by (simp add: names(2) comp_def)
qed

theorem packages_complete_witness:
  "{p. \<exists>ob. abs_store map_of (demo_store None) demo_listed ob \<noteq> None \<and> object_package ob = Some p} = {''a''}"
proof -
  have 1: "fst (store_packages (demo_store None) demo_listed) = Inr [\<lparr>p_name = ''a'', p_err = None\<rparr>]" by code_simp
  have "{p. \<exists>ob. abs_store map_of (demo_store None) demo_listed ob \<noteq> None \<and> object_package ob = Some p} = {''a''}"
    using packages_complete [where objs = map_of, OF _ demo_listed_owns act_eval [OF 1]]
    by (simp add: mem_bucket)
  then show ?thesis by simp
qed

text \<open>\<open>Versions\<close> lists exactly the versions of the package under which some object exists,
  and never the package's own envelope, tags, files or cache.\<close>

theorem versions_complete:
  assumes "blob_bucket (st_ops s) objs" "owns_scope objs s w"
    and "pkg_versions s (store_package p) w = (Inr vs, w')"
  shows "set (map v_name vs)
      = {v. \<exists>ob. abs_store objs s w ob \<noteq> None \<and> object_version ob = Some (p, v)}"
proof -
  have p: "valid_name p" using enter_Inr(1) assms(3) unfolding pkg_versions_def by fastforce
  obtain names w1 where names:
    "list_child_names s (scope_prefix (st_scope s) @ dir_path [encode_segment p]) w = (Inr names, w1)"
    "vs = map (\<lambda>n. \<lparr>v_pkg = store_package p, v_name = decode_segment n, v_err = None\<rparr>) names"
    using assms(3)
    by (auto simp: pkg_versions_def package_prefix_def dest!: enter_Inr(2) elim!: act_bind_Inr)
  have "set (map decode_segment names)
      = {v. \<exists>ob. abs_store objs s w ob \<noteq> None \<and> object_version ob = Some (p, v)}"
  proof (rule blob_bucket.listing_abs [OF assms(1) names(1) refl assms(2)],
      simp add: seg.enc_no_slash, goal_cases)
    case (1 ob sg r)
    with entries_package [OF abs_valid [OF 1(1)] _ _ p] show ?case by auto
  next
    case (2 v)
    then obtain ob where ob: "abs_store objs s w ob \<noteq> None" "object_version ob = Some (p, v)" by blast
    then have "valid_name v"
      using abs_valid [OF ob(1)] by (cases ob) (auto simp: valid_object_def)
    with ob entries_package_conv [OF ob(2)] show ?case by auto
  qed
  then show ?thesis by (simp add: names(2) comp_def)
qed

theorem versions_complete_witness:
  "{v. \<exists>ob. abs_store map_of (demo_store None) demo_listed ob \<noteq> None \<and> object_version ob = Some (''a'', v)} = {''1''}"
proof -
  have 1: "fst (pkg_versions (demo_store None) (store_package ''a'') demo_listed) = Inr [\<lparr>v_pkg = store_package ''a'', v_name = ''1'', v_err = None\<rparr>]" by code_simp
  have "{v. \<exists>ob. abs_store map_of (demo_store None) demo_listed ob \<noteq> None \<and> object_version ob = Some (''a'', v)} = {''1''}"
    using versions_complete [where objs = map_of, OF _ demo_listed_owns act_eval [OF 1]]
    by (simp add: mem_bucket)
  then show ?thesis by simp
qed

text \<open>The names below \<open>.tags\<close> are the tags that are set.\<close>

lemma tag_names:
  assumes "blob_bucket (st_ops s) objs" "owns_scope objs s w"
    and "list_child_names s (package_tags_prefix (st_scope s) p) w = (Inr names, w')"
  shows "set (map decode_segment names) = {t. abs_store objs s w (PackageTag p t) \<noteq> None}"
proof -
  have names: "list_child_names s (scope_prefix (st_scope s) @ dir_path [encode_segment p, ''.tags'']) w
       = (Inr names, w')"
    using assms(3) by (simp add: package_tags_prefix_def package_prefix_def tags_name_def)
  show ?thesis
  proof (rule blob_bucket.listing_abs [OF assms(1) names refl assms(2)],
      simp add: seg.enc_no_slash, goal_cases)
    case (1 ob sg r)
    with entries_tags [OF abs_valid [OF 1(1)], of p sg r] show ?case by auto
  next
    case (2 t)
    then have t: "abs_store objs s w (PackageTag p t) \<noteq> None" by simp
    then have "valid_name t" using abs_valid [OF t] by (simp add: valid_object_def)
    moreover have "object_segments (PackageTag p t) = [encode_segment p, ''.tags''] @ [encode_segment t]"
      by simp
    ultimately show ?case using t by blast
  qed
qed

text \<open>C10: \<open>Tags\<close> lists exactly the tags of the package that are set.\<close>

theorem tags_complete:
  assumes "blob_bucket (st_ops s) objs" "owns_scope objs s w"
    and "pkg_tags s (store_package p) w = (Inr ts, w')"
  shows "set (map t_name ts) = {t. abs_store objs s w (PackageTag p t) \<noteq> None}"
proof -
  obtain names w1 where names:
    "list_child_names s (package_tags_prefix (st_scope s) p) w = (Inr names, w1)"
    "ts = map (\<lambda>n. \<lparr>t_pkg = store_package p, t_name = decode_segment n, t_err = None\<rparr>) names"
    using assms(3) by (auto simp: pkg_tags_def dest!: enter_Inr(2) elim!: act_bind_Inr)
  then show ?thesis using tag_names [OF assms(1,2) names(1)] by (simp add: comp_def)
qed

theorem tags_complete_witness:
  "{t. abs_store map_of (demo_store None) demo_listed (PackageTag ''a'' t) \<noteq> None} = {}"
proof -
  have 1: "fst (pkg_tags (demo_store None) (store_package ''a'') demo_listed) = Inr []" by code_simp
  have "{t. abs_store map_of (demo_store None) demo_listed (PackageTag ''a'' t) \<noteq> None} = {}"
    using tags_complete [where objs = map_of, OF _ demo_listed_owns act_eval [OF 1]]
    by (simp add: mem_bucket)
  then show ?thesis by simp
qed

lemma collect_targets_Inr:
  assumes "blob_bucket (st_ops s) objs"
    and "collect_targets s p ns first out w = (Inr m, w')"
  shows "first = None
    \<and> (\<forall>t. map_of m t = (if t \<in> decode_segment ` set ns
                 then map_option trim_space (objs (w_bucket w) (tag_path (st_scope s) p t))
                 else map_of out t))"
  using assms(2)
proof (induction ns arbitrary: first out w)
  case (Cons n ns)
  obtain r w1 where r: "read_tag_target s p (decode_segment n) w = (r, w1)" by fastforce
  have w1: "w_bucket w1 = w_bucket w" by (rule keepsD [OF keeps_read_tag_target r])
  show ?case
  proof (cases r)
    case (Inl e)
    then obtain e' where "collect_targets s p ns (Some e') out w1 = (Inr m, w')"
      using Cons.prems r by (cases first) (auto simp: act_catch_def)
    from Cons.IH [OF this] show ?thesis by simp
  next
    case (Inr target)
    then have rest: "collect_targets s p ns first (AList.update (decode_segment n) target out) w1 = (Inr m, w')"
      using Cons.prems r by (simp add: act_catch_def)
    obtain raw w2 where "b_read_all s (tag_path (st_scope s) p (decode_segment n)) w = (Inr raw, w2)"
      "target = trim_space raw"
      using r Inr by (auto simp: read_tag_target_def act_wrap_Inr elim!: act_bind_Inr)
    with blob_bucket.b_read_all_Inr [OF assms(1) _ refl]
    have "map_option trim_space (objs (w_bucket w) (tag_path (st_scope s) p (decode_segment n)))
        = Some target" by fastforce
    with Cons.IH [OF rest] w1 show ?thesis by (auto simp: update_conv')
  qed
qed (auto split: option.splits)

text \<open>\<open>TagTargets\<close> resolves every tag of the package, and the order in which its concurrent
  reads finish does not matter: whatever the permutation, a successful call returns the map of
  exactly the tags that are set to their trimmed targets.\<close>

theorem tag_targets_complete:
  assumes "blob_bucket (st_ops s) objs" "owns_scope objs s w"
    and "\<And>ns. mset (finish ns) = mset ns"
    and "pkg_tag_targets s finish (store_package p) w = (Inr m, w')"
  shows "map_of m = (\<lambda>t. map_option trim_space (abs_store objs s w (PackageTag p t)))"
proof -
  have p: "valid_name p" using enter_Inr(1) assms(4) unfolding pkg_tag_targets_def by fastforce
  obtain names w1 where names:
    "list_child_names s (package_tags_prefix (st_scope s) p) w = (Inr names, w1)"
    "collect_targets s p (finish names) None [] w1 = (Inr m, w')"
    using assms(4) by (auto simp: pkg_tag_targets_def dest!: enter_Inr(2) elim!: act_bind_Inr)
  have w1: "w_bucket w1 = w_bucket w" by (rule keepsD [OF keeps_list_child_names names(1)])
  have fin: "decode_segment ` set (finish names) = {t. abs_store objs s w (PackageTag p t) \<noteq> None}"
    using tag_names [OF assms(1,2) names(1)] mset_eq_setD [OF assms(3) [of names]] by simp
  show ?thesis
  proof
    fix t
    have "map_of m t = (if t \<in> decode_segment ` set (finish names)
                 then map_option trim_space (objs (w_bucket w) (tag_path (st_scope s) p t))
                 else None)"
      using collect_targets_Inr [OF assms(1) names(2)] w1 by simp
    then show "map_of m t = map_option trim_space (abs_store objs s w (PackageTag p t))"
      unfolding fin by (auto simp: abs_store_def split: if_splits)
  qed
qed

theorem tag_targets_complete_witness:
  "map_of (projr (fst (pkg_tag_targets (demo_store None) rev (store_package ''a'')
      (demo_world [(object_path ''npm/n'' (PackageTag ''a'' ''t''), ''1 '')]))))
    = (\<lambda>t. map_option trim_space (abs_store map_of (demo_store None)
        (demo_world [(object_path ''npm/n'' (PackageTag ''a'' ''t''), ''1 '')]) (PackageTag ''a'' t)))"
proof -
  let ?w = "demo_world [(object_path ''npm/n'' (PackageTag ''a'' ''t''), ''1 '')]"
  have "\<not> isl (fst (pkg_tag_targets (demo_store None) rev (store_package ''a'') ?w))"
    by code_simp
  then obtain m where m: "fst (pkg_tag_targets (demo_store None) rev (store_package ''a'') ?w) = Inr m"
    by (cases "fst (pkg_tag_targets (demo_store None) rev (store_package ''a'') ?w)") auto
  have "map_of m = (\<lambda>t. map_option trim_space (abs_store map_of (demo_store None) ?w (PackageTag ''a'' t)))"
    by (rule tag_targets_complete [where objs = map_of, OF _ demo_owns _ act_eval [OF m]])
      (simp_all add: mem_bucket valid_object_def valid_name_iff)
  with m show ?thesis by simp
qed

text \<open>The three levels' \<open>Files\<close>.\<close>

definition level_files :: "'b store \<Rightarrow> level \<Rightarrow> ('b, file_handle list) act" where
  "level_files s l =
     (case l of
        LStore \<Rightarrow> store_files s
      | LPkg p \<Rightarrow> pkg_files s (store_package p)
      | LVer p v \<Rightarrow> version_files s (pkg_version (store_package p) v))"

lemma level_files_names:
  assumes "level_files s l w = (Inr fs, w')"
  obtains names w1 where "\<forall>n \<in> set (level_names l). valid_name n"
    "list_child_names s (scope_prefix (st_scope s) @ dir_path (level_segments l @ [''.files''])) w
       = (Inr names, w1)"
    "map f_name fs = map decode_segment names"
proof (cases l)
  case LStore
  with assms that show ?thesis
    by (auto simp: level_files_def store_files_def files_prefix_def files_dir_def new_store_file_def
        comp_def dest!: enter_Inr(2) elim!: act_bind_Inr)
next
  case (LPkg p)
  have "valid_name p"
    using enter_Inr(1) assms LPkg unfolding level_files_def pkg_files_def by fastforce
  with assms that LPkg show ?thesis
    by (auto simp: level_files_def pkg_files_def files_prefix_def files_dir_def package_prefix_def
        new_package_file_def comp_def dest!: enter_Inr(2) elim!: act_bind_Inr)
next
  case (LVer p v)
  have "first_err [validate_name p, validate_name v] = None"
    using enter_Inr(1) assms LVer unfolding level_files_def version_files_def by fastforce
  with assms that LVer show ?thesis
    by (auto simp: level_files_def version_files_def files_prefix_def files_dir_def
        version_prefix_def package_prefix_def new_file_def comp_def first_err_eq_None
        dest!: enter_Inr(2) elim!: act_bind_Inr)
qed

text \<open>C9: \<open>Files\<close> lists exactly the files present at its level, and no sidecar.\<close>

theorem files_complete:
  assumes "blob_bucket (st_ops s) objs" "owns_scope objs s w" "level_files s l w = (Inr fs, w')"
  shows "set (map f_name fs) = {n. abs_store objs s w (file_object l n) \<noteq> None}"
proof -
  obtain names w1 where ok: "\<forall>n \<in> set (level_names l). valid_name n"
    and names: "list_child_names s (scope_prefix (st_scope s) @ dir_path (level_segments l @ [''.files''])) w
       = (Inr names, w1)" "map f_name fs = map decode_segment names"
    by (rule level_files_names [OF assms(3)])
  have no: "\<forall>x \<in> set (level_segments l @ [''.files'']). CHR ''/'' \<notin> set x"
    by (cases l) (auto simp: seg.enc_no_slash)
  have "set (map decode_segment names) = {n. abs_store objs s w (file_object l n) \<noteq> None}"
  proof (rule blob_bucket.listing_abs [OF assms(1) names(1) refl assms(2) no], goal_cases)
    case (1 ob sg r)
    with entries_files [OF abs_valid [OF 1(1)], of l sg r] ok show ?case by auto
  next
    case (2 n)
    then have n: "abs_store objs s w (file_object l n) \<noteq> None" by simp
    then have "valid_name n" using abs_valid [OF n] by (simp add: valid_object_def)
    moreover have "object_segments (file_object l n)
        = (level_segments l @ [''.files'']) @ encode_segment n # []"
      by (simp add: entries_files_conv)
    ultimately show ?case using n by blast
  qed
  then show ?thesis by (simp add: names(2))
qed

theorem files_complete_witness:
  "{n. abs_store map_of (demo_store None) demo_listed (file_object (LVer ''a'' ''1'') n) \<noteq> None} = {''f''}"
proof -
  have 1: "fst (level_files (demo_store None) (LVer ''a'' ''1'') demo_listed) = Inr [new_file (demo_store None) (pkg_version (store_package ''a'') ''1'') ''f'']" by code_simp
  have "{n. abs_store map_of (demo_store None) demo_listed (file_object (LVer ''a'' ''1'') n) \<noteq> None} = {''f''}"
    using files_complete [where objs = map_of, OF _ demo_listed_owns act_eval [OF 1]]
    by (simp add: mem_bucket new_file_def)
  then show ?thesis by simp
qed

text \<open>A package exists exactly if the store holds an envelope for it or anything below it.\<close>

theorem exists_iff_object:
  assumes "blob_bucket (st_ops s) objs" "owns_scope objs s w"
    and "pkg_exists s (store_package p) w = (Inr b, w')"
  shows "b \<longleftrightarrow> (\<exists>ob. abs_store objs s w ob \<noteq> None \<and> object_package ob = Some p)"
proof -
  let ?D = "dir_path [encode_segment p]"
  have p: "valid_name p" using enter_Inr(1) assms(3) unfolding pkg_exists_def by fastforce
  obtain ok w1 where ok: "b_exists s (package_meta_path (st_scope s) p) w = (Inr ok, w1)"
    "(if ok then act_ret True else has_descendant s (package_prefix (st_scope s) p)) w1 = (Inr b, w')"
    using enter_Inr(2) [OF assms(3) [unfolded pkg_exists_def]]
    by (simp add: probe_def act_wrap_Inr) (elim act_bind_Inr, simp add: act_wrap_Inr cong: if_cong)
  have w1: "w_bucket w1 = w_bucket w" by (rule keepsD [OF keeps_prims(1) ok(1)])
  have below: "(\<exists>k \<in> dom (objs (w_bucket w)). prefix (package_prefix (st_scope s) p) k)
      \<longleftrightarrow> (\<exists>ob. abs_store objs s w ob \<noteq> None \<and> object_package ob = Some p)" (is "?L \<longleftrightarrow> ?R")
  proof
    assume ?L
    then obtain k where k: "k \<in> dom (objs (w_bucket w))" "prefix (package_prefix (st_scope s) p) k"
      by blast
    then obtain r where r: "k = scope_prefix (st_scope s) @ ?D @ r"
      by (auto simp: package_prefix_def prefix_def)
    with k(1) obtain ob where ob: "k = object_path (st_scope s) ob" "abs_store objs s w ob \<noteq> None"
      by (auto elim!: owns_scopeD [OF assms(2)])
    have "join ''/'' (object_segments ob) = ?D @ r"
      using r ob(1) by (simp add: object_path_segments)
    then obtain ys where "object_segments ob = [encode_segment p] @ ys"
      using join_dir_path [of "[encode_segment p]" "object_segments ob" r]
      by (auto simp: seg.enc_no_slash dest: object_segments_no_slash)
    with entries_scope [OF abs_valid [OF ob(2)], of "encode_segment p" ys] valid_enc [OF p] ob(2)
    show ?R by auto
  next
    assume ?R
    then obtain ob where ob: "abs_store objs s w ob \<noteq> None" "object_package ob = Some p" by blast
    then obtain r where r: "object_segments ob = encode_segment p # r"
      using entries_scope_conv by blast
    have "r \<noteq> []" using ob(2) r by (cases ob) auto
    then have "prefix (package_prefix (st_scope s) p) (object_path (st_scope s) ob)"
      by (auto simp: object_path_segments package_prefix_def r join_Cons)
    moreover have "object_path (st_scope s) ob \<in> dom (objs (w_bucket w))"
      using ob(1) by (auto simp: abs_store_def split: if_splits)
    ultimately show ?L by blast
  qed
  show ?thesis
  proof (cases ok)
    case True
    then have "abs_store objs s w (PackageMeta p) \<noteq> None"
      using blob_bucket.b_exists_Inr [OF assms(1) ok(1) refl] p
      by (simp add: abs_store_def valid_object_def)
    moreover have b using True ok(2) by simp
    ultimately show ?thesis by force
  next
    case False
    then show ?thesis
      using blob_bucket.has_descendant_Inr [OF assms(1) _ refl] ok(2) w1 below by fastforce
  qed
qed

theorem exists_iff_object_witness:
  "\<exists>ob. abs_store map_of (demo_store None) demo_listed ob \<noteq> None \<and> object_package ob = Some ''a''"
proof -
  have 1: "fst (pkg_exists (demo_store None) (store_package ''a'') demo_listed) = Inr True" by code_simp
  have "\<exists>ob. abs_store map_of (demo_store None) demo_listed ob \<noteq> None \<and> object_package ob = Some ''a''"
    using exists_iff_object [where objs = map_of, OF _ demo_listed_owns act_eval [OF 1]]
    by (simp add: mem_bucket)
  then show ?thesis by simp
qed

end
