(* ===== verification/Blob_Roundtrip.thy ===== *)
theory Blob_Roundtrip
  imports Blob_Properties
begin

text \<open>
  Reading back what was written: uploads, tags and annotations, in any later world in which the
  record's own objects are still there.  The JSON codec is only asked to decode what it encoded
  for the envelope in question.
\<close>

section \<open>Reads over the abstract store\<close>

lemma enter_run:
  assumes "enter s e wr m w = (Inr x, w')"
  shows "m w = (Inr x, w')"
  using enter_Inr(2) [OF assms] .

lemma enter_names_ok:
  "enter s e wr m w = (Inr x, w') \<Longrightarrow> e = None"
  by (rule enter_Inr(1))

context blob_bucket
begin

lemma file_read_abs:
  assumes "file_read s (level_file s l n) w = (Inr (d, None), w')" "st_ops s = ops"
  shows "abs_store objs s w (file_object l n) = Some d"
proof -
  have ok: "first_err (map validate_name (level_names l @ [n])) = None"
    using enter_names_ok assms(1) unfolding file_read_def by fastforce
  have "b_new_reader s (object_path (st_scope s) (file_object l n)) w = (Inr (d, None), w')"
    using enter_run assms(1) unfolding file_read_def by (fastforce simp: act_wrap_Inr)
  from b_new_reader_Inr [OF this assms(2)] valid_level_objects(1) [OF ok]
  show ?thesis by (simp add: abs_store_def)
qed

lemma file_meta_abs:
  assumes "file_meta s t1 t2 t3 (level_file s l n) w = (Inr m, w')" "st_ops s = ops"
    "abs_store objs s w (file_meta_object l n) = Some d" "st_decode s d = Inr m'"
  shows "m = m'"
proof -
  let ?k = "object_path (st_scope s) (file_meta_object l n)"
  have k: "objs (w_bucket w) ?k = Some d"
    using assms(3) by (simp add: abs_store_def split: if_splits)
  have body: "act_catch (b_read_all s ?k)
        (\<lambda>r. case r of
             Inr raw \<Rightarrow>
               (case decode_meta s raw of
                  Inr m \<Rightarrow> act_ret m
                | Inl _ \<Rightarrow> recompute_meta s t1 t2 t3 (level_file s l n))
           | Inl e \<Rightarrow>
               (if gc_code e \<noteq> GcNotFound then act_fail (map_err e)
                else recompute_meta s t1 t2 t3 (level_file s l n))) w = (Inr m, w')"
    using enter_run assms(1) unfolding file_meta_def by fastforce
  show ?thesis
  proof (cases "bo_read_all ops (w_bucket w) ?k")
    case (Inl c)
    then have "c \<noteq> GcNotFound" using read_NotFound k by auto
    with body Inl assms(2) show ?thesis
      by (simp add: act_catch_def b_read_all_def b_query_def split: prod.splits)
  next
    case (Inr raw)
    then have "raw = d" using read_Inr k by fastforce
    with body Inr assms(2,4) show ?thesis
      by (simp add: act_catch_def b_read_all_def b_query_def decode_meta_def split: prod.splits)
  qed
qed

lemma read_meta_abs:
  assumes "read_meta s (object_path (st_scope s) ob) w = (Inr m, w')" "st_ops s = ops"
    "valid_object ob"
  obtains d where "abs_store objs s w ob = Some d" "st_decode s d = Inr m"
  using assms b_read_all_Inr
  by (fastforce simp: read_meta_def act_wrap_Inr abs_store_def decode_meta_def
      split: sum.splits elim!: act_bind_Inr)

end

section \<open>Round trips\<close>

text \<open>What a successful upload leaves in the store.\<close>

lemma upload_stored:
  assumes "blob_bucket (st_ops s) objs"
    and "run_op s (OpAddFile now l n b opts) w = (Inr u, w1)"
    and "\<And>d. st_decode s d \<noteq> Inl ErrNotFound"
  obtains j where "st_encode s (uploaded_meta s now (bd_data b) (new_create_config opts)) = Inr j"
    "abs_store objs s w1 (file_object l n) = Some (bd_data b)"
    "abs_store objs s w1 (file_meta_object l n) = Some j"
    "expected_ok s (bd_data b) (cc_expected (new_create_config opts))" "bd_err b = None"
    "cc_allow_overwrite (new_create_config opts) \<or> abs_store objs s w (file_object l n) = None"
proof -
  have "spec_op s (OpAddFile now l n b opts) (abs_store objs s w) = Some (abs_store objs s w1)"
    by (rule blob_bucket.run_op_refines [OF assms(1,2) refl assms(3)])
  then obtain j where "st_encode s (uploaded_meta s now (bd_data b) (new_create_config opts)) = Inr j"
    "abs_store objs s w1 = (abs_store objs s w)
        (file_object l n \<mapsto> bd_data b, file_meta_object l n \<mapsto> j)"
    "expected_ok s (bd_data b) (cc_expected (new_create_config opts))" "bd_err b = None"
    "cc_allow_overwrite (new_create_config opts) \<or> abs_store objs s w (file_object l n) = None"
    by (auto simp: spec_upload_def spec_create_def split: if_splits sum.splits)
  then show ?thesis by (intro that [of j]) simp_all
qed

text \<open>C5: an upload reads back: after a successful \<open>AddFile\<close> at any level, in any later world
  where the file's two objects are as it left them, \<open>Read\<close> delivers exactly the uploaded bytes,
  \<open>Meta\<close> reports their SHA-256, their length, the time of the upload, the digests the caller
  declared and the annotations of its options, and every declared digest was met.\<close>

theorem upload_reads_back:
  assumes "blob_bucket (st_ops s) objs"
    and "run_op s (OpAddFile now l n b opts) w = (Inr u, w1)"
    and "abs_store objs s w2 (file_object l n) = abs_store objs s w1 (file_object l n)"
    and "abs_store objs s w2 (file_meta_object l n) = abs_store objs s w1 (file_meta_object l n)"
    and "file_read s (level_file s l n) w2 = (Inr (d, None), w3)"
    and "file_meta s t1 t2 t3 (level_file s l n) w2 = (Inr m, w4)"
    and "\<And>d. st_decode s d \<noteq> Inl ErrNotFound"
    and "\<And>j. st_encode s (uploaded_meta s now (bd_data b) (new_create_config opts)) = Inr j \<Longrightarrow>
           st_decode s j = Inr (uploaded_meta s now (bd_data b) (new_create_config opts))"
  shows "d = bd_data b
       \<and> m = uploaded_meta s now (bd_data b) (new_create_config opts)
       \<and> expected_ok s (bd_data b) (cc_expected (new_create_config opts))"
proof -
  from upload_stored [OF assms(1,2,7)] obtain j where j:
    "st_encode s (uploaded_meta s now (bd_data b) (new_create_config opts)) = Inr j"
    "abs_store objs s w1 (file_object l n) = Some (bd_data b)"
    "abs_store objs s w1 (file_meta_object l n) = Some j"
    and ok: "expected_ok s (bd_data b) (cc_expected (new_create_config opts))" by blast
  have "d = bd_data b"
    using blob_bucket.file_read_abs [OF assms(1,5) refl] assms(3) j(2) by simp
  moreover have "m = uploaded_meta s now (bd_data b) (new_create_config opts)"
    using blob_bucket.file_meta_abs [OF assms(1,6) refl _ assms(8) [OF j(1)]] assms(4) j(3) by simp
  ultimately show ?thesis using ok by simp
qed

theorem upload_reads_back_witness:
  "fst (file_read (demo_store None) (level_file (demo_store None) LStore ''f'')
      (after (run_op (demo_store None) (OpAddFile 7 LStore ''f'' (bytes_body ''ab'') []))
        (demo_world []))) = Inr (bd_data (bytes_body ''ab''), None)"
proof -
  let ?s = "demo_store None" and ?op = "OpAddFile 7 LStore ''f'' (bytes_body ''ab'') []"
  let ?w = "after (run_op ?s ?op) (demo_world [])"
  have 1: "fst (run_op ?s ?op (demo_world [])) = Inr ()" by code_simp
  have 2: "fst (file_read ?s (level_file ?s LStore ''f'') ?w) = Inr (''ab'', None)" by code_simp
  have 3: "fst (file_meta ?s 1 2 3 (level_file ?s LStore ''f'') ?w) = Inr demo_meta" by code_simp
  have 4: "uploaded_meta ?s 7 (bd_data (bytes_body ''ab'')) (new_create_config []) = demo_meta"
    by code_simp
  have "''ab'' = bd_data (bytes_body ''ab'')
      \<and> demo_meta = uploaded_meta ?s 7 (bd_data (bytes_body ''ab'')) (new_create_config [])
      \<and> expected_ok ?s (bd_data (bytes_body ''ab'')) (cc_expected (new_create_config []))"
    by (rule upload_reads_back [where objs = map_of, OF _ act_eval [OF 1] refl refl act_eval [OF 2]
          act_eval [OF 3]])
      (auto simp: mem_bucket 4 [simplified] split: if_splits)
  with 2 show ?thesis by simp
qed

text \<open>A tag points where it was set: after \<open>SetTag\<close>, in any later world where the tag's
  object is as it left it, \<open>Ref\<close> resolves to the target without its surrounding white space, so
  to the target itself exactly when it has none.\<close>

theorem tag_reads_back:
  assumes "blob_bucket (st_ops s) objs"
    and "run_op s (OpSetTag p t target) w = (Inr u, w1)"
    and "abs_store objs s w2 (PackageTag p t) = abs_store objs s w1 (PackageTag p t)"
    and "tag_ref s (pkg_tag (store_package p) t) w2 = (Inr v, w3)"
    and "\<And>d. st_decode s d \<noteq> Inl ErrNotFound"
  shows "v_name v = trim_space target \<and> v_pkg v = store_package p"
proof -
  have valid: "valid_object (PackageTag p t)"
    using run_op_valid [OF assms(2)] by (auto simp: valid_object_def first_err_eq_None)
  have "abs_store objs s w1 (PackageTag p t) = Some target"
    using blob_bucket.run_op_refines [OF assms(1,2) refl assms(5)] by (simp; metis fun_upd_same)
  then have k: "objs (w_bucket w2) (tag_path (st_scope s) p t) = Some target"
    using assms(3) valid by (simp add: abs_store_def)
  have "act_bind (read_tag_target s p t)
      (\<lambda>x. act_ret \<lparr>v_pkg = store_package p, v_name = x, v_err = None\<rparr>) w2 = (Inr v, w3)"
    using enter_run assms(4) unfolding tag_ref_def by fastforce
  then obtain raw w' where "b_read_all s (tag_path (st_scope s) p t) w2 = (Inr raw, w')"
    "v = \<lparr>v_pkg = store_package p, v_name = trim_space raw, v_err = None\<rparr>"
    by (fastforce simp: read_tag_target_def act_wrap_Inr elim!: act_bind_Inr)
  with blob_bucket.b_read_all_Inr [OF assms(1) _ refl] k show ?thesis by fastforce
qed

theorem tag_reads_back_witness:
  "\<exists>v. fst (tag_ref (demo_store None) (pkg_tag (store_package ''a'') ''t'')
      (after (run_op (demo_store None) (OpSetTag ''a'' ''t'' ''1.0 '')) (demo_world []))) = Inr v
    \<and> v_name v = ''1.0''"
proof -
  let ?s = "demo_store None" and ?op = "OpSetTag ''a'' ''t'' ''1.0 ''"
  let ?w = "after (run_op ?s ?op) (demo_world [])"
  let ?v = "\<lparr>v_pkg = store_package ''a'', v_name = ''1.0'', v_err = None\<rparr>"
  have 1: "fst (run_op ?s ?op (demo_world [])) = Inr ()" by code_simp
  have 2: "fst (tag_ref ?s (pkg_tag (store_package ''a'') ''t'') ?w) = Inr ?v" by code_simp
  have "v_name ?v = trim_space ''1.0 '' \<and> v_pkg ?v = store_package ''a''"
    by (rule tag_reads_back [where objs = map_of, OF _ act_eval [OF 1] refl act_eval [OF 2]])
      (auto simp: mem_bucket split: if_splits)
  with 2 show ?thesis by auto
qed

text \<open>Annotating keeps the envelope: the envelope read after \<open>Annotate\<close> is the one before it
  with the annotations replaced and the update time set; its creation time, digest and size
  survive, and the creation time is set only if it was missing.\<close>

theorem annotate_reads_back:
  assumes "blob_bucket (st_ops s) objs"
    and "pkg_meta s (store_package p) w = (Inr m0, w0)"
    and "run_op s (OpPkgAnnotate now p ann) w0 = (Inr u, w1)"
    and "pkg_meta s (store_package p) w1 = (Inr m1, w2)"
    and "\<And>d. st_decode s d \<noteq> Inl ErrNotFound"
    and "\<And>j. st_encode s (m0\<lparr>m_created_at := (if m_created_at m0 = 0 then now else m_created_at m0),
               m_updated_at := now, m_annotations := ann\<rparr>) = Inr j \<Longrightarrow>
          st_decode s j = Inr (m0\<lparr>m_created_at := (if m_created_at m0 = 0 then now else m_created_at m0),
               m_updated_at := now, m_annotations := ann\<rparr>)"
  shows "m1 = m0\<lparr>m_created_at := (if m_created_at m0 = 0 then now else m_created_at m0),
                 m_updated_at := now, m_annotations := ann\<rparr>"
proof -
  have valid: "valid_object (PackageMeta p)"
    using run_op_valid [OF assms(3)] by (auto simp: valid_object_def first_err_eq_None)
  have r: "read_meta s (object_path (st_scope s) (PackageMeta p)) w = (Inr m0, w0)"
    "read_meta s (object_path (st_scope s) (PackageMeta p)) w1 = (Inr m1, w2)"
    using enter_run [OF assms(2) [unfolded pkg_meta_def]]
      enter_run [OF assms(4) [unfolded pkg_meta_def]] by simp_all
  obtain d0 where d0: "abs_store objs s w (PackageMeta p) = Some d0" "st_decode s d0 = Inr m0"
    by (rule blob_bucket.read_meta_abs [OF assms(1) r(1) refl valid])
  obtain d1 where d1: "abs_store objs s w1 (PackageMeta p) = Some d1" "st_decode s d1 = Inr m1"
    by (rule blob_bucket.read_meta_abs [OF assms(1) r(2) refl valid])
  have "abs_store objs s w0 = abs_store objs s w"
    by (rule keeps_abs [OF keeps_read_methods(3) assms(2)])
  then show ?thesis
    using blob_bucket.run_op_refines [OF assms(1,3) refl assms(5)] d0 d1 assms(6)
    by (auto simp: spec_annotate_def spec_create_def split: sum.splits dest!: fun_cong [of _ _ "PackageMeta p"])
qed

theorem annotate_reads_back_witness:
  "fst (pkg_meta (demo_store None) (store_package ''a'')
      (after (run_op (demo_store None) (OpPkgAnnotate 7 ''a'' []))
        (after (pkg_meta (demo_store None) (store_package ''a''))
          (demo_world [(object_path ''npm/n'' (PackageMeta ''a''), ''{}'')])))) = Inr demo_meta"
proof -
  let ?s = "demo_store None" and ?op = "OpPkgAnnotate 7 ''a'' []"
  let ?w = "demo_world [(object_path ''npm/n'' (PackageMeta ''a''), ''{}'')]"
  let ?wa = "after (pkg_meta ?s (store_package ''a'')) ?w"
  let ?wb = "after (run_op ?s ?op) ?wa"
  have 1: "fst (pkg_meta ?s (store_package ''a'') ?w) = Inr demo_meta" by code_simp
  have 2: "fst (run_op ?s ?op ?wa) = Inr ()" by code_simp
  have 3: "fst (pkg_meta ?s (store_package ''a'') ?wb) = Inr demo_meta" by code_simp
  have "demo_meta = demo_meta\<lparr>m_created_at := (if m_created_at demo_meta = 0 then 7 else m_created_at demo_meta),
                 m_updated_at := 7, m_annotations := []\<rparr>"
    by (rule annotate_reads_back [where objs = map_of, OF _ act_eval [OF 1] act_eval [OF 2] act_eval [OF 3]])
      (auto simp: mem_bucket demo_meta_def zero_meta_def split: if_splits)
  with 3 show ?thesis by simp
qed

text \<open>An instance of the gate: a reader's guard refuses a tag update.\<close>

theorem methods_gated_witness:
  "run_op (demo_store (Some (\<lambda>wr. if wr then Some ErrUnauthorized else None)))
      (OpSetTag ''a'' ''t'' ''1'') (demo_world []) = (Inl ErrUnauthorized, demo_world [])"
  by (rule methods_gated) code_simp

end
