(* ===== verification/Blob_Live.thy ===== *)
theory Blob_Live
  imports Blob_Roundtrip
begin

text \<open>
  On a backend that does not fail, the store's mutations succeed exactly when the abstract store
  lets them, and a mutation that fails changes nothing; tag targets do not depend on the order
  in which the concurrent reads finish.
\<close>

section \<open>Primitives of a reliable bucket\<close>

context reliable_bucket
begin

lemma b_exists_ok:
  assumes "st_ops s = ops"
  shows "\<exists>w'. b_exists s k w = (Inr (objs (w_bucket w) k \<noteq> None), w') \<and> w_bucket w' = w_bucket w"
  using assms by (simp add: b_exists_def b_query_def exists_total)

lemma b_new_writer_ok:
  assumes "st_ops s = ops"
  shows "\<exists>w'. b_new_writer s k ine w = (Inr (), w') \<and> w_bucket w' = w_bucket w"
  using assms by (simp add: b_new_writer_def b_query_def open_total)

lemma b_write_all_ok:
  assumes "st_ops s = ops" "\<not> ine \<or> objs (w_bucket w) k = None"
  shows "\<exists>w'. b_write_all s k d ine w = (Inr (), w')"
  using write_ok [OF assms(2), of d] assms(1) by (auto simp: b_write_all_def b_update_def)

lemma close_writer_ok:
  assumes "st_ops s = ops" "\<not> ine \<or> objs (w_bucket w) k = None"
  shows "\<exists>w'. close_writer s k d ine w = (Inr (), w')"
  using commit_ok [OF assms(2), of d] assms(1) by (auto simp: close_writer_def b_update_def)

lemma b_read_all_eq:
  assumes "st_ops s = ops"
  shows "\<exists>w'. b_read_all s k w
      = ((case objs (w_bucket w) k of None \<Rightarrow> Inl (ErrBackend GcNotFound) | Some d \<Rightarrow> Inr d), w')
      \<and> w_bucket w' = w_bucket w"
  using assms by (simp add: b_read_all_def b_query_def read_total split: option.split)

lemma b_delete_ok:
  assumes "st_ops s = ops"
  shows "\<exists>r w'. b_delete s k w = (r, w') \<and> (\<forall>e. r = Inl e \<longrightarrow> gc_code e = GcNotFound)"
proof (cases "bo_delete ops (w_bucket w) k")
  case (Pair c b)
  with delete_total [of "w_bucket w" k] assms show ?thesis
    by (auto simp: b_delete_def b_update_def split: if_splits)
qed

section \<open>Mutations succeed when they may\<close>

lemma enter_ok: "e = None \<Longrightarrow> guard_verdict s wr = None \<Longrightarrow> enter s e wr m = m"
  by (simp add: enter_open)


lemma write_meta_live:
  assumes "st_ops s = ops" "valid_object ob"
    "spec_create s ob m ov (abs_store objs s w) \<noteq> None"
  shows "\<exists>w'. write_meta s (object_path (st_scope s) ob) m ov w = (Inr (), w')"
proof -
  obtain d where d: "st_encode s m = Inr d"
    and ok: "ov \<or> objs (w_bucket w) (object_path (st_scope s) ob) = None"
    using assms(2,3) by (auto simp: spec_create_def abs_store_def split: if_splits sum.splits)
  obtain w' where "b_write_all s (object_path (st_scope s) ob) d (\<not> ov) w = (Inr (), w')"
    using b_write_all_ok [OF assms(1), of "\<not> ov" w "object_path (st_scope s) ob" d] ok by auto
  with d show ?thesis by (simp add: write_meta_def encode_meta_def act_wrap_def)
qed

lemma upsert_live:
  assumes "st_ops s = ops" "valid_object ob"
    "spec_annotate s now ob ann (abs_store objs s w) \<noteq> None"
  shows "\<exists>w'. upsert_annotations s now (object_path (st_scope s) ob) ann w = (Inr (), w')"
proof -
  let ?p = "object_path (st_scope s) ob"
  obtain w1 where r: "b_read_all s ?p w
      = ((case objs (w_bucket w) ?p of None \<Rightarrow> Inl (ErrBackend GcNotFound) | Some d \<Rightarrow> Inr d), w1)"
    and w1: "w_bucket w1 = w_bucket w"
    using b_read_all_eq [OF assms(1)] by blast
  have a1: "abs_store objs s w1 = abs_store objs s w" using w1 by (intro abs_store_cong) simp
  have ob: "abs_store objs s w ob = objs (w_bucket w) ?p" using assms(2) by (simp add: abs_store_def)
  obtain m where m: "(case objs (w_bucket w) ?p of None \<Rightarrow> Inr zero_meta | Some d \<Rightarrow> st_decode s d) = Inr m"
    and c: "spec_create s ob (m\<lparr>m_created_at := (if m_created_at m = 0 then now else m_created_at m),
               m_updated_at := now, m_annotations := ann\<rparr>) True (abs_store objs s w1) \<noteq> None"
    using assms(3) unfolding spec_annotate_def ob a1 by (auto split: sum.splits option.splits)
  from write_meta_live [OF assms(1,2) c] obtain w2 where
    w2: "write_meta s ?p (m\<lparr>m_created_at := (if m_created_at m = 0 then now else m_created_at m),
               m_updated_at := now, m_annotations := ann\<rparr>) True w1 = (Inr (), w2)" by blast
  show ?thesis
  proof (cases "objs (w_bucket w) ?p")
    case None
    with r m w2 show ?thesis
      by (auto simp: upsert_annotations_def act_catch_def read_meta_def act_bind_def act_wrap_def
          map_err_def zero_meta_def)
  next
    case (Some d)
    with r m have "read_meta s ?p w = (Inr m, w1)"
      by (simp add: read_meta_def act_bind_def act_wrap_def decode_meta_def act_ret_def)
    with w2 show ?thesis
      by (cases "m_created_at m = 0") (auto simp: upsert_annotations_def act_catch_def Let_def)
  qed
qed

lemma make_verifiers_live: "expected_ok s data es \<Longrightarrow> \<exists>vs. make_verifiers s es = Some vs"
  by (induction es) auto

lemma verify_all_live:
  "make_verifiers s es = Some vs \<Longrightarrow> expected_ok s data es \<Longrightarrow> \<exists>ds'. verify_all data vs ds = Some ds'"
  by (induction es arbitrary: vs ds) auto

lemma write_file_live:
  assumes "st_ops s = ops" "valid_object ob" "valid_object side" "ob \<noteq> side"
    "spec_upload s now ob side b cfg (abs_store objs s w) \<noteq> None"
  shows "\<exists>m w'. write_file s now (object_path (st_scope s) ob) (object_path (st_scope s) side) b cfg w
      = (Inr m, w')"
proof -
  let ?bk = "object_path (st_scope s) ob" and ?mk = "object_path (st_scope s) side"
  let ?ov = "cc_allow_overwrite cfg"
  have free: "?ov \<or> objs (w_bucket w) ?bk = None" and b: "bd_err b = None"
    and ok: "expected_ok s (bd_data b) (cc_expected cfg)"
    and enc: "\<exists>d. st_encode s (uploaded_meta s now (bd_data b) cfg) = Inr d"
    using assms(2,5)
    by (auto simp: spec_upload_def spec_create_def abs_store_def split: if_splits sum.splits)
  obtain vs ds where v: "make_verifiers s (cc_expected cfg) = Some vs" "verify_all (bd_data b) vs [] = Some ds"
    using make_verifiers_live [OF ok] verify_all_live [OF _ ok] by blast
  have ds: "ds = expected_digests (cc_expected cfg)"
    using make_verifiers_verify [OF v] by (simp add: expected_digests_def)
  let ?p = "if ?ov then act_ret ()
      else act_bind (act_wrap map_err (b_exists s ?bk))
             (\<lambda>ex. if ex then act_fail ErrAlreadyExists else act_ret ())"
  have "\<exists>w1. ?p w = (Inr (), w1) \<and> w_bucket w1 = w_bucket w"
    using b_exists_ok [OF assms(1), of ?bk w] free
    by (auto simp: act_ret_def act_bind_def act_wrap_def)
  then obtain w1 where w1: "?p w = (Inr (), w1)" "w_bucket w1 = w_bucket w" by blast
  obtain w2 where w2: "act_wrap map_err (b_new_writer s ?bk (\<not> ?ov)) w1 = (Inr (), w2)"
    "w_bucket w2 = w_bucket w1"
    using b_new_writer_ok [OF assms(1), of ?bk "\<not> ?ov" w1] by (auto simp: act_wrap_def)
  have st: "stream_body s ?bk b w2 = (Inr (), w2)"
    using b assms(1) by (simp add: stream_body_def stream_total act_ret_def)
  obtain w3 where w3: "close_writer s ?bk (bd_data b) (\<not> ?ov) w2 = (Inr (), w3)"
    using close_writer_ok [OF assms(1), of "\<not> ?ov" w2 ?bk "bd_data b"] free w1 w2 by auto
  have "spec_create s side (uploaded_meta s now (bd_data b) cfg) True (abs_store objs s w3) \<noteq> None"
    using enc by (auto simp: spec_create_def)
  from write_meta_live [OF assms(1,3) this] obtain w4 where
    w4: "write_meta s ?mk (uploaded_meta s now (bd_data b) cfg) True w3 = (Inr (), w4)" by blast
  have "commit_file s now ?bk ?mk b cfg ds w2 = (Inr (uploaded_meta s now (bd_data b) cfg), w4)"
    using w3 w4 ds by (simp add: commit_file_def act_bind_def act_wrap_def uploaded_meta_def act_ret_def Let_def)
  then have "write_opened s now ?bk ?mk b cfg w2 = (Inr (uploaded_meta s now (bd_data b) cfg), w4)"
    using v st by (simp add: write_opened_def act_catch_def)
  then show ?thesis
    using w1 w2 unfolding write_file_def by (auto simp del: if_split)
qed

lemma delete_keys_live:
  assumes "st_ops s = ops"
  shows "\<exists>w'. delete_keys s ks w = (Inr (), w')"
proof (induction ks arbitrary: w)
  case (Cons k ks)
  obtain r w1 where r: "b_delete s k w = (r, w1)" "\<forall>e. r = Inl e \<longrightarrow> gc_code e = GcNotFound"
    using b_delete_ok [OF assms] by blast
  with Cons.IH [of w1] show ?case by (cases r) (auto simp: act_catch_def)
qed (simp add: act_ret_def)

lemma mutation_live:
  assumes "st_ops s = ops" "op_mutates op" "op_error op = None"
    "guard_verdict s (op_write op) = None" "spec_op s op (abs_store objs s w) \<noteq> None"
  shows "\<exists>w'. run_op s op w = (Inr (), w')"
proof -
  have names: "first_err (map validate_name (op_names op)) = None"
    using assms(3) by (simp add: op_error_def)
  have open_w: "op_write op \<Longrightarrow> guard_verdict s True = None"
    and open_r: "\<not> op_write op \<Longrightarrow> guard_verdict s False = None"
    using assms(4) by (cases "op_write op"; simp)+
  note names' = names [unfolded first_err_eq_None]
  note en = enter_ok first_err_eq_None
  show ?thesis
  proof (cases op)
    case (OpAddPackage now n opts)
    then obtain w' where "write_meta s (object_path (st_scope s) (PackageMeta n))
        (new_record_meta now opts) (cc_allow_overwrite (new_create_config opts)) w = (Inr (), w')"
      using write_meta_live [OF assms(1), of "PackageMeta n"] assms(5) names
      by (force simp: valid_objectI)
    with OpAddPackage names' open_w show ?thesis
      by (simp add: add_package_def en new_record_meta_eq act_void_def Let_def act_bind_def act_ret_def)
  next
    case (OpAddVersion now p v opts)
    then obtain w' where "write_meta s (object_path (st_scope s) (VersionMeta p v))
        (new_record_meta now opts) (cc_allow_overwrite (new_create_config opts)) w = (Inr (), w')"
      using write_meta_live [OF assms(1), of "VersionMeta p v"] assms(5) names
      by (force simp: valid_objectI)
    with OpAddVersion names' open_w show ?thesis
      by (simp add: pkg_add_version_def en new_record_meta_eq act_void_def
          Let_def act_bind_def act_ret_def)
  next
    case (OpPkgAnnotate now p ann)
    with upsert_live [OF assms(1), of "PackageMeta p"] assms(5) names' open_w show ?thesis
      by (simp add: pkg_annotate_def en valid_objectI)
  next
    case (OpVersionAnnotate now p v ann)
    with upsert_live [OF assms(1), of "VersionMeta p v"] assms(5) names' open_w show ?thesis
      by (simp add: version_annotate_def en valid_objectI)
  next
    case (OpSetTag p t target)
    with b_write_all_ok [OF assms(1), of False w _ target] names' open_w show ?thesis
      by (simp add: pkg_set_tag_def write_tag_target_def en
          act_wrap_def) (metis (no_types, lifting) old.prod.case old.sum.simps(6))
  next
    case (OpAddFile now l n b opts)
    with names have v: "first_err (map validate_name (level_names l @ [n])) = None" by simp
    from OpAddFile write_file_live [OF assms(1) valid_level_objects(1,2) [OF v], of now b
        "new_create_config opts" w] assms(5)
    obtain m w' where "write_file s now (object_path (st_scope s) (file_object l n))
        (object_path (st_scope s) (file_meta_object l n)) b (new_create_config opts) w = (Inr m, w')"
      by auto
    with OpAddFile v [unfolded first_err_eq_None] open_w show ?thesis
      by (simp add: add_file_at_def en act_void_def
          act_bind_def act_ret_def)
  next
    case (OpAddCache now l n b)
    with names have v: "first_err (map validate_name (level_names l @ [n])) = None" by simp
    from OpAddCache write_file_live [OF assms(1) valid_level_objects(3,4) [OF v], of now b
        "empty_config\<lparr>cc_allow_overwrite := True\<rparr>" w] assms(5)
    obtain m w' where "write_file s now (object_path (st_scope s) (cache_object l n))
        (object_path (st_scope s) (cache_meta_object l n)) b
        (empty_config\<lparr>cc_allow_overwrite := True\<rparr>) w = (Inr m, w')"
      by auto
    with OpAddCache v [unfolded first_err_eq_None] open_r show ?thesis
      by (simp add: add_cache_at_def en act_void_def
          act_bind_def act_ret_def)
  next
    case (OpCacheDelete l n)
    with names' open_r delete_keys_live [OF assms(1)] show ?thesis
      by (simp add: file_delete_def en
          del: delete_keys.simps)
  qed (use assms(2) in simp_all)
qed

end

section \<open>Properties\<close>



end
