(* ===== verification/Write_Race.thy ===== *)
theory Write_Race
  imports Blob_Properties
begin

text \<open>
  Concurrent creators of one file: \<open>writeFile\<close> of \<open>store.go\<close> without overwrite, cut at its bucket
  calls.  Any number of writers interleave on one bucket; writer \<open>i\<close> uploads \<open>body i\<close> with
  configuration \<open>cfg i\<close>.  A step is one bucket call of one writer, made by the same actions as
  \<open>write_file\<close>; any call may fail, and a failed commit may still have taken effect.
\<close>

section \<open>Writers and steps\<close>

datatype phase =
    Probing
  | Opening
  | Streaming
  | Committed "(string \<times> string) list"
  | Wrote "(string \<times> string) list"
  | SidecarFailed "(string \<times> string) list"
  | Refused err

record 'b race =
  rc_world :: "'b world"
  rc_pc :: "nat \<Rightarrow> phase"

definition file_record_meta ::
  "'b store \<Rightarrow> int \<Rightarrow> body \<Rightarrow> create_config \<Rightarrow> (string \<times> string) list \<Rightarrow> meta" where
  "file_record_meta s now b cfg ds =
     \<lparr>m_digest = digest_of s (bd_data b), m_digests = ds, m_size = int (length (bd_data b)),
      m_created_at = now, m_updated_at = now, m_annotations = cc_annotations cfg\<rparr>"

text \<open>Why a writer cancels: an unavailable hash, a failure of the stream, a digest mismatch.\<close>

definition abort_reason ::
  "'b store \<Rightarrow> string \<Rightarrow> body \<Rightarrow> create_config \<Rightarrow> 'b world \<Rightarrow> err \<Rightarrow> bool" where
  "abort_reason s bk b cfg w e \<longleftrightarrow>
     (case make_verifiers s (cc_expected cfg) of
        None \<Rightarrow> e = ErrUnsupported
      | Some vs \<Rightarrow>
          (case fst (stream_body s bk b w) of
             Inl e' \<Rightarrow> e = map_err e'
           | Inr _ \<Rightarrow> verify_all (bd_data b) vs [] = None \<and> e = ErrDigestMismatch))"

inductive race_step ::
  "'b store \<Rightarrow> string \<Rightarrow> string \<Rightarrow> (nat \<Rightarrow> int) \<Rightarrow> (nat \<Rightarrow> body) \<Rightarrow> (nat \<Rightarrow> create_config)
    \<Rightarrow> 'b race \<Rightarrow> 'b race \<Rightarrow> bool"
  for s bk mk now b cfg where
  probe_free: "rc_pc r i = Probing \<Longrightarrow> act_wrap map_err (b_exists s bk) (rc_world r) = (Inr False, w) \<Longrightarrow>
     race_step s bk mk now b cfg r (r\<lparr>rc_world := w, rc_pc := (rc_pc r)(i := Opening)\<rparr>)"
| probe_taken: "rc_pc r i = Probing \<Longrightarrow> act_wrap map_err (b_exists s bk) (rc_world r) = (Inr True, w) \<Longrightarrow>
     race_step s bk mk now b cfg r
       (r\<lparr>rc_world := w, rc_pc := (rc_pc r)(i := Refused ErrAlreadyExists)\<rparr>)"
| probe_error: "rc_pc r i = Probing \<Longrightarrow> act_wrap map_err (b_exists s bk) (rc_world r) = (Inl e, w) \<Longrightarrow>
     race_step s bk mk now b cfg r (r\<lparr>rc_world := w, rc_pc := (rc_pc r)(i := Refused e)\<rparr>)"
| open_ok: "rc_pc r i = Opening \<Longrightarrow>
     act_wrap map_err (b_new_writer s bk True) (rc_world r) = (Inr u, w) \<Longrightarrow>
     race_step s bk mk now b cfg r (r\<lparr>rc_world := w, rc_pc := (rc_pc r)(i := Streaming)\<rparr>)"
| open_error: "rc_pc r i = Opening \<Longrightarrow>
     act_wrap map_err (b_new_writer s bk True) (rc_world r) = (Inl e, w) \<Longrightarrow>
     race_step s bk mk now b cfg r (r\<lparr>rc_world := w, rc_pc := (rc_pc r)(i := Refused e)\<rparr>)"
| stream_abort: "rc_pc r i = Streaming \<Longrightarrow>
     abort_reason s bk (b i) (cfg i) (rc_world r) e \<Longrightarrow>
     (abort_with s bk (b i) e :: ('b, meta) act) (rc_world r) = (Inl e, w) \<Longrightarrow>
     race_step s bk mk now b cfg r (r\<lparr>rc_world := w, rc_pc := (rc_pc r)(i := Refused e)\<rparr>)"
| commit_ok: "rc_pc r i = Streaming \<Longrightarrow> bd_err (b i) = None \<Longrightarrow>
     make_verifiers s (cc_expected (cfg i)) = Some vs \<Longrightarrow> verify_all (bd_data (b i)) vs [] = Some ds \<Longrightarrow>
     act_wrap map_create_err (close_writer s bk (bd_data (b i)) True) (rc_world r) = (Inr u, w) \<Longrightarrow>
     race_step s bk mk now b cfg r (r\<lparr>rc_world := w, rc_pc := (rc_pc r)(i := Committed ds)\<rparr>)"
| commit_error: "rc_pc r i = Streaming \<Longrightarrow> bd_err (b i) = None \<Longrightarrow>
     act_wrap map_create_err (close_writer s bk (bd_data (b i)) True) (rc_world r) = (Inl e, w) \<Longrightarrow>
     race_step s bk mk now b cfg r (r\<lparr>rc_world := w, rc_pc := (rc_pc r)(i := Refused e)\<rparr>)"
| sidecar_ok: "rc_pc r i = Committed ds \<Longrightarrow>
     write_meta s mk (file_record_meta s (now i) (b i) (cfg i) ds) True (rc_world r) = (Inr u, w) \<Longrightarrow>
     race_step s bk mk now b cfg r (r\<lparr>rc_world := w, rc_pc := (rc_pc r)(i := Wrote ds)\<rparr>)"
| sidecar_error: "rc_pc r i = Committed ds \<Longrightarrow>
     write_meta s mk (file_record_meta s (now i) (b i) (cfg i) ds) True (rc_world r) = (Inl e, w) \<Longrightarrow>
     race_step s bk mk now b cfg r (r\<lparr>rc_world := w, rc_pc := (rc_pc r)(i := SidecarFailed ds)\<rparr>)"

inductive race_run ::
  "'b store \<Rightarrow> string \<Rightarrow> string \<Rightarrow> (nat \<Rightarrow> int) \<Rightarrow> (nat \<Rightarrow> body) \<Rightarrow> (nat \<Rightarrow> create_config)
    \<Rightarrow> 'b world \<Rightarrow> 'b race \<Rightarrow> bool"
  for s bk mk now b cfg w0 where
  start: "race_run s bk mk now b cfg w0 \<lparr>rc_world = w0, rc_pc = (\<lambda>_. Probing)\<rparr>"
| step: "race_run s bk mk now b cfg w0 r \<Longrightarrow> race_step s bk mk now b cfg r r' \<Longrightarrow>
     race_run s bk mk now b cfg w0 r'"

text \<open>The digests of a writer whose commit was acknowledged.\<close>

fun won :: "phase \<Rightarrow> (string \<times> string) list option" where
  "won (Committed ds) = Some ds"
| "won (Wrote ds) = Some ds"
| "won (SidecarFailed ds) = Some ds"
| "won _ = None"

definition race_inv ::
  "('b \<Rightarrow> string \<rightharpoonup> string) \<Rightarrow> 'b store \<Rightarrow> string \<Rightarrow> string \<Rightarrow> (nat \<Rightarrow> int) \<Rightarrow> (nat \<Rightarrow> body)
    \<Rightarrow> (nat \<Rightarrow> create_config) \<Rightarrow> 'b race \<Rightarrow> bool" where
  "race_inv objs s bk mk now b cfg r \<longleftrightarrow>
     (\<forall>i. won (rc_pc r i) \<noteq> None \<longrightarrow> objs (w_bucket (rc_world r)) bk = Some (bd_data (b i)))
     \<and> (\<forall>i j. won (rc_pc r i) \<noteq> None \<longrightarrow> won (rc_pc r j) \<noteq> None \<longrightarrow> i = j)
     \<and> (\<forall>j. objs (w_bucket (rc_world r)) mk = Some j \<longrightarrow>
          (\<exists>i ds. won (rc_pc r i) = Some ds
             \<and> st_encode s (file_record_meta s (now i) (b i) (cfg i) ds) = Inr j))"

lemma race_invD:
  assumes "race_inv objs s bk mk now b cfg r"
  shows "won (rc_pc r i) = Some ds \<Longrightarrow> objs (w_bucket (rc_world r)) bk = Some (bd_data (b i))"
    "won (rc_pc r i) = Some ds \<Longrightarrow> won (rc_pc r j) = Some ds' \<Longrightarrow> i = j"
    "objs (w_bucket (rc_world r)) mk = Some d \<Longrightarrow> \<exists>i ds. won (rc_pc r i) = Some ds
       \<and> st_encode s (file_record_meta s (now i) (b i) (cfg i) ds) = Inr d"
proof -
  have 1: "\<forall>i. won (rc_pc r i) \<noteq> None \<longrightarrow> objs (w_bucket (rc_world r)) bk = Some (bd_data (b i))"
    using assms unfolding race_inv_def by (elim conjE)
  have 2: "\<forall>i j. won (rc_pc r i) \<noteq> None \<longrightarrow> won (rc_pc r j) \<noteq> None \<longrightarrow> i = j"
    using assms unfolding race_inv_def by (elim conjE)
  have 3: "\<forall>j. objs (w_bucket (rc_world r)) mk = Some j \<longrightarrow>
          (\<exists>i ds. won (rc_pc r i) = Some ds
             \<and> st_encode s (file_record_meta s (now i) (b i) (cfg i) ds) = Inr j)"
    using assms unfolding race_inv_def by (elim conjE)
  show "won (rc_pc r i) = Some ds \<Longrightarrow> objs (w_bucket (rc_world r)) bk = Some (bd_data (b i))"
    using 1 by simp
  show "won (rc_pc r i) = Some ds \<Longrightarrow> won (rc_pc r j) = Some ds' \<Longrightarrow> i = j"
    using 2 by simp
  show "objs (w_bucket (rc_world r)) mk = Some d \<Longrightarrow> \<exists>i ds. won (rc_pc r i) = Some ds
       \<and> st_encode s (file_record_meta s (now i) (b i) (cfg i) ds) = Inr d"
    using 3 by blast
qed

text \<open>A step that leaves the bucket's objects and makes no new winner.\<close>

lemma race_inv_quiet:
  assumes "race_inv objs s bk mk now b cfg r"
    and "objs (w_bucket w) bk = objs (w_bucket (rc_world r)) bk \<or> (\<forall>i. won (rc_pc r i) = None)"
    and "objs (w_bucket w) mk = objs (w_bucket (rc_world r)) mk"
    and "won p = won (rc_pc r i)"
  shows "race_inv objs s bk mk now b cfg (r\<lparr>rc_world := w, rc_pc := (rc_pc r)(i := p)\<rparr>)"
proof -
  have "won (((rc_pc r)(i := p)) j) = won (rc_pc r j)" for j
    using assms(4) by simp
  with assms(1,2,3) show ?thesis by (auto simp: race_inv_def)
qed

lemma race_inv_sidecar:
  assumes "race_inv objs s bk mk now b cfg r" "won (rc_pc r i) = Some ds" "won p = Some ds"
    and "objs (w_bucket w) bk = objs (w_bucket (rc_world r)) bk"
    and "\<And>j. objs (w_bucket w) mk = Some j \<Longrightarrow> objs (w_bucket (rc_world r)) mk = Some j
        \<or> st_encode s (file_record_meta s (now i) (b i) (cfg i) ds) = Inr j"
  shows "race_inv objs s bk mk now b cfg (r\<lparr>rc_world := w, rc_pc := (rc_pc r)(i := p)\<rparr>)"
proof -
  have same: "won (((rc_pc r)(i := p)) j) = won (rc_pc r j)" for j
    using assms(2,3) by simp
  have "\<exists>i ds. won (rc_pc r i) = Some ds
      \<and> st_encode s (file_record_meta s (now i) (b i) (cfg i) ds) = Inr j"
    if "objs (w_bucket w) mk = Some j" for j
    using assms(5) [OF that] assms(1,2) by (auto simp: race_inv_def)
  with assms(1,4) same show ?thesis by (simp add: race_inv_def)
qed

lemma probe_bucket: "act_wrap g (b_exists s k) w = (r, w') \<Longrightarrow> w_bucket w' = w_bucket w"
  by (rule keepsD [OF keeps_wrap [OF keeps_prims(1)]])

lemma open_bucket: "act_wrap g (b_new_writer s k ine) w = (r, w') \<Longrightarrow> w_bucket w' = w_bucket w"
  by (rule keepsD [OF keeps_wrap [OF keeps_prims(4)]])

context blob_bucket
begin

lemma commit_race:
  assumes "close_writer s k d True w = (Inl e, w')" "st_ops s = ops"
  shows "objs (w_bucket w') = objs (w_bucket w) \<or> objs (w_bucket w) k = None"
proof -
  obtain c b' where bo: "bo_commit ops (w_bucket w) k d True = (Some c, b')" "w_bucket w' = b'"
    using assms by (auto simp: close_writer_def b_update_def split: prod.splits option.splits)
  with commit_Some [OF bo(1)] show ?thesis by auto
qed

lemma write_meta_frame:
  assumes "write_meta s mk m True w = (r, w')" "st_ops s = ops" "k \<noteq> mk"
  shows "objs (w_bucket w') k = objs (w_bucket w) k"
  using touchesD [OF touches_write_meta [OF assms(2), of mk "{mk}"] assms(1)] assms(3) by simp

lemma write_meta_value:
  assumes "write_meta s mk m True w = (r, w')" "st_ops s = ops" "objs (w_bucket w') mk = Some j"
  shows "objs (w_bucket w) mk = Some j \<or> st_encode s m = Inr j"
proof (cases "st_encode s m")
  case (Inr d)
  obtain c bk' where bo: "bo_write_all ops (w_bucket w) mk d False = (c, bk')" by fastforce
  with Inr assms have "w_bucket w' = bk'"
    by (auto simp: write_meta_def encode_meta_def act_wrap_def b_write_all_def b_update_def
        split: prod.splits sum.splits option.splits)
  with write_None [of "w_bucket w" mk d False bk'] write_Some [of "w_bucket w" mk d False _ bk'] bo
    assms(3) Inr
  show ?thesis by (cases c) auto
qed (use assms in \<open>auto simp: write_meta_def encode_meta_def act_fail_def\<close>)

lemma race_step_inv:
  assumes "race_step s bk mk now b cfg r r'" "race_inv objs s bk mk now b cfg r"
    "st_ops s = ops" "bk \<noteq> mk"
  shows "race_inv objs s bk mk now b cfg r'"
  using assms(1)
proof cases
  case (probe_free i w)
  with probe_bucket [OF probe_free(3)] show ?thesis
    by (auto intro!: race_inv_quiet [OF assms(2)])
next
  case (probe_taken i w)
  with probe_bucket [OF probe_taken(3)] show ?thesis
    by (auto intro!: race_inv_quiet [OF assms(2)])
next
  case (probe_error i e w)
  with probe_bucket [OF probe_error(3)] show ?thesis
    by (auto intro!: race_inv_quiet [OF assms(2)])
next
  case (open_ok i u w)
  with open_bucket [OF open_ok(3)] show ?thesis
    by (auto intro!: race_inv_quiet [OF assms(2)])
next
  case (open_error i e w)
  with open_bucket [OF open_error(3)] show ?thesis
    by (auto intro!: race_inv_quiet [OF assms(2)])
next
  case (stream_abort i e w)
  with abort_with_objs [OF stream_abort(4) assms(3)] show ?thesis
    by (auto intro!: race_inv_quiet [OF assms(2)])
next
  case (commit_ok i vs ds u w)
  have c: "close_writer s bk (bd_data (b i)) True (rc_world r) = (Inr u, w)"
    using commit_ok by (simp add: act_wrap_Inr)
  note o = close_writer_Inr [OF c assms(3)]
  have none: "won (rc_pc r j) = None" for j
    using assms(2) o(2) by (auto simp: race_inv_def)
  have "objs (w_bucket (rc_world r)) mk = None"
    using assms(2) none by (cases "objs (w_bucket (rc_world r)) mk") (auto simp: race_inv_def)
  then have "objs (w_bucket w) mk = None" using o(1) assms(4) by simp
  with none o(1) commit_ok show ?thesis by (auto simp: race_inv_def)
next
  case (commit_error i e w)
  then obtain e' where c: "close_writer s bk (bd_data (b i)) True (rc_world r) = (Inl e', w)"
    by (auto simp: act_wrap_def split: prod.splits sum.splits)
  have mk: "objs (w_bucket w) mk = objs (w_bucket (rc_world r)) mk"
    using touchesD [OF touches_prims(2) [OF assms(3), of bk "{bk}"] c] assms(4) by simp
  have "objs (w_bucket w) bk = objs (w_bucket (rc_world r)) bk \<or> (\<forall>i. won (rc_pc r i) = None)"
    using commit_race [OF c assms(3)] assms(2) by (auto simp: race_inv_def)
  from race_inv_quiet [OF assms(2) this mk] commit_error show ?thesis by simp
next
  case (sidecar_ok i ds u w)
  then show ?thesis
    using race_inv_sidecar [OF assms(2), of i ds "Wrote ds" w]
      write_meta_frame [OF sidecar_ok(3) assms(3,4)] write_meta_value [OF sidecar_ok(3) assms(3)]
    by simp
next
  case (sidecar_error i ds e w)
  then show ?thesis
    using race_inv_sidecar [OF assms(2), of i ds "SidecarFailed ds" w]
      write_meta_frame [OF sidecar_error(3) assms(3,4)] write_meta_value [OF sidecar_error(3) assms(3)]
    by simp
qed

lemma race_run_inv:
  assumes "race_run s bk mk now b cfg w0 r" "st_ops s = ops" "bk \<noteq> mk"
    "objs (w_bucket w0) mk = None"
  shows "race_inv objs s bk mk now b cfg r"
  using assms(1)
proof induction
  case start
  then show ?case using assms(4) by (simp add: race_inv_def)
next
  case (step r r')
  then show ?case using race_step_inv assms(2,3) by blast
qed

end

section \<open>Properties\<close>


text \<open>A run of the examples: writer 0 wins before writer 1 probes.\<close>

abbreviation demo_race :: "mem_bucket race \<Rightarrow> bool" where
  "demo_race \<equiv> race_run (demo_store None) ''b'' ''m'' (\<lambda>_. 7) (\<lambda>i. bytes_body (if i = 0 then ''ab'' else ''cd''))
     (\<lambda>_. empty_config) (demo_world [])"

lemma race_demo:
  "\<exists>r. demo_race r \<and> rc_pc r 0 = Wrote [] \<and> map_of (w_bucket (rc_world r)) ''m'' = Some ''{}''"
proof -
  let ?s = "demo_store None"
  let ?b = "\<lambda>i::nat. bytes_body (if i = 0 then ''ab'' else ''cd'')"
  let ?probe = "act_wrap map_err (b_exists ?s ''b'')"
  let ?open = "act_wrap map_err (b_new_writer ?s ''b'' True)"
  let ?commit = "act_wrap map_create_err (close_writer ?s ''b'' ''ab'' True)"
  let ?side = "write_meta ?s ''m'' (file_record_meta ?s 7 (?b 0) empty_config []) True"
  define wa where "wa = snd (?probe (demo_world []))"
  define wb where "wb = snd (?open wa)"
  define wc where "wc = snd (?commit wb)"
  define wd where "wd = snd (?side wc)"
  have a: "?probe (demo_world []) = (Inr False, wa)"
    unfolding wa_def by (rule act_eval, code_simp)
  have b: "?open wa = (Inr (), wb)"
    unfolding wb_def wa_def by (rule act_eval, code_simp)
  have c: "?commit wb = (Inr (), wc)"
    unfolding wc_def wb_def wa_def by (rule act_eval, code_simp)
  have d: "?side wc = (Inr (), wd)"
    unfolding wd_def wc_def wb_def wa_def by (rule act_eval, code_simp)
  note step = race_run.step
  have "demo_race \<lparr>rc_world = demo_world [], rc_pc = (\<lambda>_. Probing)\<rparr>" by (rule race_run.start)
  from step [OF this race_step.probe_free [where i = 0 and w = wa]] a
  have "demo_race \<lparr>rc_world = wa, rc_pc = (\<lambda>_. Probing)(0 := Opening)\<rparr>" by simp
  from step [OF this race_step.open_ok [where i = 0 and w = wb]] b
  have "demo_race \<lparr>rc_world = wb, rc_pc = (\<lambda>_. Probing)(0 := Streaming)\<rparr>" by simp
  from step [OF this race_step.commit_ok [where i = 0 and vs = "[]" and ds = "[]" and w = wc]] c
  have "demo_race \<lparr>rc_world = wc, rc_pc = (\<lambda>_. Probing)(0 := Committed [])\<rparr>"
    by (simp add: bytes_body_def empty_config_def)
  from step [OF this race_step.sidecar_ok [where i = 0 and ds = "[]" and w = wd]] d
  have "demo_race \<lparr>rc_world = wd, rc_pc = (\<lambda>_. Probing)(0 := Wrote [])\<rparr>"
    by simp
  moreover have "map_of (w_bucket wd) ''m'' = Some ''{}''"
    unfolding wd_def wc_def wb_def wa_def by code_simp
  ultimately show ?thesis by fastforce
qed


text \<open>The conditional commit elects one winner: under every interleaving and with any backend
  failures, at most one of the concurrent creators of a file returns success, and the file then
  holds its bytes.\<close>

theorem race_single_winner:
  assumes "blob_bucket (st_ops s) objs" "bk \<noteq> mk" "objs (w_bucket w0) mk = None"
    and "race_run s bk mk now b cfg w0 r"
    and "rc_pc r i = Wrote ds" "rc_pc r j = Wrote ds'"
  shows "i = j \<and> objs (w_bucket (rc_world r)) bk = Some (bd_data (b i))"
proof -
  note inv = blob_bucket.race_run_inv [OF assms(1,4) refl assms(2,3)]
  have w: "won (rc_pc r i) = Some ds" "won (rc_pc r j) = Some ds'" using assms(5,6) by simp_all
  show ?thesis using race_invD(2) [OF inv w] race_invD(1) [OF inv w(1)] by simp
qed

theorem race_single_winner_witness:
  "\<exists>r. demo_race r \<and> rc_pc r 0 = Wrote [] \<and> map_of (w_bucket (rc_world r)) ''b'' = Some ''ab''"
proof -
  obtain r where r: "demo_race r" "rc_pc r 0 = Wrote []"
    using race_demo by blast
  have bb: "blob_bucket (st_ops (demo_store None)) map_of" by (simp add: mem_bucket)
  from race_single_winner [OF bb _ _ r(1) r(2) r(2)] r show ?thesis
    by (simp add: bytes_body_def) blast
qed

end
