(* ===== verification/Go_Path.thy ===== *)
theory Go_Path
  imports Prelude
begin

text \<open>
  Go's \<open>path.Match\<close> and \<open>path.Clean\<close>, and the rune decoder they use, as the proxy filter and
  the path codecs call them.  \<open>path_match\<close> follows the library's chunked matcher: a pattern
  is split at unbracketed stars, each chunk is matched at the current position or, after a
  star, at the first later position that works; \<open>None\<close> is \<open>ErrBadPattern\<close>.  The main fact
  is that whether a pattern is malformed does not depend on the name it is matched against.
\<close>

section \<open>Decoding a rune\<close>

abbreviation byte :: "char \<Rightarrow> int" where
  "byte c \<equiv> of_char c"

definition rune_error :: int where
  "rune_error = 65533"

definition is_cont :: "char \<Rightarrow> bool" where
  "is_cont c = (128 \<le> byte c \<and> byte c \<le> 191)"

text \<open>\<open>utf8.DecodeRuneInString\<close>: the rune and its width.\<close>

fun decode_rune :: "string \<Rightarrow> int \<times> nat" where
  "decode_rune [] = (rune_error, 0)"
| "decode_rune (a # s) =
     (let x = byte a in
      if x < 128 then (x, 1)
      else case s of
        [] \<Rightarrow> (rune_error, 1)
      | b # t \<Rightarrow>
          (let y = byte b in
           if 194 \<le> x \<and> x \<le> 223 then
             (if is_cont b then ((x - 192) * 64 + (y - 128), 2) else (rune_error, 1))
           else case t of
             [] \<Rightarrow> (rune_error, 1)
           | c # u \<Rightarrow>
               (let z = byte c in
                if 224 \<le> x \<and> x \<le> 239 then
                  (if is_cont b \<and> is_cont c \<and> (x = 224 \<longrightarrow> 160 \<le> y) \<and> (x = 237 \<longrightarrow> y \<le> 159)
                   then ((x - 224) * 4096 + (y - 128) * 64 + (z - 128), 3)
                   else (rune_error, 1))
                else case u of
                  [] \<Rightarrow> (rune_error, 1)
                | d # v \<Rightarrow>
                    (if 240 \<le> x \<and> x \<le> 244 \<and> is_cont b \<and> is_cont c \<and> is_cont d
                        \<and> (x = 240 \<longrightarrow> 144 \<le> y) \<and> (x = 244 \<longrightarrow> y \<le> 143)
                     then ((x - 240) * 262144 + (y - 128) * 4096 + (z - 128) * 64
                             + (byte d - 128), 4)
                     else (rune_error, 1)))))"

lemma decode_rune_width_pos: "s \<noteq> [] \<Longrightarrow> 0 < snd (decode_rune s)"
  by (cases s) (auto simp: Let_def split: list.splits if_splits)

section \<open>Matching one chunk\<close>

text \<open>\<open>getEsc\<close>: a possibly escaped rune of a character class and the rest of the chunk.\<close>

definition get_esc :: "string \<Rightarrow> (int \<times> string) option" where
  "get_esc chunk =
     (if chunk = [] \<or> hd chunk = CHR ''-'' \<or> hd chunk = CHR '']'' then None
      else
        (let chunk = (if hd chunk = CHR 0x5C then tl chunk else chunk)
         in if chunk = [] then None
            else
              (let (r, n) = decode_rune chunk; rest = drop n chunk
               in if (r = rune_error \<and> n = 1) \<or> rest = [] then None else Some (r, rest))))"

lemma get_esc_shorter: "get_esc chunk = Some (r, rest) \<Longrightarrow> length rest < length chunk"
  using decode_rune_width_pos [of chunk] decode_rune_width_pos [of "tl chunk"]
  by (cases chunk) (auto simp: get_esc_def Let_def split: if_splits prod.splits)

text \<open>
  The loop over the ranges of a class, after the bracket and a possible caret: whether some
  range holds \<open>r\<close>, and the chunk after the closing bracket.  \<open>seen\<close> is \<open>nrange > 0\<close>.
\<close>

function class_ranges :: "string \<Rightarrow> int \<Rightarrow> bool \<Rightarrow> bool \<Rightarrow> (bool \<times> string) option" where
  "class_ranges chunk r m seen =
     (if chunk \<noteq> [] \<and> hd chunk = CHR '']'' \<and> seen then Some (m, tl chunk)
      else case get_esc chunk of
        None \<Rightarrow> None
      | Some (lo, c1) \<Rightarrow>
          (if hd c1 = CHR ''-'' then
             (case get_esc (tl c1) of
                None \<Rightarrow> None
              | Some (hi, c2) \<Rightarrow> class_ranges c2 r (m \<or> (lo \<le> r \<and> r \<le> hi)) True)
           else class_ranges c1 r (m \<or> (lo \<le> r \<and> r \<le> lo)) True))"
  by pat_completeness auto
termination
  by (relation "measure (\<lambda>(chunk, r, m, seen). length chunk)")
    (auto dest!: get_esc_shorter)

declare class_ranges.simps [simp del]

lemma class_ranges_shorter:
  "class_ranges chunk r m seen = Some (m', rest) \<Longrightarrow> length rest < length chunk"
proof (induction chunk r m seen rule: class_ranges.induct)
  case (1 chunk r m seen)
  show ?case
  proof (cases "chunk \<noteq> [] \<and> hd chunk = CHR '']'' \<and> seen")
    case True
    with "1.prems" show ?thesis
      by (subst (asm) class_ranges.simps) (cases chunk, auto)
  next
    case False
    with "1.prems" obtain lo c1 where c1: "get_esc chunk = Some (lo, c1)"
      by (subst (asm) class_ranges.simps) (auto split: option.splits)
    then have len: "length c1 < length chunk" by (rule get_esc_shorter)
    show ?thesis
    proof (cases "hd c1 = CHR ''-''")
      case True
      with "1.prems" False c1 obtain hi c2 where c2: "get_esc (tl c1) = Some (hi, c2)"
        and rec: "class_ranges c2 r (m \<or> (lo \<le> r \<and> r \<le> hi)) True = Some (m', rest)"
        by (subst (asm) class_ranges.simps) (auto split: option.splits)
      have "length rest < length c2"
        using "1.IH"(1) [OF False c1 refl True c2 refl rec] .
      with get_esc_shorter [OF c2] len show ?thesis by simp
    next
      case F2: False
      with "1.prems" False c1
      have rec: "class_ranges c1 r (m \<or> (lo \<le> r \<and> r \<le> lo)) True = Some (m', rest)"
        by (subst (asm) class_ranges.simps) auto
      show ?thesis using "1.IH"(2) [OF False c1 refl F2 rec] len by simp
    qed
  qed
qed

text \<open>
  \<open>matchChunk\<close>: \<open>None\<close> is a bad pattern; \<open>Some None\<close> no match; \<open>Some (Some rest)\<close> a match that
  leaves \<open>rest\<close>.  \<open>failed\<close> is the source's flag: after a mismatch only the syntax is checked.
\<close>

function match_chunk :: "string \<Rightarrow> string \<Rightarrow> bool \<Rightarrow> string option option" where
  "match_chunk chunk s failed0 =
     (case chunk of
        [] \<Rightarrow> Some (if failed0 then None else Some s)
      | c # cs \<Rightarrow>
          (let failed = (failed0 \<or> s = []) in
           if c = CHR ''['' then
             (let (r, n) = (if failed then (0, 0) else decode_rune s);
                  negated = (cs \<noteq> [] \<and> hd cs = CHR 0x5E);
                  cs' = (if negated then tl cs else cs)
              in case class_ranges cs' r False False of
                   None \<Rightarrow> None
                 | Some (m, rest) \<Rightarrow>
                     match_chunk rest (drop n s) (failed \<or> m = negated))
           else if c = CHR ''?'' then
             (if failed then match_chunk cs s failed
              else match_chunk cs (drop (snd (decode_rune s)) s) (hd s = CHR ''/''))
           else if c = CHR 0x5C then
             (case cs of
                [] \<Rightarrow> None
              | d # ds \<Rightarrow>
                  (if failed then match_chunk ds s failed
                   else match_chunk ds (tl s) (d \<noteq> hd s)))
           else
             (if failed then match_chunk cs s failed
              else match_chunk cs (tl s) (c \<noteq> hd s))))"
  by pat_completeness auto
termination
proof (relation "measure (\<lambda>(chunk, s, failed). length chunk)", goal_cases)
  case 1
  then show ?case by simp
qed (auto dest!: class_ranges_shorter split: if_splits)

declare match_chunk.simps [simp del]

section \<open>Splitting a pattern into chunks\<close>

fun scan_body :: "bool \<Rightarrow> string \<Rightarrow> string \<times> string" where
  "scan_body inrange [] = ([], [])"
| "scan_body inrange (c # cs) =
     (if c = CHR 0x5C then
        (case cs of
           [] \<Rightarrow> ([c], [])
         | d # ds \<Rightarrow> map_prod (\<lambda>a. c # d # a) id (scan_body inrange ds))
      else if c = CHR ''*'' \<and> \<not> inrange then ([], c # cs)
      else
        (let inrange' = (if c = CHR ''['' then True else if c = CHR '']'' then False else inrange)
         in map_prod (Cons c) id (scan_body inrange' cs)))"

text \<open>\<open>scanChunk\<close>: a leading star?, the chunk, the rest of the pattern.\<close>

definition scan_chunk :: "string \<Rightarrow> bool \<times> string \<times> string" where
  "scan_chunk pattern =
     (let p = dropWhile (\<lambda>c. c = CHR ''*'') pattern
      in (p \<noteq> pattern, scan_body False p))"

lemma scan_body_append: "fst (scan_body i s) @ snd (scan_body i s) = s"
  by (induction i s rule: scan_body.induct) (auto simp: Let_def split: list.splits)

lemma scan_body_progress:
  assumes "scan_body False (c # s) = (a, b)" "c \<noteq> CHR ''*''"
  shows "length b < length (c # s)"
proof -
  have "a \<noteq> []"
    using assms by (auto simp: Let_def map_prod_def split: if_splits list.splits prod.splits)
  moreover have "a @ b = c # s"
    using scan_body_append [of False "c # s"] assms(1) by simp
  ultimately show ?thesis
    by (metis length_append length_greater_0_conv less_add_same_cancel2)
qed

lemma scan_chunk_shorter:
  assumes "scan_chunk pattern = (star, chunk, rest)" "pattern \<noteq> []"
  shows "length rest < length pattern"
proof -
  define p where "p = dropWhile (\<lambda>c. c = CHR ''*'') pattern"
  have sb: "scan_body False p = (chunk, rest)"
    using assms(1) by (simp add: scan_chunk_def p_def Let_def)
  have len: "length p \<le> length pattern"
    by (simp add: p_def length_dropWhile_le)
  show ?thesis
  proof (cases p)
    case Nil
    with sb assms(2) show ?thesis by simp
  next
    case (Cons c s)
    then have "c \<noteq> CHR ''*''"
      by (metis (full_types) hd_dropWhile list.sel(1) list.simps(3) p_def)
    with scan_body_progress sb Cons len show ?thesis by fastforce
  qed
qed

section \<open>Match\<close>

text \<open>
  After a star whose chunk does not match here: skip bytes up to the next slash.  \<open>last_chunk\<close>
  says that nothing of the pattern is left, so a match must exhaust the name.
\<close>

fun star_skip :: "string \<Rightarrow> bool \<Rightarrow> string \<Rightarrow> string option option" where
  "star_skip chunk last_chunk [] = Some None"
| "star_skip chunk last_chunk (c # cs) =
     (if c = CHR ''/'' then Some None
      else case match_chunk chunk cs False of
        None \<Rightarrow> None
      | Some None \<Rightarrow> star_skip chunk last_chunk cs
      | Some (Some t) \<Rightarrow>
          (if last_chunk \<and> t \<noteq> [] then star_skip chunk last_chunk cs else Some (Some t)))"

function check_rest :: "string \<Rightarrow> bool option" where
  "check_rest pattern =
     (if pattern = [] then Some False
      else (case scan_chunk pattern of (star, chunk, rest) \<Rightarrow>
        (case match_chunk chunk [] False of None \<Rightarrow> None | Some _ \<Rightarrow> check_rest rest)))"
  by pat_completeness auto
termination
  by (relation "measure length") (auto dest: scan_chunk_shorter [OF sym])

declare check_rest.simps [simp del]

text \<open>One chunk of the outer loop: \<open>Some (Some t)\<close> continues with the name \<open>t\<close>.\<close>

definition match_step :: "bool \<Rightarrow> string \<Rightarrow> string \<Rightarrow> string \<Rightarrow> string option option" where
  "match_step star chunk rest name =
     (case match_chunk chunk name False of
        None \<Rightarrow> None
      | Some (Some t) \<Rightarrow>
          (if t = [] \<or> rest \<noteq> [] then Some (Some t)
           else if star then star_skip chunk (rest = []) name else Some None)
      | Some None \<Rightarrow> if star then star_skip chunk (rest = []) name else Some None)"

function path_match :: "string \<Rightarrow> string \<Rightarrow> bool option" where
  "path_match pattern name =
     (if pattern = [] then Some (name = [])
      else (case scan_chunk pattern of (star, chunk, rest) \<Rightarrow>
        (if star \<and> chunk = [] then Some (CHR ''/'' \<notin> set name)
         else (case match_step star chunk rest name of
             None \<Rightarrow> None
           | Some (Some t) \<Rightarrow> path_match rest t
           | Some None \<Rightarrow> check_rest rest))))"
  by pat_completeness auto
termination
  by (relation "measure (\<lambda>(pattern, name). length pattern)") (auto dest: scan_chunk_shorter [OF sym])

declare path_match.simps [simp del]

section \<open>A pattern's syntax does not depend on the name\<close>

lemma class_ranges_syntax:
  "map_option snd (class_ranges chunk r m seen) = map_option snd (class_ranges chunk r' m' seen)"
proof (induction chunk r m seen arbitrary: r' m' rule: class_ranges.induct)
  case (1 chunk r m seen)
  show ?case
  proof (cases "(chunk \<noteq> [] \<and> hd chunk = CHR '']'' \<and> seen) \<or> get_esc chunk = None")
    case True
    then show ?thesis
      by (subst (1 2) class_ranges.simps) auto
  next
    case False
    then obtain lo c1 where c1: "get_esc chunk = Some (lo, c1)"
      and nb: "\<not> (chunk \<noteq> [] \<and> hd chunk = CHR '']'' \<and> seen)"
      by auto
    show ?thesis
    proof (cases "hd c1 = CHR ''-''")
      case True
      show ?thesis
      proof (cases "get_esc (tl c1)")
        case None
        with nb c1 True show ?thesis by (subst (1 2) class_ranges.simps) auto
      next
        case (Some q)
        obtain hi c2 where q: "q = (hi, c2)" by (cases q)
        have "map_option snd (class_ranges c2 r (m \<or> (lo \<le> r \<and> r \<le> hi)) True)
            = map_option snd (class_ranges c2 r' (m' \<or> (lo \<le> r' \<and> r' \<le> hi)) True)"
          by (rule "1.IH"(1) [OF nb c1 refl True _ refl]) (simp add: Some q)
        with nb c1 True Some q show ?thesis
          by (subst (1 2) class_ranges.simps) auto
      qed
    next
      case F2: False
      have "map_option snd (class_ranges c1 r (m \<or> (lo \<le> r \<and> r \<le> lo)) True)
          = map_option snd (class_ranges c1 r' (m' \<or> (lo \<le> r' \<and> r' \<le> lo)) True)"
        by (rule "1.IH"(2) [OF nb c1 refl F2])
      with nb c1 F2 show ?thesis
        by (subst (1 2) class_ranges.simps) auto
    qed
  qed
qed

lemma class_ranges_None_iff:
  "class_ranges chunk r m seen = None \<longleftrightarrow> class_ranges chunk r' m' seen = None"
  by (metis class_ranges_syntax map_option_is_None)

lemma class_ranges_rest:
  "class_ranges chunk r m seen = Some (a, rest) \<Longrightarrow> class_ranges chunk r' m' seen = Some (b, rest')
    \<Longrightarrow> rest = rest'"
  using class_ranges_syntax [of chunk r m seen r' m'] by simp

lemma match_chunk_syntax:
  "match_chunk chunk s f = None \<longleftrightarrow> match_chunk chunk s' f' = None"
proof (induction "length chunk" arbitrary: chunk s f s' f' rule: less_induct)
  case less
  show ?case
  proof (cases chunk)
    case Nil
    then show ?thesis by (simp add: match_chunk.simps)
  next
    case (Cons c cs)
    have IH: "match_chunk ch t g = None \<longleftrightarrow> match_chunk ch t' g' = None"
      if "length ch < length chunk" for ch t g t' g'
      using less.hyps [OF that] .
    consider (cls) "c = CHR ''[''" | (esc) "c = CHR 0x5C" | (other) "c \<noteq> CHR ''[''" "c \<noteq> CHR 0x5C"
      by auto
    then show ?thesis
    proof cases
      case cls
      define cs' where "cs' = (if cs \<noteq> [] \<and> hd cs = CHR 0x5E then tl cs else cs)"
      have cs'_len: "length cs' \<le> length cs" by (simp add: cs'_def)
      have unf: "match_chunk chunk t g = None \<longleftrightarrow>
          (case class_ranges cs' 0 False False of None \<Rightarrow> True
           | Some (m, rest) \<Rightarrow> match_chunk rest [] False = None)" for t g
      proof -
        obtain r n where rn: "(if g \<or> t = [] then (0, 0) else decode_rune t) = (r, n)"
          by (metis surj_pair)
        show ?thesis
        proof (cases "class_ranges cs' r False False")
          case None
          then have "class_ranges cs' 0 False False = None"
            by (simp add: class_ranges_None_iff [of cs' 0 _ _ r False])
          with None show ?thesis
            using cls Cons rn by (subst match_chunk.simps) (simp add: Let_def cs'_def)
        next
          case (Some q)
          obtain m rest where q: "q = (m, rest)" by (cases q)
          obtain m0 rest0 where z: "class_ranges cs' 0 False False = Some (m0, rest0)"
            using class_ranges_None_iff [of cs' 0 False False r False] Some
            by (cases "class_ranges cs' 0 False False") auto
          have "rest0 = rest" using class_ranges_rest [OF z] Some q by simp
          moreover have "length rest < length chunk"
            using class_ranges_shorter Some q cs'_len Cons by fastforce
          ultimately show ?thesis
            using cls Cons rn Some q z IH [of rest]
            by (subst match_chunk.simps) (simp add: Let_def cs'_def)
        qed
      qed
      show ?thesis by (simp add: unf)
    next
      case esc
      have unf: "match_chunk chunk t g = None \<longleftrightarrow>
          (case cs of [] \<Rightarrow> True | d # ds \<Rightarrow> match_chunk ds [] False = None)" for t g
      proof (cases cs)
        case Nil
        with esc Cons show ?thesis by (subst match_chunk.simps) (simp add: Let_def)
      next
        case C2: (Cons d ds)
        have e: "match_chunk ds u h = None \<longleftrightarrow> match_chunk ds [] False = None" for u h
          by (rule IH) (simp add: Cons C2)
        have "match_chunk chunk t g =
            (if g \<or> t = [] then match_chunk ds t True else match_chunk ds (tl t) (d \<noteq> hd t))"
          by (subst match_chunk.simps) (simp add: esc Cons C2 Let_def)
        then have "match_chunk chunk t g = None \<longleftrightarrow> match_chunk ds [] False = None"
          by (metis e)
        with C2 show ?thesis by simp
      qed
      show ?thesis by (simp add: unf)
    next
      case other
      have unf: "match_chunk chunk t g = None \<longleftrightarrow> match_chunk cs [] False = None" for t g
        using other Cons IH [of cs] by (subst match_chunk.simps) (simp add: Let_def)
      show ?thesis by (simp add: unf)
    qed
  qed
qed

definition chunk_ok :: "string \<Rightarrow> bool" where
  "chunk_ok chunk = (match_chunk chunk [] False \<noteq> None)"

lemma match_chunk_None: "match_chunk chunk s f = None \<longleftrightarrow> \<not> chunk_ok chunk"
  using match_chunk_syntax [of chunk s f "[]" False] by (simp add: chunk_ok_def)

function pattern_ok :: "string \<Rightarrow> bool" where
  "pattern_ok pattern =
     (if pattern = [] then True
      else (case scan_chunk pattern of (star, chunk, rest) \<Rightarrow> chunk_ok chunk \<and> pattern_ok rest))"
  by pat_completeness auto
termination
  by (relation "measure length") (auto dest: scan_chunk_shorter [OF sym])

declare pattern_ok.simps [simp del]

lemma check_rest_eq: "check_rest p = (if pattern_ok p then Some False else None)"
proof (induction p rule: check_rest.induct)
  case (1 p)
  obtain st ch re where sc: "scan_chunk p = (st, ch, re)" by (cases "scan_chunk p")
  show ?case
  proof (cases "p = [] \<or> \<not> chunk_ok ch")
    case True
    then show ?thesis
      using sc by (subst check_rest.simps, subst pattern_ok.simps)
        (auto simp: match_chunk_None [of ch "[]" False, symmetric] split: option.splits)
  next
    case False
    then obtain r where r: "match_chunk ch [] False = Some r"
      using match_chunk_None [of ch "[]" False] by auto
    have "check_rest re = (if pattern_ok re then Some False else None)"
      by (rule "1" [OF _ sc [symmetric] refl r]) (use False in auto)
    then show ?thesis
      using sc False r by (subst check_rest.simps, subst pattern_ok.simps) simp
  qed
qed

lemma star_skip_not_None: "chunk_ok chunk \<Longrightarrow> star_skip chunk l name \<noteq> None"
proof (induction name)
  case Nil
  then show ?case by simp
next
  case (Cons c cs)
  then show ?case
    using match_chunk_None [of chunk cs False] by (auto split: option.splits)
qed

lemma match_step_not_None: "chunk_ok chunk \<Longrightarrow> match_step star chunk rest name \<noteq> None"
  using match_chunk_None [of chunk name False] star_skip_not_None [of chunk]
  by (auto simp: match_step_def split: option.splits)

lemma match_step_bad: "\<not> chunk_ok chunk \<Longrightarrow> match_step star chunk rest name = None"
  using match_chunk_None [of chunk name False] by (simp add: match_step_def)

lemma path_match_pattern_ok: "pattern_ok p \<Longrightarrow> path_match p name \<noteq> None"
proof (induction p name rule: path_match.induct)
  case (1 p name)
  obtain st ch re where sc: "scan_chunk p = (st, ch, re)" by (cases "scan_chunk p")
  show ?case
  proof (cases "p = [] \<or> (st \<and> ch = [])")
    case True
    then show ?thesis using sc by (subst path_match.simps) auto
  next
    case False
    then have ok: "chunk_ok ch" "pattern_ok re"
      using "1.prems" sc by (simp_all add: pattern_ok.simps [of p])
    then obtain r where r: "match_step st ch re name = Some r"
      by (meson match_step_not_None not_None_eq)
    show ?thesis
    proof (cases r)
      case None
      with False sc r ok show ?thesis
        by (subst path_match.simps) (auto simp: check_rest_eq)
    next
      case (Some t)
      have "path_match re t \<noteq> None"
        by (rule "1.IH" [OF _ sc [symmetric] refl _ _ Some ok(2)]) (use False r in auto)
      with False sc r Some show ?thesis by (subst path_match.simps) simp
    qed
  qed
qed

lemma scan_chunk_empty: "scan_chunk p = (st, [], rest) \<Longrightarrow> rest = []"
proof -
  assume sc: "scan_chunk p = (st, [], rest)"
  show "rest = []"
  proof (cases "dropWhile (\<lambda>c. c = CHR ''*'') p")
    case Nil
    with sc show ?thesis by (simp add: scan_chunk_def)
  next
    case (Cons c s)
    then have "c \<noteq> CHR ''*''"
      by (metis (full_types) hd_dropWhile list.sel(1) list.simps(3))
    moreover have "scan_body False (c # s) = ([], rest)"
      using sc Cons by (simp add: scan_chunk_def Let_def)
    ultimately show ?thesis
      by (auto simp: Let_def map_prod_def split: list.splits prod.splits if_splits)
  qed
qed

lemma chunk_ok_Nil [simp]: "chunk_ok []"
  by (simp add: chunk_ok_def match_chunk.simps)

lemma path_match_not_pattern_ok: "path_match p name \<noteq> None \<Longrightarrow> pattern_ok p"
proof (induction p name rule: path_match.induct)
  case (1 p name)
  obtain st ch re where sc: "scan_chunk p = (st, ch, re)" by (cases "scan_chunk p")
  consider "p = []" | "p \<noteq> []" "st \<and> ch = []" | "p \<noteq> []" "\<not> (st \<and> ch = [])" by blast
  then show ?case
  proof cases
    case 1
    then show ?thesis by (simp add: pattern_ok.simps)
  next
    case 2
    then show ?thesis
      using sc scan_chunk_empty [of p st re]
      by (simp add: pattern_ok.simps [of p] pattern_ok.simps [of "[]"])
  next
    case 3
    with "1.prems" sc obtain r where r: "match_step st ch re name = Some r"
      and rec: "case r of Some t \<Rightarrow> path_match re t \<noteq> None | None \<Rightarrow> check_rest re \<noteq> None"
      by (subst (asm) path_match.simps) (auto split: option.splits)
    have ch: "chunk_ok ch"
      using r match_step_bad [of ch st re name] by (cases "chunk_ok ch") auto
    have "pattern_ok re"
    proof (cases r)
      case None
      with rec show ?thesis by (simp add: check_rest_eq split: if_splits)
    next
      case (Some t)
      show ?thesis
        by (rule "1.IH" [OF 3(1) sc [symmetric] refl 3(2) r Some]) (use rec Some in simp)
    qed
    with ch sc show ?thesis by (simp add: pattern_ok.simps [of p])
  qed
qed

lemma path_match_None_iff: "path_match p name = None \<longleftrightarrow> \<not> pattern_ok p"
  using path_match_pattern_ok path_match_not_pattern_ok by blast

section \<open>Clean\<close>

text \<open>
  \<open>path.Clean\<close>: the segments are pushed on a stack, \<open>.\<close> and empty segments are dropped and
  \<open>..\<close> pops, or is kept where a relative path has nothing to pop.
\<close>

fun clean_segments :: "bool \<Rightarrow> string list \<Rightarrow> string list \<Rightarrow> string list" where
  "clean_segments rooted stack [] = rev stack"
| "clean_segments rooted stack (x # xs) =
     (if x = '''' \<or> x = ''.'' then clean_segments rooted stack xs
      else if x = ''..'' then
        (if stack \<noteq> [] \<and> hd stack \<noteq> ''..'' then clean_segments rooted (tl stack) xs
         else if rooted then clean_segments rooted stack xs
         else clean_segments rooted (x # stack) xs)
      else clean_segments rooted (x # stack) xs)"

definition path_clean :: "string \<Rightarrow> string" where
  "path_clean p =
     (if p = '''' then ''.''
      else
        (let rooted = (hd p = CHR ''/'');
             body = join ''/'' (clean_segments rooted [] (split_on CHR ''/'' p));
             out = (if rooted then ''/'' @ body else body)
         in if out = '''' then ''.'' else out))"

lemma path_clean_no_slash: "CHR ''/'' \<notin> set s \<Longrightarrow> s \<noteq> [] \<Longrightarrow> path_clean s = s"
  by (cases s) (auto simp: path_clean_def Let_def split_on_no_sep)

text \<open>\<open>strings.TrimRight(s, "/")\<close>.\<close>

definition trim_right_slash :: "string \<Rightarrow> string" where
  "trim_right_slash s = rev (dropWhile (\<lambda>c. c = CHR ''/'') (rev s))"

text \<open>\<open>path.Base\<close>.\<close>

definition path_base :: "string \<Rightarrow> string" where
  "path_base p =
     (if p = '''' then ''.''
      else (let q = trim_right_slash p
            in if q = '''' then ''/'' else last (split_on CHR ''/'' q)))"

end
