(* ===== verification/Proxy_Filter.thy ===== *)
theory Proxy_Filter
  imports Go_Path
begin

text \<open>
  The proxy filter chain, \<open>pkg/proxy/filter/filter.go\<close>: the persisted specs, their validation
  and compilation, and the decision engine.  \<open>time.ParseDuration\<close> is the parameter
  \<open>parse_dur\<close> (a duration in nanoseconds, or \<open>None\<close> for a syntax error); nothing is assumed
  of it.
\<close>

section \<open>Specs, references, decisions\<close>

record rule =
  r_package :: string
  r_version :: string

record filter_spec =
  fs_kind :: string
  fs_patterns :: "string list"
  fs_rules :: "rule list"
  fs_min_age :: string

text \<open>\<open>PublishedAt\<close> is a pointer: \<open>None\<close> is nil.\<close>

record ref =
  ref_package :: string
  ref_version :: string
  ref_published_at :: "int option"

datatype outcome = OutcomeAllow | OutcomeDeny | OutcomeNeedsMetadata

text \<open>The source's \<open>Reason\<close> is text for logs; what it is built from is kept.\<close>

datatype reason =
    AllowMatched nat | DenyMatched nat | DelayNeedsTime nat | DelayOld nat | DelayYoung nat
  | DefaultAllow

record decision =
  d_outcome :: outcome
  d_reason :: reason

definition allowed :: "decision \<Rightarrow> bool" where
  "allowed d = (d_outcome d = OutcomeAllow)"

definition denied :: "decision \<Rightarrow> bool" where
  "denied d = (d_outcome d = OutcomeDeny)"

definition needs_metadata :: "decision \<Rightarrow> bool" where
  "needs_metadata d = (d_outcome d = OutcomeNeedsMetadata)"

record compiled_filter =
  cf_kind :: string
  cf_patterns :: "string list"
  cf_rules :: "rule list"
  cf_min_age :: int

type_synonym chain = "compiled_filter list"

section \<open>Validation and compilation\<close>

definition validate_glob :: "string \<Rightarrow> bool" where
  "validate_glob p = (if p = '''' then True else path_match p '''' \<noteq> None)"

definition rule_ok :: "rule \<Rightarrow> bool" where
  "rule_ok r =
     (if r_package r = '''' \<and> r_version r = '''' then False
      else if \<not> validate_glob (r_package r) then False
      else validate_glob (r_version r))"

text \<open>Every failure is some error wrapped in \<open>ErrInvalidFilter\<close>; \<open>None\<close> stands for it.\<close>

definition compile_filter ::
  "(string \<Rightarrow> int option) \<Rightarrow> filter_spec \<Rightarrow> compiled_filter option" where
  "compile_filter parse_dur s =
     (if fs_kind s = ''allow'' \<or> fs_kind s = ''deny'' then
        (if fs_patterns s = [] \<and> fs_rules s = [] then None
         else if fs_min_age s \<noteq> '''' then None
         else if \<not> list_all validate_glob (fs_patterns s) then None
         else if \<not> list_all rule_ok (fs_rules s) then None
         else Some \<lparr>cf_kind = fs_kind s, cf_patterns = fs_patterns s, cf_rules = fs_rules s,
                    cf_min_age = 0\<rparr>)
      else if fs_kind s = ''delay'' then
        (if fs_patterns s \<noteq> [] \<or> fs_rules s \<noteq> [] then None
         else if fs_min_age s = '''' then None
         else case parse_dur (fs_min_age s) of
           None \<Rightarrow> None
         | Some d \<Rightarrow>
             (if d \<le> 0 then None
              else Some \<lparr>cf_kind = ''delay'', cf_patterns = [], cf_rules = [], cf_min_age = d\<rparr>))
      else None)"

definition compile_chain :: "(string \<Rightarrow> int option) \<Rightarrow> filter_spec list \<Rightarrow> chain res" where
  "compile_chain parse_dur specs =
     rmap (\<lambda>s. case compile_filter parse_dur s of
                 None \<Rightarrow> Inl ErrInvalidFilter | Some cf \<Rightarrow> Inr cf) specs"

definition validate_filters :: "(string \<Rightarrow> int option) \<Rightarrow> filter_spec list \<Rightarrow> err option" where
  "validate_filters parse_dur specs =
     (case compile_chain parse_dur specs of Inl e \<Rightarrow> Some e | Inr _ \<Rightarrow> None)"

section \<open>Decisions\<close>

text \<open>The source discards the error of \<open>path.Match\<close>: a bad pattern counts as no match.\<close>

definition glob_match :: "string \<Rightarrow> string \<Rightarrow> bool" where
  "glob_match p s = (path_match p s = Some True)"

definition match_rule :: "rule \<Rightarrow> ref \<Rightarrow> bool" where
  "match_rule r ref =
     (if r_package r \<noteq> '''' \<and> \<not> glob_match (r_package r) (ref_package ref) then False
      else if r_version r \<noteq> '''' \<and> \<not> glob_match (r_version r) (ref_version ref) then False
      else True)"

definition filter_matches :: "compiled_filter \<Rightarrow> ref \<Rightarrow> bool" where
  "filter_matches f ref =
     (list_ex (\<lambda>p. glob_match p (ref_package ref)) (cf_patterns f)
      \<or> list_ex (\<lambda>r. match_rule r ref) (cf_rules f))"

text \<open>\<open>time.Time.Sub\<close>: the difference, saturated to the range of an \<open>int64\<close> duration.\<close>

definition time_sub :: "int \<Rightarrow> int \<Rightarrow> int" where
  "time_sub t u = max (- (2 ^ 63)) (min (2 ^ 63 - 1) (t - u))"

text \<open>One iteration of the loop; \<open>None\<close> abstains.\<close>

definition decide_one :: "nat \<Rightarrow> compiled_filter \<Rightarrow> ref \<Rightarrow> int \<Rightarrow> decision option" where
  "decide_one i f ref now =
     (if cf_kind f = ''allow'' then
        (if filter_matches f ref
         then Some \<lparr>d_outcome = OutcomeAllow, d_reason = AllowMatched i\<rparr> else None)
      else if cf_kind f = ''deny'' then
        (if filter_matches f ref
         then Some \<lparr>d_outcome = OutcomeDeny, d_reason = DenyMatched i\<rparr> else None)
      else if cf_kind f = ''delay'' then
        (case ref_published_at ref of
           None \<Rightarrow> Some \<lparr>d_outcome = OutcomeNeedsMetadata, d_reason = DelayNeedsTime i\<rparr>
         | Some p \<Rightarrow>
             (if time_sub now p \<ge> cf_min_age f
              then Some \<lparr>d_outcome = OutcomeAllow, d_reason = DelayOld i\<rparr>
              else Some \<lparr>d_outcome = OutcomeDeny, d_reason = DelayYoung i\<rparr>))
      else None)"

fun decide_from :: "nat \<Rightarrow> chain \<Rightarrow> ref \<Rightarrow> int \<Rightarrow> decision" where
  "decide_from i [] ref now = \<lparr>d_outcome = OutcomeAllow, d_reason = DefaultAllow\<rparr>"
| "decide_from i (f # fs) ref now =
     (case decide_one i f ref now of
        Some d \<Rightarrow> d
      | None \<Rightarrow> decide_from (Suc i) fs ref now)"

definition decide_at :: "chain \<Rightarrow> ref \<Rightarrow> int \<Rightarrow> decision" where
  "decide_at fs ref now = decide_from 0 fs ref now"

section \<open>Compiled chains\<close>

lemma validate_glob_ok: "validate_glob p \<Longrightarrow> path_match p name \<noteq> None"
  by (cases "p = []")
    (auto simp: validate_glob_def path_match_None_iff path_match.simps [of "[]"])

lemma rule_ok_globs: "rule_ok r \<Longrightarrow> validate_glob (r_package r) \<and> validate_glob (r_version r)"
  by (simp add: rule_ok_def split: if_splits)

definition filter_wf :: "compiled_filter \<Rightarrow> bool" where
  "filter_wf f =
     (cf_kind f \<in> {''allow'', ''deny'', ''delay''}
      \<and> list_all validate_glob (cf_patterns f) \<and> list_all rule_ok (cf_rules f)
      \<and> (cf_kind f = ''delay'' \<longrightarrow> 0 < cf_min_age f))"

lemma compile_filter_wf: "compile_filter pd s = Some f \<Longrightarrow> filter_wf f"
  by (auto simp: compile_filter_def filter_wf_def split: if_splits option.splits)

lemma compile_chain_wf:
  assumes "compile_chain pd specs = Inr c" "f \<in> set c"
  shows "filter_wf f"
proof -
  obtain s where "compile_filter pd s = Some f"
    using assms
    by (auto simp: compile_chain_def rmap_Inr_iff list_all2_conv_all_nth in_set_conv_nth
        split: option.splits)
  then show ?thesis by (rule compile_filter_wf)
qed

lemma compile_filter_min_age:
  assumes "compile_filter pd s = Some f" "cf_kind f = ''delay''"
  shows "pd (fs_min_age s) = Some (cf_min_age f)"
  using assms by (auto simp: compile_filter_def split: if_splits option.splits)

lemma compile_chain_min_age:
  assumes "compile_chain pd specs = Inr c" "f \<in> set c" "cf_kind f = ''delay''"
  shows "\<exists>s. pd s = Some (cf_min_age f)"
proof -
  obtain s where "compile_filter pd s = Some f"
    using assms(1,2)
    by (auto simp: compile_chain_def rmap_Inr_iff list_all2_conv_all_nth in_set_conv_nth
        split: option.splits)
  then show ?thesis using compile_filter_min_age assms(3) by blast
qed

section \<open>The decision engine\<close>

lemma decide_from_skip:
  "(\<And>j. j < length pre \<Longrightarrow> decide_one (i + j) (pre ! j) ref now = None)
    \<Longrightarrow> decide_from i (pre @ post) ref now = decide_from (i + length pre) post ref now"
proof (induction pre arbitrary: i)
  case Nil
  then show ?case by simp
next
  case (Cons f fs)
  have "decide_one i f ref now = None"
    using Cons.prems [of 0] by simp
  moreover have "decide_from (Suc i) (fs @ post) ref now = decide_from (Suc i + length fs) post ref now"
    by (rule Cons.IH) (use Cons.prems [of "Suc j" for j] in auto)
  ultimately show ?case by simp
qed

lemma time_sub_mono: "now \<le> now' \<Longrightarrow> time_sub now p \<le> time_sub now' p"
  by (auto simp: time_sub_def)

lemma time_sub_ge: "- (2 ^ 63) < a \<Longrightarrow> a < 2 ^ 63 \<Longrightarrow> a \<le> time_sub t u \<longleftrightarrow> a \<le> t - u"
  by (auto simp: time_sub_def)

lemma decide_one_abstains_time:
  "decide_one i f ref now = None \<longleftrightarrow> decide_one j f ref now' = None"
  by (auto simp: decide_one_def split: option.splits)

lemma decide_one_mono:
  assumes "now \<le> now'" "decide_one i f ref now = Some d" "allowed d"
  shows "\<exists>d'. decide_one i f ref now' = Some d' \<and> allowed d'"
  using assms(2,3) time_sub_mono [OF assms(1), of "the (ref_published_at ref)"]
  by (auto simp: decide_one_def allowed_def split: option.splits if_splits)

text \<open>A compiled chain never meets a malformed glob: on every package name and version,
  \<open>path.Match\<close> with any pattern of any filter of the chain returns a verdict, so the error that
  the decision engine discards cannot occur.\<close>

theorem compiled_globs_never_fail:
  assumes "compile_chain pd specs = Inr c" "f \<in> set c"
  shows "(\<forall>p \<in> set (cf_patterns f). path_match p name \<noteq> None)
       \<and> (\<forall>r \<in> set (cf_rules f). path_match (r_package r) name \<noteq> None
            \<and> path_match (r_version r) name \<noteq> None)"
proof -
  have "list_all validate_glob (cf_patterns f)" "list_all rule_ok (cf_rules f)"
    using compile_chain_wf [OF assms] by (simp_all add: filter_wf_def)
  then show ?thesis
    by (metis list_all_iff rule_ok_globs validate_glob_ok)
qed

theorem compiled_globs_never_fail_witness:
  "\<exists>c f. compile_chain (\<lambda>_. None) [\<lparr>fs_kind = ''deny'', fs_patterns = [''a*''], fs_rules = [], fs_min_age = ''''\<rparr>]
       = Inr c \<and> f \<in> set c \<and> (\<forall>p \<in> set (cf_patterns f). path_match p ''abc'' \<noteq> None)"
proof -
  let ?specs = "[\<lparr>fs_kind = ''deny'', fs_patterns = [''a*''], fs_rules = [], fs_min_age = ''''\<rparr>]"
  let ?f = "\<lparr>cf_kind = ''deny'', cf_patterns = [''a*''], cf_rules = [], cf_min_age = 0\<rparr>"
  have "compile_chain (\<lambda>_. None) ?specs = Inr [?f]"
    by code_simp
  with compiled_globs_never_fail [OF this, of ?f "''abc''"] show ?thesis
    by (intro exI [of _ "[?f]"] exI [of _ ?f]) simp
qed

text \<open>The decision of a chain is that of its first filter that does not abstain, with that
  filter's index as the reason, and a chain in which every filter abstains allows.\<close>

theorem decide_first_wins:
  "decide_at c ref now =
     (case List.map_filter (\<lambda>(i, f). decide_one i f ref now) (enumerate 0 c) of
        [] \<Rightarrow> \<lparr>d_outcome = OutcomeAllow, d_reason = DefaultAllow\<rparr>
      | d # _ \<Rightarrow> d)"
proof -
  have "decide_from i c ref now =
     (case List.map_filter (\<lambda>(i, f). decide_one i f ref now) (enumerate i c) of
        [] \<Rightarrow> \<lparr>d_outcome = OutcomeAllow, d_reason = DefaultAllow\<rparr>
      | d # _ \<Rightarrow> d)" for i
    by (induction c arbitrary: i) (auto simp: List.map_filter_simps split: option.split)
  then show ?thesis by (simp add: decide_at_def)
qed

text \<open>C14: delay filters fail closed: when the earlier filters abstain, an artifact is allowed
  exactly if its publication time is known and at least the configured age ago; an unknown or
  future time never passes.  (\<open>time.ParseDuration\<close> yields an \<open>int64\<close>.)\<close>

theorem delay_fails_closed:
  assumes "compile_chain pd specs = Inr (pre @ f # post)" "cf_kind f = ''delay''"
    and "\<And>s d. pd s = Some d \<Longrightarrow> d < 2 ^ 63"
    and "\<And>j. j < length pre \<Longrightarrow> decide_one j (pre ! j) ref now = None"
  shows "allowed (decide_at (pre @ f # post) ref now)
     \<longleftrightarrow> (\<exists>p. ref_published_at ref = Some p \<and> cf_min_age f \<le> now - p)"
proof -
  have wf: "0 < cf_min_age f"
    using compile_chain_wf [OF assms(1), of f] assms(2) by (simp add: filter_wf_def)
  obtain s where "pd s = Some (cf_min_age f)"
    using compile_chain_min_age [OF assms(1), of f] assms(2) by auto
  then have lt: "cf_min_age f < 2 ^ 63" by (rule assms(3))
  have "decide_at (pre @ f # post) ref now = the (decide_one (length pre) f ref now)"
    using decide_from_skip [of pre 0 ref now "f # post"] assms(2,4)
    by (simp add: decide_at_def decide_one_def split: option.splits)
  with wf lt assms(2) show ?thesis
    by (auto simp: decide_one_def allowed_def time_sub_ge split: option.splits)
qed

theorem delay_fails_closed_witness:
  "allowed (decide_at [\<lparr>cf_kind = ''delay'', cf_patterns = [], cf_rules = [], cf_min_age = 5\<rparr>]
      \<lparr>ref_package = ''p'', ref_version = ''1'', ref_published_at = Some 3\<rparr> 9)"
proof -
  let ?f = "\<lparr>cf_kind = ''delay'', cf_patterns = [], cf_rules = [], cf_min_age = 5\<rparr>"
  have "compile_chain (\<lambda>_. Some 5) [\<lparr>fs_kind = ''delay'', fs_patterns = [], fs_rules = [], fs_min_age = ''5ns''\<rparr>]
      = Inr ([] @ ?f # [])"
    by code_simp
  from delay_fails_closed [OF this, of "\<lparr>ref_package = ''p'', ref_version = ''1'', ref_published_at = Some 3\<rparr>" 9]
  show ?thesis by simp
qed

text \<open>Waiting never loses an allowance: a chain that allows an artifact allows it at every
  later time.\<close>

theorem decision_monotone_in_time:
  assumes "now \<le> now'" "allowed (decide_at c ref now)"
  shows "allowed (decide_at c ref now')"
proof -
  have "allowed (decide_from i c ref now) \<Longrightarrow> allowed (decide_from i c ref now')" for i
  proof (induction c arbitrary: i)
    case Nil
    then show ?case by (simp add: allowed_def)
  next
    case (Cons f c)
    show ?case
    proof (cases "decide_one i f ref now")
      case None
      with Cons show ?thesis by (simp add: decide_one_abstains_time [of i f ref now i now'])
    next
      case (Some d)
      with Cons.prems have "allowed d" by simp
      with decide_one_mono [OF assms(1) Some] show ?thesis by auto
    qed
  qed
  with assms(2) show ?thesis by (simp add: decide_at_def)
qed

theorem decision_monotone_in_time_witness:
  "allowed (decide_at [\<lparr>cf_kind = ''delay'', cf_patterns = [], cf_rules = [], cf_min_age = 5\<rparr>]
      \<lparr>ref_package = ''p'', ref_version = ''1'', ref_published_at = Some 3\<rparr> 100)"
proof (rule decision_monotone_in_time)
  show "allowed (decide_at [\<lparr>cf_kind = ''delay'', cf_patterns = [], cf_rules = [], cf_min_age = 5\<rparr>]
      \<lparr>ref_package = ''p'', ref_version = ''1'', ref_published_at = Some 3\<rparr> 9)"
    by (simp add: decide_at_def decide_one_def allowed_def time_sub_def)
qed simp

end
