(* ===== verification/Negcache.thy ===== *)
theory Negcache
  imports Ttl_Cache
begin

text \<open>
  The proxy's negative cache, \<open>pkg/proxy/negcache/negcache.go\<close>.  Its entries map a joined key
  to an expiry; the clock reading is an argument of the operations that read the clock.  The
  mutex makes each operation atomic.
\<close>

definition neg_default_ttl :: int where
  "neg_default_ttl = 30 * 10 ^ 9"

record negcache =
  nc_entries :: "string \<rightharpoonup> int"
  nc_ttl :: int

definition neg_new :: "int \<Rightarrow> negcache" where
  "neg_new ttl =
     (let ttl = (if ttl \<le> 0 then neg_default_ttl else ttl)
      in \<lparr>nc_entries = Map.empty, nc_ttl = ttl\<rparr>)"

definition neg_cache_key :: "string \<Rightarrow> string \<Rightarrow> string \<Rightarrow> string" where
  "neg_cache_key ns format key = ns @ [CHR 0x00] @ format @ [CHR 0x00] @ key"

definition neg_mark :: "int \<Rightarrow> string \<Rightarrow> string \<Rightarrow> string \<Rightarrow> negcache \<Rightarrow> negcache" where
  "neg_mark now ns format key c =
     (let k = neg_cache_key ns format key
      in c\<lparr>nc_entries := (nc_entries c)(k \<mapsto> now + nc_ttl c)\<rparr>)"

definition neg_has :: "int \<Rightarrow> string \<Rightarrow> string \<Rightarrow> string \<Rightarrow> negcache \<Rightarrow> bool \<times> negcache" where
  "neg_has now ns format key c =
     (let k = neg_cache_key ns format key
      in case nc_entries c k of
           None \<Rightarrow> (False, c)
         | Some exp \<Rightarrow>
             (if \<not> now < exp then (False, c\<lparr>nc_entries := (nc_entries c)(k := None)\<rparr>)
              else (True, c)))"

definition neg_delete :: "string \<Rightarrow> string \<Rightarrow> string \<Rightarrow> negcache \<Rightarrow> negcache" where
  "neg_delete ns format key c =
     (let k = neg_cache_key ns format key
      in c\<lparr>nc_entries := (nc_entries c)(k := None)\<rparr>)"

section \<open>Keys do not collide\<close>

lemma append_sep_inj:
  assumes "a @ c # r = b @ c # s" "c \<notin> set a" "c \<notin> set b"
  shows "a = b \<and> r = s"
proof -
  have "takeWhile (\<lambda>x. x \<noteq> c) (a @ c # r) = a" "takeWhile (\<lambda>x. x \<noteq> c) (b @ c # s) = b"
    using assms(2,3) by (auto simp: takeWhile_append2 takeWhile_append)
  with assms(1) have "a = b" by simp
  with assms(1) show ?thesis by simp
qed

lemma neg_cache_key_inj:
  assumes "neg_cache_key ns f k = neg_cache_key ns' f' k'"
    and "CHR 0x00 \<notin> set ns \<union> set f \<union> set ns' \<union> set f'"
  shows "ns = ns' \<and> f = f' \<and> k = k'"
  using assms append_sep_inj [of ns "CHR 0x00" "f @ CHR 0x00 # k" ns' "f' @ CHR 0x00 # k'"]
    append_sep_inj [of f "CHR 0x00" k f' k']
  by (simp add: neg_cache_key_def)

section \<open>The cache contract\<close>

text \<open>The keys of the contract are triples of parts without the separator.\<close>

definition neg_key_ok :: "string \<times> string \<times> string \<Rightarrow> bool" where
  "neg_key_ok q = (CHR 0x00 \<notin> set (fst q) \<union> set (fst (snd q)))"

definition neg_put ::
  "int \<Rightarrow> string \<times> string \<times> string \<Rightarrow> unit \<Rightarrow> negcache \<Rightarrow> negcache" where
  "neg_put now q u c = (case q of (ns, f, k) \<Rightarrow> if neg_key_ok q then neg_mark now ns f k c else c)"

definition neg_del :: "string \<times> string \<times> string \<Rightarrow> negcache \<Rightarrow> negcache" where
  "neg_del q c = (case q of (ns, f, k) \<Rightarrow> neg_delete ns f k c)"

definition neg_touch :: "int \<Rightarrow> string \<times> string \<times> string \<Rightarrow> negcache \<Rightarrow> negcache" where
  "neg_touch now q c = (case q of (ns, f, k) \<Rightarrow> snd (neg_has now ns f k c))"

definition neg_live :: "negcache \<Rightarrow> int \<Rightarrow> string \<times> string \<times> string \<Rightarrow> unit option" where
  "neg_live c now q =
     (case q of (ns, f, k) \<Rightarrow> if neg_key_ok q \<and> fst (neg_has now ns f k c) then Some () else None)"

lemmas neg_ops = neg_put_def neg_del_def neg_touch_def neg_live_def neg_mark_def neg_has_def
  neg_delete_def Let_def

lemma neg_key_eq:
  "neg_key_ok (ns, f, k) \<Longrightarrow> neg_key_ok (ns', f', k')
    \<Longrightarrow> neg_cache_key ns f k = neg_cache_key ns' f' k' \<longleftrightarrow> ns = ns' \<and> f = f' \<and> k = k'"
  using neg_cache_key_inj [of ns f k ns' f' k'] by (auto simp: neg_key_ok_def)

lemma neg_cache_contract:
  "ttl_cache (neg_new ttl) neg_put neg_del neg_touch neg_live
     (\<lambda>t t0. t < t0 + nc_ttl (neg_new ttl)) (\<lambda>c. nc_ttl c = nc_ttl (neg_new ttl))"
proof (unfold_locales, goal_cases)
  case 1
  show ?case by simp
next
  case (2 s t k v)
  then show ?case by (auto simp: neg_ops split: prod.splits)
next
  case (3 s k)
  then show ?case by (auto simp: neg_ops split: prod.splits)
next
  case (4 s t k)
  then show ?case by (auto simp: neg_ops split: prod.splits option.splits)
next
  case (5 t k)
  show ?case by (auto simp: neg_ops neg_new_def split: prod.splits)
next
  case (6 s t0 k v t w)
  then show ?case by (auto simp: neg_ops split: prod.splits option.splits if_splits)
next
  case (7 s k' k t0 v t w)
  then show ?case
    by (auto simp: neg_ops neg_key_eq split: prod.splits option.splits if_splits)
next
  case (8 s k t)
  then show ?case by (auto simp: neg_ops split: prod.splits)
next
  case (9 s k t k' w)
  then show ?case by (auto simp: neg_ops split: prod.splits option.splits if_splits)
next
  case (10 s t0 k t k' w)
  then show ?case by (auto simp: neg_ops split: prod.splits option.splits if_splits)
qed

interpretation neg: ttl_cache "neg_new ttl" neg_put neg_del neg_touch neg_live
  "\<lambda>t t0. t < t0 + nc_ttl (neg_new ttl)" "\<lambda>c. nc_ttl c = nc_ttl (neg_new ttl)"
  for ttl
  by (rule neg_cache_contract)

section \<open>Properties\<close>

text \<open>C15: a negative answer is always backed by a recent mark: after any sequence of marks,
  deletions and lookups, \<open>Has\<close> answers yes only if the last event on that very namespace, format
  and key was a mark made less than the lifetime ago.\<close>

theorem neg_has_recent_mark:
  assumes "CHR 0x00 \<notin> set ns \<union> set format"
    and "fst (neg_has t ns format key
           (run_cache neg_put neg_del neg_touch (neg_new ttl) es))"
  shows "\<exists>t0. last_put (ns, format, key) es = Some (t0, ()) \<and> t < t0 + nc_ttl (neg_new ttl)"
proof (rule neg.live_from_last_put)
  show "neg_live (run_cache neg_put neg_del neg_touch (neg_new ttl) es) t (ns, format, key) = Some ()"
    using assms by (simp add: neg_live_def neg_key_ok_def)
qed

theorem neg_has_recent_mark_witness:
  "fst (neg_has 5 ''a'' ''npm'' ''k''
     (run_cache neg_put neg_del neg_touch (neg_new 10) [CPut 0 (''a'', ''npm'', ''k'') ()]))
   \<and> (\<exists>t0. last_put (''a'', ''npm'', ''k'') [CPut 0 (''a'', ''npm'', ''k'') ()] = Some (t0, ())
        \<and> 5 < t0 + nc_ttl (neg_new 10))"
proof -
  have "fst (neg_has 5 ''a'' ''npm'' ''k''
     (run_cache neg_put neg_del neg_touch (neg_new 10) [CPut 0 (''a'', ''npm'', ''k'') ()]))"
    by (simp add: neg_ops neg_new_def neg_key_ok_def)
  then show ?thesis
    using neg_has_recent_mark [of "''a''" "''npm''" 5 "''k''" 10 "[CPut 0 (''a'', ''npm'', ''k'') ()]"]
    by simp
qed

end
