(* ===== verification/Flight.thy ===== *)
theory Flight
  imports Prelude
begin

text \<open>
  The concurrency of \<open>flightGroup.Do\<close> (\<open>pkg/core/blobstore/cache.go\<close>): any number of callers,
  each between two lock regions or running the function.  A step is one caller's atomic
  action: the first locked region (join a call or create one), the function's return together
  with \<open>wg.Done\<close>, the second locked region, or a waiter's wake-up.
\<close>

datatype 'v caller =
    Start string
  | Waiting string nat
  | Running string nat
  | Cleanup string nat
  | Returned string nat "'v res"

text \<open>\<open>fg_calls c\<close> is \<open>None\<close> while the call runs and its result after \<open>wg.Done\<close>.\<close>

record 'v flight =
  fg_m :: "string \<rightharpoonup> nat"
  fg_calls :: "nat \<Rightarrow> 'v res option"
  fg_next :: nat
  fg_pc :: "nat \<Rightarrow> 'v caller"

definition flight_init :: "(nat \<Rightarrow> string) \<Rightarrow> 'v flight" where
  "flight_init key =
     \<lparr>fg_m = Map.empty, fg_calls = (\<lambda>_. None), fg_next = 0, fg_pc = (\<lambda>i. Start (key i))\<rparr>"

inductive flight_step :: "'v flight \<Rightarrow> 'v flight \<Rightarrow> bool" where
  join: "fg_pc s i = Start k \<Longrightarrow> fg_m s k = Some c \<Longrightarrow>
     flight_step s (s\<lparr>fg_pc := (fg_pc s)(i := Waiting k c)\<rparr>)"
| lead: "fg_pc s i = Start k \<Longrightarrow> fg_m s k = None \<Longrightarrow>
     flight_step s (s\<lparr>fg_m := (fg_m s)(k \<mapsto> fg_next s), fg_next := Suc (fg_next s),
                      fg_pc := (fg_pc s)(i := Running k (fg_next s))\<rparr>)"
| finish: "fg_pc s i = Running k c \<Longrightarrow>
     flight_step s (s\<lparr>fg_calls := (fg_calls s)(c := Some r), fg_pc := (fg_pc s)(i := Cleanup k c)\<rparr>)"
| cleanup: "fg_pc s i = Cleanup k c \<Longrightarrow> fg_calls s c = Some r \<Longrightarrow>
     flight_step s (s\<lparr>fg_m := (if fg_m s k = Some c then (fg_m s)(k := None) else fg_m s),
                      fg_pc := (fg_pc s)(i := Returned k c r)\<rparr>)"
| wake: "fg_pc s i = Waiting k c \<Longrightarrow> fg_calls s c = Some r \<Longrightarrow>
     flight_step s (s\<lparr>fg_pc := (fg_pc s)(i := Returned k c r)\<rparr>)"

inductive flight_reachable :: "(nat \<Rightarrow> string) \<Rightarrow> 'v flight \<Rightarrow> bool" for key where
  start: "flight_reachable key (flight_init key)"
| step: "flight_reachable key s \<Longrightarrow> flight_step s t \<Longrightarrow> flight_reachable key t"

text \<open>The call a caller is attached to, with its key.\<close>

fun attached :: "'v caller \<Rightarrow> (string \<times> nat) option" where
  "attached (Start k) = None"
| "attached (Waiting k c) = Some (k, c)"
| "attached (Running k c) = Some (k, c)"
| "attached (Cleanup k c) = Some (k, c)"
| "attached (Returned k c r) = Some (k, c)"

text \<open>
  The invariant: calls are numbered below \<open>fg_next\<close>; a call has one key; a running or
  cleaning caller's call is the one registered under its key, so there is at most one per
  key; a call has a result once no caller runs it; results are shared.
\<close>

definition flight_inv :: "'v flight \<Rightarrow> bool" where
  "flight_inv s \<longleftrightarrow>
     (\<forall>k c. fg_m s k = Some c \<longrightarrow> c < fg_next s)
     \<and> (\<forall>i k c. attached (fg_pc s i) = Some (k, c) \<longrightarrow> c < fg_next s)
     \<and> (\<forall>i k c. fg_pc s i = Running k c \<longrightarrow> fg_m s k = Some c \<and> fg_calls s c = None)
     \<and> (\<forall>i k c. fg_pc s i = Cleanup k c \<longrightarrow> fg_m s k = Some c \<and> fg_calls s c \<noteq> None)
     \<and> (\<forall>i j k l c. fg_pc s i \<in> {Running k c, Cleanup k c} \<longrightarrow>
            fg_pc s j \<in> {Running l c, Cleanup l c} \<longrightarrow> i = j)
     \<and> (\<forall>c. c \<ge> fg_next s \<longrightarrow> fg_calls s c = None)
     \<and> (\<forall>i k c r. fg_pc s i = Returned k c r \<longrightarrow> fg_calls s c = Some r)
     \<and> (\<forall>k l c. fg_m s k = Some c \<longrightarrow> fg_m s l = Some c \<longrightarrow> k = l)
     \<and> (\<forall>i k l c. attached (fg_pc s i) = Some (k, c) \<longrightarrow> fg_m s l = Some c \<longrightarrow> k = l)"

lemma flight_inv_init: "flight_inv (flight_init key)"
  by (simp add: flight_inv_def flight_init_def)

lemma flight_join_inv:
  assumes "flight_inv s" and "fg_pc s i = Start k" "fg_m s k = Some c"
  shows "flight_inv (s\<lparr>fg_pc := (fg_pc s)(i := Waiting k c)\<rparr>)"
  using assms unfolding flight_inv_def by (auto split: if_splits)

lemma flight_lead_inv:
  assumes "flight_inv s" and "fg_pc s i = Start k" "fg_m s k = None"
  shows "flight_inv (s\<lparr>fg_m := (fg_m s)(k \<mapsto> fg_next s), fg_next := Suc (fg_next s),
                      fg_pc := (fg_pc s)(i := Running k (fg_next s))\<rparr>)"
  using assms unfolding flight_inv_def
  by (auto simp: less_SucI split: if_splits) (metis attached.simps(3,4) less_irrefl less_SucI)+

lemma flight_finish_inv:
  assumes "flight_inv s" and "fg_pc s i = Running k c"
  shows "flight_inv (s\<lparr>fg_calls := (fg_calls s)(c := Some r), fg_pc := (fg_pc s)(i := Cleanup k c)\<rparr>)"
  using assms unfolding flight_inv_def
  by (auto split: if_splits) (metis attached.simps(3) leD option.distinct(1))+

lemma flight_cleanup_inv:
  assumes "flight_inv s" and "fg_pc s i = Cleanup k c" "fg_calls s c = Some r"
  shows "flight_inv (s\<lparr>fg_m := (if fg_m s k = Some c then (fg_m s)(k := None) else fg_m s),
                      fg_pc := (fg_pc s)(i := Returned k c r)\<rparr>)"
  using assms unfolding flight_inv_def
  by (auto split: if_splits) (metis attached.simps(4) option.inject)+

lemma flight_wake_inv:
  assumes "flight_inv s" and "fg_pc s i = Waiting k c" "fg_calls s c = Some r"
  shows "flight_inv (s\<lparr>fg_pc := (fg_pc s)(i := Returned k c r)\<rparr>)"
  using assms unfolding flight_inv_def
  by (auto split: if_splits) (metis attached.simps(2))+

lemma flight_step_inv: "flight_step s t \<Longrightarrow> flight_inv s \<Longrightarrow> flight_inv t"
  by (induction rule: flight_step.induct)
    (blast intro: flight_join_inv flight_lead_inv flight_finish_inv flight_cleanup_inv
      flight_wake_inv)+

lemma flight_reachable_inv: "flight_reachable key s \<Longrightarrow> flight_inv s"
  by (induction rule: flight_reachable.induct) (auto intro: flight_inv_init flight_step_inv)

section \<open>Properties\<close>

text \<open>C11: under every interleaving of any number of callers, at most one caller at a time runs
  the function of a key.\<close>

theorem flight_single_runner:
  assumes "flight_reachable key s" "fg_pc s i = Running k c" "fg_pc s j = Running k d"
  shows "i = j"
proof -
  have inv: "flight_inv s" using flight_reachable_inv [OF assms(1)] .
  have "fg_m s k = Some c'" if "fg_pc s l = Running k c'" for l c'
    using inv that by (simp add: flight_inv_def)
  from this [OF assms(2)] this [OF assms(3)] have "c = d" by simp
  have "\<forall>i j k l c. fg_pc s i = Running k c \<longrightarrow> fg_pc s j = Running l c \<longrightarrow> i = j"
    using inv by (simp add: flight_inv_def)
  with \<open>c = d\<close> assms(2,3) show ?thesis by blast
qed

text \<open>Under every interleaving, all callers that shared a flight return the same result.\<close>

theorem flight_shared_result:
  assumes "flight_reachable key s" "fg_pc s i = Returned k c r" "fg_pc s j = Returned l c q"
  shows "r = q"
proof -
  have "fg_calls s c = Some x" if "fg_pc s h = Returned m c x" for h m x
    using flight_reachable_inv [OF assms(1)] that by (simp add: flight_inv_def)
  from this [OF assms(2)] this [OF assms(3)] show ?thesis by simp
qed

section \<open>A run with two callers\<close>

text \<open>Caller 0 leads, caller 1 joins, the function returns 7, both return.\<close>

lemma flight_lead_state:
  "flight_reachable (\<lambda>_. ''k'')
     (flight_init (\<lambda>_. ''k'')\<lparr>fg_m := [''k'' \<mapsto> 0], fg_next := 1,
        fg_pc := (\<lambda>_. Start ''k'')(0 := Running ''k'' 0)\<rparr>)"
  using flight_reachable.step [OF flight_reachable.start flight_step.lead [of _ 0 "''k''"],
      of "\<lambda>_. ''k''"]
  by (simp add: flight_init_def)

lemma flight_two_returned:
  "\<exists>s :: nat flight. flight_reachable (\<lambda>_. ''k'') s
     \<and> fg_pc s 0 = Returned ''k'' 0 (Inr 7) \<and> fg_pc s 1 = Returned ''k'' 0 (Inr 7)"
proof -
  let ?k = "\<lambda>_::nat. ''k''"
  define s1 :: "nat flight" where "s1 = flight_init ?k\<lparr>fg_m := [''k'' \<mapsto> 0], fg_next := 1,
        fg_pc := (\<lambda>_. Start ''k'')(0 := Running ''k'' 0)\<rparr>"
  define s2 where "s2 = s1\<lparr>fg_pc := (fg_pc s1)(1 := Waiting ''k'' 0)\<rparr>"
  define s3 where "s3 = s2\<lparr>fg_calls := (fg_calls s2)(0 := Some (Inr 7)),
        fg_pc := (fg_pc s2)(0 := Cleanup ''k'' 0)\<rparr>"
  define s4 where "s4 = s3\<lparr>fg_pc := (fg_pc s3)(1 := Returned ''k'' 0 (Inr 7))\<rparr>"
  define s5 where "s5 = s4\<lparr>fg_m := (if fg_m s4 ''k'' = Some 0 then (fg_m s4)(''k'' := None) else fg_m s4),
        fg_pc := (fg_pc s4)(0 := Returned ''k'' 0 (Inr 7))\<rparr>"
  have "flight_reachable ?k s1" unfolding s1_def by (rule flight_lead_state)
  moreover have "flight_step s1 s2"
    unfolding s2_def by (rule flight_step.join) (simp_all add: s1_def flight_init_def)
  moreover have "flight_step s2 s3"
    unfolding s3_def by (rule flight_step.finish) (simp add: s2_def s1_def)
  moreover have "flight_step s3 s4"
    unfolding s4_def by (rule flight_step.wake) (simp_all add: s3_def s2_def)
  moreover have "flight_step s4 s5"
    unfolding s5_def by (rule flight_step.cleanup) (simp_all add: s4_def s3_def)
  ultimately have "flight_reachable ?k s5"
    by (blast intro: flight_reachable.step)
  moreover have "fg_pc s5 0 = Returned ''k'' 0 (Inr 7)" "fg_pc s5 1 = Returned ''k'' 0 (Inr 7)"
    by (simp_all add: s5_def s4_def)
  ultimately show ?thesis by blast
qed

theorem flight_single_runner_witness:
  "\<exists>s :: nat flight. flight_reachable (\<lambda>_. ''k'') s \<and> fg_pc s 0 = Running ''k'' 0
     \<and> {j. fg_pc s j = Running ''k'' 0} = {0}"
proof -
  define s :: "nat flight" where "s = flight_init (\<lambda>_. ''k'')\<lparr>fg_m := [''k'' \<mapsto> 0], fg_next := 1,
        fg_pc := (\<lambda>_. Start ''k'')(0 := Running ''k'' 0)\<rparr>"
  have r: "flight_reachable (\<lambda>_. ''k'') s" unfolding s_def by (rule flight_lead_state)
  have p: "fg_pc s 0 = Running ''k'' 0" by (simp add: s_def)
  have "{j. fg_pc s j = Running ''k'' 0} = {0}"
    using flight_single_runner [OF r _ p] p by blast
  with r p show ?thesis by blast
qed

theorem flight_shared_result_witness:
  "\<exists>s :: nat flight. flight_reachable (\<lambda>_. ''k'') s
     \<and> (\<exists>r q. fg_pc s 0 = Returned ''k'' 0 r \<and> fg_pc s 1 = Returned ''k'' 0 q \<and> r = q)"
proof -
  obtain s :: "nat flight" where r: "flight_reachable (\<lambda>_. ''k'') s"
    and p: "fg_pc s 0 = Returned ''k'' 0 (Inr 7)" and q: "fg_pc s 1 = Returned ''k'' 0 (Inr 7)"
    using flight_two_returned by blast
  show ?thesis using r p q flight_shared_result [OF r p q] by blast
qed

end
