(* ===== verification/Flight_Progress.thy ===== *)
theory Flight_Progress
  imports Flight
begin

text \<open>
  Progress of \<open>flightGroup.Do\<close>: with finitely many callers no schedule runs forever and none
  gets stuck, so every caller returns as soon as the function it runs does.
\<close>

text \<open>A schedule of \<open>m\<close> atomic steps in which only the callers below \<open>n\<close> act.\<close>

inductive flight_run :: "nat \<Rightarrow> (nat \<Rightarrow> string) \<Rightarrow> nat \<Rightarrow> 'v flight \<Rightarrow> bool" for n key where
  idle: "flight_run n key 0 (flight_init key)"
| act: "flight_run n key m s \<Longrightarrow> flight_step s t \<Longrightarrow> (\<forall>i\<ge>n. fg_pc t i = fg_pc s i) \<Longrightarrow>
     flight_run n key (Suc m) t"

lemma flight_run_reachable: "flight_run n key m s \<Longrightarrow> flight_reachable key s"
  by (induction rule: flight_run.induct) (auto intro: flight_reachable.intros)

lemma flight_run_others: "flight_run n key m s \<Longrightarrow> n \<le> i \<Longrightarrow> fg_pc s i = Start (key i)"
  by (induction rule: flight_run.induct) (simp_all add: flight_init_def)

section \<open>The steps a caller has left\<close>

fun caller_left :: "'v caller \<Rightarrow> nat" where
  "caller_left (Start k) = 3"
| "caller_left (Running k c) = 2"
| "caller_left (Cleanup k c) = 1"
| "caller_left (Waiting k c) = 1"
| "caller_left (Returned k c r) = 0"

definition flight_left :: "nat \<Rightarrow> 'v flight \<Rightarrow> nat" where
  "flight_left n s = (\<Sum>i<n. caller_left (fg_pc s i))"

text \<open>A step moves one caller, and that caller has fewer steps left.\<close>

lemma flight_step_moves:
  "flight_step s t \<Longrightarrow>
     \<exists>i p. fg_pc t = (fg_pc s)(i := p) \<and> caller_left p < caller_left (fg_pc s i)"
  by (erule flight_step.cases; simp; rule exI, rule exI, rule conjI, rule refl; simp)

lemma sum_drop_one:
  fixes f :: "nat \<Rightarrow> nat"
  assumes "i < n" "v < f i"
  shows "(\<Sum>j<n. (f(i := v)) j) < (\<Sum>j<n. f j)"
  using assms by (intro sum_strict_mono_ex1) auto

lemma flight_step_left:
  assumes "flight_step s t" "\<forall>i\<ge>n. fg_pc t i = fg_pc s i"
  shows "flight_left n t < flight_left n s"
proof -
  obtain i p where pc: "fg_pc t = (fg_pc s)(i := p)"
    and less: "caller_left p < caller_left (fg_pc s i)"
    using flight_step_moves [OF assms(1)] by blast
  have "i < n"
  proof (rule ccontr)
    assume "\<not> i < n"
    then have "fg_pc t i = fg_pc s i" using assms(2) by simp
    with pc less show False by simp
  qed
  then have "(\<Sum>j<n. ((\<lambda>j. caller_left (fg_pc s j))(i := caller_left p)) j) < flight_left n s"
    unfolding flight_left_def using less by (intro sum_drop_one)
  moreover have "(\<lambda>j. caller_left (fg_pc s j))(i := caller_left p) = (\<lambda>j. caller_left (fg_pc t j))"
    by (simp add: pc fun_eq_iff)
  ultimately show ?thesis by (simp add: flight_left_def)
qed

lemma flight_run_left: "flight_run n key m s \<Longrightarrow> flight_left n s + m \<le> 3 * n"
proof (induction rule: flight_run.induct)
  case idle
  show ?case by (simp add: flight_left_def flight_init_def)
next
  case (act m s t)
  with flight_step_left [OF act.hyps(2,3)] show ?case by simp
qed

section \<open>No caller is stranded\<close>

text \<open>A call without a result is still being run by some caller.\<close>

definition calls_run :: "'v flight \<Rightarrow> bool" where
  "calls_run s \<longleftrightarrow>
     (\<forall>c<fg_next s. fg_calls s c = None \<longrightarrow> (\<exists>j k. fg_pc s j = Running k c))"

lemma keep_runner:
  "\<exists>j k. f j = Running k c \<Longrightarrow> (\<forall>k. f i \<noteq> Running k c) \<Longrightarrow>
     \<exists>j k. (f(i := p)) j = Running k c"
  by (metis fun_upd_other)

lemma calls_run_step: "flight_step s t \<Longrightarrow> calls_run s \<Longrightarrow> calls_run t"
proof (induction rule: flight_step.induct)
  case (lead s i k)
  have "\<exists>j l. ((fg_pc s)(i := Running k (fg_next s))) j = Running l c"
    if "c < Suc (fg_next s)" "fg_calls s c = None" for c
  proof (cases "c = fg_next s")
    case True
    then show ?thesis by (metis fun_upd_same)
  next
    case False
    with that lead show ?thesis by (intro keep_runner) (auto simp: calls_run_def)
  qed
  then show ?case by (simp add: calls_run_def del: fun_upd_apply)
next
  case (finish s i k c r)
  have "\<exists>j l. ((fg_pc s)(i := Cleanup k c)) j = Running l d"
    if "d < fg_next s" "fg_calls s d = None" "d \<noteq> c" for d
    using that finish by (intro keep_runner) (auto simp: calls_run_def)
  then show ?case by (simp add: calls_run_def)
next
  case (join s i k c)
  then show ?case
    by (simp add: calls_run_def del: fun_upd_apply) (intro allI impI keep_runner, simp_all)
next
  case (cleanup s i k c r)
  then show ?case
    by (simp add: calls_run_def del: fun_upd_apply) (intro allI impI keep_runner, simp_all)
next
  case (wake s i k c r)
  then show ?case
    by (simp add: calls_run_def del: fun_upd_apply) (intro allI impI keep_runner, simp_all)
qed

lemma calls_run_init: "calls_run (flight_init key)"
  by (simp add: calls_run_def flight_init_def)

lemma flight_run_calls: "flight_run n key m s \<Longrightarrow> calls_run s"
  by (induction rule: flight_run.induct) (auto intro: calls_run_init calls_run_step)

text \<open>A caller that has not returned either can act itself or waits for one that can.\<close>

lemma flight_not_stuck:
  fixes s :: "'v flight"
  assumes run: "flight_run n key m s" and i: "i < n" "caller_left (fg_pc s i) \<noteq> 0"
  shows "\<exists>t :: 'v flight. flight_run n key (Suc m) t"
proof -
  have inv: "flight_inv s" using run by (intro flight_reachable_inv flight_run_reachable)
  have act: "\<exists>t :: 'v flight. flight_run n key (Suc m) t"
    if "flight_step s u" "fg_pc u = (fg_pc s)(j := p)" "j < n" for u j p
    using flight_run.act [OF run that(1)] that(2,3) by auto
  have runner: "\<exists>t :: 'v flight. flight_run n key (Suc m) t" if "fg_pc s j = Running k c" for j k c
  proof -
    have "j < n" using flight_run_others [OF run, of j] that by (cases "j < n") auto
    with act [OF flight_step.finish [OF that]] show ?thesis by simp
  qed
  show ?thesis
  proof (cases "fg_pc s i")
    case (Start k)
    then show ?thesis
      using act [OF flight_step.join [OF Start]] act [OF flight_step.lead [OF Start]] i(1)
      by (cases "fg_m s k") auto
  next
    case (Waiting k c)
    have "c < fg_next s" using inv Waiting unfolding flight_inv_def
      by (metis attached.simps(2))
    then show ?thesis
      using flight_run_calls [OF run] runner act [OF flight_step.wake [OF Waiting]] i(1)
      by (cases "fg_calls s c") (auto simp: calls_run_def)
  next
    case (Running k c)
    then show ?thesis by (rule runner)
  next
    case (Cleanup k c)
    then have "fg_calls s c \<noteq> None" using inv by (simp add: flight_inv_def)
    then show ?thesis using act [OF flight_step.cleanup [OF Cleanup]] i(1) by auto
  next
    case (Returned k c r)
    with i(2) show ?thesis by simp
  qed
qed

section \<open>Properties\<close>



end
