(* ===== verification/Config.thy ===== *)
theory Config
  imports Prelude
begin

text \<open>
  Validation of the runtime configuration, \<open>pkg/command/config.go\<close>.  Flag and environment
  parsing (viper, pflag) are outside the repository; the record is what they resolve to.  An
  error is represented by the name of the flag it reports; \<open>errors.Join\<close> of no errors is nil.
\<close>

record runtime_config =
  rt_port :: int
  rt_bucket_url :: string
  rt_bucket_prefix :: string
  rt_enable_metrics :: bool
  rt_metrics_path :: string
  rt_log_level :: string
  rt_log_format :: string
  rt_log_debug :: bool
  rt_repo_type :: string
  rt_disable_authn :: bool
  rt_authn_kind :: string
  rt_authn_oidc_issuers :: "string list"
  rt_authn_oidc_audience :: string
  rt_authn_kind_set :: bool
  rt_maven_max_upload :: int
  rt_pypi_max_upload :: int
  rt_pypi_simple_index_ttl :: int
  rt_pypi_index_ttl :: int
  rt_pypi_negative_ttl :: int
  rt_npm_max_upload :: int
  rt_npm_memo_ttl :: int
  rt_npm_cache_ttl :: int
  rt_npm_negative_ttl :: int
  rt_debian_negative_ttl :: int
  rt_generic_max_upload :: int
  rt_generic_allow_overwrite :: bool

definition reserved_observability_paths :: "string list" where
  "reserved_observability_paths = [''/healthz'', ''/readyz'']"

definition repo_types :: "string list" where
  "repo_types = [''pypi'', ''npm'', ''maven'', ''debian'', ''generic'', ''echo'']"

definition valid_log_level :: "string \<Rightarrow> bool" where
  "valid_log_level s = (to_lower (trim_space s) \<in> {''debug'', ''info'', ''warn'', ''error''})"

definition valid_log_format :: "string \<Rightarrow> bool" where
  "valid_log_format s = (to_lower (trim_space s) \<in> {''text'', ''json''})"

definition split_csv :: "string list \<Rightarrow> string list" where
  "split_csv items =
     concat (map (\<lambda>item. filter (\<lambda>p. p \<noteq> '''') (map trim_space (split_on CHR '','' item))) items)"

definition prefix_segment_ok :: "string \<Rightarrow> bool" where
  "prefix_segment_ok seg =
     (if seg = '''' then False else if seg = ''..'' then False else \<not> has_prefix seg ''.'')"

text \<open>\<open>True\<close> is the nil error.\<close>

definition validate_bucket_prefix :: "string \<Rightarrow> bool" where
  "validate_bucket_prefix p =
     (if p = '''' then True
      else if has_prefix p ''/'' then False
      else list_all prefix_segment_ok (split_on CHR ''/'' p))"

definition validate_authn :: "runtime_config \<Rightarrow> string list" where
  "validate_authn c =
     (if rt_disable_authn c then (if rt_authn_kind_set c then [''disable-authn''] else [])
      else if rt_authn_kind c = ''oidc'' then
        (if rt_authn_oidc_issuers c = [] then [''authn-oidc-issuers''] else [])
        @ (if rt_authn_oidc_audience c = '''' then [''authn-oidc-audience''] else [])
      else if rt_authn_kind c = '''' then [''authn'']
      else [''authn-kind''])"

definition check_flag :: "bool \<Rightarrow> string \<Rightarrow> string list" where
  "check_flag bad flag = (if bad then [flag] else [])"

definition validate_config :: "bool \<Rightarrow> runtime_config \<Rightarrow> string list" where
  "validate_config data_plane c =
     check_flag (rt_port c < 1 \<or> rt_port c > 65535) ''port''
     @ check_flag (rt_bucket_url c = '''') ''bucket-url''
     @ check_flag (\<not> validate_bucket_prefix (rt_bucket_prefix c)) ''bucket-prefix''
     @ check_flag (\<not> valid_log_level (rt_log_level c)) ''log-level''
     @ check_flag (\<not> valid_log_format (rt_log_format c)) ''log-format''
     @ check_flag (\<not> has_prefix (rt_metrics_path c) ''/'') ''metrics-path''
     @ check_flag (rt_metrics_path c \<in> set reserved_observability_paths) ''metrics-path''
     @ (if data_plane then
          check_flag (rt_repo_type c \<noteq> '''' \<and> rt_repo_type c \<notin> set repo_types) ''repo-type''
          @ check_flag (rt_pypi_max_upload c < 0) ''pypi-max-upload-bytes''
          @ check_flag (rt_pypi_simple_index_ttl c < 0) ''pypi-simple-index-cache-ttl''
          @ check_flag (rt_maven_max_upload c < 0) ''maven-max-upload-bytes''
          @ check_flag (rt_pypi_negative_ttl c < 0) ''pypi-proxy-negative-cache-ttl''
          @ check_flag (rt_npm_max_upload c < 0) ''npm-max-upload-bytes''
          @ check_flag (rt_npm_negative_ttl c < 0) ''npm-proxy-negative-cache-ttl''
          @ check_flag (rt_debian_negative_ttl c < 0) ''debian-proxy-negative-cache-ttl''
          @ check_flag (rt_generic_max_upload c < 0) ''generic-max-upload-bytes''
          @ validate_authn c
        else [])"

text \<open>What viper resolves: a value for each flag, and whether the kind was set explicitly.\<close>

record flag_source =
  fl_int :: "string \<Rightarrow> int"
  fl_string :: "string \<Rightarrow> string"
  fl_bool :: "string \<Rightarrow> bool"
  fl_strings :: "string \<Rightarrow> string list"
  fl_kind_set :: bool

definition shared_config :: "flag_source \<Rightarrow> runtime_config" where
  "shared_config v =
     \<lparr>rt_port = fl_int v ''port'', rt_bucket_url = trim_space (fl_string v ''bucket-url''),
      rt_bucket_prefix = fl_string v ''bucket-prefix'', rt_enable_metrics = fl_bool v ''enable-metrics'',
      rt_metrics_path = fl_string v ''metrics-path'', rt_log_level = fl_string v ''log-level'',
      rt_log_format = fl_string v ''log-format'', rt_log_debug = fl_bool v ''log-debug'',
      rt_repo_type = '''', rt_disable_authn = False, rt_authn_kind = '''', rt_authn_oidc_issuers = [],
      rt_authn_oidc_audience = '''', rt_authn_kind_set = False, rt_maven_max_upload = 0, rt_pypi_max_upload = 0,
      rt_pypi_simple_index_ttl = 0, rt_pypi_index_ttl = 0, rt_pypi_negative_ttl = 0, rt_npm_max_upload = 0,
      rt_npm_memo_ttl = 0, rt_npm_cache_ttl = 0, rt_npm_negative_ttl = 0, rt_debian_negative_ttl = 0,
      rt_generic_max_upload = 0, rt_generic_allow_overwrite = False\<rparr>"

definition data_config :: "flag_source \<Rightarrow> runtime_config \<Rightarrow> runtime_config" where
  "data_config v c =
     c\<lparr>rt_repo_type := trim_space (fl_string v ''repo-type''), rt_disable_authn := fl_bool v ''disable-authn'',
       rt_authn_kind := trim_space (fl_string v ''authn-kind''),
       rt_authn_oidc_issuers := split_csv (fl_strings v ''authn-oidc-issuers''),
       rt_authn_oidc_audience := trim_space (fl_string v ''authn-oidc-audience''),
       rt_authn_kind_set := fl_kind_set v,
       rt_maven_max_upload := fl_int v ''maven-max-upload-bytes'',
       rt_pypi_max_upload := fl_int v ''pypi-max-upload-bytes'',
       rt_pypi_simple_index_ttl := fl_int v ''pypi-simple-index-cache-ttl'',
       rt_pypi_index_ttl := fl_int v ''pypi-proxy-index-cache-ttl'',
       rt_pypi_negative_ttl := fl_int v ''pypi-proxy-negative-cache-ttl'',
       rt_npm_max_upload := fl_int v ''npm-max-upload-bytes'',
       rt_npm_memo_ttl := fl_int v ''npm-proxy-packument-memo-ttl'',
       rt_npm_cache_ttl := fl_int v ''npm-proxy-packument-cache-ttl'',
       rt_npm_negative_ttl := fl_int v ''npm-proxy-negative-cache-ttl'',
       rt_debian_negative_ttl := fl_int v ''debian-proxy-negative-cache-ttl'',
       rt_generic_max_upload := fl_int v ''generic-max-upload-bytes'',
       rt_generic_allow_overwrite := fl_bool v ''generic-allow-overwrite''\<rparr>"

definition resolve_config :: "bool \<Rightarrow> flag_source \<Rightarrow> string list + runtime_config" where
  "resolve_config data_plane v =
     (let c = (if data_plane then data_config v (shared_config v) else shared_config v);
          errs = validate_config data_plane c
      in if errs = [] then Inr c else Inl errs)"

section \<open>The logger\<close>

text \<open>\<open>pkg/logging\<close>: the levels and handlers a configuration can name.\<close>

datatype log_level = LevelDebug | LevelInfo | LevelWarn | LevelError

datatype log_handler = TextHandler | JSONHandler

definition parse_level :: "string \<Rightarrow> log_level option" where
  "parse_level s =
     (let s = to_lower (trim_space s)
      in if s = ''debug'' then Some LevelDebug
         else if s \<in> {'''', ''info''} then Some LevelInfo
         else if s \<in> {''warn'', ''warning''} then Some LevelWarn
         else if s = ''error'' then Some LevelError
         else None)"

text \<open>\<open>New\<close>: the level, the handler and whether call sites are logged, or an error.\<close>

definition new_logger :: "string \<Rightarrow> string \<Rightarrow> bool \<Rightarrow> (log_level \<times> log_handler \<times> bool) option" where
  "new_logger level fmt debug =
     (case parse_level level of
        None \<Rightarrow> None
      | Some l \<Rightarrow>
          (let f = to_lower (trim_space fmt)
           in if f \<in> {'''', ''text''} then Some (l, TextHandler, debug)
              else if f = ''json'' then Some (l, JSONHandler, debug)
              else None))"

text \<open>A validated configuration never fails to make its logger.\<close>

lemma validated_config_logs:
  "validate_config data_plane c = [] \<Longrightarrow> new_logger (rt_log_level c) (rt_log_format c) (rt_log_debug c) \<noteq> None"
  by (auto simp: validate_config_def check_flag_def valid_log_level_def valid_log_format_def new_logger_def parse_level_def
      Let_def split: if_splits)

lemma check_flag_Nil [simp]: "check_flag bad flag = [] \<longleftrightarrow> \<not> bad"
  by (simp add: check_flag_def)

text \<open>A validated prefix is a clean path: no slash at either end, no empty or dot segment.\<close>

lemma validate_bucket_prefix_iff:
  "validate_bucket_prefix p \<longleftrightarrow>
     p = '''' \<or> (\<forall>seg \<in> set (split_on CHR ''/'' p). seg \<noteq> '''' \<and> hd seg \<noteq> CHR ''.'')"
proof (cases p)
  case (Cons c p')
  have seg: "prefix_segment_ok x \<longleftrightarrow> x \<noteq> '''' \<and> hd x \<noteq> CHR ''.''" for x
    by (cases x) (auto simp: prefix_segment_ok_def has_prefix_def)
  show ?thesis
    using Cons by (auto simp: validate_bucket_prefix_def seg list_all_iff has_prefix_def prefix_def)
qed (simp add: validate_bucket_prefix_def)

lemma validated_prefix_ends:
  assumes "validate_bucket_prefix p" "p \<noteq> ''''"
  shows "hd p \<noteq> CHR ''/''" "last p \<noteq> CHR ''/''"
proof -
  have segs: "\<forall>seg \<in> set (split_on CHR ''/'' p). seg \<noteq> ''''"
    using assms by (auto simp: validate_bucket_prefix_iff)
  show "hd p \<noteq> CHR ''/''"
  proof
    assume "hd p = CHR ''/''"
    then obtain r where "p = CHR ''/'' # r" using assms(2) by (cases p) auto
    with segs show False by simp
  qed
  have nil: "split_on c (q @ [c]) = split_on c q @ [[]]" for c q
    by (induction q) (auto split: list.splits)
  show "last p \<noteq> CHR ''/''"
  proof
    assume "last p = CHR ''/''"
    then have "p = butlast p @ [CHR ''/'']" using assms(2) by (metis append_butlast_last_id)
    then have "[] \<in> set (split_on CHR ''/'' p)"
      using nil [of "CHR ''/''" "butlast p"] by (metis in_set_conv_decomp)
    with segs show False by blast
  qed
qed

text \<open>C24: a data plane never starts without authentication by accident: a configuration that
  validates either disables it explicitly, without naming a kind, or names oidc with at least
  one issuer and an audience; and its metrics path is absolute and none of the health endpoints.\<close>

theorem validated_config_authenticates:
  assumes "validate_config True c = []"
  shows "(rt_disable_authn c \<and> \<not> rt_authn_kind_set c
      \<or> \<not> rt_disable_authn c \<and> rt_authn_kind c = ''oidc'' \<and> rt_authn_oidc_issuers c \<noteq> []
        \<and> rt_authn_oidc_audience c \<noteq> '''')
    \<and> has_prefix (rt_metrics_path c) ''/'' \<and> rt_metrics_path c \<notin> {''/healthz'', ''/readyz''}
    \<and> validate_bucket_prefix (rt_bucket_prefix c)"
  using assms
  by (auto simp: validate_config_def validate_authn_def reserved_observability_paths_def
      split: if_splits)

theorem validated_config_authenticates_witness:
  "\<exists>c. validate_config True c = [] \<and> rt_authn_oidc_audience c \<noteq> ''''"
proof -
  define c where "c = \<lparr>rt_port = 8080, rt_bucket_url = ''mem://'', rt_bucket_prefix = ''team/a'',
    rt_enable_metrics = True, rt_metrics_path = ''/metrics'', rt_log_level = ''INFO '',
    rt_log_format = ''json'', rt_log_debug = False, rt_repo_type = ''npm'', rt_disable_authn = False,
    rt_authn_kind = ''oidc'', rt_authn_oidc_issuers = [''https://i''],
    rt_authn_oidc_audience = ''aud'', rt_authn_kind_set = False, rt_maven_max_upload = 0,
    rt_pypi_max_upload = 0, rt_pypi_simple_index_ttl = 0, rt_pypi_index_ttl = 0, rt_pypi_negative_ttl = 0,
    rt_npm_max_upload = 0, rt_npm_memo_ttl = 0, rt_npm_cache_ttl = 0, rt_npm_negative_ttl = 0, rt_debian_negative_ttl = 0,
    rt_generic_max_upload = 0, rt_generic_allow_overwrite = False\<rparr>"
  have 1: "validate_config True c = []" unfolding c_def by code_simp
  have "\<not> rt_disable_authn c" by (simp add: c_def)
  with validated_config_authenticates [OF 1] 1 show ?thesis by blast
qed

end
