(* ===== verification/Auth.thy ===== *)
theory Auth
  imports Core
begin

text \<open>
  The authentication vocabulary, \<open>pkg/auth/auth.go\<close>: the verified identity, the operations an
  authorizer reasons about, and the rendering of claim values for matching.
\<close>

text \<open>A claim is a JSON value: a string, or the text of another JSON value.\<close>

record auth_context =
  ac_issuer :: string
  ac_id :: string
  ac_email :: string
  ac_claims :: "string \<rightharpoonup> jval"
  ac_kind :: string

definition auth_op_read :: string where "auth_op_read = ''read''"

definition auth_op_write :: string where "auth_op_write = ''write''"

definition kind_oidc :: string where "kind_oidc = ''oidc''"

definition kind_anonymous :: string where "kind_anonymous = ''anonymous''"

definition kind_basic_token :: string where "kind_basic_token = ''basictoken''"

lemmas kind_defs = kind_oidc_def kind_anonymous_def kind_basic_token_def

text \<open>\<open>json.Marshal\<close> of a decoded claim returns its text.\<close>

fun claim_string :: "jval \<Rightarrow> string option" where
  "claim_string (JStr s) = Some s"
| "claim_string (JOther raw) = Some raw"

end
