(* ===== verification/Http.thy ===== *)
theory Http
  imports Auth Go_Path
begin

text \<open>
  What the handlers use of \<open>net/http\<close> and \<open>encoding/json\<close>: requests, response writers and the
  printing of JSON.  A response writer keeps the header map, the status and headers of the
  first \<open>WriteHeader\<close>, and the bytes written; a header set after that is not sent.
\<close>

section \<open>JSON\<close>

text \<open>\<open>JRaw\<close> is the text of a value the program passes through undecoded.\<close>

datatype json =
    JNull
  | JBool bool
  | JInt int
  | JString string
  | JArray "json list"
  | JObject "(string \<times> json) list"
  | JRaw string

definition json_u00 :: "char \<Rightarrow> string" where
  "json_u00 c = CHR 0x5C # ''u00'' @ [hex_lower (of_char c div 16), hex_lower (of_char c mod 16)]"

definition json_escape_byte :: "char \<Rightarrow> string" where
  "json_escape_byte c =
     (if c = CHR 0x5C \<or> c = CHR 0x22 then [CHR 0x5C, c]
      else if c = CHR 0x08 then CHR 0x5C # ''b''
      else if c = CHR 0x0C then CHR 0x5C # ''f''
      else if c = CHR 0x0A then CHR 0x5C # ''n''
      else if c = CHR 0x0D then CHR 0x5C # ''r''
      else if c = CHR 0x09 then CHR 0x5C # ''t''
      else if (of_char c :: nat) < 32 \<or> c \<in> set ''<>&'' then json_u00 c
      else [c])"

function json_escape :: "string \<Rightarrow> string" where
  "json_escape s =
     (case s of
        [] \<Rightarrow> []
      | c # _ \<Rightarrow>
          (if (of_char c :: nat) < 128 then json_escape_byte c @ json_escape (tl s)
           else
             (let (r, n) = decode_rune s
              in (if r = rune_error \<and> n = 1 then CHR 0x5C # ''ufffd''
                  else if r = 8232 then CHR 0x5C # ''u2028''
                  else if r = 8233 then CHR 0x5C # ''u2029''
                  else take n s)
                 @ json_escape (drop (max n 1) s))))"
  by pat_completeness auto
termination
  by (relation "measure length") auto

declare json_escape.simps [simp del]

definition json_quote :: "string \<Rightarrow> string" where
  "json_quote s = CHR 0x22 # json_escape s @ [CHR 0x22]"

fun digits_of_nat :: "nat \<Rightarrow> string" where
  "digits_of_nat n =
     (if n < 10 then [char_of (48 + n)] else digits_of_nat (n div 10) @ [char_of (48 + n mod 10)])"

declare digits_of_nat.simps [simp del]

definition format_int :: "int \<Rightarrow> string" where
  "format_int i = (if i < 0 then CHR ''-'' # digits_of_nat (nat (- i)) else digits_of_nat (nat i))"

fun json_print :: "json \<Rightarrow> string" where
  "json_print JNull = ''null''"
| "json_print (JBool b) = (if b then ''true'' else ''false'')"
| "json_print (JInt i) = format_int i"
| "json_print (JString s) = json_quote s"
| "json_print (JRaw raw) = raw"
| "json_print (JArray xs) = ''['' @ join '','' (map json_print xs) @ '']''"
| "json_print (JObject kvs) =
     CHR 0x7B # join '','' (map (\<lambda>(k, v). json_quote k @ '':'' @ json_print v) kvs) @ [CHR 0x7D]"

text \<open>A Go map prints its keys in order.\<close>

definition json_map :: "(string \<times> json) list \<Rightarrow> json" where
  "json_map kvs = JObject (sort_key fst kvs)"

text \<open>A field with \<open>omitempty\<close>.\<close>

definition omit_empty :: "bool \<Rightarrow> string \<Rightarrow> json \<Rightarrow> (string \<times> json) list" where
  "omit_empty is_zero k v = (if is_zero then [] else [(k, v)])"

fun json_of_jval :: "jval \<Rightarrow> json" where
  "json_of_jval (JStr s) = JString s"
| "json_of_jval (JOther raw) = JRaw raw"

section \<open>Response writers\<close>

type_synonym header = "string \<rightharpoonup> string list"

record writer =
  wr_header :: header
  wr_sent :: "(int \<times> header) option"
  wr_body :: string
  wr_head :: bool
  wr_aborted :: bool

definition fresh_writer :: writer where
  "fresh_writer = \<lparr>wr_header = Map.empty, wr_sent = None, wr_body = '''', wr_head = False,
     wr_aborted = False\<rparr>"

definition header_get :: "header \<Rightarrow> string \<Rightarrow> string" where
  "header_get h k = (case h k of Some (v # _) \<Rightarrow> v | _ \<Rightarrow> '''')"

definition header_set :: "string \<Rightarrow> string \<Rightarrow> writer \<Rightarrow> writer" where
  "header_set k v rw = rw\<lparr>wr_header := (wr_header rw)(k \<mapsto> [v])\<rparr>"

definition header_add :: "string \<Rightarrow> string \<Rightarrow> writer \<Rightarrow> writer" where
  "header_add k v rw =
     rw\<lparr>wr_header := (wr_header rw)(k \<mapsto> (case wr_header rw k of None \<Rightarrow> [] | Some vs \<Rightarrow> vs) @ [v])\<rparr>"

definition write_header :: "int \<Rightarrow> writer \<Rightarrow> writer" where
  "write_header status rw =
     (case wr_sent rw of
        Some _ \<Rightarrow> rw
      | None \<Rightarrow> rw\<lparr>wr_sent := Some (status, wr_header rw)\<rparr>)"

text \<open>A handler that panics: the server drops the connection.\<close>

definition abort_response :: "writer \<Rightarrow> writer" where
  "abort_response rw = rw\<lparr>wr_aborted := True\<rparr>"

text \<open>\<open>wr_head\<close> marks the \<open>headResponseWriter\<close>, whose \<open>Write\<close> drops the bytes.\<close>

definition write_bytes :: "string \<Rightarrow> writer \<Rightarrow> writer" where
  "write_bytes p rw =
     (if wr_head rw then rw
      else (let rw = write_header 200 rw in rw\<lparr>wr_body := wr_body rw @ p\<rparr>))"

definition response_status :: "writer \<Rightarrow> int" where
  "response_status rw = (case wr_sent rw of Some (st, _) \<Rightarrow> st | None \<Rightarrow> 200)"

definition response_header :: "writer \<Rightarrow> header" where
  "response_header rw = (case wr_sent rw of Some (_, h) \<Rightarrow> h | None \<Rightarrow> wr_header rw)"

lemmas writer_defs = header_set_def header_add_def write_header_def write_bytes_def

section \<open>Requests\<close>

text \<open>
  A request body is what its reader delivers.  \<open>rq_escaped_path\<close> is \<open>URL.EscapedPath()\<close>;
  \<open>rq_client\<close> is the error with which writing the response to the client ends, if any, and
  \<open>rq_now\<close> the clock reading of the request: the handlers read the clock several times, and
  compare no two readings.
\<close>

record request =
  rq_method :: string
  rq_escaped_path :: string
  rq_header :: header
  rq_body :: body
  rq_auth :: "auth_context option"
  rq_client :: "err option"
  rq_now :: int
  rq_host :: string
  rq_tls :: bool

end
