(* ===== verification/Surface.thy ===== *)
theory Surface
  imports Http Blob_Store
begin

text \<open>
  The helpers the format surfaces share, \<open>pkg/surface/http.go\<close>: error mapping, capped bodies,
  serving a stored file, and streaming an upstream body to the client and the store at once.
  A handler maps a response writer and a state to their successors; the state is a store's world,
  alone or paired with a proxy's.  Logging and the
  error recorder of \<open>pkg/observability\<close> are not modelled.
\<close>

type_synonym 's handler = "writer \<Rightarrow> 's \<Rightarrow> writer \<times> 's"

type_synonym 'b hnd = "'b world handler"

definition h_done :: "(writer \<Rightarrow> writer) \<Rightarrow> 's handler" where
  "h_done f rw w = (f rw, w)"

definition h_then :: "(writer \<Rightarrow> writer) \<Rightarrow> 's handler \<Rightarrow> 's handler" where
  "h_then f k rw w = k (f rw) w"

definition h_try ::
  "('s \<Rightarrow> 'a res \<times> 's) \<Rightarrow> (err \<Rightarrow> 's handler) \<Rightarrow> ('a \<Rightarrow> 's handler) \<Rightarrow> 's handler" where
  "h_try m bad good rw w =
     (case m w of (Inl e, w1) \<Rightarrow> bad e rw w1 | (Inr x, w1) \<Rightarrow> good x rw w1)"

section \<open>Responses\<close>

datatype ns_error_context = NamespaceDataRead | NamespaceDataWrite

definition write_json :: "int \<Rightarrow> json \<Rightarrow> writer \<Rightarrow> writer" where
  "write_json status v rw =
     write_bytes (json_print v @ [CHR 0x0A])
       (write_header status (header_set ''Content-Type'' ''application/json'' rw))"

definition write_error :: "int \<Rightarrow> string \<Rightarrow> writer \<Rightarrow> writer" where
  "write_error status message = write_json status (json_map [(''error'', JString message)])"

definition write_method_not_allowed :: "string list \<Rightarrow> writer \<Rightarrow> writer" where
  "write_method_not_allowed allowed rw =
     write_error 405 ''method not allowed'' (header_set ''Allow'' (join '', '' allowed) rw)"

text \<open>\<open>http.MaxBytesReader\<close> delivers the first \<open>max_bytes\<close> bytes and then its own error.\<close>

definition with_max_body :: "int \<Rightarrow> body \<Rightarrow> body" where
  "with_max_body max_bytes b =
     (if max_bytes \<le> 0 \<or> int (length (bd_data b)) \<le> max_bytes then b
      else \<lparr>bd_data = take (nat max_bytes) (bd_data b), bd_err = Some ErrMaxBytes\<rparr>)"

text \<open>The body read, whether it is too large, and any other read error.\<close>

definition read_capped_body :: "int \<Rightarrow> body \<Rightarrow> string \<times> bool \<times> err option" where
  "read_capped_body max_bytes b =
     (let b = with_max_body max_bytes b
      in case bd_err b of
           None \<Rightarrow> (bd_data b, False, None)
         | Some e \<Rightarrow> (if e = ErrMaxBytes then ([], True, None) else ([], False, Some e)))"

fun store_status :: "err \<Rightarrow> int \<times> string \<times> bool" where
  "store_status ErrNotFound = (404, ''not found'', True)"
| "store_status ErrAlreadyExists = (409, ''already exists'', True)"
| "store_status ErrDigestMismatch = (422, ''digest mismatch'', True)"
| "store_status ErrUnsupported = (501, ''unsupported'', True)"
| "store_status ErrInvalidName = (400, ''invalid name'', True)"
| "store_status ErrUnauthorized = (403, ''forbidden'', True)"
| "store_status _ = (500, ''internal server error'', False)"

definition namespace_status :: "err \<Rightarrow> ns_error_context \<Rightarrow> int \<times> string \<times> bool" where
  "namespace_status e ctx =
     (case e of
        NsErrInvalidName \<Rightarrow> (400, ''invalid namespace name'', True)
      | NsErrInvalidProxy \<Rightarrow> (400, ''invalid proxy namespace'', True)
      | NsErrInvalidPolicy \<Rightarrow> (400, ''invalid namespace policy'', True)
      | NsErrUnsupportedSchemaVersion \<Rightarrow>
          (if ctx = NamespaceDataWrite then (400, ''unsupported namespace schema version'', True)
           else (500, ''internal server error'', True))
      | NsErrNotFound \<Rightarrow> (404, ''namespace not found'', True)
      | NsErrNotEmpty \<Rightarrow> (409, ''namespace not empty'', True)
      | ErrUnauthorized \<Rightarrow> (403, ''forbidden'', True)
      | _ \<Rightarrow> (500, ''internal server error'', False))"

definition write_store_error :: "err \<Rightarrow> writer \<Rightarrow> writer" where
  "write_store_error e =
     (case store_status e of (status, message, _) \<Rightarrow> write_error status message)"

definition write_namespace_error :: "err \<Rightarrow> ns_error_context \<Rightarrow> writer \<Rightarrow> writer" where
  "write_namespace_error e ctx =
     (case namespace_status e ctx of (status, message, _) \<Rightarrow> write_error status message)"

text \<open>An error of the store ends the request.\<close>

definition h_store :: "('s \<Rightarrow> 'a res \<times> 's) \<Rightarrow> ('a \<Rightarrow> 's handler) \<Rightarrow> 's handler" where
  "h_store m k = h_try m (\<lambda>e. h_done (write_store_error e)) k"

text \<open>\<open>HeadAsGet\<close> on a handler of any state.\<close>

definition head_as_get ::
  "(request \<Rightarrow> 's handler) \<Rightarrow> request \<Rightarrow> 's handler" where
  "head_as_get get rq rw st =
     (if rq_method rq \<noteq> ''HEAD'' then get rq rw st
      else case get (rq\<lparr>rq_method := ''GET''\<rparr>) (rw\<lparr>wr_head := True\<rparr>) st of
        (rw', st') \<Rightarrow> (rw'\<lparr>wr_head := wr_head rw\<rparr>, st'))"

section \<open>Serving a stored file\<close>

text \<open>\<open>strconv.Quote\<close> on printable ASCII.\<close>

definition strconv_quote :: "string \<Rightarrow> string" where
  "strconv_quote s =
     CHR 0x22 # concat (map (\<lambda>c. if c \<in> {CHR 0x22, CHR 0x5C} then [CHR 0x5C, c] else [c]) s)
       @ [CHR 0x22]"

definition set_unless_empty :: "string \<Rightarrow> string \<Rightarrow> writer \<Rightarrow> writer" where
  "set_unless_empty k v rw = (if v \<noteq> '''' then header_set k v rw else rw)"

definition file_headers :: "meta \<Rightarrow> writer \<Rightarrow> writer" where
  "file_headers m rw =
     (let rw = (if m_size m > 0 then header_set ''Content-Length'' (format_int (m_size m)) rw else rw)
      in if m_digest m \<noteq> '''' then header_set ''ETag'' (strconv_quote (m_digest m)) rw else rw)"

text \<open>\<open>io.Copy\<close> of a reader to the client; an error of either end only stops it.\<close>

definition copy_to_client :: "string \<Rightarrow> writer \<Rightarrow> writer" where
  "copy_to_client data rw = (if data = [] then rw else write_bytes data rw)"

definition stream_file :: "'b store \<Rightarrow> request \<Rightarrow> file_handle \<Rightarrow> 'b hnd" where
  "stream_file s rq f =
     h_try (file_meta s (rq_now rq) (rq_now rq) (rq_now rq) f) (\<lambda>e. h_done (write_store_error e))
       (\<lambda>m. h_then (file_headers m)
          (if rq_method rq = ''HEAD'' then h_done (write_header 200)
           else h_try (file_read s f) (\<lambda>e. h_done (write_store_error e))
                  (\<lambda>(data, _). h_done (\<lambda>rw. copy_to_client data (write_header 200 rw)))))"

definition redirect_or_stream_file ::
  "'b store \<Rightarrow> request \<Rightarrow> file_handle \<Rightarrow> string \<Rightarrow> 'b hnd" where
  "redirect_or_stream_file s rq f content_type =
     (if rq_method rq \<noteq> ''GET'' \<and> rq_method rq \<noteq> ''HEAD''
      then h_done (write_method_not_allowed [''GET'', ''HEAD''])
      else h_try (download_url s (rq_now rq) (rq_now rq) (rq_now rq) f)
        (\<lambda>e. h_done (write_store_error e))
        (\<lambda>u. h_then (set_unless_empty ''Content-Type'' content_type)
           (if u \<noteq> '''' then h_done (\<lambda>rw. write_header 307 (header_set ''Location'' u rw))
            else stream_file s rq f)))"

section \<open>Streaming to the client and the store\<close>

text \<open>
  \<open>TeeStreamToStore\<close>.  \<open>storeTee\<close> swallows the errors of the store's end of the pipe, so the
  client sees the whole upstream body; the store's end sees the same bytes and then the error
  with which the copy to the client ended (the upstream's, or the client's own).  Returns the
  copy error and the error of \<open>fill\<close>.
\<close>

definition tee_copy_error :: "body \<Rightarrow> err option \<Rightarrow> err option" where
  "tee_copy_error body client = (case client of Some e \<Rightarrow> Some e | None \<Rightarrow> bd_err body)"

definition tee_response :: "body \<Rightarrow> string \<Rightarrow> int \<Rightarrow> writer \<Rightarrow> writer" where
  "tee_response body content_type content_length rw =
     (let rw = set_unless_empty ''Content-Type'' content_type rw;
          rw = (if content_length \<ge> 0
                then header_set ''Content-Length'' (format_int content_length) rw else rw)
      in copy_to_client (bd_data body) (write_header 200 rw))"

definition tee_stream_to_store ::
  "request \<Rightarrow> body \<Rightarrow> string \<Rightarrow> int \<Rightarrow> (body \<Rightarrow> 's \<Rightarrow> 'a res \<times> 's)
    \<Rightarrow> (err option \<Rightarrow> err option \<Rightarrow> 's handler) \<Rightarrow> 's handler" where
  "tee_stream_to_store rq body content_type content_length fill k rw w =
     (let rw = tee_response body content_type content_length rw;
          copy_err = tee_copy_error body (rq_client rq)
      in case fill (body\<lparr>bd_err := copy_err\<rparr>) w of
           (Inl e, w1) \<Rightarrow> k copy_err (Some e) rw w1
         | (Inr _, w1) \<Rightarrow> k copy_err None rw w1)"

end
