(* ===== verification/Mux.thy ===== *)
theory Mux
  imports Http Go_Url
begin

text \<open>
  Routing as \<open>http.ServeMux\<close> does it for the patterns the program registers: a method (or any)
  and segments that are literals or single wildcards.  The mux works on the escaped path: one
  that is not clean is redirected; otherwise a route is chosen by its segments, which match
  unescaped, literals before wildcards.
\<close>

datatype seg_pat = Lit string | Wild string

datatype 'h route = Route (route_method: string) (route_segs: "seg_pat list") (route_handler: 'h)

datatype 'h mux_result =
    MuxRedirect string
  | MuxFound 'h "(string \<times> string) list"
  | MuxNotAllowed "string list"
  | MuxNotFound

definition mux_clean_path :: "string \<Rightarrow> string" where
  "mux_clean_path p =
     (let p = (if p = '''' then ''/'' else if hd p \<noteq> CHR ''/'' then CHR ''/'' # p else p);
          np = path_clean p
      in if last p = CHR ''/'' \<and> np \<noteq> ''/'' then np @ ''/'' else np)"

definition seg_unescape :: "string \<Rightarrow> string" where
  "seg_unescape s = (case path_unescape s of Some t \<Rightarrow> t | None \<Rightarrow> s)"

text \<open>The segments of a clean path; a trailing slash is a segment \<open>/\<close> of its own.\<close>

definition mux_segments :: "string \<Rightarrow> string list" where
  "mux_segments path =
     (let segs = split_on CHR ''/'' (tl path)
      in if last segs = '''' then map seg_unescape (butlast segs) @ [''/'']
         else map seg_unescape segs)"

fun match_segs :: "seg_pat list \<Rightarrow> string list \<Rightarrow> (string \<times> string) list option" where
  "match_segs [] [] = Some []"
| "match_segs (Lit l # ps) (s # ss) = (if l = s then match_segs ps ss else None)"
| "match_segs (Wild x # ps) (s # ss) =
     (if s = ''/'' then None else map_option ((#) (x, s)) (match_segs ps ss))"
| "match_segs _ _ = None"

text \<open>\<open>GET\<close> also matches \<open>HEAD\<close>.\<close>

definition method_matches :: "string \<Rightarrow> string \<Rightarrow> bool" where
  "method_matches pat m \<longleftrightarrow> pat = m \<or> pat = ''GET'' \<and> m = ''HEAD''"

text \<open>
  At most one of the program's routes per method matches a path up to literal precedence, so the
  table lists routes with literals first and the first match is taken.
\<close>

fun find_route :: "'h route list \<Rightarrow> string \<Rightarrow> string list \<Rightarrow> ('h \<times> (string \<times> string) list) option" where
  "find_route [] m ss = None"
| "find_route (Route rm ps h # rs) m ss =
     (if method_matches rm m then
        (case match_segs ps ss of Some b \<Rightarrow> Some (h, b) | None \<Rightarrow> find_route rs m ss)
      else find_route rs m ss)"

definition matching_methods :: "'h route list \<Rightarrow> string list \<Rightarrow> string list" where
  "matching_methods rs ss =
     sort (remdups (concat (map (\<lambda>r. if match_segs (route_segs r) ss = None then []
        else if route_method r = ''GET'' then [''GET'', ''HEAD''] else [route_method r]) rs)))"

definition mux_find :: "'h route list \<Rightarrow> string \<Rightarrow> string \<Rightarrow> 'h mux_result" where
  "mux_find rs m escaped =
     (let path = mux_clean_path escaped
      in if path \<noteq> escaped then MuxRedirect path
         else (case find_route rs m (mux_segments path) of
             Some (h, b) \<Rightarrow> MuxFound h b
           | None \<Rightarrow>
               (let ms = matching_methods rs (mux_segments path)
                in if ms \<noteq> [] then MuxNotAllowed ms else MuxNotFound)))"

text \<open>\<open>http.Error\<close>, \<open>http.NotFound\<close> and the mux's own responses.  The redirect's location is the
  clean path; its HTML body is not modelled.\<close>

definition http_error :: "int \<Rightarrow> string \<Rightarrow> writer \<Rightarrow> writer" where
  "http_error status msg rw =
     write_bytes (msg @ [CHR 0x0A])
       (write_header status
         (header_set ''X-Content-Type-Options'' ''nosniff''
           (header_set ''Content-Type'' ''text/plain; charset=utf-8'' rw)))"

definition serve_mux ::
  "'h route list \<Rightarrow> ('h \<Rightarrow> (string \<times> string) list \<Rightarrow> writer \<Rightarrow> 's \<Rightarrow> writer \<times> 's) \<Rightarrow> request
    \<Rightarrow> writer \<Rightarrow> 's \<Rightarrow> writer \<times> 's" where
  "serve_mux rs run rq rw st =
     (case mux_find rs (rq_method rq) (rq_escaped_path rq) of
        MuxRedirect p \<Rightarrow> (write_header 301 (header_set ''Location'' p rw), st)
      | MuxFound h b \<Rightarrow> run h b rw st
      | MuxNotAllowed ms \<Rightarrow>
          (http_error 405 ''Method Not Allowed'' (header_set ''Allow'' (join '', '' ms) rw), st)
      | MuxNotFound \<Rightarrow> (http_error 404 ''404 page not found'' rw, st))"

definition path_value :: "(string \<times> string) list \<Rightarrow> string \<Rightarrow> string" where
  "path_value b x = (case map_of b x of Some v \<Rightarrow> v | None \<Rightarrow> '''')"

lemma serve_mux_cases:
  obtains "snd (serve_mux rs run rq rw st) = st"
  | h b where "mux_find rs (rq_method rq) (rq_escaped_path rq) = MuxFound h b"
      "serve_mux rs run rq rw st = run h b rw st"
proof (cases "mux_find rs (rq_method rq) (rq_escaped_path rq)")
  case (MuxFound h b)
  then show ?thesis using that(2) by (simp add: serve_mux_def)
qed (use that(1) in \<open>simp_all add: serve_mux_def\<close>)

lemma mux_find_Found:
  assumes "mux_find rs m p = MuxFound h b"
  obtains rm ps where "Route rm ps h \<in> set rs" "method_matches rm m"
    "match_segs ps (mux_segments p) = Some b"
proof -
  have f: "find_route rs m (mux_segments p) = Some (h, b)"
    using assms by (auto simp: mux_find_def Let_def split: if_splits option.splits)
  have "\<exists>rm ps. Route rm ps h \<in> set rs \<and> method_matches rm m \<and> match_segs ps (mux_segments p) = Some b"
    if "find_route rs m ss = Some (h, b)" "ss = mux_segments p" for ss
    using that
    by (induction rs m ss rule: find_route.induct) (auto split: if_splits option.splits)
  with f that show ?thesis by blast
qed

end
