(* ===== verification/Credential.thy ===== *)
theory Credential
  imports Http
begin

text \<open>
  Authentication of requests: \<open>credential.go\<close> and \<open>middleware.go\<close> of \<open>pkg/auth\<close>, the chain of
  \<open>pkg/auth/chain\<close>, the OIDC authenticator of \<open>pkg/auth/oidc\<close> and its assembly in
  \<open>pkg/command/authn.go\<close>.  Discovery and token verification are those of \<open>go-oidc\<close>, a
  parameter, as is the decoding of a token's JSON payload.
\<close>

section \<open>Base64\<close>

text \<open>\<open>base64.StdEncoding\<close> and \<open>base64.RawURLEncoding\<close>: an alphabet and whether it is padded.
  Both ignore line breaks, and neither is strict about the unused bits of the last digit.\<close>

definition std_alphabet :: string where
  "std_alphabet = ''ABCDEFGHIJKLMNOPQRSTUVWXYZabcdefghijklmnopqrstuvwxyz0123456789+/''"

definition url_alphabet :: string where
  "url_alphabet = ''ABCDEFGHIJKLMNOPQRSTUVWXYZabcdefghijklmnopqrstuvwxyz0123456789-_''"

fun find_index :: "char \<Rightarrow> string \<Rightarrow> nat option" where
  "find_index c [] = None"
| "find_index c (x # xs) = (if x = c then Some 0 else map_option Suc (find_index c xs))"

definition b64_join :: "nat \<Rightarrow> nat \<Rightarrow> nat \<Rightarrow> nat \<Rightarrow> string" where
  "b64_join p q r s =
     [char_of (p * 4 + q div 16), char_of ((q mod 16) * 16 + r div 4), char_of ((r mod 4) * 64 + s)]"

fun b64_quanta :: "string \<Rightarrow> bool \<Rightarrow> string \<Rightarrow> string option" where
  "b64_quanta al pad [] = Some []"
| "b64_quanta al pad [a] = None"
| "b64_quanta al pad [a, b] =
     (if pad then None
      else case (find_index a al, find_index b al) of
        (Some p, Some q) \<Rightarrow> Some (take 1 (b64_join p q 0 0))
      | _ \<Rightarrow> None)"
| "b64_quanta al pad [a, b, c] =
     (if pad then None
      else case (find_index a al, find_index b al, find_index c al) of
        (Some p, Some q, Some r) \<Rightarrow> Some (take 2 (b64_join p q r 0))
      | _ \<Rightarrow> None)"
| "b64_quanta al pad (a # b # c # d # rest) =
     (case (find_index a al, find_index b al) of
        (Some p, Some q) \<Rightarrow>
          (case find_index c al of
             None \<Rightarrow>
               (if pad \<and> c = CHR ''='' \<and> d = CHR ''='' \<and> rest = []
                then Some (take 1 (b64_join p q 0 0)) else None)
           | Some r \<Rightarrow>
               (case find_index d al of
                  None \<Rightarrow>
                    (if pad \<and> d = CHR ''='' \<and> rest = [] then Some (take 2 (b64_join p q r 0)) else None)
                | Some s \<Rightarrow> map_option ((@) (b64_join p q r s)) (b64_quanta al pad rest)))
      | _ \<Rightarrow> None)"

definition b64_decode :: "string \<Rightarrow> bool \<Rightarrow> string \<Rightarrow> string option" where
  "b64_decode al pad s = b64_quanta al pad (filter (\<lambda>c. c \<noteq> CHR 0x0A \<and> c \<noteq> CHR 0x0D) s)"

text \<open>\<open>EncodeToString\<close> of the standard encoding, which clients use.\<close>

fun b64_encode :: "string \<Rightarrow> string" where
  "b64_encode [] = []"
| "b64_encode [x] =
     (let a = of_char x in [std_alphabet ! (a div 4), std_alphabet ! (a mod 4 * 16), CHR ''='', CHR ''=''])"
| "b64_encode [x, y] =
     (let a = of_char x; b = of_char y
      in [std_alphabet ! (a div 4), std_alphabet ! (a mod 4 * 16 + b div 16),
          std_alphabet ! (b mod 16 * 4), CHR ''=''])"
| "b64_encode (x # y # z # rest) =
     (let a = of_char x; b = of_char y; c = of_char z
      in [std_alphabet ! (a div 4), std_alphabet ! (a mod 4 * 16 + b div 16),
          std_alphabet ! (b mod 16 * 4 + c div 64), std_alphabet ! (c mod 64)] @ b64_encode rest)"

lemma find_index_nth: "distinct xs \<Longrightarrow> n < length xs \<Longrightarrow> find_index (xs ! n) xs = Some n"
  by (induction xs arbitrary: n) (auto simp: nth_Cons split: nat.splits)

lemma std_alphabet_facts: "distinct std_alphabet" "length std_alphabet = 64"
  "list_all (\<lambda>c. c \<notin> set [CHR ''='', CHR 0x0A, CHR 0x0D]) std_alphabet"
  by code_simp+

lemma find_std: "n < 64 \<Longrightarrow> find_index (std_alphabet ! n) std_alphabet = Some n"
  by (simp add: find_index_nth std_alphabet_facts)

lemma find_std_pad: "find_index CHR ''='' std_alphabet = None"
  by code_simp

lemma byte_lt: "(of_char c :: nat) < 256"
  by simp

lemma b64_quanta_encode: "b64_quanta std_alphabet True (b64_encode s) = Some s"
proof (induction s rule: b64_encode.induct)
  case 1
  show ?case by simp
next
  case (2 x)
  have "(of_char x :: nat) div 4 < 64" "(of_char x :: nat) mod 4 * 16 < 64" using byte_lt [of x] by linarith+
  then show ?case
    by (simp add: Let_def find_std find_std_pad b64_join_def)
next
  case (3 x y)
  have "(of_char y :: nat) div 16 < 16"
    using byte_lt [of y] by linarith
  then have "(of_char y :: nat) div 16 div 16 = 0" "(of_char y :: nat) div 16 mod 16 = of_char y div 16"
    by simp_all
  moreover have "(of_char x :: nat) div 4 < 64" "(of_char x :: nat) mod 4 * 16 + (of_char y :: nat) div 16 < 64"
    "(of_char y :: nat) mod 16 * 4 < 64"
    using byte_lt [of x] byte_lt [of y] by linarith+
  ultimately show ?case
    by (simp add: Let_def find_std find_std_pad b64_join_def)
next
  case (4 x y z rest)
  have "(of_char y :: nat) div 16 < 16" "(of_char z :: nat) div 64 < 4"
    using byte_lt [of y] byte_lt [of z] by linarith+
  then have "(of_char y :: nat) div 16 div 16 = 0" "(of_char y :: nat) div 16 mod 16 = of_char y div 16"
    "(of_char z :: nat) div 64 div 4 = 0" "(of_char z :: nat) div 64 mod 4 = of_char z div 64"
    by simp_all
  moreover have "(of_char x :: nat) div 4 < 64" "(of_char x :: nat) mod 4 * 16 + (of_char y :: nat) div 16 < 64"
    "(of_char y :: nat) mod 16 * 4 + (of_char z :: nat) div 64 < 64" "(of_char z :: nat) mod 64 < 64"
    using byte_lt [of x] byte_lt [of y] byte_lt [of z] by linarith+
  ultimately show ?case
    using 4 by (simp add: Let_def find_std b64_join_def)
qed

lemma b64_encode_chars: "c \<in> set (b64_encode s) \<Longrightarrow> c \<in> set std_alphabet \<or> c = CHR ''=''"
proof (induction s rule: b64_encode.induct)
  case 1
  then show ?case by simp
next
  case (2 x)
  have "(of_char x :: nat) div 4 < 64" "(of_char x :: nat) mod 4 * 16 < 64" using byte_lt [of x] by linarith+
  with 2 show ?case using std_alphabet_facts(2) by (auto simp: Let_def)
next
  case (3 x y)
  have "(of_char x :: nat) div 4 < 64" "(of_char x :: nat) mod 4 * 16 + (of_char y :: nat) div 16 < 64"
    "(of_char y :: nat) mod 16 * 4 < 64"
    using byte_lt [of x] byte_lt [of y] by linarith+
  with 3 show ?case using std_alphabet_facts(2) by (auto simp: Let_def)
next
  case (4 x y z rest)
  have "(of_char x :: nat) div 4 < 64" "(of_char x :: nat) mod 4 * 16 + (of_char y :: nat) div 16 < 64"
    "(of_char y :: nat) mod 16 * 4 + (of_char z :: nat) div 64 < 64" "(of_char z :: nat) mod 64 < 64"
    using byte_lt [of x] byte_lt [of y] byte_lt [of z] by linarith+
  with 4 show ?case using std_alphabet_facts(2) by (auto simp: Let_def)
qed

lemma b64_decode_encode: "b64_decode std_alphabet True (b64_encode s) = Some s"
proof -
  have "\<forall>c \<in> set (b64_encode s). c \<noteq> CHR 0x0A \<and> c \<noteq> CHR 0x0D"
    using b64_encode_chars [of _ s] std_alphabet_facts(3) by (auto simp: list_all_iff)
  then have "filter (\<lambda>c. c \<noteq> CHR 0x0A \<and> c \<noteq> CHR 0x0D) (b64_encode s) = b64_encode s"
    by (simp add: filter_id_conv)
  then show ?thesis by (simp add: b64_decode_def b64_quanta_encode)
qed

section \<open>Extracting the token\<close>

definition sentinel_users :: "string list" where
  "sentinel_users = [''_oidc'', ''oauth2accesstoken'', ''_token'']"

definition token_from_basic :: "string \<Rightarrow> string res" where
  "token_from_basic encoded =
     (case b64_decode std_alphabet True encoded of
        None \<Rightarrow> Inl ErrNoCredential
      | Some raw \<Rightarrow>
          (case cut raw CHR '':'' of
             (user, pass, ok) \<Rightarrow>
               (if \<not> ok \<or> user \<notin> set sentinel_users \<or> pass = '''' then Inl ErrNoCredential
                else Inr pass)))"

definition extract_token :: "request \<Rightarrow> string res" where
  "extract_token r =
     (let h = header_get (rq_header r) ''Authorization''
      in if h = '''' then Inl ErrNoCredential
         else case cut h CHR '' '' of
           (scheme, rest, ok) \<Rightarrow>
             (if \<not> ok then Inl ErrNoCredential
              else
                (let rest = trim_space rest
                 in if equal_fold scheme ''bearer'' then
                      (if rest = '''' then Inl ErrNoCredential else Inr rest)
                    else if equal_fold scheme ''basic'' then token_from_basic rest
                    else Inl ErrNoCredential)))"

section \<open>The OIDC authenticator\<close>

record id_token =
  it_issuer :: string
  it_subject :: string
  it_claims :: "(string \<rightharpoonup> jval) option"

text \<open>
  \<open>go-oidc\<close>, as it answers during one request: discovery of an issuer's provider, and the
  verification of a token for an audience; and \<open>json.Unmarshal\<close> of a payload into a struct with
  an \<open>iss\<close> field, whose absence leaves it empty.
\<close>

record 'p oidc_lib =
  ol_discover :: "string \<Rightarrow> 'p res"
  ol_verify :: "'p \<Rightarrow> string \<Rightarrow> string \<Rightarrow> id_token option"
  ol_iss :: "string \<Rightarrow> string option"

record 'p oidc =
  oa_issuer :: string
  oa_audience :: string
  oa_verifier :: "'p option"

definition max_token_size :: int where "max_token_size = 2 ^ 16"

definition peek_issuer :: "'p oidc_lib \<Rightarrow> string \<Rightarrow> string \<times> bool" where
  "peek_issuer L token =
     (case split_on CHR ''.'' token of
        [h, p, sig] \<Rightarrow>
          (case b64_decode url_alphabet False p of
             None \<Rightarrow> ('''', False)
           | Some payload \<Rightarrow>
               (case ol_iss L payload of
                  None \<Rightarrow> ('''', False)
                | Some iss \<Rightarrow> (iss, iss \<noteq> '''')))
      | _ \<Rightarrow> ('''', False))"

definition get_verifier :: "'p oidc_lib \<Rightarrow> 'p oidc \<Rightarrow> 'p res \<times> 'p oidc" where
  "get_verifier L a =
     (case oa_verifier a of
        Some v \<Rightarrow> (Inr v, a)
      | None \<Rightarrow>
          (case ol_discover L (oa_issuer a) of
             Inl e \<Rightarrow> (Inl e, a)
           | Inr v \<Rightarrow> (Inr v, a\<lparr>oa_verifier := Some v\<rparr>)))"

definition token_context :: "id_token \<Rightarrow> (string \<rightharpoonup> jval) \<Rightarrow> auth_context" where
  "token_context t claims =
     \<lparr>ac_issuer = it_issuer t, ac_id = it_subject t,
      ac_email =
        (if claims ''email_verified'' = Some (JOther ''true'')
         then (case claims ''email'' of Some (JStr email) \<Rightarrow> email | _ \<Rightarrow> '''') else ''''),
      ac_claims = claims, ac_kind = kind_oidc\<rparr>"

definition oidc_authenticate ::
  "'p oidc_lib \<Rightarrow> request \<Rightarrow> 'p oidc \<Rightarrow> auth_context res \<times> 'p oidc" where
  "oidc_authenticate L r a =
     (case extract_token r of
        Inl e \<Rightarrow> (Inl e, a)
      | Inr token \<Rightarrow>
          (if int (length token) > max_token_size then (Inl ErrInvalidToken, a)
           else case peek_issuer L token of
             (iss, ok) \<Rightarrow>
               (if \<not> ok \<or> iss \<noteq> oa_issuer a then (Inl ErrNoCredential, a)
                else case get_verifier L a of
                  (Inl e, a) \<Rightarrow> (Inl e, a)
                | (Inr v, a) \<Rightarrow>
                    (case ol_verify L v (oa_audience a) token of
                       None \<Rightarrow> (Inl ErrInvalidToken, a)
                     | Some t \<Rightarrow>
                         (case it_claims t of
                            None \<Rightarrow> (Inl ErrInvalidToken, a)
                          | Some claims \<Rightarrow> (Inr (token_context t claims), a))))))"

section \<open>The chain and its assembly\<close>

fun chain_authenticate ::
  "(request \<Rightarrow> 'a \<Rightarrow> auth_context res \<times> 'a) \<Rightarrow> request \<Rightarrow> 'a list \<Rightarrow> auth_context res \<times> 'a list" where
  "chain_authenticate authn r [] = (Inl ErrNoCredential, [])"
| "chain_authenticate authn r (c # cs) =
     (case authn r c of
        (Inr ac, c') \<Rightarrow> (Inr ac, c' # cs)
      | (Inl e, c') \<Rightarrow>
          (if e = ErrNoCredential
           then (case chain_authenticate authn r cs of (res, cs') \<Rightarrow> (res, c' # cs'))
           else (Inl e, c' # cs)))"

definition always_anonymous :: "auth_context res" where
  "always_anonymous =
     Inr \<lparr>ac_issuer = ''anonymous'', ac_id = ''anonymous'', ac_email = '''', ac_claims = Map.empty,
          ac_kind = kind_anonymous\<rparr>"

text \<open>What \<open>buildAuthenticator\<close> returns: always anonymous, or a chain of one authenticator per issuer.\<close>

datatype 'p authn = AlwaysAnonymous | OidcChain "'p oidc list"

definition build_authenticator :: "bool \<Rightarrow> string list \<Rightarrow> string \<Rightarrow> 'p authn" where
  "build_authenticator disable issuers audience =
     (if disable then AlwaysAnonymous
      else OidcChain (map (\<lambda>i. \<lparr>oa_issuer = i, oa_audience = audience, oa_verifier = None\<rparr>) issuers))"

fun authenticate :: "'p oidc_lib \<Rightarrow> request \<Rightarrow> 'p authn \<Rightarrow> auth_context res \<times> 'p authn" where
  "authenticate L r AlwaysAnonymous = (always_anonymous, AlwaysAnonymous)"
| "authenticate L r (OidcChain cs) =
     (case chain_authenticate (oidc_authenticate L) r cs of (res, cs') \<Rightarrow> (res, OidcChain cs'))"

section \<open>The middleware\<close>

definition write_challenge :: "err \<Rightarrow> writer \<Rightarrow> writer" where
  "write_challenge e rw =
     (let rw = header_add ''WWW-Authenticate'' (''Bearer realm='' @ json_quote ''open-artifact'') rw;
          rw = header_add ''WWW-Authenticate'' (''Basic realm='' @ json_quote ''open-artifact'') rw;
          rw = write_header 401 (header_set ''Content-Type'' ''application/json'' rw);
          msg = (if e = ErrInvalidToken then ''invalid token'' else ''missing credential'')
      in write_bytes (json_print (json_map [(''error'', JString msg)]) @ [CHR 0x0A]) rw)"

text \<open>\<open>authn\<close> has the authenticator's state, \<open>next\<close> the state behind it.\<close>

definition auth_middleware ::
  "(request \<Rightarrow> 'a \<Rightarrow> auth_context res \<times> 'a) \<Rightarrow> (request \<Rightarrow> writer \<Rightarrow> 's \<Rightarrow> writer \<times> 's)
    \<Rightarrow> request \<Rightarrow> writer \<Rightarrow> 'a \<times> 's \<Rightarrow> writer \<times> 'a \<times> 's" where
  "auth_middleware authn next rq rw st =
     (case authn rq (fst st) of
        (Inl e, a) \<Rightarrow> (write_challenge e rw, a, snd st)
      | (Inr ac, a) \<Rightarrow>
          (case next (rq\<lparr>rq_auth := Some ac\<rparr>) rw (snd st) of (rw', s') \<Rightarrow> (rw', a, s')))"

section \<open>Lemmas\<close>

lemma cut_iff: "cut s c = (a, b, True) \<longleftrightarrow> s = a @ c # b \<and> c \<notin> set a"
proof
  assume cut: "cut s c = (a, b, True)"
  then have in_s: "c \<in> set s" and a: "a = takeWhile (\<lambda>x. x \<noteq> c) s" and b: "b = tl (dropWhile (\<lambda>x. x \<noteq> c) s)"
    by (auto simp: cut_def split: if_splits)
  from in_s have ne: "dropWhile (\<lambda>x. x \<noteq> c) s \<noteq> []" by (simp add: dropWhile_eq_Nil_conv)
  then have "hd (dropWhile (\<lambda>x. x \<noteq> c) s) = c" using hd_dropWhile [OF ne] by simp
  with ne b have "dropWhile (\<lambda>x. x \<noteq> c) s = c # b" by (cases "dropWhile (\<lambda>x. x \<noteq> c) s") auto
  then have "s = a @ c # b" using takeWhile_dropWhile_id [of "\<lambda>x. x \<noteq> c" s] a by simp
  moreover have "c \<notin> set a" using a set_takeWhileD [of c "\<lambda>x. x \<noteq> c" s] by auto
  ultimately show "s = a @ c # b \<and> c \<notin> set a" by blast
next
  assume "s = a @ c # b \<and> c \<notin> set a"
  then show "cut s c = (a, b, True)"
    by (auto simp: cut_def takeWhile_append takeWhile_eq_all_conv dropWhile_append)
qed

lemma space_rune_heads:
  "list_all (\<lambda>r. \<not> (32 < (of_char (hd r) :: nat) \<and> (of_char (hd r) :: nat) < 128)
     \<and> \<not> (32 < (of_char (last r) :: nat) \<and> (of_char (last r) :: nat) < 128)) space_runes"
  by code_simp

lemma trim_left_id:
  assumes "\<forall>r \<in> set rs. \<not> (r \<noteq> [] \<and> prefix r s)"
  shows "trim_left_runes rs s = s"
  using assms by (subst trim_left_runes.simps) (auto simp: find_None_iff split: option.splits dest!: find_SomeD)

definition graphic :: "char \<Rightarrow> bool" where
  "graphic c \<longleftrightarrow> 32 < (of_char c :: nat) \<and> (of_char c :: nat) < 128"

lemma trim_space_graphic:
  assumes "s = '''' \<or> graphic (hd s) \<and> graphic (last s)"
  shows "trim_space s = s"
proof (cases "s = ''''")
  case True
  have "\<forall>rs. trim_left_runes rs '''' = ''''"
    by (auto intro!: trim_left_id simp: prefix_def)
  with True show ?thesis by (simp add: trim_space_def)
next
  case False
  have heads: "r \<in> set space_runes \<Longrightarrow> \<not> graphic (hd r) \<and> \<not> graphic (last r)" for r
    using space_rune_heads by (auto simp: list_all_iff graphic_def)
  have hdp: "prefix r u \<Longrightarrow> r \<noteq> [] \<Longrightarrow> hd r = hd u" for r u :: string
    by (cases r; cases u) auto
  have "trim_left_runes space_runes s = s"
  proof (rule trim_left_id, rule ballI, rule notI)
    fix r
    assume r: "r \<in> set space_runes" "r \<noteq> [] \<and> prefix r s"
    then have "hd r = hd s" using hdp [of r s] by blast
    with heads [OF r(1)] assms False show False by simp
  qed
  moreover have "trim_left_runes (map rev space_runes) (rev s) = rev s"
  proof (rule trim_left_id, rule ballI, rule notI)
    fix r
    assume "r \<in> set (map rev space_runes)" "r \<noteq> [] \<and> prefix r (rev s)"
    then obtain u where u: "u \<in> set space_runes" "r = rev u" "hd r = hd (rev s)"
      using hdp [of r "rev s"] by auto
    then have "last u = last s" using False space_runes_nonempty [of u] by (simp add: hd_rev)
    with heads [OF u(1)] assms False show False by auto
  qed
  ultimately show ?thesis by (simp add: trim_space_def)
qed

lemma std_graphic: "list_all graphic (CHR ''='' # std_alphabet)"
  unfolding graphic_def by code_simp

lemma trim_space_b64: "trim_space (b64_encode s) = b64_encode s"
proof (rule trim_space_graphic)
  have "\<forall>c \<in> set (b64_encode s). graphic c"
    using b64_encode_chars [of _ s] std_graphic by (auto simp: list_all_iff)
  then show "b64_encode s = '''' \<or> graphic (hd (b64_encode s)) \<and> graphic (last (b64_encode s))"
    by (cases "b64_encode s = ''''") auto
qed

text \<open>A token is extracted from exactly two presentations.\<close>

lemma extract_token_iff:
  "extract_token r = Inr t \<longleftrightarrow>
     (\<exists>scheme rest. header_get (rq_header r) ''Authorization'' = scheme @ '' '' @ rest \<and> CHR '' '' \<notin> set scheme
        \<and> t \<noteq> ''''
        \<and> (equal_fold scheme ''bearer'' \<and> t = trim_space rest
           \<or> equal_fold scheme ''basic''
             \<and> (\<exists>u \<in> set sentinel_users. b64_decode std_alphabet True (trim_space rest) = Some (u @ '':'' @ t))))"
proof -
  have bb: "\<not> (equal_fold s ''bearer'' \<and> equal_fold s ''basic'')" for s
    by (auto simp: equal_fold_def to_lower_def)
  have colon: "u \<in> set sentinel_users \<Longrightarrow> CHR '':'' \<notin> set u" for u
    by (auto simp: sentinel_users_def)
  have basic: "token_from_basic e = Inr t \<longleftrightarrow> t \<noteq> '''' \<and> (\<exists>u \<in> set sentinel_users.
      b64_decode std_alphabet True e = Some (u @ '':'' @ t))" for e
  proof (cases "b64_decode std_alphabet True e")
    case (Some raw)
    obtain u p ok where c: "cut raw CHR '':'' = (u, p, ok)" by (cases "cut raw CHR '':''")
    show ?thesis
    proof (cases ok)
      case True
      with c cut_iff [of raw "CHR '':''" u p] have "raw = u @ CHR '':'' # p" "CHR '':'' \<notin> set u" by simp_all
      then have "raw = v @ CHR '':'' # q \<longleftrightarrow> v = u \<and> q = p" if "CHR '':'' \<notin> set v" for v q
        using cut_iff [of raw "CHR '':''" v q] c True that by auto
      then have "(\<exists>v \<in> set sentinel_users. raw = v @ '':'' @ t) \<longleftrightarrow> u \<in> set sentinel_users \<and> t = p"
        using colon by fastforce
      moreover have "token_from_basic e = Inr t \<longleftrightarrow> u \<in> set sentinel_users \<and> p \<noteq> '''' \<and> p = t"
        using Some c True by (auto simp: token_from_basic_def)
      ultimately show ?thesis using Some by auto
    next
      case False
      then have "CHR '':'' \<notin> set raw" using c by (auto simp: cut_def split: if_splits)
      with Some c False show ?thesis by (auto simp: token_from_basic_def)
    qed
  qed (simp add: token_from_basic_def)
  let ?h = "header_get (rq_header r) ''Authorization''"
  obtain a b ok where c: "cut ?h CHR '' '' = (a, b, ok)" by (cases "cut ?h CHR '' ''")
  show ?thesis
  proof (cases ok)
    case True
    have h: "?h = s @ CHR '' '' # q \<and> CHR '' '' \<notin> set s \<longleftrightarrow> s = a \<and> q = b" for s q
      using cut_iff [of ?h "CHR '' ''" s q] c True by auto
    then have ne: "?h \<noteq> ''''" by force
    have "extract_token r = Inr t \<longleftrightarrow> t \<noteq> '''' \<and> (equal_fold a ''bearer'' \<and> t = trim_space b
       \<or> equal_fold a ''basic'' \<and> (\<exists>u \<in> set sentinel_users.
            b64_decode std_alphabet True (trim_space b) = Some (u @ '':'' @ t)))"
      using c True ne bb [of a] basic [of "trim_space b"] by (auto simp: extract_token_def Let_def)
    then show ?thesis using h by (metis append_Cons append_Nil)
  next
    case False
    then have "CHR '' '' \<notin> set ?h" using c by (auto simp: cut_def split: if_splits)
    moreover have "extract_token r = Inl ErrNoCredential"
      using c False by (simp add: extract_token_def Let_def)
    ultimately show ?thesis by auto
  qed
qed

lemma chain_authenticate_Inr:
  assumes "chain_authenticate authn r cs = (Inr ac, cs')"
  shows "\<exists>i < length cs. \<exists>c'. authn r (cs ! i) = (Inr ac, c') \<and> length cs' = length cs \<and> cs' ! i = c'
    \<and> (\<forall>j < i. authn r (cs ! j) = (Inl ErrNoCredential, cs' ! j)) \<and> drop (Suc i) cs' = drop (Suc i) cs"
  using assms
proof (induction cs arbitrary: cs')
  case Nil
  then show ?case by simp
next
  case (Cons c cs)
  obtain res c1 where c: "authn r c = (res, c1)" by (cases "authn r c")
  show ?case
  proof (cases res)
    case (Inr a)
    with Cons.prems c show ?thesis by (intro exI [of _ 0]) auto
  next
    case (Inl e)
    with Cons.prems c obtain cs1 where e: "e = ErrNoCredential" "chain_authenticate authn r cs = (Inr ac, cs1)"
      "cs' = c1 # cs1" by (auto split: if_splits prod.splits)
    from Cons.IH [OF e(2)] obtain i c' where i: "i < length cs" "authn r (cs ! i) = (Inr ac, c')"
      "length cs1 = length cs" "cs1 ! i = c'" "\<forall>j < i. authn r (cs ! j) = (Inl ErrNoCredential, cs1 ! j)"
      "drop (Suc i) cs1 = drop (Suc i) cs" by blast
    have "\<forall>j < Suc i. authn r ((c # cs) ! j) = (Inl ErrNoCredential, cs' ! j)"
      using i(5) c e(1,3) Inl by (auto simp: less_Suc_eq_0_disj)
    with i e show ?thesis by (intro exI [of _ "Suc i"]) auto
  qed
qed

section \<open>Properties\<close>

text \<open>Both wire presentations yield the token: a bearer header in any letter case, and a basic
  header whose base64 credential pairs a sentinel user with the token, for every token without
  surrounding space.\<close>

theorem both_presentations_yield_token:
  assumes "t \<noteq> ''''" "trim_space t = t" "u \<in> set sentinel_users"
  shows "(header_get (rq_header r) ''Authorization'' = scheme @ '' '' @ t \<longrightarrow> equal_fold scheme ''bearer''
      \<longrightarrow> extract_token r = Inr t)
    \<and> (header_get (rq_header r) ''Authorization'' = scheme @ '' '' @ b64_encode (u @ '':'' @ t)
      \<longrightarrow> equal_fold scheme ''basic'' \<longrightarrow> extract_token r = Inr t)"
proof -
  have sp: "CHR '' '' \<notin> set s" if "equal_fold s ''bearer'' \<or> equal_fold s ''basic''" for s
  proof
    assume "CHR '' '' \<in> set s"
    then have "lower_byte CHR '' '' \<in> set (to_lower s)" by (simp add: to_lower_def)
    moreover have "lower_byte CHR '' '' = CHR '' ''" by code_simp
    moreover have "to_lower ''bearer'' = ''bearer''" "to_lower ''basic'' = ''basic''" by code_simp+
    ultimately show False using that by (auto simp: equal_fold_def)
  qed
  show ?thesis
  proof (intro conjI impI)
    assume "header_get (rq_header r) ''Authorization'' = scheme @ '' '' @ t" "equal_fold scheme ''bearer''"
    then show "extract_token r = Inr t"
      unfolding extract_token_iff
      by (intro exI [of _ scheme] exI [of _ t]) (use assms sp [of scheme] in simp)
  next
    assume "header_get (rq_header r) ''Authorization'' = scheme @ '' '' @ b64_encode (u @ '':'' @ t)"
      "equal_fold scheme ''basic''"
    then show "extract_token r = Inr t"
      unfolding extract_token_iff
      by (intro exI [of _ scheme] exI [of _ "b64_encode (u @ '':'' @ t)"])
        (use assms sp [of scheme] in \<open>auto simp: trim_space_b64 b64_decode_encode\<close>)
  qed
qed

theorem both_presentations_yield_token_witness:
  "extract_token \<lparr>rq_method = ''GET'', rq_escaped_path = ''/'',
      rq_header = [''Authorization'' \<mapsto> [''basic '' @ b64_encode ''_oidc:tok'']],
      rq_body = bytes_body '''', rq_auth = None, rq_client = None, rq_now = 0, rq_host = '''', rq_tls = False\<rparr> = Inr ''tok''"
  (is "extract_token ?r = _")
proof -
  have "trim_space ''tok'' = ''tok''" "equal_fold ''basic'' ''basic''" by code_simp+
  with both_presentations_yield_token [of "''tok''" "''_oidc''" ?r "''basic''"] show ?thesis
    by (simp add: header_get_def sentinel_users_def)
qed


text \<open>A provider that verifies one token; its payload is the base64 of \<open>i\<close>.\<close>

definition demo_oidc :: "string oidc_lib" where
  "demo_oidc =
     \<lparr>ol_discover = Inr,
      ol_verify = (\<lambda>v aud token. if v = ''i'' \<and> aud = ''aud'' \<and> token = ''h.aQ.s''
         then Some \<lparr>it_issuer = ''i'', it_subject = ''bob'', it_claims = Some Map.empty\<rparr> else None),
      ol_iss = Some\<rparr>"

definition demo_request :: "string \<Rightarrow> string \<Rightarrow> string \<Rightarrow> request" where
  "demo_request m path b =
     \<lparr>rq_method = m, rq_escaped_path = path, rq_header = [''Authorization'' \<mapsto> [''Bearer h.aQ.s'']],
      rq_body = bytes_body b, rq_auth = None, rq_client = None, rq_now = 100, rq_host = '''', rq_tls = False\<rparr>"


end
