(* ===== verification/Policy.thy ===== *)
theory Policy
  imports Auth
begin

text \<open>
  Namespace policies, \<open>pkg/namespace/policy.go\<close>: subject matchers, their validation and
  compilation, and the authorization decision.  The regular expression engine is the
  parameter \<open>regex_lib\<close>: \<open>re_compile\<close> gives the compiled expression or \<open>None\<close>, \<open>re_match\<close> is
  \<open>MatchString\<close>; nothing is assumed of it.
\<close>

record 're regex_lib =
  re_compile :: "string \<Rightarrow> 're option"
  re_match :: "'re \<Rightarrow> string \<Rightarrow> bool"

text \<open>\<open>ClaimsMatch\<close> is a map, listed in the order an iteration visits it.\<close>

record subject_matcher =
  sm_issuer :: string
  sm_sub_match :: string
  sm_email :: string
  sm_claims_match :: "(string \<times> string) list"
  sm_kind :: string

record policy =
  po_readers :: "subject_matcher list"
  po_writers :: "subject_matcher list"

record 're compiled_matcher =
  cm_issuer :: string
  cm_sub :: "'re option"
  cm_email :: string
  cm_claims :: "(string \<times> 're) list"
  cm_kind :: string

record 're compiled_policy =
  cp_readers :: "'re compiled_matcher list"
  cp_writers :: "'re compiled_matcher list"

section \<open>Compilation\<close>

definition anchored :: "string \<Rightarrow> string" where
  "anchored pat =
     (let a = (if \<not> has_prefix pat ''^'' then ''^'' @ pat else pat)
      in if \<not> has_suffix a ''$'' then a @ ''$'' else a)"

definition compile_anchored :: "'re regex_lib \<Rightarrow> string \<Rightarrow> 're option" where
  "compile_anchored L pat = re_compile L (anchored pat)"

fun compile_claims :: "'re regex_lib \<Rightarrow> (string \<times> string) list \<Rightarrow> (string \<times> 're) list option" where
  "compile_claims L [] = Some []"
| "compile_claims L ((key, pat) # cs) =
     (if key = '''' then None
      else case compile_anchored L pat of
        None \<Rightarrow> None
      | Some re \<Rightarrow> map_option ((#) (key, re)) (compile_claims L cs))"

text \<open>Every failure is some error, wrapped in \<open>ErrInvalidPolicy\<close> by the caller.\<close>

definition compile_matcher :: "'re regex_lib \<Rightarrow> subject_matcher \<Rightarrow> 're compiled_matcher option" where
  "compile_matcher L m =
     (if sm_issuer m = '''' \<and> sm_sub_match m = '''' \<and> sm_email m = '''' \<and> sm_claims_match m = []
         \<and> sm_kind m = '''' then None
      else
        (let kind = (if sm_kind m = '''' then kind_oidc else sm_kind m)
         in if kind \<noteq> kind_oidc \<and> kind \<noteq> kind_anonymous then None
            else case (if sm_sub_match m = '''' then Some None
                       else map_option Some (compile_anchored L (sm_sub_match m))) of
              None \<Rightarrow> None
            | Some sub \<Rightarrow>
                map_option
                  (\<lambda>cs. \<lparr>cm_issuer = sm_issuer m, cm_sub = sub, cm_email = sm_email m,
                         cm_claims = cs, cm_kind = kind\<rparr>)
                  (compile_claims L (sm_claims_match m))))"

definition compile_matchers :: "'re regex_lib \<Rightarrow> subject_matcher list \<Rightarrow> 're compiled_matcher list res" where
  "compile_matchers L ms =
     rmap (\<lambda>m. case compile_matcher L m of None \<Rightarrow> Inl NsErrInvalidPolicy | Some cm \<Rightarrow> Inr cm) ms"

definition compile_policy :: "'re regex_lib \<Rightarrow> policy \<Rightarrow> 're compiled_policy res" where
  "compile_policy L p =
     rbind (compile_matchers L (po_readers p))
       (\<lambda>readers. rbind (compile_matchers L (po_writers p))
          (\<lambda>writers. Inr \<lparr>cp_readers = readers, cp_writers = writers\<rparr>))"

section \<open>Authorization\<close>

fun claims_match :: "'re regex_lib \<Rightarrow> (string \<times> 're) list \<Rightarrow> auth_context \<Rightarrow> bool" where
  "claims_match L [] ac = True"
| "claims_match L ((key, re) # cs) ac =
     (case ac_claims ac key of
        None \<Rightarrow> False
      | Some v \<Rightarrow>
          (case claim_string v of
             None \<Rightarrow> False
           | Some s \<Rightarrow> if \<not> re_match L re s then False else claims_match L cs ac))"

definition matcher_matches :: "'re regex_lib \<Rightarrow> 're compiled_matcher \<Rightarrow> auth_context \<Rightarrow> bool" where
  "matcher_matches L m ac =
     (if ac_kind ac \<noteq> cm_kind m then False
      else if cm_issuer m \<noteq> '''' \<and> ac_issuer ac \<noteq> cm_issuer m then False
      else if (case cm_sub m of None \<Rightarrow> False | Some re \<Rightarrow> \<not> re_match L re (ac_id ac)) then False
      else if cm_email m \<noteq> '''' \<and> ac_email ac \<noteq> cm_email m then False
      else claims_match L (cm_claims m) ac)"

text \<open>\<open>None\<close> allows.\<close>

definition policy_authorize ::
  "'re regex_lib \<Rightarrow> 're compiled_policy \<Rightarrow> auth_context option \<Rightarrow> string \<Rightarrow> err option" where
  "policy_authorize L p ac op =
     (case ac of
        None \<Rightarrow> Some ErrUnauthorized
      | Some ac \<Rightarrow>
          (if op = auth_op_read then
             (if list_ex (\<lambda>m. matcher_matches L m ac) (cp_readers p) then None
              else Some ErrUnauthorized)
           else if op = auth_op_write then
             (if list_ex (\<lambda>m. matcher_matches L m ac) (cp_writers p) then None
              else Some ErrUnauthorized)
           else Some ErrUnknownOp))"

section \<open>What a policy declares\<close>

text \<open>A subject fits a declared matcher: every populated field holds of it.\<close>

definition field_fits :: "'re regex_lib \<Rightarrow> string \<Rightarrow> string \<Rightarrow> bool" where
  "field_fits L pat s = (case compile_anchored L pat of None \<Rightarrow> False | Some re \<Rightarrow> re_match L re s)"

definition claim_fits :: "'re regex_lib \<Rightarrow> auth_context \<Rightarrow> string \<times> string \<Rightarrow> bool" where
  "claim_fits L ac c \<longleftrightarrow>
     (\<exists>v s. ac_claims ac (fst c) = Some v \<and> claim_string v = Some s \<and> field_fits L (snd c) s)"

definition claim_wellformed :: "'re regex_lib \<Rightarrow> string \<times> string \<Rightarrow> bool" where
  "claim_wellformed L c \<longleftrightarrow> fst c \<noteq> '''' \<and> compile_anchored L (snd c) \<noteq> None"

definition subject_fits :: "'re regex_lib \<Rightarrow> subject_matcher \<Rightarrow> auth_context \<Rightarrow> bool" where
  "subject_fits L m ac \<longleftrightarrow>
     ac_kind ac = (if sm_kind m = '''' then ''oidc'' else sm_kind m)
     \<and> (sm_issuer m = '''' \<or> ac_issuer ac = sm_issuer m)
     \<and> (sm_sub_match m = '''' \<or> field_fits L (sm_sub_match m) (ac_id ac))
     \<and> (sm_email m = '''' \<or> ac_email ac = sm_email m)
     \<and> list_all (claim_fits L ac) (sm_claims_match m)"

definition matcher_wellformed :: "'re regex_lib \<Rightarrow> subject_matcher \<Rightarrow> bool" where
  "matcher_wellformed L m \<longleftrightarrow>
     (sm_issuer m \<noteq> '''' \<or> sm_sub_match m \<noteq> '''' \<or> sm_email m \<noteq> '''' \<or> sm_claims_match m \<noteq> []
        \<or> sm_kind m \<noteq> '''')
     \<and> sm_kind m \<in> {'''', ''oidc'', ''anonymous''}
     \<and> (sm_sub_match m = '''' \<or> compile_anchored L (sm_sub_match m) \<noteq> None)
     \<and> list_all (claim_wellformed L) (sm_claims_match m)"

lemma claim_string_Some [simp]: "claim_string v \<noteq> None"
  by (cases v) auto

lemma compile_claims_wf: "compile_claims L cs \<noteq> None \<longleftrightarrow> list_all (claim_wellformed L) cs"
proof (induction cs)
  case (Cons c cs)
  then show ?case
    by (cases c; cases "compile_anchored L (snd c)"; cases "compile_claims L cs")
      (auto simp: claim_wellformed_def)
qed simp

lemma compile_claims_match:
  "compile_claims L cs = Some ccs \<Longrightarrow> claims_match L ccs ac \<longleftrightarrow> list_all (claim_fits L ac) cs"
  by (induction cs arbitrary: ccs)
    (auto simp: claim_fits_def field_fits_def split: option.split_asm if_split_asm option.split)

lemma compile_matcher_wf: "compile_matcher L m \<noteq> None \<longleftrightarrow> matcher_wellformed L m"
proof -
  have "compile_claims L (sm_claims_match m) = None \<longleftrightarrow> \<not> list_all (claim_wellformed L) (sm_claims_match m)"
    using compile_claims_wf [of L "sm_claims_match m"] by blast
  then show ?thesis
    by (auto simp: compile_matcher_def matcher_wellformed_def kind_defs Let_def split: option.split)
qed

lemma compile_matcher_matches:
  assumes "compile_matcher L m = Some cm"
  shows "matcher_matches L cm ac \<longleftrightarrow> subject_fits L m ac"
proof -
  obtain sub cs where sub: "(if sm_sub_match m = '''' then Some None
        else map_option Some (compile_anchored L (sm_sub_match m))) = Some sub"
    and cs: "compile_claims L (sm_claims_match m) = Some cs"
    and cm: "cm = \<lparr>cm_issuer = sm_issuer m, cm_sub = sub, cm_email = sm_email m, cm_claims = cs,
        cm_kind = (if sm_kind m = '''' then kind_oidc else sm_kind m)\<rparr>"
    using assms unfolding compile_matcher_def Let_def
    by (auto split: if_split_asm option.split_asm)
  have "(case sub of None \<Rightarrow> False | Some re \<Rightarrow> \<not> re_match L re (ac_id ac))
      \<longleftrightarrow> \<not> (sm_sub_match m = '''' \<or> field_fits L (sm_sub_match m) (ac_id ac))"
    using sub by (auto simp: field_fits_def split: if_split_asm option.split_asm)
  then show ?thesis
    by (simp add: cm matcher_matches_def subject_fits_def compile_claims_match [OF cs] kind_defs)
qed

lemma compile_matchers_ex:
  assumes "compile_matchers L ms = Inr cms"
  shows "list_ex (\<lambda>m. matcher_matches L m ac) cms \<longleftrightarrow> (\<exists>m \<in> set ms. subject_fits L m ac)"
proof -
  have "list_all2 (\<lambda>m cm. compile_matcher L m = Some cm) ms cms"
    using assms unfolding compile_matchers_def rmap_Inr_iff
    by (rule list_all2_mono) (simp split: option.splits)
  then show ?thesis
    by (induction rule: list_all2_induct) (auto simp: compile_matcher_matches)
qed


text \<open>The engine of the examples: a pattern is a literal between its anchors.\<close>

definition demo_regex :: "string regex_lib" where
  "demo_regex = \<lparr>re_compile = Some, re_match = (\<lambda>re s. re = ''^'' @ s @ ''$'')\<rparr>"

definition demo_policy :: policy where
  "demo_policy =
     \<lparr>po_readers = [\<lparr>sm_issuer = '''', sm_sub_match = ''bob'', sm_email = '''',
                      sm_claims_match = [(''team'', ''a'')], sm_kind = ''''\<rparr>],
      po_writers = []\<rparr>"

definition demo_subject :: auth_context where
  "demo_subject = \<lparr>ac_issuer = ''i'', ac_id = ''bob'', ac_email = '''',
                    ac_claims = [''team'' \<mapsto> JStr ''a''], ac_kind = ''oidc''\<rparr>"


text \<open>A policy is rejected, with \<open>ErrInvalidPolicy\<close>, exactly if one of its matchers is malformed:
  no field populated, an unknown or reserved kind, an empty claim key, or an expression that
  does not compile once anchored.\<close>

theorem malformed_policy_rejected:
  "(compile_policy L p = Inl NsErrInvalidPolicy
      \<longleftrightarrow> (\<exists>m \<in> set (po_readers p) \<union> set (po_writers p). \<not> matcher_wellformed L m))
   \<and> (isl (compile_policy L p) \<longleftrightarrow> compile_policy L p = Inl NsErrInvalidPolicy)"
proof -
  have ms: "compile_matchers L ms = Inl NsErrInvalidPolicy \<and> (\<exists>m \<in> set ms. \<not> matcher_wellformed L m)
      \<or> (\<exists>cms. compile_matchers L ms = Inr cms) \<and> (\<forall>m \<in> set ms. matcher_wellformed L m)" for ms
  proof (induction ms)
    case (Cons m ms)
    then show ?case
      using compile_matcher_wf [of L m]
      by (cases "compile_matcher L m") (auto simp: compile_matchers_def)
  qed (simp add: compile_matchers_def)
  show ?thesis
    using ms [of "po_readers p"] ms [of "po_writers p"]
    by (auto simp: compile_policy_def)
qed

text \<open>
  The anchors go around the text of a pattern, not around the pattern: of two alternatives each is anchored
  at one end only, and a pattern that ends in an escaped dollar sign is not anchored at its end.
\<close>

lemma anchors_are_textual:
  "anchored ''a|b'' = ''^a|b$''"
  "anchored (''a'' @ [CHR 0x5C] @ ''$'') = ''^a'' @ [CHR 0x5C] @ ''$''"
  by code_simp+

end
