(* ===== verification/Namespace.thy ===== *)
theory Namespace
  imports Policy Proxy_Filter
begin

text \<open>
  The namespace model and its validation, \<open>namespace.go\<close> and \<open>validate.go\<close> of \<open>pkg/namespace\<close>.
  \<open>ns_env\<close> holds what validation calls outside the package: the regular expression engine,
  \<open>time.ParseDuration\<close>, and the scheme and host that \<open>url.Parse\<close> finds (\<open>None\<close> on an error).
\<close>

record proxy =
  px_upstream :: string
  px_filters :: "filter_spec list"

record spec =
  sp_schema_version :: int
  sp_mode :: string
  sp_policy :: policy
  sp_proxy :: proxy
  sp_format :: "(string \<times> jval) list"

record namespace =
  ns_name :: string
  ns_spec :: spec

record 're ns_env =
  ne_regex :: "'re regex_lib"
  ne_parse_dur :: "string \<Rightarrow> int option"
  ne_url_parse :: "string \<Rightarrow> (string \<times> string) option"

definition zero_spec :: spec where
  "zero_spec =
     \<lparr>sp_schema_version = 0, sp_mode = '''', sp_policy = \<lparr>po_readers = [], po_writers = []\<rparr>,
      sp_proxy = \<lparr>px_upstream = '''', px_filters = []\<rparr>, sp_format = []\<rparr>"

definition current_schema_version :: int where "current_schema_version = 1"

definition mode_hosted :: string where "mode_hosted = ''hosted''"

definition mode_proxy :: string where "mode_proxy = ''proxy''"

definition is_proxy :: "spec \<Rightarrow> bool" where
  "is_proxy s = (sp_mode s = mode_proxy)"

definition is_hosted :: "spec \<Rightarrow> bool" where
  "is_hosted s = (sp_mode s = '''' \<or> sp_mode s = mode_hosted)"

section \<open>Names\<close>

definition reserved_names :: "string list" where
  "reserved_names =
     [''admin'', ''healthz'', ''readyz'', ''metrics'', ''simple'', ''maven2'', ''v2'', ''npm'',
      ''pypi'', ''debian'', ''generic'', ''_control'', ''_proxy-cache'', ''open-artifact'']"

definition ns_validate_name :: "string \<Rightarrow> err option" where
  "ns_validate_name name =
     (if length name < 1 \<or> length name > 64 then Some NsErrInvalidName
      else if list_ex (\<lambda>c. \<not> (is_lower c \<or> is_digit c \<or> c = CHR ''-'')) name
        then Some NsErrInvalidName
      else if hd name = CHR ''-'' \<or> last name = CHR ''-'' then Some NsErrInvalidName
      else if name \<in> set reserved_names then Some NsErrInvalidName
      else None)"

section \<open>Specs\<close>

definition proxy_empty :: "proxy \<Rightarrow> bool" where
  "proxy_empty p = (px_upstream p = '''' \<and> px_filters p = [])"

definition validate_upstream :: "'re ns_env \<Rightarrow> string \<Rightarrow> err option" where
  "validate_upstream env raw =
     (if raw = '''' then Some NsErrInvalidProxy
      else case ne_url_parse env raw of
        None \<Rightarrow> Some NsErrInvalidProxy
      | Some (scheme, host) \<Rightarrow>
          (if scheme \<noteq> ''http'' \<and> scheme \<noteq> ''https'' then Some NsErrInvalidProxy
           else if host = '''' then Some NsErrInvalidProxy
           else None))"

definition check_policy :: "'re ns_env \<Rightarrow> spec \<Rightarrow> spec res" where
  "check_policy env sp =
     (case compile_policy (ne_regex env) (sp_policy sp) of Inl e \<Rightarrow> Inl e | Inr _ \<Rightarrow> Inr sp)"

definition normalize_for_write :: "'re ns_env \<Rightarrow> spec \<Rightarrow> spec res" where
  "normalize_for_write env sp =
     (if sp_schema_version sp > current_schema_version then Inl NsErrUnsupportedSchemaVersion
      else
        (let sp = sp\<lparr>sp_schema_version := current_schema_version\<rparr>
         in if sp_mode sp = mode_hosted \<or> sp_mode sp = '''' then
              (let sp = sp\<lparr>sp_mode := ''''\<rparr>
               in if \<not> proxy_empty (sp_proxy sp) then Inl NsErrInvalidProxy
                  else check_policy env sp)
            else if sp_mode sp = mode_proxy then
              (case validate_upstream env (px_upstream (sp_proxy sp)) of
                 Some e \<Rightarrow> Inl e
               | None \<Rightarrow>
                   (case validate_filters (ne_parse_dur env) (px_filters (sp_proxy sp)) of
                      Some _ \<Rightarrow> Inl NsErrInvalidProxy
                    | None \<Rightarrow> check_policy env sp))
            else Inl NsErrInvalidProxy))"

definition normalize_for_read :: "spec \<Rightarrow> spec res" where
  "normalize_for_read sp =
     (let sp = (if sp_schema_version sp = 0
                then sp\<lparr>sp_schema_version := current_schema_version\<rparr> else sp)
      in if sp_schema_version sp > current_schema_version then Inl NsErrUnsupportedSchemaVersion
         else Inr sp)"

lemmas mode_defs = mode_hosted_def mode_proxy_def current_schema_version_def

section \<open>Validation\<close>

text \<open>A valid name is one URL path segment and one bucket segment, and shadows no fixed route.\<close>

lemma ns_validate_name_None:
  "ns_validate_name name = None \<longleftrightarrow>
     name \<noteq> '''' \<and> length name \<le> 64
     \<and> (\<forall>c \<in> set name. is_lower c \<or> is_digit c \<or> c = CHR ''-'')
     \<and> hd name \<noteq> CHR ''-'' \<and> last name \<noteq> CHR ''-'' \<and> name \<notin> set reserved_names"
  by (cases name) (auto simp: ns_validate_name_def list_ex_iff)

lemma valid_ns_chars:
  assumes "ns_validate_name name = None"
  shows "CHR ''/'' \<notin> set name" "CHR ''.'' \<notin> set name" "CHR 0x00 \<notin> set name" "name \<noteq> ''''"
    "CHR ''%'' \<notin> set name"
  using assms
  by (auto simp: ns_validate_name_None is_lower_def is_digit_def)

text \<open>The normal form of a stored spec.\<close>

definition spec_normal :: "'re ns_env \<Rightarrow> spec \<Rightarrow> bool" where
  "spec_normal env sp \<longleftrightarrow>
     sp_schema_version sp = 1
     \<and> (\<exists>cp. compile_policy (ne_regex env) (sp_policy sp) = Inr cp)
     \<and> (sp_mode sp = '''' \<and> proxy_empty (sp_proxy sp)
        \<or> sp_mode sp = ''proxy'' \<and> px_upstream (sp_proxy sp) \<noteq> ''''
          \<and> (\<exists>scheme host. ne_url_parse env (px_upstream (sp_proxy sp)) = Some (scheme, host)
               \<and> scheme \<in> {''http'', ''https''} \<and> host \<noteq> '''')
          \<and> (\<exists>c. compile_chain (ne_parse_dur env) (px_filters (sp_proxy sp)) = Inr c))"

lemma validate_upstream_None:
  "validate_upstream env raw = None \<longleftrightarrow> raw \<noteq> '''' \<and>
     (\<exists>scheme host. ne_url_parse env raw = Some (scheme, host)
        \<and> scheme \<in> {''http'', ''https''} \<and> host \<noteq> '''')"
  by (auto simp: validate_upstream_def split: option.split)

lemma check_policy_Inr:
  "check_policy env sp = Inr sp' \<longleftrightarrow> sp' = sp \<and> (\<exists>cp. compile_policy (ne_regex env) (sp_policy sp) = Inr cp)"
  by (auto simp: check_policy_def split: sum.splits)

lemma normalize_for_write_normal:
  assumes "normalize_for_write env sp = Inr sp'"
  shows "spec_normal env sp'"
  using assms
  by (auto simp: normalize_for_write_def spec_normal_def check_policy_Inr Let_def mode_defs
      validate_filters_def validate_upstream_None split: if_split_asm option.split_asm sum.split_asm)

lemma normalize_for_write_fields:
  assumes "normalize_for_write env sp = Inr sp'"
  shows "sp_policy sp' = sp_policy sp" "sp_proxy sp' = sp_proxy sp" "sp_format sp' = sp_format sp"
    "sp_mode sp' = (if sp_mode sp = ''hosted'' then '''' else sp_mode sp)"
  using assms
  by (auto simp: normalize_for_write_def check_policy_Inr Let_def mode_defs
      split: if_split_asm option.split_asm)

lemma spec_normal_fixpoint:
  assumes "spec_normal env sp"
  shows "normalize_for_write env sp = Inr sp" "normalize_for_read sp = Inr sp"
proof -
  have v: "sp_schema_version sp = 1" using assms(1) by (simp add: spec_normal_def)
  have s: "sp\<lparr>sp_schema_version := 1\<rparr> = sp" using v by simp
  have m: "sp_mode sp = '''' \<Longrightarrow> sp\<lparr>sp_mode := ''''\<rparr> = sp" by simp
  show "normalize_for_read sp = Inr sp"
    using v by (simp add: normalize_for_read_def Let_def mode_defs)
  obtain cp where cp: "compile_policy (ne_regex env) (sp_policy sp) = Inr cp"
    using assms(1) by (auto simp: spec_normal_def)
  show "normalize_for_write env sp = Inr sp"
  proof (cases "sp_mode sp = ''proxy''")
    case True
    then have "validate_upstream env (px_upstream (sp_proxy sp)) = None"
      "validate_filters (ne_parse_dur env) (px_filters (sp_proxy sp)) = None"
      using assms(1) by (auto simp: spec_normal_def validate_upstream_None validate_filters_def)
    with True v s cp show ?thesis
      by (simp add: normalize_for_write_def mode_defs Let_def check_policy_def)
  next
    case False
    then have "sp_mode sp = ''''" "proxy_empty (sp_proxy sp)"
      using assms(1) by (auto simp: spec_normal_def)
    with v s m cp show ?thesis
      by (simp add: normalize_for_write_def mode_defs Let_def check_policy_def)
  qed
qed

text \<open>C22: what validation accepts is in normal form and stays itself: the accepted spec has the
  current version, a policy that compiles, and either no mode and no proxy block or proxy mode
  with an http(s) upstream and a filter chain that compiles; writing and reading it again
  return it unchanged, and its policy, proxy and format blocks are those submitted.\<close>

theorem accepted_spec_normal:
  assumes "normalize_for_write env sp = Inr sp'"
  shows "spec_normal env sp' \<and> normalize_for_write env sp' = Inr sp' \<and> normalize_for_read sp' = Inr sp'
    \<and> sp_policy sp' = sp_policy sp \<and> sp_proxy sp' = sp_proxy sp \<and> sp_format sp' = sp_format sp"
  using normalize_for_write_normal [OF assms(1)] normalize_for_write_fields [OF assms(1)]
    spec_normal_fixpoint [of env sp']
  by simp

definition demo_env :: "string ns_env" where
  "demo_env = \<lparr>ne_regex = demo_regex, ne_parse_dur = (\<lambda>_. None), ne_url_parse = (\<lambda>_. None)\<rparr>"

definition demo_spec :: "string \<Rightarrow> spec" where
  "demo_spec mode =
     \<lparr>sp_schema_version = 0, sp_mode = mode, sp_policy = demo_policy,
      sp_proxy = \<lparr>px_upstream = '''', px_filters = []\<rparr>, sp_format = []\<rparr>"

theorem accepted_spec_normal_witness:
  "normalize_for_write demo_env (demo_spec '''' \<lparr>sp_schema_version := 1\<rparr>)
    = Inr (demo_spec '''' \<lparr>sp_schema_version := 1\<rparr>)"
proof -
  have "normalize_for_write demo_env (demo_spec ''hosted'') = Inr (demo_spec '''' \<lparr>sp_schema_version := 1\<rparr>)"
    by code_simp
  from accepted_spec_normal [OF this] show ?thesis by simp
qed

end
