(* ===== verification/Catalog.thy ===== *)
theory Catalog
  imports Namespace Blob_Listing
begin

text \<open>
  The namespace catalog, \<open>pkg/namespace/store.go\<close>: the only writer of the namespaces' metadata
  objects.  Its state is the bucket and whatever its change hooks act on (the policy cache of
  the same process).  The JSON codec of specs is a parameter.
\<close>

record ('b, 'c, 're) catalog =
  ct_ops :: "'b bucket_ops"
  ct_root :: string
  ct_hooks :: "(string \<Rightarrow> 'c \<Rightarrow> 'c) list"
  ct_env :: "'re ns_env"
  ct_encode :: "spec \<Rightarrow> string res"
  ct_decode :: "string \<Rightarrow> spec res"

record ('b, 'c) ns_world =
  nw_bucket :: 'b
  nw_hooked :: 'c

definition root_prefix :: "string \<Rightarrow> string" where
  "root_prefix bucket_prefix =
     (let bucket_prefix = trim_byte CHR ''/'' bucket_prefix
      in if bucket_prefix = '''' then Root else Root @ bucket_prefix @ ''/'')"

definition ns_prefix :: "('b, 'c, 're) catalog \<Rightarrow> string \<Rightarrow> string" where
  "ns_prefix c name = ct_root c @ name @ ''/''"

definition ns_meta_path :: "('b, 'c, 're) catalog \<Rightarrow> string \<Rightarrow> string" where
  "ns_meta_path c name = ns_prefix c name @ ''.meta''"

definition notify :: "('b, 'c, 're) catalog \<Rightarrow> string \<Rightarrow> ('b, 'c) ns_world \<Rightarrow> ('b, 'c) ns_world" where
  "notify c name w = w\<lparr>nw_hooked := fold (\<lambda>fn. fn name) (ct_hooks c) (nw_hooked w)\<rparr>"

text \<open>\<open>None\<close> is a nil namespace.\<close>

definition catalog_put ::
  "('b, 'c, 're) catalog \<Rightarrow> namespace option \<Rightarrow> ('b, 'c) ns_world \<Rightarrow> namespace res \<times> ('b, 'c) ns_world"
where
  "catalog_put c ns w =
     (case ns of
        None \<Rightarrow> (Inl (ErrOther ''nil namespace''), w)
      | Some ns \<Rightarrow>
          (case ns_validate_name (ns_name ns) of
             Some e \<Rightarrow> (Inl e, w)
           | None \<Rightarrow>
               (case normalize_for_write (ct_env c) (ns_spec ns) of
                  Inl e \<Rightarrow> (Inl e, w)
                | Inr spec \<Rightarrow>
                    (case ct_encode c spec of
                       Inl e \<Rightarrow> (Inl e, w)
                     | Inr body \<Rightarrow>
                         (case bo_write_all (ct_ops c) (nw_bucket w) (ns_meta_path c (ns_name ns)) body
                                 False of
                            (Some code, b) \<Rightarrow> (Inl (ErrBackend code), w\<lparr>nw_bucket := b\<rparr>)
                          | (None, b) \<Rightarrow>
                              (Inr \<lparr>ns_name = ns_name ns, ns_spec = spec\<rparr>,
                               notify c (ns_name ns) (w\<lparr>nw_bucket := b\<rparr>)))))))"

definition catalog_load :: "('b, 'c, 're) catalog \<Rightarrow> 'b \<Rightarrow> string \<Rightarrow> namespace res" where
  "catalog_load c b name =
     (case bo_read_all (ct_ops c) b (ns_meta_path c name) of
        Inl code \<Rightarrow> Inl (if code = GcNotFound then NsErrNotFound else ErrBackend code)
      | Inr raw \<Rightarrow>
          rbind (ct_decode c raw)
            (\<lambda>spec. rbind (normalize_for_read spec)
               (\<lambda>spec. Inr \<lparr>ns_name = name, ns_spec = spec\<rparr>)))"

definition catalog_get :: "('b, 'c, 're) catalog \<Rightarrow> 'b \<Rightarrow> string \<Rightarrow> namespace res" where
  "catalog_get c b name =
     (case ns_validate_name name of Some e \<Rightarrow> Inl e | None \<Rightarrow> catalog_load c b name)"

definition list_child_dirs :: "('b, 'c, 're) catalog \<Rightarrow> 'b \<Rightarrow> string \<Rightarrow> string list res" where
  "list_child_dirs c b pre =
     (case bo_list (ct_ops c) b pre True of
        (es, Some code) \<Rightarrow> Inl (ErrBackend code)
      | (es, None) \<Rightarrow>
          (let names = map (\<lambda>e. trim_suffix (trim_prefix (fst e) pre) ''/'') (filter snd es)
           in Inr (sort (filter (\<lambda>n. \<not> (n = '''' \<or> has_prefix n ''.'')) names))))"

fun load_all :: "('b, 'c, 're) catalog \<Rightarrow> 'b \<Rightarrow> string list \<Rightarrow> namespace list res" where
  "load_all c b [] = Inr []"
| "load_all c b (n # ns) =
     (case catalog_load c b n of
        Inl e \<Rightarrow> (if e = NsErrNotFound then load_all c b ns else Inl e)
      | Inr x \<Rightarrow> rbind (load_all c b ns) (\<lambda>xs. Inr (x # xs)))"

definition catalog_list :: "('b, 'c, 're) catalog \<Rightarrow> 'b \<Rightarrow> namespace list res" where
  "catalog_list c b =
     rbind (list_child_dirs c b (ct_root c))
       (\<lambda>names. rbind (load_all c b names) (\<lambda>out. Inr (sort_key ns_name out)))"

definition catalog_ping :: "('b, 'c, 're) catalog \<Rightarrow> 'b \<Rightarrow> err option" where
  "catalog_ping c b = (case list_child_dirs c b (ct_root c) of Inl e \<Rightarrow> Some e | Inr _ \<Rightarrow> None)"

fun no_packages :: "('b, 'c, 're) catalog \<Rightarrow> 'b \<Rightarrow> string \<Rightarrow> string list \<Rightarrow> bool res" where
  "no_packages c b name [] = Inr True"
| "no_packages c b name (fmt_dir # ds) =
     rbind (list_child_dirs c b (ns_prefix c name @ fmt_dir @ ''/''))
       (\<lambda>pkgs. if pkgs \<noteq> [] then Inr False else no_packages c b name ds)"

definition ns_is_empty :: "('b, 'c, 're) catalog \<Rightarrow> 'b \<Rightarrow> string \<Rightarrow> bool res" where
  "ns_is_empty c b name =
     rbind (list_child_dirs c b (ns_prefix c name)) (\<lambda>formats. no_packages c b name formats)"

definition catalog_delete ::
  "('b, 'c, 're) catalog \<Rightarrow> string \<Rightarrow> ('b, 'c) ns_world \<Rightarrow> unit res \<times> ('b, 'c) ns_world" where
  "catalog_delete c name w =
     (case ns_validate_name name of
        Some e \<Rightarrow> (Inl e, w)
      | None \<Rightarrow>
          (case catalog_load c (nw_bucket w) name of
             Inl e \<Rightarrow> (Inl e, w)
           | Inr _ \<Rightarrow>
               (case ns_is_empty c (nw_bucket w) name of
                  Inl e \<Rightarrow> (Inl e, w)
                | Inr em \<Rightarrow>
                    (if \<not> em then (Inl NsErrNotEmpty, w)
                     else case bo_delete (ct_ops c) (nw_bucket w) (ns_meta_path c name) of
                       (Some code, b) \<Rightarrow> (Inl (ErrBackend code), w\<lparr>nw_bucket := b\<rparr>)
                     | (None, b) \<Rightarrow> (Inr (), notify c name (w\<lparr>nw_bucket := b\<rparr>))))))"

section \<open>Listings of the catalog\<close>

definition child_dirs :: "(string \<rightharpoonup> string) \<Rightarrow> string \<Rightarrow> string set" where
  "child_dirs m pre =
     {seg. seg \<noteq> '''' \<and> CHR ''/'' \<notin> set seg \<and> \<not> has_prefix seg ''.''
           \<and> (\<exists>r. pre @ seg @ ''/'' @ r \<in> dom m)}"

lemma nw_notify [simp]: "nw_bucket (notify c name w) = nw_bucket w"
  by (simp add: notify_def)

context blob_bucket
begin

lemma list_child_dirs_Inr:
  assumes "list_child_dirs c b pre = Inr names" "ct_ops c = ops"
  shows "set names = child_dirs (objs b) pre" "sorted names" "distinct names"
proof -
  obtain es where es: "bo_list ops b pre True = (es, None)"
    "names = sort (filter (\<lambda>n. \<not> (n = '''' \<or> has_prefix n ''.''))
        (map (\<lambda>e. trim_suffix (trim_prefix (fst e) pre) ''/'') (filter snd es)))"
    using assms by (auto simp: list_child_dirs_def Let_def split: prod.splits option.splits)
  let ?f = "\<lambda>e. trim_suffix (trim_prefix (fst e) pre) ''/''"
  have spec: "set es = list_spec (objs b) pre True" "distinct es"
    using list_None [OF es(1)] by auto
  define D where "D = {seg. CHR ''/'' \<notin> set seg \<and> (\<exists>r. pre @ seg @ ''/'' @ r \<in> dom (objs b))}"
  have dirs: "set (filter snd es) = (\<lambda>seg. (pre @ seg @ ''/'', True)) ` D"
    unfolding set_filter spec(1) list_spec_def D_def by auto
  have fD: "?f (pre @ seg @ ''/'', True) = seg" if "seg \<in> D" for seg
    using trim_entry_dir [of seg pre] that by (simp add: D_def)
  show "sorted names" using es(2) by simp
  have fD': "?f ` (\<lambda>seg. (pre @ seg @ ''/'', True)) ` D = D"
  proof -
    have "?f ` (\<lambda>seg. (pre @ seg @ ''/'', True)) ` D = (\<lambda>seg. ?f (pre @ seg @ ''/'', True)) ` D"
      by (rule image_image)
    also have "\<dots> = (\<lambda>seg. seg) ` D" by (rule image_cong [OF refl fD])
    finally show ?thesis by simp
  qed
  have "?f ` set (filter snd es) = D"
    unfolding dirs by (rule fD')
  moreover have "set names = {n \<in> ?f ` set (filter snd es). \<not> (n = '''' \<or> has_prefix n ''.'')}"
    by (simp only: es(2) set_sort set_filter set_map)
  ultimately show "set names = child_dirs (objs b) pre"
    by (auto simp: child_dirs_def D_def)
  have "inj_on ?f (set (filter snd es))"
    unfolding dirs
  proof (rule inj_onI)
    fix x y
    assume xy: "x \<in> (\<lambda>seg. (pre @ seg @ ''/'', True)) ` D"
      "y \<in> (\<lambda>seg. (pre @ seg @ ''/'', True)) ` D" "?f x = ?f y"
    then obtain u v where "u \<in> D" "v \<in> D" "x = (pre @ u @ ''/'', True)" "y = (pre @ v @ ''/'', True)"
      by blast
    with fD [of u] fD [of v] xy(3) show "x = y" by simp
  qed
  then have "distinct (map ?f (filter snd es))"
    using spec(2) by (simp add: distinct_map)
  then show "distinct names" unfolding es(2) by simp
qed

lemma no_packages_Inr:
  assumes "no_packages c b name fs = Inr e" "ct_ops c = ops"
  shows "e \<longleftrightarrow> (\<forall>f \<in> set fs. child_dirs (objs b) (ns_prefix c name @ f @ ''/'') = {})"
  using assms
proof (induction fs)
  case (Cons f fs)
  then obtain pkgs where p: "list_child_dirs c b (ns_prefix c name @ f @ ''/'') = Inr pkgs"
    "(if pkgs \<noteq> [] then Inr False else no_packages c b name fs) = Inr e"
    by (auto simp: rbind_eq_Inr_conv)
  have s: "set pkgs = child_dirs (objs b) (ns_prefix c name @ f @ ''/'')"
    by (rule list_child_dirs_Inr(1) [OF p(1) Cons.prems(2)])
  show ?case
  proof (cases pkgs)
    case Nil
    then show ?thesis using s p(2) Cons.IH Cons.prems(2) by simp
  next
    case (Cons a list)
    then have "a \<in> child_dirs (objs b) (ns_prefix c name @ f @ ''/'')" "\<not> e"
      using s p(2) by auto
    then show ?thesis by auto
  qed
qed simp

lemma ns_is_empty_Inr:
  assumes "ns_is_empty c b name = Inr e" "ct_ops c = ops"
  shows "e \<longleftrightarrow> (\<forall>f \<in> child_dirs (objs b) (ns_prefix c name).
      child_dirs (objs b) (ns_prefix c name @ f @ ''/'') = {})"
proof -
  obtain fs where fs: "list_child_dirs c b (ns_prefix c name) = Inr fs"
    "no_packages c b name fs = Inr e"
    using assms(1) by (auto simp: ns_is_empty_def rbind_eq_Inr_conv)
  show ?thesis
    using no_packages_Inr [OF fs(2) assms(2)] list_child_dirs_Inr(1) [OF fs(1) assms(2)] by simp
qed

lemma catalog_load_Inr:
  assumes "catalog_load c b name = Inr ns" "ct_ops c = ops"
  shows "ns_name ns = name" "\<exists>raw sp. objs b (ns_meta_path c name) = Some raw \<and> ct_decode c raw = Inr sp
      \<and> normalize_for_read sp = Inr (ns_spec ns)"
  using assms read_Inr
  by (auto simp: catalog_load_def rbind_eq_Inr_conv split: sum.splits)

lemma catalog_load_NotFound:
  assumes "catalog_load c b name = Inl NsErrNotFound" "ct_ops c = ops"
    "\<And>raw. ct_decode c raw \<noteq> Inl NsErrNotFound"
  shows "objs b (ns_meta_path c name) = None"
proof (cases "bo_read_all ops b (ns_meta_path c name)")
  case (Inl code)
  with assms have "code = GcNotFound" by (auto simp: catalog_load_def split: if_splits)
  with Inl read_NotFound show ?thesis by auto
next
  case (Inr raw)
  with assms show ?thesis
    by (auto simp: catalog_load_def rbind_eq_Inl_conv normalize_for_read_def Let_def split: if_splits)
qed

lemma load_all_Inr:
  assumes "load_all c b ns = Inr xs" "ct_ops c = ops" "\<And>raw. ct_decode c raw \<noteq> Inl NsErrNotFound"
  shows "map ns_name xs = filter (\<lambda>n. objs b (ns_meta_path c n) \<noteq> None) ns"
  using assms(1)
proof (induction ns arbitrary: xs)
  case (Cons n ns)
  show ?case
  proof (cases "catalog_load c b n")
    case (Inl e)
    with Cons.prems have "e = NsErrNotFound" "load_all c b ns = Inr xs" by (auto split: if_splits)
    with Inl catalog_load_NotFound [OF _ assms(2,3)] Cons.IH show ?thesis by auto
  next
    case (Inr x)
    with Cons.prems obtain ys where "load_all c b ns = Inr ys" "xs = x # ys"
      by (auto simp: rbind_eq_Inr_conv)
    with Inr catalog_load_Inr [OF Inr assms(2)] Cons.IH show ?thesis by auto
  qed
qed simp

end

section \<open>Properties\<close>

text \<open>A catalog over an in-memory bucket; its codec knows one spec.\<close>

definition demo_catalog :: "(mem_bucket, string list, string) catalog" where
  "demo_catalog =
     \<lparr>ct_ops = mem_ops, ct_root = root_prefix '''', ct_hooks = [(#)], ct_env = demo_env,
      ct_encode = (\<lambda>_. Inr ''{}''),
      ct_decode = (\<lambda>d. if d = ''{}'' then Inr (demo_spec '''' \<lparr>sp_schema_version := 1\<rparr>)
                       else Inl (ErrOther ''json''))\<rparr>"

definition demo_ns_world :: "mem_bucket \<Rightarrow> (mem_bucket, string list) ns_world" where
  "demo_ns_world b = \<lparr>nw_bucket = b, nw_hooked = []\<rparr>"

text \<open>A namespace reads back as it was put: after a successful \<open>Put\<close>, \<open>Get\<close> returns the
  normalized spec that \<open>Put\<close> returned, every change hook has run on the name once, in order,
  and no other object of the bucket has changed.\<close>

theorem put_reads_back:
  assumes "blob_bucket (ct_ops c) objs"
    and "catalog_put c (Some ns) w = (Inr ns', w')"
    and "catalog_get c (nw_bucket w') (ns_name ns) = Inr ns''"
    and "\<And>raw. ct_encode c (ns_spec ns') = Inr raw \<Longrightarrow> ct_decode c raw = Inr (ns_spec ns')"
  shows "ns'' = ns' \<and> spec_normal (ct_env c) (ns_spec ns')
    \<and> nw_hooked w' = fold (\<lambda>fn. fn (ns_name ns)) (ct_hooks c) (nw_hooked w)
    \<and> objs (nw_bucket w') |` (- {ns_meta_path c (ns_name ns)})
        = objs (nw_bucket w) |` (- {ns_meta_path c (ns_name ns)})"
proof -
  obtain sp body b where n: "ns_validate_name (ns_name ns) = None"
    and sp: "normalize_for_write (ct_env c) (ns_spec ns) = Inr sp" "ct_encode c sp = Inr body"
    and wr: "bo_write_all (ct_ops c) (nw_bucket w) (ns_meta_path c (ns_name ns)) body False = (None, b)"
    and w': "w' = notify c (ns_name ns) (w\<lparr>nw_bucket := b\<rparr>)"
    and ns': "ns' = \<lparr>ns_name = ns_name ns, ns_spec = sp\<rparr>"
    using assms(2)
    by (auto simp: catalog_put_def split: option.splits sum.splits prod.splits)
  have ob: "objs b = (objs (nw_bucket w))(ns_meta_path c (ns_name ns) \<mapsto> body)"
    using blob_bucket.write_None [OF assms(1) wr] by blast
  note normal = normalize_for_write_normal [OF sp(1)]
  have "catalog_load c b (ns_name ns) = Inr ns''"
    using assms(3) n w' by (simp add: catalog_get_def)
  from blob_bucket.catalog_load_Inr [OF assms(1) this refl] obtain raw sp2 where
    "objs b (ns_meta_path c (ns_name ns)) = Some raw" "ct_decode c raw = Inr sp2"
    "normalize_for_read sp2 = Inr (ns_spec ns'')" "ns_name ns'' = ns_name ns" by blast
  with ob assms(4) sp ns' spec_normal_fixpoint(2) [OF normal] have "ns'' = ns'"
    by simp
  with normal ns' w' ob show ?thesis by (auto simp: notify_def restrict_map_def fun_eq_iff)
qed

theorem put_reads_back_witness:
  "catalog_get demo_catalog
      (nw_bucket (snd (catalog_put demo_catalog (Some \<lparr>ns_name = ''n'', ns_spec = demo_spec ''hosted''\<rparr>)
        (demo_ns_world [])))) ''n''
    = Inr \<lparr>ns_name = ''n'', ns_spec = demo_spec '''' \<lparr>sp_schema_version := 1\<rparr>\<rparr>"
proof -
  let ?ns = "\<lparr>ns_name = ''n'', ns_spec = demo_spec ''hosted''\<rparr>"
  let ?out = "\<lparr>ns_name = ''n'', ns_spec = demo_spec '''' \<lparr>sp_schema_version := 1\<rparr>\<rparr>"
  have 1: "fst (catalog_put demo_catalog (Some ?ns) (demo_ns_world [])) = Inr ?out" by code_simp
  have "\<not> isl (catalog_get demo_catalog
      (nw_bucket (snd (catalog_put demo_catalog (Some ?ns) (demo_ns_world [])))) (ns_name ?ns))"
    by code_simp
  then obtain r where r: "catalog_get demo_catalog
      (nw_bucket (snd (catalog_put demo_catalog (Some ?ns) (demo_ns_world [])))) (ns_name ?ns) = Inr r"
    by (metis sum.disc(1) sum.exhaust)
  have "blob_bucket (ct_ops demo_catalog) map_of" by (simp add: demo_catalog_def mem_bucket)
  from put_reads_back [OF this act_eval [OF 1] r] r show ?thesis
    by (simp add: demo_catalog_def)
qed

text \<open>C28: \<open>List\<close> returns each namespace once, in the order of names: exactly the first-level
  directories, without the dot entries, that hold a metadata object.\<close>

theorem list_is_the_catalog:
  assumes "blob_bucket (ct_ops c) objs" "catalog_list c b = Inr nss"
    and "\<And>raw. ct_decode c raw \<noteq> Inl NsErrNotFound"
  shows "sorted (map ns_name nss) \<and> distinct (map ns_name nss)
    \<and> set (map ns_name nss)
        = {n. n \<noteq> '''' \<and> CHR ''/'' \<notin> set n \<and> \<not> has_prefix n ''.'' \<and> objs b (ns_meta_path c n) \<noteq> None}"
proof -
  obtain names out where names: "list_child_dirs c b (ct_root c) = Inr names"
    "load_all c b names = Inr out" "nss = sort_key ns_name out"
    using assms(2) by (auto simp: catalog_list_def rbind_eq_Inr_conv)
  note dirs = blob_bucket.list_child_dirs_Inr [OF assms(1) names(1) refl]
  have out: "map ns_name out = filter (\<lambda>n. objs b (ns_meta_path c n) \<noteq> None) names"
    by (rule blob_bucket.load_all_Inr [OF assms(1) names(2) refl assms(3)])
  have "sorted (map ns_name out)" "distinct (map ns_name out)"
    unfolding out using dirs(2,3) by (simp_all add: sorted_wrt_filter)
  then have nss: "nss = out" using names(3) by (simp add: sorted_sort_id sort_key_id_if_sorted)
  have "set (map ns_name out) = {n \<in> child_dirs (objs b) (ct_root c). objs b (ns_meta_path c n) \<noteq> None}"
    unfolding out using dirs(1) by auto
  also have "\<dots> = {n. n \<noteq> '''' \<and> CHR ''/'' \<notin> set n \<and> \<not> has_prefix n ''.'' \<and> objs b (ns_meta_path c n) \<noteq> None}"
    by (auto simp: child_dirs_def ns_meta_path_def ns_prefix_def)
  finally show ?thesis
    using \<open>sorted (map ns_name out)\<close> \<open>distinct (map ns_name out)\<close> nss by simp
qed

theorem list_is_the_catalog_witness:
  "{n. n \<noteq> '''' \<and> CHR ''/'' \<notin> set n \<and> \<not> has_prefix n ''.''
      \<and> map_of [(ns_meta_path demo_catalog ''n'', ''{}''), (Root @ ''junk/x'', ''y'')]
          (ns_meta_path demo_catalog n) \<noteq> None} = {''n''}"
proof -
  let ?b = "[(ns_meta_path demo_catalog ''n'', ''{}''), (Root @ ''junk/x'', ''y'')]"
  have 1: "(case catalog_list demo_catalog ?b of Inl _ \<Rightarrow> None | Inr l \<Rightarrow> Some (map ns_name l)) = Some [''n'']"
    by code_simp
  then obtain nss where nss: "catalog_list demo_catalog ?b = Inr nss" "map ns_name nss = [''n'']"
    by (cases "catalog_list demo_catalog ?b") auto
  have "blob_bucket (ct_ops demo_catalog) map_of" by (simp add: demo_catalog_def mem_bucket)
  from list_is_the_catalog [OF this nss(1)] nss(2) show ?thesis
    by (simp add: demo_catalog_def)
qed

text \<open>C23: \<open>Delete\<close> removes at most the namespace's own metadata object, and succeeds only for an
  existing namespace under which no format directory holds a package directory.\<close>

theorem delete_spares_packages:
  assumes "blob_bucket (ct_ops c) objs" "catalog_delete c name w = (r, w')"
  shows "objs (nw_bucket w') |` (- {ns_meta_path c name}) = objs (nw_bucket w) |` (- {ns_meta_path c name})
    \<and> (\<not> isl r \<longrightarrow> objs (nw_bucket w) (ns_meta_path c name) \<noteq> None
         \<and> objs (nw_bucket w') (ns_meta_path c name) = None
         \<and> (\<forall>f \<in> child_dirs (objs (nw_bucket w)) (ns_prefix c name).
              child_dirs (objs (nw_bucket w)) (ns_prefix c name @ f @ ''/'') = {}))"
proof (cases "nw_bucket w' = nw_bucket w \<and> isl r")
  case True
  then show ?thesis by simp
next
  case False
  then obtain ns code b where l: "catalog_load c (nw_bucket w) name = Inr ns"
    and e: "ns_is_empty c (nw_bucket w) name = Inr True"
    and d: "bo_delete (ct_ops c) (nw_bucket w) (ns_meta_path c name) = (code, b)"
    and w': "nw_bucket w' = b" "\<not> isl r \<longleftrightarrow> code = None"
    using assms(2)
    by (auto simp: catalog_delete_def split: option.splits sum.splits if_splits prod.splits)
  have "objs b k = objs (nw_bucket w) k" if "k \<noteq> ns_meta_path c name" for k
    using blob_bucket.delete_frame [OF assms(1) d that] .
  then have fr: "objs b |` (- {ns_meta_path c name}) = objs (nw_bucket w) |` (- {ns_meta_path c name})"
    by (auto simp: restrict_map_def)
  have ex: "objs (nw_bucket w) (ns_meta_path c name) \<noteq> None"
    using blob_bucket.catalog_load_Inr(2) [OF assms(1) l refl] by auto
  have em: "\<forall>f \<in> child_dirs (objs (nw_bucket w)) (ns_prefix c name).
              child_dirs (objs (nw_bucket w)) (ns_prefix c name @ f @ ''/'') = {}"
    using blob_bucket.ns_is_empty_Inr [OF assms(1) e refl] by simp
  have "code = None \<Longrightarrow> objs b (ns_meta_path c name) = None"
    using blob_bucket.delete_None [OF assms(1), of "nw_bucket w" "ns_meta_path c name" b] d by simp
  with fr ex em w' show ?thesis by simp
qed

theorem delete_spares_packages_witness:
  "catalog_delete demo_catalog ''n'' (demo_ns_world [(ns_meta_path demo_catalog ''n'', ''{}'')])
     = (Inr (), demo_ns_world []\<lparr>nw_hooked := [''n'']\<rparr>)
   \<and> child_dirs (map_of [(ns_meta_path demo_catalog ''n'', ''{}'')]) (ns_prefix demo_catalog ''n'' @ ''npm'' @ ''/'') = {}"
proof -
  let ?w = "demo_ns_world [(ns_meta_path demo_catalog ''n'', ''{}'')]"
  have 1: "catalog_delete demo_catalog ''n'' ?w = (Inr (), demo_ns_world []\<lparr>nw_hooked := [''n'']\<rparr>)"
    by code_simp
  have "blob_bucket (ct_ops demo_catalog) map_of" by (simp add: demo_catalog_def mem_bucket)
  from delete_spares_packages [OF this 1]
  have "\<forall>f \<in> child_dirs (map_of [(ns_meta_path demo_catalog ''n'', ''{}'')]) (ns_prefix demo_catalog ''n'').
        child_dirs (map_of [(ns_meta_path demo_catalog ''n'', ''{}'')]) (ns_prefix demo_catalog ''n'' @ f @ ''/'') = {}"
    by (simp add: demo_ns_world_def)
  with 1 show ?thesis
    by (auto simp: child_dirs_def ns_meta_path_def ns_prefix_def)
qed

text \<open>
  Files stored at the format level do not count as package data: a namespace that holds only
  these is deleted, and they stay behind.
\<close>

lemma delete_leaves_format_files:
  "catalog_delete demo_catalog ''n''
      (demo_ns_world [(ns_meta_path demo_catalog ''n'', ''{}''),
                      (store_file_path ''n/maven'' ''archetype-catalog.xml'', ''x'')])
    = (Inr (), demo_ns_world [(store_file_path ''n/maven'' ''archetype-catalog.xml'', ''x'')]
                 \<lparr>nw_hooked := [''n'']\<rparr>)"
  by code_simp

end
