(* ===== verification/Registry.thy ===== *)
theory Registry
  imports Catalog Ttl_Cache
begin

text \<open>
  The data-plane factory and its policy cache, \<open>registry.go\<close> and \<open>authz.go\<close> of \<open>pkg/namespace\<close>:
  scoped stores, guards from compiled policies, and the cache that the catalog's change hook
  invalidates.  The shared state is the catalog's world with the policy cache as its hooked
  part.  Clock readings are arguments.
\<close>

section \<open>The policy cache\<close>

record 're policy_entry =
  pe_authorizer :: "'re compiled_policy option"
  pe_spec :: spec
  pe_not_found :: bool
  pe_expires :: int

record 're policy_cache =
  pc_entries :: "string \<rightharpoonup> 're policy_entry"
  pc_ttl :: int

definition default_policy_cache_ttl :: int where
  "default_policy_cache_ttl = 60 * 10 ^ 9"

definition new_policy_cache :: "int \<Rightarrow> 're policy_cache" where
  "new_policy_cache ttl = \<lparr>pc_entries = Map.empty, pc_ttl = ttl\<rparr>"

definition policy_fresh :: "int \<Rightarrow> string \<Rightarrow> 're policy_cache \<Rightarrow> 're policy_entry option" where
  "policy_fresh now name c =
     (case pc_entries c name of
        None \<Rightarrow> None
      | Some e \<Rightarrow> (if now < pe_expires e then Some e else None))"

definition policy_invalidate :: "string \<Rightarrow> 're policy_cache \<Rightarrow> 're policy_cache" where
  "policy_invalidate name c = c\<lparr>pc_entries := (pc_entries c)(name := None)\<rparr>"

definition policy_store :: "int \<Rightarrow> string \<Rightarrow> 're policy_entry \<Rightarrow> 're policy_cache \<Rightarrow> 're policy_cache" where
  "policy_store now name e c =
     c\<lparr>pc_entries := (pc_entries c)(name \<mapsto> e\<lparr>pe_expires := now + pc_ttl c\<rparr>)\<rparr>"

text \<open>\<open>get\<close>, for a caller that leads its flight; \<open>t1\<close>, \<open>t2\<close>, \<open>t3\<close> are its clock readings.\<close>

definition policy_get ::
  "int \<Rightarrow> int \<Rightarrow> int \<Rightarrow> string \<Rightarrow> 're policy_entry res \<Rightarrow> 're policy_cache
    \<Rightarrow> 're policy_entry res \<times> 're policy_cache" where
  "policy_get t1 t2 t3 name loaded c =
     (if pc_ttl c \<le> 0 then (loaded, c)
      else case policy_fresh t1 name c of
        Some e \<Rightarrow> (Inr e, c)
      | None \<Rightarrow>
          (case policy_fresh t2 name c of
             Some e \<Rightarrow> (Inr e, c)
           | None \<Rightarrow>
               (case loaded of
                  Inl err \<Rightarrow> (Inl err, c)
                | Inr e \<Rightarrow> (Inr (e\<lparr>pe_expires := t3 + pc_ttl c\<rparr>), policy_store t3 name e c))))"

section \<open>The registry\<close>

text \<open>\<open>rg_store\<close> carries what every scoped store shares: bucket operations, hashes, codec, metrics.\<close>

record ('b, 're) registry =
  rg_catalog :: "('b, 're policy_cache, 're) catalog"
  rg_prefix :: string
  rg_store :: "'b store"

definition allowed_formats :: "string list" where
  "allowed_formats = [format_pypi, format_npm, format_maven, format_debian, format_generic]"

definition new_registry ::
  "('b, 're policy_cache, 're) catalog \<Rightarrow> string \<Rightarrow> 'b store \<Rightarrow> ('b, 're) registry" where
  "new_registry catalog bucket_prefix s =
     \<lparr>rg_catalog = catalog\<lparr>ct_hooks := ct_hooks catalog @ [policy_invalidate]\<rparr>,
      rg_prefix = bucket_prefix, rg_store = s\<rparr>"

definition scope_of :: "string \<Rightarrow> string \<Rightarrow> string \<Rightarrow> string" where
  "scope_of pre namespace fmt =
     (let scope = namespace @ ''/'' @ fmt
      in if pre \<noteq> '''' then pre @ ''/'' @ scope else scope)"

definition registry_for :: "string \<Rightarrow> string \<Rightarrow> err option" where
  "registry_for namespace fmt =
     (case ns_validate_name namespace of
        Some e \<Rightarrow> Some e
      | None \<Rightarrow> if fmt \<in> set allowed_formats then None else Some (ErrOther ''unsupported format''))"

definition scoped_store ::
  "('b, 're) registry \<Rightarrow> string \<Rightarrow> string \<Rightarrow> (bool \<Rightarrow> err option) option \<Rightarrow> 'b store" where
  "scoped_store r namespace fmt guard =
     (rg_store r)\<lparr>st_scope := scope_of (rg_prefix r) namespace fmt, st_guard := guard\<rparr>"

definition guard_for ::
  "'re regex_lib \<Rightarrow> 're compiled_policy \<Rightarrow> auth_context option \<Rightarrow> bool \<Rightarrow> err option" where
  "guard_for L cp ac write = policy_authorize L cp ac (if write then auth_op_write else auth_op_read)"

definition registry_load :: "('b, 're) registry \<Rightarrow> 'b \<Rightarrow> string \<Rightarrow> 're policy_entry res" where
  "registry_load r b name =
     (case catalog_load (rg_catalog r) b name of
        Inl e \<Rightarrow>
          (if e = NsErrNotFound
           then Inr \<lparr>pe_authorizer = None, pe_spec = zero_spec, pe_not_found = True, pe_expires = 0\<rparr>
           else Inl e)
      | Inr ns \<Rightarrow>
          rbind (compile_policy (ne_regex (ct_env (rg_catalog r))) (sp_policy (ns_spec ns)))
            (\<lambda>cp. Inr \<lparr>pe_authorizer = Some cp, pe_spec = ns_spec ns, pe_not_found = False,
                       pe_expires = 0\<rparr>))"

text \<open>The lookup both authorized constructors start with.  A nil authorizer would be dereferenced;
  it is an error here, and no run leads to it.\<close>

definition entry_result :: "'re policy_entry \<Rightarrow> ('re compiled_policy \<times> spec) res" where
  "entry_result e =
     (if pe_not_found e then Inl NsErrNotFound
      else case pe_authorizer e of
        None \<Rightarrow> Inl (ErrOther ''nil policy'')
      | Some cp \<Rightarrow> Inr (cp, pe_spec e))"

definition registry_entry ::
  "('b, 're) registry \<Rightarrow> int \<Rightarrow> int \<Rightarrow> int \<Rightarrow> string \<Rightarrow> string \<Rightarrow> ('b, 're policy_cache) ns_world
    \<Rightarrow> ('re compiled_policy \<times> spec) res \<times> ('b, 're policy_cache) ns_world" where
  "registry_entry r t1 t2 t3 namespace fmt w =
     (case registry_for namespace fmt of
        Some e \<Rightarrow> (Inl e, w)
      | None \<Rightarrow>
          (case policy_get t1 t2 t3 namespace (registry_load r (nw_bucket w) namespace) (nw_hooked w) of
             (found, c) \<Rightarrow> (rbind found entry_result, w\<lparr>nw_hooked := c\<rparr>)))"

definition authorized_store ::
  "('b, 're) registry \<Rightarrow> int \<Rightarrow> int \<Rightarrow> int \<Rightarrow> string \<Rightarrow> string \<Rightarrow> auth_context option
    \<Rightarrow> ('b, 're policy_cache) ns_world \<Rightarrow> ('b store \<times> spec) res \<times> ('b, 're policy_cache) ns_world" where
  "authorized_store r t1 t2 t3 namespace fmt ac w =
     (case registry_entry r t1 t2 t3 namespace fmt w of
        (Inl e, w) \<Rightarrow> (Inl e, w)
      | (Inr (cp, spec), w) \<Rightarrow>
          (Inr (scoped_store r namespace fmt
                  (Some (guard_for (ne_regex (ct_env (rg_catalog r))) cp ac)), spec), w))"

definition authorized_proxy_store ::
  "('b, 're) registry \<Rightarrow> int \<Rightarrow> int \<Rightarrow> int \<Rightarrow> string \<Rightarrow> string \<Rightarrow> auth_context option
    \<Rightarrow> ('b, 're policy_cache) ns_world \<Rightarrow> ('b store \<times> spec) res \<times> ('b, 're policy_cache) ns_world" where
  "authorized_proxy_store r t1 t2 t3 namespace fmt ac w =
     (case registry_entry r t1 t2 t3 namespace fmt w of
        (Inl e, w) \<Rightarrow> (Inl e, w)
      | (Inr (cp, spec), w) \<Rightarrow>
          (case policy_authorize (ne_regex (ct_env (rg_catalog r))) cp ac auth_op_read of
             Some e \<Rightarrow> (Inl e, w)
           | None \<Rightarrow> (Inr (scoped_store r namespace fmt None, spec), w)))"

definition scoped_spec :: "('b, 're) registry \<Rightarrow> 'b \<Rightarrow> string \<Rightarrow> spec res" where
  "scoped_spec r b namespace = rbind (catalog_load (rg_catalog r) b namespace) (\<lambda>ns. Inr (ns_spec ns))"

section \<open>The cache meets the contract of a TTL cache\<close>

text \<open>What a lookup shows of an entry: its authorizer, its spec and the mark of a missing namespace,
  without the expiry stamp.\<close>

type_synonym 're policy_answer = "'re compiled_policy option \<times> spec \<times> bool"

definition answer_of :: "'re policy_entry \<Rightarrow> 're policy_answer" where
  "answer_of e = (pe_authorizer e, pe_spec e, pe_not_found e)"

definition policy_put :: "int \<Rightarrow> string \<Rightarrow> 're policy_answer \<Rightarrow> 're policy_cache \<Rightarrow> 're policy_cache" where
  "policy_put now name v c =
     (case v of (a, sp, nf) \<Rightarrow>
        policy_store now name \<lparr>pe_authorizer = a, pe_spec = sp, pe_not_found = nf, pe_expires = 0\<rparr> c)"

definition policy_live :: "'re policy_cache \<Rightarrow> int \<Rightarrow> string \<Rightarrow> 're policy_answer option" where
  "policy_live c now name = map_option answer_of (policy_fresh now name c)"

lemmas policy_ops = policy_put_def policy_live_def policy_store_def policy_fresh_def
  policy_invalidate_def answer_of_def

end
