(* ===== verification/Registry_Laws.thy ===== *)
theory Registry_Laws
  imports Registry Config
begin

text \<open>
  What the data plane's factory promises: the policy cache meets the contract of a TTL cache,
  scopes of different tenants are disjoint, what a lookup returns was declared recently, and
  the guard it installs decides as the policy of that spec.
\<close>

section \<open>The policy cache is a TTL cache\<close>

lemma policy_cache_contract:
  "ttl_cache (new_policy_cache ttl) policy_put policy_invalidate (\<lambda>t n c. c) policy_live
     (\<lambda>t t0. t < t0 + ttl) (\<lambda>c. pc_ttl c = ttl)"
  by unfold_locales
    (auto simp: policy_ops new_policy_cache_def split: option.splits if_splits)

interpretation pol: ttl_cache "new_policy_cache ttl" policy_put policy_invalidate "\<lambda>t n c. c"
  policy_live "\<lambda>t t0. t < t0 + ttl" "\<lambda>c. pc_ttl c = ttl"
  for ttl
  by (rule policy_cache_contract)

section \<open>Scopes\<close>

lemma trim_byte_id: "s \<noteq> '''' \<Longrightarrow> hd s \<noteq> c \<Longrightarrow> last s \<noteq> c \<Longrightarrow> trim_byte c s = s"
proof -
  assume a: "s \<noteq> ''''" "hd s \<noteq> c" "last s \<noteq> c"
  then have 1: "dropWhile (\<lambda>x. x = c) s = s" by (cases s) auto
  have "dropWhile (\<lambda>x. x = c) (rev s) = rev s"
    using a by (cases s rule: rev_cases) auto
  with 1 show ?thesis by (simp add: trim_byte_def)
qed

lemma allowed_format_chars:
  "fmt \<in> set allowed_formats \<Longrightarrow> fmt \<noteq> '''' \<and> CHR ''/'' \<notin> set fmt \<and> hd fmt \<noteq> CHR ''.''"
  by (auto simp: allowed_formats_def format_defs)

text \<open>The object keys of a tenant start with the catalog's prefix, its namespace and its format.\<close>

lemma scope_prefix_scope_of:
  assumes "registry_for ns fmt = None" "validate_bucket_prefix pre"
  shows "scope_prefix (scope_of pre ns fmt) = root_prefix pre @ ns @ ''/'' @ fmt @ ''/''"
proof -
  have ns: "ns \<noteq> ''''" "CHR ''/'' \<notin> set ns" and fmt: "fmt \<noteq> ''''" "CHR ''/'' \<notin> set fmt"
    using assms(1) valid_ns_chars [of ns] allowed_format_chars [of fmt]
    by (auto simp: registry_for_def split: option.splits if_splits)
  have l: "last fmt \<noteq> CHR ''/''" "hd ns \<noteq> CHR ''/''"
    using ns fmt last_in_set [of fmt] hd_in_set [of ns] by metis+
  show ?thesis
  proof (cases "pre = ''''")
    case True
    have "trim_byte CHR ''/'' (ns @ ''/'' @ fmt) = ns @ ''/'' @ fmt"
      by (rule trim_byte_id) (use ns fmt l in auto)
    with True ns show ?thesis
      by (simp add: scope_prefix_def scope_of_def root_prefix_def Let_def trim_byte_def)
  next
    case False
    note p = validated_prefix_ends [OF assms(2) False]
    have "trim_byte CHR ''/'' (pre @ ''/'' @ ns @ ''/'' @ fmt) = pre @ ''/'' @ ns @ ''/'' @ fmt"
      by (rule trim_byte_id) (use False p fmt l in auto)
    moreover have "trim_byte CHR ''/'' pre = pre"
      by (rule trim_byte_id) (use False p in auto)
    ultimately show ?thesis
      using False by (simp add: scope_prefix_def scope_of_def root_prefix_def Let_def)
  qed
qed

lemma append_sep_unique:
  "a @ c # r = b @ c # s \<Longrightarrow> c \<notin> set a \<Longrightarrow> c \<notin> set b \<Longrightarrow> a = b \<and> r = s"
proof (induction a arbitrary: b)
  case Nil
  then show ?case by (cases b) auto
next
  case (Cons x a)
  then show ?case by (cases b) auto
qed

lemma scope_disjoint:
  assumes "registry_for ns fmt = None" "registry_for ns' fmt' = None" "validate_bucket_prefix pre"
    and "scope_prefix (scope_of pre ns fmt) @ x = scope_prefix (scope_of pre ns' fmt') @ y"
  shows "ns = ns' \<and> fmt = fmt'"
proof -
  have ns: "CHR ''/'' \<notin> set ns" "CHR ''/'' \<notin> set ns'" "CHR ''/'' \<notin> set fmt" "CHR ''/'' \<notin> set fmt'"
    using assms(1,2) valid_ns_chars(1) allowed_format_chars
    by (auto simp: registry_for_def split: option.splits if_splits)
  have "ns @ CHR ''/'' # fmt @ CHR ''/'' # x = ns' @ CHR ''/'' # fmt' @ CHR ''/'' # y"
    using assms by (simp add: scope_prefix_scope_of)
  from append_sep_unique [OF this ns(1,2)] have "ns = ns'" "fmt @ CHR ''/'' # x = fmt' @ CHR ''/'' # y"
    by auto
  with append_sep_unique [OF this(2) ns(3,4)] show ?thesis by simp
qed

lemma scope_not_catalog:
  assumes "registry_for ns fmt = None" "validate_bucket_prefix pre" "ct_root c = root_prefix pre"
    and "ns_validate_name n = None"
  shows "scope_prefix (scope_of pre ns fmt) @ x \<noteq> ns_meta_path c n"
proof
  assume eq: "scope_prefix (scope_of pre ns fmt) @ x = ns_meta_path c n"
  have s: "CHR ''/'' \<notin> set ns" "CHR ''/'' \<notin> set n" "fmt \<noteq> ''''" "hd fmt \<noteq> CHR ''.''"
    using assms(1,4) valid_ns_chars(1) allowed_format_chars
    by (auto simp: registry_for_def split: option.splits if_splits)
  have "ns @ CHR ''/'' # fmt @ ''/'' @ x = n @ CHR ''/'' # ''.meta''"
    using eq assms(1-3) by (simp add: scope_prefix_scope_of ns_meta_path_def ns_prefix_def)
  with append_sep_unique [OF this s(1,2)] s(3,4) show False by (cases fmt) auto
qed

section \<open>Runs\<close>

text \<open>
  What happens to a process that holds a registry: namespaces changed through its own catalog,
  lookups, and any change of the bucket by others.  A run is a list of events, the newest first.
\<close>

datatype 'b reg_event =
    RPut namespace | RDelete string | RLookup int int int string string | ROther 'b

fun reg_step ::
  "('b, 're) registry \<Rightarrow> 'b reg_event \<Rightarrow> ('b, 're policy_cache) ns_world
    \<Rightarrow> ('b, 're policy_cache) ns_world" where
  "reg_step r (RPut ns) w = snd (catalog_put (rg_catalog r) (Some ns) w)"
| "reg_step r (RDelete name) w = snd (catalog_delete (rg_catalog r) name w)"
| "reg_step r (RLookup t1 t2 t3 ns fmt) w = snd (registry_entry r t1 t2 t3 ns fmt w)"
| "reg_step r (ROther b) w = w\<lparr>nw_bucket := b\<rparr>"

fun reg_run ::
  "('b, 're) registry \<Rightarrow> int \<Rightarrow> 'b \<Rightarrow> 'b reg_event list \<Rightarrow> ('b, 're policy_cache) ns_world" where
  "reg_run r ttl b [] = \<lparr>nw_bucket = b, nw_hooked = new_policy_cache ttl\<rparr>"
| "reg_run r ttl b (ev # es) = reg_step r ev (reg_run r ttl b es)"

text \<open>The namespace that an event changes successfully through the process's own catalog.\<close>

fun reg_changed ::
  "('b, 're) registry \<Rightarrow> 'b reg_event \<Rightarrow> ('b, 're policy_cache) ns_world \<Rightarrow> string option" where
  "reg_changed r (RPut ns) w =
     (if isl (fst (catalog_put (rg_catalog r) (Some ns) w)) then None else Some (ns_name ns))"
| "reg_changed r (RDelete name) w =
     (if isl (fst (catalog_delete (rg_catalog r) name w)) then None else Some name)"
| "reg_changed r (RLookup t1 t2 t3 ns fmt) w = None"
| "reg_changed r (ROther b) w = None"

fun unchanged_since ::
  "('b, 're) registry \<Rightarrow> int \<Rightarrow> 'b \<Rightarrow> string \<Rightarrow> 'b reg_event list \<Rightarrow> 'b reg_event list \<Rightarrow> bool" where
  "unchanged_since r ttl b name older [] = True"
| "unchanged_since r ttl b name older (ev # newer) =
     (reg_changed r ev (reg_run r ttl b (newer @ older)) \<noteq> Some name
      \<and> unchanged_since r ttl b name older newer)"

text \<open>The effect of an event on the cache, as events of the cache's contract.\<close>

fun cache_effect ::
  "('b, 're) registry \<Rightarrow> 'b reg_event \<Rightarrow> ('b, 're policy_cache) ns_world
    \<Rightarrow> (string, 're policy_answer) cache_event list" where
  "cache_effect r (RLookup t1 t2 t3 ns fmt) w =
     (if registry_for ns fmt \<noteq> None \<or> pc_ttl (nw_hooked w) \<le> 0
         \<or> policy_fresh t1 ns (nw_hooked w) \<noteq> None \<or> policy_fresh t2 ns (nw_hooked w) \<noteq> None then []
      else case registry_load r (nw_bucket w) ns of
        Inl _ \<Rightarrow> []
      | Inr e \<Rightarrow> [CPut t3 ns (answer_of e)])"
| "cache_effect r ev w = (case reg_changed r ev w of None \<Rightarrow> [] | Some name \<Rightarrow> [CDel name])"

fun cache_trace ::
  "('b, 're) registry \<Rightarrow> int \<Rightarrow> 'b \<Rightarrow> 'b reg_event list \<Rightarrow> (string, 're policy_answer) cache_event list" where
  "cache_trace r ttl b [] = []"
| "cache_trace r ttl b (ev # es) = cache_effect r ev (reg_run r ttl b es) @ cache_trace r ttl b es"

lemma run_cache_append:
  "run_cache put del touch s (es @ fs) = run_cache put del touch (run_cache put del touch s fs) es"
  by (induction put del touch s es rule: run_cache.induct) simp_all

lemma policy_store_put: "policy_store t name e c = policy_put t name (answer_of e) c"
  by (cases e) (simp add: policy_ops)

lemma hooked_put:
  assumes "ct_hooks c = [policy_invalidate]"
  shows "nw_hooked (snd (catalog_put c (Some ns) w))
    = (if isl (fst (catalog_put c (Some ns) w)) then nw_hooked w
       else policy_invalidate (ns_name ns) (nw_hooked w))"
  by (auto simp: catalog_put_def notify_def assms split: option.splits sum.splits prod.splits)

lemma hooked_delete:
  assumes "ct_hooks c = [policy_invalidate]"
  shows "nw_hooked (snd (catalog_delete c name w))
    = (if isl (fst (catalog_delete c name w)) then nw_hooked w
       else policy_invalidate name (nw_hooked w))"
  by (auto simp: catalog_delete_def notify_def assms split: option.splits sum.splits prod.splits)

lemma hooked_lookup:
  "nw_hooked (snd (registry_entry r t1 t2 t3 ns fmt w))
    = run_cache policy_put policy_invalidate (\<lambda>t n c. c) (nw_hooked w)
        (cache_effect r (RLookup t1 t2 t3 ns fmt) w)"
  by (auto simp: registry_entry_def policy_get_def policy_store_put split: option.splits sum.splits)

lemma reg_step_hooked:
  assumes "ct_hooks (rg_catalog r) = [policy_invalidate]"
  shows "nw_hooked (reg_step r ev w)
    = run_cache policy_put policy_invalidate (\<lambda>t n c. c) (nw_hooked w) (cache_effect r ev w)"
  by (cases ev) (simp_all add: hooked_put hooked_delete hooked_lookup assms del: cache_effect.simps(1))

text \<open>The cache of a run is the cache of its trace.\<close>

lemma reg_run_hooked:
  assumes "ct_hooks (rg_catalog r) = [policy_invalidate]"
  shows "nw_hooked (reg_run r ttl b es)
    = run_cache policy_put policy_invalidate (\<lambda>t n c. c) (new_policy_cache ttl) (cache_trace r ttl b es)"
  by (induction es) (simp_all add: reg_step_hooked [OF assms] run_cache_append)

text \<open>Where the last entry of a trace comes from.\<close>

lemma last_put_trace:
  assumes "last_put name (cache_trace r ttl b es) = Some (t0, v)"
  shows "\<exists>newer older u1 u2 f e. es = newer @ RLookup u1 u2 t0 name f # older
    \<and> unchanged_since r ttl b name (RLookup u1 u2 t0 name f # older) newer
    \<and> registry_load r (nw_bucket (reg_run r ttl b older)) name = Inr e \<and> v = answer_of e"
  using assms
proof (induction es)
  case Nil
  then show ?case by simp
next
  case (Cons ev es)
  let ?w = "reg_run r ttl b es"
  show ?case
  proof (cases "last_put name (cache_effect r ev ?w)")
    case (Some x)
    then obtain t1 t2 f e where "ev = RLookup t1 t2 t0 name f" "registry_load r (nw_bucket ?w) name = Inr e"
      "v = answer_of e"
      using Cons.prems by (cases ev) (auto split: if_splits sum.splits)
    then show ?thesis by (intro exI [of _ "[]"] exI [of _ es]) auto
  next
    case None
    then have "last_put name (cache_trace r ttl b es) = Some (t0, v)" and ch: "reg_changed r ev ?w \<noteq> Some name"
      using Cons.prems by (cases ev; auto split: if_splits sum.splits)+
    from Cons.IH [OF this(1)] obtain newer older u1 u2 f e where
      *: "es = newer @ RLookup u1 u2 t0 name f # older"
      "unchanged_since r ttl b name (RLookup u1 u2 t0 name f # older) newer"
      "registry_load r (nw_bucket (reg_run r ttl b older)) name = Inr e" "v = answer_of e" by blast
    show ?thesis
      by (rule exI [of _ "ev # newer"], rule exI [of _ older]) (use * ch in auto)
  qed
qed

text \<open>
  The answers a lookup may give: those of a load of the current bucket, or of the bucket as it
  was at an earlier lookup of the name, less than the lifetime ago, since which this process has
  not changed the namespace.
\<close>

definition recent_bucket ::
  "('b, 're) registry \<Rightarrow> int \<Rightarrow> 'b \<Rightarrow> 'b reg_event list \<Rightarrow> int \<Rightarrow> string \<Rightarrow> 'b \<Rightarrow> bool" where
  "recent_bucket r ttl b es now name b' \<longleftrightarrow>
     b' = nw_bucket (reg_run r ttl b es)
     \<or> (\<exists>newer older u1 u2 t0 f. es = newer @ RLookup u1 u2 t0 name f # older
          \<and> now < t0 + ttl \<and> b' = nw_bucket (reg_run r ttl b older)
          \<and> unchanged_since r ttl b name (RLookup u1 u2 t0 name f # older) newer)"

lemma entry_result_answer: "answer_of e = answer_of e' \<Longrightarrow> entry_result e = entry_result e'"
  by (simp add: answer_of_def entry_result_def split: option.split)

lemma fresh_recent:
  assumes "ct_hooks (rg_catalog r) = [policy_invalidate]" "now \<le> t"
    and "policy_fresh t name (nw_hooked (reg_run r ttl b es)) = Some e"
  shows "\<exists>b' e'. recent_bucket r ttl b es now name b' \<and> registry_load r b' name = Inr e'
    \<and> answer_of e = answer_of e'"
proof -
  have "policy_live (run_cache policy_put policy_invalidate (\<lambda>t n c. c) (new_policy_cache ttl)
      (cache_trace r ttl b es)) t name = Some (answer_of e)"
    using assms(3) by (simp add: policy_live_def reg_run_hooked [OF assms(1)])
  from pol.live_from_last_put [OF this] obtain t0 where
    "last_put name (cache_trace r ttl b es) = Some (t0, answer_of e)" "t < t0 + ttl" by blast
  from last_put_trace [OF this(1)] obtain newer older u1 u2 f e' where
    *: "es = newer @ RLookup u1 u2 t0 name f # older"
    "unchanged_since r ttl b name (RLookup u1 u2 t0 name f # older) newer"
    "registry_load r (nw_bucket (reg_run r ttl b older)) name = Inr e'" "answer_of e = answer_of e'" by blast
  have "now < t0 + ttl" using \<open>t < t0 + ttl\<close> assms(2) by simp
  with * have "recent_bucket r ttl b es now name (nw_bucket (reg_run r ttl b older))"
    unfolding recent_bucket_def by blast
  with * show ?thesis by blast
qed

lemma registry_entry_recent:
  assumes "ct_hooks (rg_catalog r) = [policy_invalidate]" "registry_for ns fmt = None" "t1 \<le> t2"
  shows "\<exists>b'. recent_bucket r ttl b es t1 ns b'
    \<and> fst (registry_entry r t1 t2 t3 ns fmt (reg_run r ttl b es))
        = rbind (registry_load r b' ns) entry_result"
proof (cases "\<exists>t e. t1 \<le> t \<and> policy_fresh t ns (nw_hooked (reg_run r ttl b es)) = Some e
    \<and> fst (registry_entry r t1 t2 t3 ns fmt (reg_run r ttl b es)) = entry_result e")
  case True
  then obtain t e where e: "t1 \<le> t" "policy_fresh t ns (nw_hooked (reg_run r ttl b es)) = Some e"
    "fst (registry_entry r t1 t2 t3 ns fmt (reg_run r ttl b es)) = entry_result e" by blast
  from fresh_recent [OF assms(1) e(1,2)] e(3) show ?thesis
    by (auto dest!: entry_result_answer)
next
  case False
  let ?w = "reg_run r ttl b es"
  have "policy_fresh t1 ns (nw_hooked ?w) = None" "policy_fresh t2 ns (nw_hooked ?w) = None"
    if "0 < pc_ttl (nw_hooked ?w)"
    using False that assms(2,3) by (auto simp: registry_entry_def policy_get_def split: option.splits)
  then have "fst (registry_entry r t1 t2 t3 ns fmt ?w) = rbind (registry_load r (nw_bucket ?w) ns) entry_result"
    using assms(2)
    by (auto simp: registry_entry_def policy_get_def entry_result_def split: sum.split option.split)
  then show ?thesis unfolding recent_bucket_def by blast
qed

section \<open>Properties\<close>

lemma registry_load_Inr:
  assumes "rbind (registry_load r b ns) entry_result = Inr (cp, sp)"
  shows "\<exists>n. catalog_load (rg_catalog r) b ns = Inr n \<and> ns_spec n = sp
    \<and> compile_policy (ne_regex (ct_env (rg_catalog r))) (sp_policy sp) = Inr cp"
  using assms
  by (auto simp: registry_load_def entry_result_def rbind_eq_Inr_conv split: sum.splits if_splits option.splits)

text \<open>The subject fits some matcher of the list.\<close>

definition permitted :: "'re regex_lib \<Rightarrow> auth_context option \<Rightarrow> subject_matcher list \<Rightarrow> bool" where
  "permitted L ac ms \<longleftrightarrow> (\<exists>a. ac = Some a \<and> (\<exists>m \<in> set ms. subject_fits L m a))"

lemma policy_authorize_permitted:
  assumes "compile_policy L p = Inr cp"
  shows "policy_authorize L cp ac auth_op_read = None \<longleftrightarrow> permitted L ac (po_readers p)"
    and "policy_authorize L cp ac auth_op_write = None \<longleftrightarrow> permitted L ac (po_writers p)"
  using assms
  by (cases ac; auto simp: compile_policy_def rbind_eq_Inr_conv policy_authorize_def permitted_def
      auth_op_read_def auth_op_write_def compile_matchers_ex)+

lemma registry_entry_Inr:
  assumes "ct_hooks (rg_catalog r) = [policy_invalidate]" "t1 \<le> t2"
    and "registry_entry r t1 t2 t3 ns fmt (reg_run r ttl b es) = (Inr (cp, sp), w')"
  shows "\<exists>b' n. recent_bucket r ttl b es t1 ns b' \<and> catalog_load (rg_catalog r) b' ns = Inr n
    \<and> ns_spec n = sp \<and> compile_policy (ne_regex (ct_env (rg_catalog r))) (sp_policy sp) = Inr cp"
proof -
  have "registry_for ns fmt = None"
    using assms(3) by (auto simp: registry_entry_def split: option.splits)
  from registry_entry_recent [OF assms(1) this assms(2)] assms(3) obtain b' where
    "recent_bucket r ttl b es t1 ns b'" "rbind (registry_load r b' ns) entry_result = Inr (cp, sp)"
    by (metis fst_conv)
  with registry_load_Inr [OF this(2)] show ?thesis by blast
qed

lemma authorized_store_recent:
  assumes "ct_hooks (rg_catalog r) = [policy_invalidate]" "t1 \<le> t2"
    and "authorized_store r t1 t2 t3 ns fmt ac (reg_run r ttl b es) = (Inr (st, sp), w')"
  shows "(\<exists>b' n. recent_bucket r ttl b es t1 ns b' \<and> catalog_load (rg_catalog r) b' ns = Inr n
      \<and> ns_spec n = sp)
    \<and> st_scope st = scope_of (rg_prefix r) ns fmt
    \<and> (\<exists>g. st_guard st = Some g
        \<and> (g False = None \<longleftrightarrow> permitted (ne_regex (ct_env (rg_catalog r))) ac (po_readers (sp_policy sp)))
        \<and> (g True = None \<longleftrightarrow> permitted (ne_regex (ct_env (rg_catalog r))) ac (po_writers (sp_policy sp))))"
proof -
  let ?L = "ne_regex (ct_env (rg_catalog r))"
  obtain cp where e: "registry_entry r t1 t2 t3 ns fmt (reg_run r ttl b es) = (Inr (cp, sp), w')"
    and st: "st = scoped_store r ns fmt (Some (guard_for ?L cp ac))"
    using assms(3) by (auto simp: authorized_store_def split: prod.splits sum.splits)
  from registry_entry_Inr [OF assms(1,2) e] obtain b' n where
    *: "recent_bucket r ttl b es t1 ns b'" "catalog_load (rg_catalog r) b' ns = Inr n" "ns_spec n = sp"
    "compile_policy ?L (sp_policy sp) = Inr cp" by blast
  have "guard_for ?L cp ac False = None \<longleftrightarrow> permitted ?L ac (po_readers (sp_policy sp))"
    "guard_for ?L cp ac True = None \<longleftrightarrow> permitted ?L ac (po_writers (sp_policy sp))"
    using policy_authorize_permitted [OF *(4)] by (simp_all add: guard_for_def)
  with * st show ?thesis by (auto simp: scoped_store_def)
qed


text \<open>A registry over an in-memory bucket that holds one namespace, whose reader is \<open>bob\<close>.\<close>

definition demo_registry :: "(mem_bucket, string) registry" where
  "demo_registry =
     new_registry
       \<lparr>ct_ops = mem_ops, ct_root = root_prefix '''', ct_hooks = [], ct_env = demo_env,
        ct_encode = (\<lambda>_. Inr ''{}''),
        ct_decode = (\<lambda>d. Inr (demo_spec '''' \<lparr>sp_schema_version := 1\<rparr>))\<rparr>
       '''' (demo_store None)"

definition demo_bucket :: mem_bucket where
  "demo_bucket = [(ns_meta_path (rg_catalog demo_registry) ''n'', ''{}'')]"

text \<open>A lookup, then the removal of the namespace by another process.\<close>

definition demo_events :: "mem_bucket reg_event list" where
  "demo_events = [ROther [], RLookup 0 0 0 ''n'' ''npm'']"

lemma demo_registry_hooks: "ct_hooks (rg_catalog demo_registry) = [policy_invalidate]"
  by (simp add: demo_registry_def new_registry_def)

lemma demo_authorized:
  "\<exists>st sp w'. authorized_store demo_registry 5 5 5 ''n'' ''npm'' (Some demo_subject)
        (reg_run demo_registry 10 demo_bucket demo_events) = (Inr (st, sp), w')
     \<and> sp_policy sp = demo_policy"
proof -
  let ?x = "authorized_store demo_registry 5 5 5 ''n'' ''npm'' (Some demo_subject)
        (reg_run demo_registry 10 demo_bucket demo_events)"
  have "(case fst ?x of Inl _ \<Rightarrow> False | Inr y \<Rightarrow> sp_policy (snd y) = demo_policy)" by code_simp
  then obtain y where "fst ?x = Inr y" "sp_policy (snd y) = demo_policy" by (auto split: sum.splits)
  then show ?thesis by (cases y, cases ?x) auto
qed


lemma authorized_proxy_recent:
  assumes "ct_hooks (rg_catalog r) = [policy_invalidate]" "t1 \<le> t2"
    and "authorized_proxy_store r t1 t2 t3 ns fmt ac (reg_run r ttl b es) = (Inr (st, sp), w')"
  shows "(\<exists>b' n. recent_bucket r ttl b es t1 ns b' \<and> catalog_load (rg_catalog r) b' ns = Inr n
      \<and> ns_spec n = sp)
    \<and> st_scope st = scope_of (rg_prefix r) ns fmt \<and> st_guard st = None
    \<and> permitted (ne_regex (ct_env (rg_catalog r))) ac (po_readers (sp_policy sp))"
proof -
  let ?L = "ne_regex (ct_env (rg_catalog r))"
  obtain cp where e: "registry_entry r t1 t2 t3 ns fmt (reg_run r ttl b es) = (Inr (cp, sp), w')"
    and st: "st = scoped_store r ns fmt None" "policy_authorize ?L cp ac auth_op_read = None"
    using assms(3) by (auto simp: authorized_proxy_store_def split: prod.splits sum.splits option.splits)
  from registry_entry_Inr [OF assms(1,2) e] obtain b' n where
    *: "recent_bucket r ttl b es t1 ns b'" "catalog_load (rg_catalog r) b' ns = Inr n" "ns_spec n = sp"
    "compile_policy ?L (sp_policy sp) = Inr cp" by blast
  with policy_authorize_permitted(1) [OF *(4)] st show ?thesis by (auto simp: scoped_store_def)
qed

text \<open>C18: pulling through a proxy takes a reader: the unguarded store of \<open>AuthorizedProxyStore\<close> is
  handed out only to subjects that fit a reader of the returned spec, itself in force recently.\<close>

theorem proxy_store_needs_reader:
  assumes "ct_hooks (rg_catalog r) = [policy_invalidate]" "t1 \<le> t2"
    and "authorized_proxy_store r t1 t2 t3 ns fmt ac (reg_run r ttl b es) = (Inr (st, sp), w')"
  shows "(\<exists>b' n. recent_bucket r ttl b es t1 ns b' \<and> catalog_load (rg_catalog r) b' ns = Inr n
      \<and> ns_spec n = sp)
    \<and> st_scope st = scope_of (rg_prefix r) ns fmt \<and> st_guard st = None
    \<and> permitted (ne_regex (ct_env (rg_catalog r))) ac (po_readers (sp_policy sp))"
  by (rule authorized_proxy_recent [OF assms])

theorem proxy_store_needs_reader_witness:
  "\<exists>st sp w'. authorized_proxy_store demo_registry 5 5 5 ''n'' ''npm'' (Some demo_subject)
        (reg_run demo_registry 10 demo_bucket demo_events) = (Inr (st, sp), w') \<and> st_guard st = None"
proof -
  let ?x = "authorized_proxy_store demo_registry 5 5 5 ''n'' ''npm'' (Some demo_subject)
        (reg_run demo_registry 10 demo_bucket demo_events)"
  have "\<not> isl (fst ?x)" by code_simp
  then obtain st sp w' where x: "?x = (Inr (st, sp), w')"
    by (cases ?x, cases "fst ?x") auto
  from proxy_store_needs_reader [OF demo_registry_hooks _ x] x show ?thesis by auto
qed

text \<open>C16: tenants are isolated: whatever a method of one tenant's store does, succeeding or failing,
  every record of every other namespace and of every other format of the same namespace stays
  as it was, and so does the catalog.\<close>

theorem tenant_isolation:
  assumes "blob_bucket (st_ops (rg_store r)) objs" "validate_bucket_prefix (rg_prefix r)"
    and "ct_root (rg_catalog r) = root_prefix (rg_prefix r)"
    and "registry_for ns fmt = None" "registry_for ns' fmt' = None" "(ns, fmt) \<noteq> (ns', fmt')"
    and "run_op (scoped_store r ns fmt g) op w = (res, w')"
  shows "abs_store objs (scoped_store r ns' fmt' g') w' = abs_store objs (scoped_store r ns' fmt' g') w
    \<and> (\<forall>n. ns_validate_name n = None
         \<longrightarrow> objs (w_bucket w') (ns_meta_path (rg_catalog r) n) = objs (w_bucket w) (ns_meta_path (rg_catalog r) n))"
proof -
  let ?s = "scoped_store r ns fmt g" and ?s' = "scoped_store r ns' fmt' g'"
  have sc: "st_scope ?s = scope_of (rg_prefix r) ns fmt" "st_scope ?s' = scope_of (rg_prefix r) ns' fmt'"
    and ops: "st_ops ?s = st_ops (rg_store r)"
    by (simp_all add: scoped_store_def)
  have fr: "objs (w_bucket w') k = objs (w_bucket w) k"
    if "\<And>x. k \<noteq> scope_prefix (scope_of (rg_prefix r) ns fmt) @ x" for k
  proof (rule touchesD [OF blob_bucket.touches_run_op [OF assms(1) ops] assms(7)])
    show "k \<notin> object_path (st_scope ?s) ` set (op_objects op)"
      using that by (auto simp: sc object_path_segments)
  qed
  have "objs (w_bucket w') (object_path (scope_of (rg_prefix r) ns' fmt') ob)
      = objs (w_bucket w) (object_path (scope_of (rg_prefix r) ns' fmt') ob)" for ob
  proof (rule fr)
    show "object_path (scope_of (rg_prefix r) ns' fmt') ob
        \<noteq> scope_prefix (scope_of (rg_prefix r) ns fmt) @ x" for x
      unfolding object_path_segments
      using scope_disjoint [OF assms(5,4,2)] assms(6) by blast
  qed
  then have "abs_store objs ?s' w' = abs_store objs ?s' w"
    by (auto simp: abs_store_def sc fun_eq_iff)
  moreover have "objs (w_bucket w') (ns_meta_path (rg_catalog r) n) = objs (w_bucket w) (ns_meta_path (rg_catalog r) n)"
    if "ns_validate_name n = None" for n
    by (rule fr) (use scope_not_catalog [OF assms(4,2,3) that] in metis)
  ultimately show ?thesis by blast
qed

theorem tenant_isolation_witness:
  "abs_store map_of (scoped_store demo_registry ''n'' ''pypi'' None)
     (after (run_op (scoped_store demo_registry ''n'' ''npm'' None) (OpSetTag ''a'' ''t'' ''1''))
        (demo_world [(object_path ''n/pypi'' (PackageTag ''a'' ''t''), ''2'')])) (PackageTag ''a'' ''t'')
    = Some ''2''"
proof -
  let ?w = "demo_world [(object_path ''n/pypi'' (PackageTag ''a'' ''t''), ''2'')]"
  let ?s = "scoped_store demo_registry ''n'' ''npm'' None"
  have "blob_bucket (st_ops (rg_store demo_registry)) map_of"
    by (simp add: demo_registry_def new_registry_def mem_bucket)
  moreover have "validate_bucket_prefix (rg_prefix demo_registry)"
    "ct_root (rg_catalog demo_registry) = root_prefix (rg_prefix demo_registry)"
    by (simp_all add: demo_registry_def new_registry_def validate_bucket_prefix_def)
  moreover have "registry_for ''n'' ''npm'' = None" "registry_for ''n'' ''pypi'' = None" by code_simp+
  ultimately have "abs_store map_of (scoped_store demo_registry ''n'' ''pypi'' None)
      (after (run_op ?s (OpSetTag ''a'' ''t'' ''1'')) ?w)
    = abs_store map_of (scoped_store demo_registry ''n'' ''pypi'' None) ?w"
    using tenant_isolation [where r = demo_registry and objs = map_of and ns = "''n''" and fmt = "''npm''"
      and ns' = "''n''" and fmt' = "''pypi''" and g = None and g' = None, OF _ _ _ _ _ _ prod.collapse [symmetric]]
    by (simp del: run_op.simps)
  then show ?thesis
    by (simp add: abs_store_def scoped_store_def scope_of_def demo_registry_def new_registry_def
        valid_object_def valid_name_iff)
qed

text \<open>
  A load that was in flight when the namespace changed is stored after the invalidation, and
  serves the policy from before the change for a whole lifetime.
\<close>

lemma inflight_load_outlives_invalidation:
  assumes "0 < pc_ttl c" "t < t3 + pc_ttl c" "policy_get t1 t2 t3 name (Inr e) (policy_invalidate name c) = (r, c')"
  shows "\<exists>e'. policy_fresh t name c' = Some e' \<and> answer_of e' = answer_of e"
  using assms by (auto simp: policy_get_def policy_ops)

end
