(* ===== verification/Data_Plane.thy ===== *)
theory Data_Plane
  imports Surface Mux Credential Registry_Laws
begin

text \<open>
  What the handlers of the formats share: opening the store of a namespace, running on it, and
  the frame rules by which a property of the store's methods becomes one of a handler.  Every
  request opens a store of its own, whose caches start empty.
\<close>

text \<open>
  The state of a format's handler is the registry's world and whatever the format keeps itself;
  a handler over a store runs on the store's world and the same rest.
\<close>

type_synonym ('b, 're, 'x) sv_hnd = "(('b, 're policy_cache) ns_world \<times> 'x) handler"

definition on_store :: "'b hnd \<Rightarrow> ('b world \<times> 'x) handler" where
  "on_store h rw s = (case h rw (fst s) of (rw', w') \<Rightarrow> (rw', w', snd s))"

definition sv_store :: "'b store \<Rightarrow> ('b world \<times> 'x) handler \<Rightarrow> ('b, 're, 'x) sv_hnd" where
  "sv_store st h rw s =
     (case h rw (new_with_bucket st (nw_bucket (fst s)), snd s) of
        (rw', w', x') \<Rightarrow> (rw', (fst s)\<lparr>nw_bucket := w_bucket w'\<rparr>, x'))"

definition open_store ::
  "('b, 're) registry \<Rightarrow> request \<Rightarrow> string \<Rightarrow> string \<Rightarrow> ns_error_context
    \<Rightarrow> ('b store \<Rightarrow> spec \<Rightarrow> ('b, 're, 'x) sv_hnd) \<Rightarrow> ('b, 're, 'x) sv_hnd" where
  "open_store r rq ns fmt ctx k rw s =
     (case authorized_store r (rq_now rq) (rq_now rq) (rq_now rq) ns fmt (rq_auth rq) (fst s) of
        (Inl e, sv1) \<Rightarrow> (write_namespace_error e ctx rw, sv1, snd s)
      | (Inr (st, spec), sv1) \<Rightarrow> k st spec rw (sv1, snd s))"

definition open_proxy_store ::
  "('b, 're) registry \<Rightarrow> request \<Rightarrow> string \<Rightarrow> string \<Rightarrow> ('b store \<Rightarrow> ('b, 're, 'x) sv_hnd)
    \<Rightarrow> ('b, 're, 'x) sv_hnd" where
  "open_proxy_store r rq ns fmt k rw s =
     (case authorized_proxy_store r (rq_now rq) (rq_now rq) (rq_now rq) ns fmt (rq_auth rq) (fst s) of
        (Inl e, sv1) \<Rightarrow> (write_namespace_error e NamespaceDataRead rw, sv1, snd s)
      | (Inr (st, _), sv1) \<Rightarrow> k st rw (sv1, snd s))"

section \<open>Frames of handlers\<close>

named_theorems h_intros \<open>handlers that preserve a predicate on the store's world\<close>

definition h_pres :: "('s \<Rightarrow> bool) \<Rightarrow> 's handler \<Rightarrow> bool" where
  "h_pres P h \<longleftrightarrow> (\<forall>rw w. P w \<longrightarrow> P (snd (h rw w)))"

definition act_pres :: "('s \<Rightarrow> bool) \<Rightarrow> ('s \<Rightarrow> 'a res \<times> 's) \<Rightarrow> bool" where
  "act_pres P m \<longleftrightarrow> (\<forall>w. P w \<longrightarrow> P (snd (m w)))"

lemma act_presD: "act_pres P m \<Longrightarrow> m w = (r, w') \<Longrightarrow> P w \<Longrightarrow> P w'"
  by (metis act_pres_def snd_conv)

lemma h_presD: "h_pres P h \<Longrightarrow> P w \<Longrightarrow> P (snd (h rw w))"
  by (simp add: h_pres_def)

lemma h_pres_done [h_intros]: "h_pres P (h_done f)"
  by (simp add: h_pres_def h_done_def)

lemma h_pres_then [h_intros]: "h_pres P k \<Longrightarrow> h_pres P (h_then f k)"
  by (simp add: h_pres_def h_then_def)

lemma h_pres_try [h_intros]:
  assumes "act_pres P m" "\<And>e. h_pres P (bad e)" "\<And>x. h_pres P (good x)"
  shows "h_pres P (h_try m bad good)"
  unfolding h_pres_def h_try_def
proof (intro allI impI)
  fix rw w
  assume "P w"
  then show "P (snd (case m w of (Inl e, w1) \<Rightarrow> bad e rw w1 | (Inr x, w1) \<Rightarrow> good x rw w1))"
    using act_presD [OF assms(1)] assms(2,3) by (cases "m w") (auto simp: h_pres_def split: sum.split)
qed

lemma h_pres_if [h_intros]:
  "(c \<Longrightarrow> h_pres P a) \<Longrightarrow> (\<not> c \<Longrightarrow> h_pres P b) \<Longrightarrow> h_pres P (if c then a else b)"
  by simp

lemma h_pres_prod [h_intros]: "(\<And>x y. h_pres P (f x y)) \<Longrightarrow> h_pres P (case p of (x, y) \<Rightarrow> f x y)"
  by (simp split: prod.split)

lemma h_pres_store [h_intros]: "act_pres P m \<Longrightarrow> (\<And>x. h_pres P (k x)) \<Longrightarrow> h_pres P (h_store m k)"
  unfolding h_store_def by (intro h_intros)

lemma h_pres_tee:
  assumes "act_pres P (fill (b\<lparr>bd_err := tee_copy_error b (rq_client rq)\<rparr>))" "\<And>e f. h_pres P (k e f)"
  shows "h_pres P (tee_stream_to_store rq b ct cl fill k)"
  unfolding h_pres_def
proof (intro allI impI)
  fix rw w
  assume "P w"
  obtain r w1 where f: "fill (b\<lparr>bd_err := tee_copy_error b (rq_client rq)\<rparr>) w = (r, w1)"
    by (cases "fill (b\<lparr>bd_err := tee_copy_error b (rq_client rq)\<rparr>) w")
  have "P w1" by (rule act_presD [OF assms(1) f \<open>P w\<close>])
  then show "P (snd (tee_stream_to_store rq b ct cl fill k rw w))"
    unfolding tee_stream_to_store_def Let_def f by (cases r) (simp_all, (rule h_presD [OF assms(2)], assumption)+)
qed

lemma h_pres_on_store [h_intros]: "h_pres P h \<Longrightarrow> h_pres (\<lambda>s. P (fst s)) (on_store h)"
  by (auto simp: h_pres_def on_store_def split: prod.split) (metis snd_conv)

text \<open>What every method of the store preserves, the parts of a method's caller preserve.\<close>

lemma act_pres_void: "act_pres P (act_void m) \<longleftrightarrow> act_pres P m"
proof -
  have "after (act_void m) w = after m w" for w
    by (cases "m w") (auto simp: act_void_def act_bind_def act_ret_def split: sum.splits)
  then show ?thesis by (simp add: act_pres_def)
qed

lemma act_pres_keeps:
  assumes "keeps m" "\<And>w w'. w_bucket w = w_bucket w' \<Longrightarrow> P w \<longleftrightarrow> P w'"
  shows "act_pres P m"
  unfolding act_pres_def
proof (intro allI impI)
  fix w
  assume "P w"
  moreover have "w_bucket (after m w) = w_bucket w" using assms(1) by (simp add: keeps_def)
  ultimately show "P (after m w)" using assms(2) [of "after m w" w] by blast
qed

text \<open>
  A predicate on the bucket that the methods \<open>ok\<close> of a store preserve is preserved by whatever is
  composed of these methods.
\<close>

locale store_invariant =
  fixes s :: "'b store"
    and ok :: "store_op \<Rightarrow> bool"
    and P :: "'b world \<Rightarrow> bool"
  assumes run_op_pres: "ok op \<Longrightarrow> act_pres P (run_op s op)"
    and bucket_only: "w_bucket w = w_bucket w' \<Longrightarrow> P w \<longleftrightarrow> P w'"
begin

lemma void_pres: "ok op \<Longrightarrow> run_op s op = act_void m \<Longrightarrow> act_pres P m"
  using run_op_pres [of op] by (simp add: act_pres_void)

lemma keeps_pres: "keeps m \<Longrightarrow> act_pres P m"
  by (rule act_pres_keeps, assumption, rule bucket_only)

lemma reads_pres:
  "act_pres P (store_packages s)"
  "act_pres P (pkg_meta s p)"
  "act_pres P (pkg_exists s p)"
  "act_pres P (pkg_versions s p)"
  "act_pres P (pkg_tags s p)"
  "act_pres P (pkg_tag_targets s sched p)"
  "act_pres P (tag_ref s t)"
  "act_pres P (tag_exists s t)"
  "act_pres P (version_meta s v)"
  "act_pres P (version_exists s v)"
  "act_pres P (store_files s)"
  "act_pres P (pkg_files s p)"
  "act_pres P (version_files s v)"
  "act_pres P (file_exists s f)"
  "act_pres P (file_meta s t1 t2 t3 f)"
  "act_pres P (file_read s f)"
  "act_pres P (download_url s t1 t2 t3 f)"
  by (rule keeps_pres, intro keeps_intros)+

lemma add_file_at_pres:
  "ok (OpAddFile now l n b opts) \<Longrightarrow> act_pres P (add_file_at s now (level_file s l n) b opts)"
  using void_pres [OF _ run_op_add_file] .

lemma add_cache_at_pres:
  "ok (OpAddCache now l n b) \<Longrightarrow> act_pres P (add_cache_at s now (level_cache s l n) b)"
  using void_pres [OF _ run_op_add_cache] .

lemma writes_pres:
  "ok (OpAddPackage now n opts) \<Longrightarrow> act_pres P (add_package s now n opts)"
  "ok (OpPkgAnnotate now p a) \<Longrightarrow> act_pres P (pkg_annotate s now (store_package p) a)"
  "ok (OpAddVersion now p v opts) \<Longrightarrow> act_pres P (pkg_add_version s now (store_package p) v opts)"
  "ok (OpVersionAnnotate now p v a)
    \<Longrightarrow> act_pres P (version_annotate s now (pkg_version (store_package p) v) a)"
  "ok (OpSetTag p t target) \<Longrightarrow> act_pres P (pkg_set_tag s (store_package p) t target)"
  "ok (OpAddFile now LStore n b opts) \<Longrightarrow> act_pres P (store_add_file s now n b opts)"
  "ok (OpAddFile now (LPkg p) n b opts)
    \<Longrightarrow> act_pres P (pkg_add_file s now (store_package p) n b opts)"
  "ok (OpAddFile now (LVer p v) n b opts)
    \<Longrightarrow> act_pres P (version_add_file s now (pkg_version (store_package p) v) n b opts)"
  "ok (OpAddCache now LStore n b) \<Longrightarrow> act_pres P (store_add_cache s now n b)"
  "ok (OpAddCache now (LPkg p) n b) \<Longrightarrow> act_pres P (pkg_add_cache s now (store_package p) n b)"
  "ok (OpAddCache now (LVer p v) n b)
    \<Longrightarrow> act_pres P (version_add_cache s now (pkg_version (store_package p) v) n b)"
  "ok (OpCacheDelete LStore n) \<Longrightarrow> act_pres P (file_delete s (store_cache s n))"
  "ok (OpCacheDelete (LPkg p) n) \<Longrightarrow> act_pres P (file_delete s (pkg_cache s (store_package p) n))"
  using void_pres [OF _ run_op.simps(2)] run_op_pres [of "OpPkgAnnotate now p a"]
    void_pres [OF _ run_op.simps(7)] run_op_pres [of "OpVersionAnnotate now p v a"]
    run_op_pres [of "OpSetTag p t target"] run_op_pres [of "OpCacheDelete LStore n"]
    run_op_pres [of "OpCacheDelete (LPkg p) n"] add_file_at_pres [of now LStore n b opts]
    add_file_at_pres [of now "LPkg p" n b opts] add_file_at_pres [of now "LVer p v" n b opts]
    add_cache_at_pres [of now LStore n b] add_cache_at_pres [of now "LPkg p" n b]
    add_cache_at_pres [of now "LVer p v" n b]
  by (simp_all add: store_add_file_def pkg_add_file_def version_add_file_def add_cache_level)

lemmas method_pres = reads_pres writes_pres

lemma stream_file_pres: "h_pres P (stream_file s rq f)"
  unfolding stream_file_def by (intro h_intros method_pres)

lemma redirect_or_stream_pres: "h_pres P (redirect_or_stream_file s rq f ct)"
  unfolding redirect_or_stream_file_def by (intro h_intros method_pres stream_file_pres)

end

section \<open>What no handler can do to the bucket\<close>

text \<open>
  Three predicates: no method changes anything outside the store's scope; where the guard refuses
  writes, no method changes anything but cache entries, and the methods that are not the cache's
  change nothing at all.
\<close>

fun cache_op :: "store_op \<Rightarrow> bool" where
  "cache_op (OpAddCache now l k b) = True"
| "cache_op (OpCacheDelete l k) = True"
| "cache_op _ = False"

definition plain_op :: "store_op \<Rightarrow> bool" where
  "plain_op op \<longleftrightarrow> \<not> cache_op op"

definition any_op :: "store_op \<Rightarrow> bool" where
  "any_op op \<longleftrightarrow> True"

lemma any_op [simp]: "any_op op"
  by (simp add: any_op_def)

lemma plain_op [simp]:
  "plain_op (OpAddPackage now n opts)" "plain_op (OpPkgAnnotate now n a)"
  "plain_op (OpAddVersion now n v opts)" "plain_op (OpVersionAnnotate now n v a)"
  "plain_op (OpSetTag n t target)" "plain_op (OpAddFile now l n b opts)"
  by (simp_all add: plain_op_def)

definition read_op :: "store_op \<Rightarrow> bool" where
  "read_op op \<longleftrightarrow> \<not> op_write op \<and> \<not> cache_op op"

definition kept :: "'b store \<Rightarrow> ('b \<Rightarrow> string \<rightharpoonup> string) \<Rightarrow> (string \<rightharpoonup> string) \<Rightarrow> 'b world \<Rightarrow> bool" where
  "kept s objs m w \<longleftrightarrow> (blob_bucket (st_ops s) objs \<longrightarrow> objs (w_bucket w) = m)"

definition outside_same ::
  "'b store \<Rightarrow> ('b \<Rightarrow> string \<rightharpoonup> string) \<Rightarrow> (string \<rightharpoonup> string) \<Rightarrow> 'b world \<Rightarrow> bool" where
  "outside_same s objs m w \<longleftrightarrow>
     (blob_bucket (st_ops s) objs \<longrightarrow>
        (\<forall>k. \<not> prefix (scope_prefix (st_scope s)) k \<longrightarrow> objs (w_bucket w) k = m k))"

definition cache_keys :: "string \<Rightarrow> string set" where
  "cache_keys sc =
     {k. \<exists>l n. k = object_path sc (cache_object l n) \<or> k = object_path sc (cache_meta_object l n)}"

definition unwritten ::
  "'b store \<Rightarrow> ('b \<Rightarrow> string \<rightharpoonup> string) \<Rightarrow> string set \<Rightarrow> (string \<rightharpoonup> string) \<Rightarrow> 'b world \<Rightarrow> bool" where
  "unwritten s objs K m w \<longleftrightarrow>
     (blob_bucket (st_ops s) objs \<longrightarrow> guard_verdict s True \<noteq> None \<longrightarrow>
        (\<forall>k. k \<notin> K \<longrightarrow> objs (w_bucket w) k = m k))"

lemma object_path_in_scope: "prefix (scope_prefix sc) (object_path sc ob)"
  by (simp add: object_path_segments)

lemma outside_same_pres: "act_pres (outside_same s objs m) (run_op s op)"
  unfolding act_pres_def
proof (intro allI impI)
  fix w
  assume w: "outside_same s objs m w"
  show "outside_same s objs m (after (run_op s op) w)"
    unfolding outside_same_def
  proof (intro impI allI)
    fix k
    assume b: "blob_bucket (st_ops s) objs" and k: "\<not> prefix (scope_prefix (st_scope s)) k"
    then have "k \<notin> object_path (st_scope s) ` set (op_objects op)"
      using object_path_in_scope by blast
    from touchesD [OF blob_bucket.touches_run_op [OF b refl] prod.collapse [symmetric] this] w b k
    show "objs (w_bucket (after (run_op s op) w)) k = m k" by (simp add: outside_same_def)
  qed
qed

lemma read_op_objects:
  "\<not> op_write op \<Longrightarrow> object_path sc ` set (op_objects op) \<subseteq> (if cache_op op then cache_keys sc else {})"
  by (cases op) (auto simp: cache_keys_def)

lemma unwritten_pres:
  assumes "cache_op op \<longrightarrow> cache_keys (st_scope s) \<subseteq> K"
  shows "act_pres (unwritten s objs K m) (run_op s op)"
  unfolding act_pres_def
proof (intro allI impI)
  fix w
  assume w: "unwritten s objs K m w"
  show "unwritten s objs K m (after (run_op s op) w)"
  proof (cases "op_write op \<and> guard_verdict s True \<noteq> None")
    case True
    then obtain e where "first_err [op_error op, guard_verdict s (op_write op)] = Some e"
      by (cases "op_error op") (auto simp: first_err.simps)
    then have "run_op s op w = (Inl e, w)" using gated_run_op [of s op] by (simp add: gated_def)
    with w show ?thesis by simp
  next
    case False
    show ?thesis
      unfolding unwritten_def
    proof (intro impI allI)
      fix k
      assume b: "blob_bucket (st_ops s) objs" and g: "guard_verdict s True \<noteq> None" and k: "k \<notin> K"
      have "k \<notin> object_path (st_scope s) ` set (op_objects op)"
        using k read_op_objects [of op "st_scope s"] False g assms by (auto split: if_splits)
      from touchesD [OF blob_bucket.touches_run_op [OF b refl] prod.collapse [symmetric] this] w b g k
      show "objs (w_bucket (after (run_op s op) w)) k = m k" by (simp add: unwritten_def)
    qed
  qed
qed

lemma unwritten_bucket:
  "w_bucket w = w_bucket w' \<Longrightarrow> unwritten s objs K m w \<longleftrightarrow> unwritten s objs K m w'"
  unfolding unwritten_def by metis

lemma outside_invariant: "store_invariant s any_op (outside_same s objs m)"
proof
  show "act_pres (outside_same s objs m) (run_op s op)" for op by (rule outside_same_pres)
  show "w_bucket w = w_bucket w' \<Longrightarrow> outside_same s objs m w \<longleftrightarrow> outside_same s objs m w'" for w w'
    by (simp add: outside_same_def)
qed

lemma unwritten_invariant:
  fixes s :: "'b store" and objs :: "'b \<Rightarrow> string \<rightharpoonup> string"
  assumes ok: "\<And>op. ok op \<Longrightarrow> cache_op op \<longrightarrow> cache_keys (st_scope s) \<subseteq> K"
  shows "store_invariant s ok (unwritten s objs K m)"
proof
  fix op
  assume "ok op"
  from ok [OF this] show "act_pres (unwritten s objs K m) (run_op s op)" by (rule unwritten_pres)
next
  fix w w' :: "'b world"
  assume "w_bucket w = w_bucket w'"
  then show "unwritten s objs K m w \<longleftrightarrow> unwritten s objs K m w'" by (rule unwritten_bucket)
qed

lemma denied_invariant: "store_invariant s any_op (unwritten s objs (cache_keys (st_scope s)) m)"
  by (rule unwritten_invariant) simp

lemma denied_plain_invariant: "store_invariant s plain_op (unwritten s objs {} m)"
  by (rule unwritten_invariant) (simp add: plain_op_def)

lemma kept_invariant: "store_invariant s read_op (kept s objs m)"
proof
  show "kept s objs m w \<longleftrightarrow> kept s objs m w'" if "w_bucket w = w_bucket w'" for w w'
    using that by (simp add: kept_def)
next
  fix op
  assume op: "read_op op"
  show "act_pres (kept s objs m) (run_op s op)"
    unfolding act_pres_def
  proof (intro allI impI)
    fix w
    assume w: "kept s objs m w"
    show "kept s objs m (after (run_op s op) w)"
      unfolding kept_def
    proof (intro impI ext)
      fix k
      assume b: "blob_bucket (st_ops s) objs"
      have "k \<notin> object_path (st_scope s) ` set (op_objects op)"
        using read_op_objects [of op "st_scope s"] op by (auto simp: read_op_def)
      from touchesD [OF blob_bucket.touches_run_op [OF b refl] prod.collapse [symmetric] this] w b
      show "objs (w_bucket (after (run_op s op) w)) k = m k" by (simp add: kept_def)
    qed
  qed
qed

interpretation kept: store_invariant s read_op "kept s objs m" for s objs m
  by (rule kept_invariant)

interpretation outside: store_invariant s any_op "outside_same s objs m" for s objs m
  by (rule outside_invariant)

interpretation denied: store_invariant s any_op "unwritten s objs (cache_keys (st_scope s)) m" for s objs m
  by (rule denied_invariant)

interpretation denied_plain: store_invariant s plain_op "unwritten s objs {} m" for s objs m
  by (rule denied_plain_invariant)

section \<open>Handlers that stay within a tenant\<close>

text \<open>
  \<open>hnd_safe s ok h\<close>: the handler preserves whatever the methods \<open>ok\<close> of the store preserve.  A
  handler built from such methods is safe, and its frame follows from the instances above.
\<close>

definition hnd_safe :: "'b store \<Rightarrow> (store_op \<Rightarrow> bool) \<Rightarrow> ('b world \<times> 'x) handler \<Rightarrow> bool" where
  "hnd_safe s ok h \<longleftrightarrow> (\<forall>P. store_invariant s ok P \<longrightarrow> h_pres (\<lambda>u. P (fst u)) h)"

lemma hnd_safeI: "(\<And>P. store_invariant s ok P \<Longrightarrow> h_pres (\<lambda>u. P (fst u)) h) \<Longrightarrow> hnd_safe s ok h"
  unfolding hnd_safe_def by blast

lemma hnd_safe_on_store: "(\<And>P. store_invariant s ok P \<Longrightarrow> h_pres P h) \<Longrightarrow> hnd_safe s ok (on_store h)"
  by (intro hnd_safeI h_pres_on_store)

lemma store_invariant_mono:
  assumes "store_invariant s any_op P"
  shows "store_invariant s ok P"
  using store_invariant.run_op_pres [OF assms any_op] store_invariant.bucket_only [OF assms]
  by (rule store_invariant.intro)

lemma hnd_safeD: "hnd_safe s ok h \<Longrightarrow> store_invariant s ok P \<Longrightarrow> h_pres (\<lambda>u. P (fst u)) h"
  unfolding hnd_safe_def by blast

lemma hnd_safe_any: "hnd_safe s ok h \<Longrightarrow> hnd_safe s any_op h"
  unfolding hnd_safe_def using store_invariant_mono by blast

lemma sv_store_pres:
  assumes h: "hnd_safe st ok h" "store_invariant st ok P" and P: "P (new_with_bucket st (nw_bucket (fst s)))"
  shows "\<exists>w. nw_bucket (fst (snd (sv_store st h rw s))) = w_bucket w \<and> P w"
proof -
  have "P (fst (snd (h rw (new_with_bucket st (nw_bucket (fst s)), snd s))))"
    using h_presD [OF hnd_safeD [OF h]] P by (metis fst_conv)
  then show ?thesis
    by (intro exI [of _ "fst (snd (h rw (new_with_bucket st (nw_bucket (fst s)), snd s)))"])
      (cases "h rw (new_with_bucket st (nw_bucket (fst s)), snd s)", simp add: sv_store_def split: prod.split)
qed

lemma sv_store_outside:
  assumes "hnd_safe st ok h" "blob_bucket (st_ops st) objs" "\<not> prefix (scope_prefix (st_scope st)) k"
  shows "objs (nw_bucket (fst (snd (sv_store st h rw s)))) k = objs (nw_bucket (fst s)) k"
  using sv_store_pres [OF hnd_safe_any [OF assms(1)] outside_invariant,
      of objs "objs (nw_bucket (fst s))" s rw] assms(2,3)
  by (auto simp: outside_same_def new_with_bucket_def)

lemma sv_store_kept:
  assumes "hnd_safe st read_op h" "blob_bucket (st_ops st) objs"
  shows "objs (nw_bucket (fst (snd (sv_store st h rw s)))) = objs (nw_bucket (fst s))"
  using sv_store_pres [OF assms(1) kept_invariant, of objs "objs (nw_bucket (fst s))" s rw] assms(2)
  by (auto simp: kept_def new_with_bucket_def)

lemma sv_store_denied_plain:
  assumes "hnd_safe st plain_op h" "blob_bucket (st_ops st) objs" "guard_verdict st True \<noteq> None"
  shows "objs (nw_bucket (fst (snd (sv_store st h rw s)))) = objs (nw_bucket (fst s))"
  using sv_store_pres [OF assms(1) denied_plain_invariant,
      of objs "objs (nw_bucket (fst s))" s rw] assms(2-)
  by (auto simp: unwritten_def new_with_bucket_def fun_eq_iff)

section \<open>Requests as registry events\<close>

text \<open>
  What serving a request does to a process is to look policies up and to change objects; so
  whatever holds after any history of registry events holds after any history of requests.
\<close>

fun data_event :: "'b reg_event \<Rightarrow> bool" where
  "data_event (RLookup t1 t2 t3 ns fmt) = True"
| "data_event (ROther b) = True"
| "data_event _ = False"

abbreviation now_lookup :: "request \<Rightarrow> string \<Rightarrow> string \<Rightarrow> 'b reg_event" where
  "now_lookup rq ns fmt \<equiv> RLookup (rq_now rq) (rq_now rq) (rq_now rq) ns fmt"

lemma authorized_store_step:
  "snd (authorized_store r t1 t2 t3 ns fmt ac sv) = reg_step r (RLookup t1 t2 t3 ns fmt) sv"
  by (auto simp: authorized_store_def split: prod.splits sum.splits)

lemma authorized_proxy_step:
  "snd (authorized_proxy_store r t1 t2 t3 ns fmt ac sv) = reg_step r (RLookup t1 t2 t3 ns fmt) sv"
  by (auto simp: authorized_proxy_store_def split: prod.splits sum.splits option.splits)

lemma lookup_bucket: "nw_bucket (reg_run r ttl b (RLookup t1 t2 t3 ns fmt # es)) = nw_bucket (reg_run r ttl b es)"
  by (auto simp: registry_entry_def split: prod.splits option.splits)

lemma authorized_store_ops:
  assumes "authorized_store r t1 t2 t3 ns fmt ac sv = (Inr (st, spec), sv1)"
  shows "st_ops st = st_ops (rg_store r)"
  using assms by (auto simp: authorized_store_def scoped_store_def split: prod.splits sum.splits)

lemma authorized_proxy_ops:
  assumes "authorized_proxy_store r t1 t2 t3 ns fmt ac sv = (Inr (st, spec), sv1)"
  shows "st_ops st = st_ops (rg_store r)"
  using assms by (auto simp: authorized_proxy_store_def scoped_store_def split: prod.splits sum.splits option.splits)

text \<open>The spec by which a request is served: one in force recently.\<close>

definition recent_spec ::
  "('b, 're) registry \<Rightarrow> int \<Rightarrow> 'b \<Rightarrow> 'b reg_event list \<Rightarrow> int \<Rightarrow> string \<Rightarrow> spec \<Rightarrow> bool" where
  "recent_spec r ttl b es now ns sp \<longleftrightarrow>
     (\<exists>b' n. recent_bucket r ttl b es now ns b' \<and> catalog_load (rg_catalog r) b' ns = Inr n \<and> ns_spec n = sp)"

definition may_read :: "('b, 're) registry \<Rightarrow> request \<Rightarrow> spec \<Rightarrow> bool" where
  "may_read r rq sp = permitted (ne_regex (ct_env (rg_catalog r))) (rq_auth rq) (po_readers (sp_policy sp))"

definition may_write :: "('b, 're) registry \<Rightarrow> request \<Rightarrow> spec \<Rightarrow> bool" where
  "may_write r rq sp = permitted (ne_regex (ct_env (rg_catalog r))) (rq_auth rq) (po_writers (sp_policy sp))"

lemma open_store_cases:
  assumes "ct_hooks (rg_catalog r) = [policy_invalidate]"
  obtains (refused) "\<And>rw. snd (open_store r rq ns fmt ctx k rw (reg_run r ttl b es, x))
      = (reg_run r ttl b (now_lookup rq ns fmt # es), x)"
  | (opened) st spec where "recent_spec r ttl b es (rq_now rq) ns spec"
      "st_scope st = scope_of (rg_prefix r) ns fmt" "st_ops st = st_ops (rg_store r)"
      "guard_verdict st False = None \<longleftrightarrow> may_read r rq spec"
      "guard_verdict st True = None \<longleftrightarrow> may_write r rq spec"
      "\<And>rw. open_store r rq ns fmt ctx k rw (reg_run r ttl b es, x)
        = k st spec rw (reg_run r ttl b (now_lookup rq ns fmt # es), x)"
proof -
  let ?t = "rq_now rq"
  obtain res sv1 where a: "authorized_store r ?t ?t ?t ns fmt (rq_auth rq) (reg_run r ttl b es) = (res, sv1)"
    by (metis prod.collapse)
  then have sv1: "sv1 = reg_run r ttl b (now_lookup rq ns fmt # es)"
    using authorized_store_step [of r ?t ?t ?t ns fmt "rq_auth rq" "reg_run r ttl b es"] by simp
  show ?thesis
  proof (cases res)
    case (Inl e)
    then show ?thesis using a sv1 by (intro refused) (simp add: open_store_def)
  next
    case (Inr p)
    then obtain st spec where p: "res = Inr (st, spec)" by (cases p) simp
    from authorized_store_recent [OF assms order_refl a [unfolded p]] obtain b' n g where
      "recent_bucket r ttl b es ?t ns b'" "catalog_load (rg_catalog r) b' ns = Inr n" "ns_spec n = spec"
      "st_scope st = scope_of (rg_prefix r) ns fmt" "st_guard st = Some g"
      "g False = None \<longleftrightarrow> permitted (ne_regex (ct_env (rg_catalog r))) (rq_auth rq) (po_readers (sp_policy spec))"
      "g True = None \<longleftrightarrow> permitted (ne_regex (ct_env (rg_catalog r))) (rq_auth rq) (po_writers (sp_policy spec))"
      by (elim conjE exE) (rule that; assumption)
    then show ?thesis
      using a p sv1 authorized_store_ops [OF a [unfolded p]]
      by (intro opened [of spec st])
        (auto simp: open_store_def recent_spec_def guard_verdict_def may_read_def may_write_def)
  qed
qed

lemma open_proxy_cases:
  assumes "ct_hooks (rg_catalog r) = [policy_invalidate]"
  obtains (refused) "\<And>rw. snd (open_proxy_store r rq ns fmt k rw (reg_run r ttl b es, x))
      = (reg_run r ttl b (now_lookup rq ns fmt # es), x)"
  | (opened) st spec where "recent_spec r ttl b es (rq_now rq) ns spec"
      "st_scope st = scope_of (rg_prefix r) ns fmt" "st_ops st = st_ops (rg_store r)" "st_guard st = None"
      "may_read r rq spec"
      "\<And>rw. open_proxy_store r rq ns fmt k rw (reg_run r ttl b es, x)
        = k st rw (reg_run r ttl b (now_lookup rq ns fmt # es), x)"
proof -
  let ?t = "rq_now rq"
  obtain res sv1 where a: "authorized_proxy_store r ?t ?t ?t ns fmt (rq_auth rq) (reg_run r ttl b es) = (res, sv1)"
    by (metis prod.collapse)
  then have sv1: "sv1 = reg_run r ttl b (now_lookup rq ns fmt # es)"
    using authorized_proxy_step [of r ?t ?t ?t ns fmt "rq_auth rq" "reg_run r ttl b es"] by simp
  show ?thesis
  proof (cases res)
    case (Inl e)
    then show ?thesis using a sv1 by (intro refused) (simp add: open_proxy_store_def)
  next
    case (Inr p)
    then obtain st spec where p: "res = Inr (st, spec)" by (cases p) simp
    from authorized_proxy_recent [OF assms order_refl a [unfolded p]] show ?thesis
      using a p sv1 authorized_proxy_ops [OF a [unfolded p]]
      by (intro opened [of spec st])
        (auto simp: open_proxy_store_def recent_spec_def may_read_def)
  qed
qed

section \<open>The histories of requests\<close>

named_theorems d_intros \<open>handlers that make data events only\<close>

definition data_steps :: "('b, 're) registry \<Rightarrow> int \<Rightarrow> 'b \<Rightarrow> ('b, 're, 'x) sv_hnd \<Rightarrow> bool" where
  "data_steps r ttl b h \<longleftrightarrow>
     (\<forall>rw es x. \<exists>new. list_all data_event new \<and> fst (snd (h rw (reg_run r ttl b es, x))) = reg_run r ttl b (new @ es))"

lemma data_stepsI:
  assumes "\<And>rw es x. fst (snd (h rw (reg_run r ttl b es, x))) = reg_run r ttl b (f rw es x @ es)
    \<and> list_all data_event (f rw es x)"
  shows "data_steps r ttl b h"
  unfolding data_steps_def using assms by blast

lemma data_done [d_intros]: "data_steps r ttl b (h_done f)"
  by (rule data_stepsI [of _ _ _ _ "\<lambda>_ _ _. []"]) (simp add: h_done_def)

lemma data_if [d_intros]: "data_steps r ttl b h \<Longrightarrow> data_steps r ttl b h' \<Longrightarrow> data_steps r ttl b (if c then h else h')"
  by simp

lemma data_store [d_intros]: "data_steps r ttl b (sv_store st h)"
  by (rule data_stepsI [of _ _ _ _ "\<lambda>rw es x. [ROther (w_bucket (fst (snd (h rw
          (new_with_bucket st (nw_bucket (reg_run r ttl b es)), x)))))]"])
    (simp add: sv_store_def split: prod.split)

lemma data_open:
  assumes "snd (op rw (reg_run r ttl b es, x)) = (reg_run r ttl b (RLookup t1 t2 t3 ns fmt # es), x)
      \<or> (\<exists>h. data_steps r ttl b h
            \<and> op rw (reg_run r ttl b es, x) = h rw (reg_run r ttl b (RLookup t1 t2 t3 ns fmt # es), x))"
  shows "\<exists>new. list_all data_event new \<and> fst (snd (op rw (reg_run r ttl b es, x))) = reg_run r ttl b (new @ es)"
  using assms
proof (elim disjE exE conjE)
  assume "snd (op rw (reg_run r ttl b es, x)) = (reg_run r ttl b (RLookup t1 t2 t3 ns fmt # es), x)"
  then show ?thesis by (intro exI [of _ "[RLookup t1 t2 t3 ns fmt]"]) simp
next
  fix h
  assume h: "data_steps r ttl b h" and e: "op rw (reg_run r ttl b es, x) = h rw (reg_run r ttl b (RLookup t1 t2 t3 ns fmt # es), x)"
  from h obtain new where "list_all data_event new"
    "fst (snd (h rw (reg_run r ttl b (RLookup t1 t2 t3 ns fmt # es), x))) = reg_run r ttl b (new @ RLookup t1 t2 t3 ns fmt # es)"
    unfolding data_steps_def by blast
  with e show ?thesis by (intro exI [of _ "new @ [RLookup t1 t2 t3 ns fmt]"]) simp
qed

lemma data_open_store [d_intros]:
  assumes "ct_hooks (rg_catalog r) = [policy_invalidate]" "\<And>st spec. data_steps r ttl b (k st spec)"
  shows "data_steps r ttl b (open_store r rq ns fmt ctx k)"
  unfolding data_steps_def
proof (intro allI, rule data_open)
  fix rw es x
  show "snd (open_store r rq ns fmt ctx k rw (reg_run r ttl b es, x)) = (reg_run r ttl b (now_lookup rq ns fmt # es), x)
      \<or> (\<exists>h. data_steps r ttl b h \<and> open_store r rq ns fmt ctx k rw (reg_run r ttl b es, x)
            = h rw (reg_run r ttl b (now_lookup rq ns fmt # es), x))"
    by (cases rule: open_store_cases [OF assms(1), of rq ns fmt ctx k ttl b es x]) (use assms(2) in auto)
qed

lemma data_open_proxy [d_intros]:
  assumes "ct_hooks (rg_catalog r) = [policy_invalidate]" "\<And>st. data_steps r ttl b (k st)"
  shows "data_steps r ttl b (open_proxy_store r rq ns fmt k)"
  unfolding data_steps_def
proof (intro allI, rule data_open)
  fix rw es x
  show "snd (open_proxy_store r rq ns fmt k rw (reg_run r ttl b es, x)) = (reg_run r ttl b (now_lookup rq ns fmt # es), x)
      \<or> (\<exists>h. data_steps r ttl b h \<and> open_proxy_store r rq ns fmt k rw (reg_run r ttl b es, x)
            = h rw (reg_run r ttl b (now_lookup rq ns fmt # es), x))"
    by (cases rule: open_proxy_cases [OF assms(1), of rq ns fmt k ttl b es x]) (use assms(2) in auto)
qed

section \<open>What a request may change\<close>

text \<open>\<open>changes_at objs s Q h\<close>: from the state \<open>s\<close> the handler changes only objects \<open>Q\<close> allows.\<close>

named_theorems c_intros \<open>handlers that change only what a predicate allows\<close>

definition changes_at ::
  "('b \<Rightarrow> string \<rightharpoonup> string) \<Rightarrow> ('b, 're policy_cache) ns_world \<times> 'x \<Rightarrow> (string \<Rightarrow> bool) \<Rightarrow> ('b, 're, 'x) sv_hnd \<Rightarrow> bool" where
  "changes_at objs s Q h \<longleftrightarrow>
     (\<forall>rw key. objs (nw_bucket (fst (snd (h rw s)))) key \<noteq> objs (nw_bucket (fst s)) key \<longrightarrow> Q key)"

lemma changes_done [c_intros]: "changes_at objs s Q (h_done f)"
  by (simp add: changes_at_def h_done_def)

lemma changes_if [c_intros]:
  "(c \<Longrightarrow> changes_at objs s Q h) \<Longrightarrow> (\<not> c \<Longrightarrow> changes_at objs s Q h') \<Longrightarrow> changes_at objs s Q (if c then h else h')"
  by simp

lemma changes_open_store [c_intros]:
  assumes "ct_hooks (rg_catalog r) = [policy_invalidate]"
    and k: "\<And>st spec. recent_spec r ttl b es (rq_now rq) ns spec \<Longrightarrow> st_scope st = scope_of (rg_prefix r) ns fmt \<Longrightarrow>
        st_ops st = st_ops (rg_store r) \<Longrightarrow> (guard_verdict st True = None \<Longrightarrow> may_write r rq spec) \<Longrightarrow>
        changes_at objs (reg_run r ttl b (now_lookup rq ns fmt # es), x) Q (k st spec)"
  shows "changes_at objs (reg_run r ttl b es, x) Q (open_store r rq ns fmt ctx k)"
proof (cases rule: open_store_cases [OF assms(1), of rq ns fmt ctx k ttl b es x])
  case 1
  then show ?thesis by (simp add: changes_at_def lookup_bucket del: reg_run.simps)
next
  case (2 st spec)
  have "changes_at objs (reg_run r ttl b (now_lookup rq ns fmt # es), x) Q (k st spec)"
    by (rule k [OF 2(1-3)]) (simp add: 2(5))
  with 2(6) show ?thesis by (simp add: changes_at_def lookup_bucket del: reg_run.simps)
qed

lemma changes_open_proxy [c_intros]:
  assumes "ct_hooks (rg_catalog r) = [policy_invalidate]"
    and k: "\<And>st spec. recent_spec r ttl b es (rq_now rq) ns spec \<Longrightarrow> may_read r rq spec \<Longrightarrow>
        st_scope st = scope_of (rg_prefix r) ns fmt \<Longrightarrow> st_ops st = st_ops (rg_store r) \<Longrightarrow>
        changes_at objs (reg_run r ttl b (now_lookup rq ns fmt # es), x) Q (k st)"
  shows "changes_at objs (reg_run r ttl b es, x) Q (open_proxy_store r rq ns fmt k)"
proof (cases rule: open_proxy_cases [OF assms(1), of rq ns fmt k ttl b es x])
  case 1
  then show ?thesis by (simp add: changes_at_def lookup_bucket del: reg_run.simps)
next
  case (2 st spec)
  have "changes_at objs (reg_run r ttl b (now_lookup rq ns fmt # es), x) Q (k st)"
    by (rule k [OF 2(1,5,2,3)])
  with 2(6) show ?thesis by (simp add: changes_at_def lookup_bucket del: reg_run.simps)
qed

lemma changes_read:
  "hnd_safe st read_op h \<Longrightarrow> blob_bucket (st_ops st) objs \<Longrightarrow> changes_at objs s Q (sv_store st h)"
  by (simp add: changes_at_def sv_store_kept)

lemma changes_write:
  assumes "hnd_safe st plain_op h" "blob_bucket (st_ops st) objs"
    and "\<And>key. guard_verdict st True = None \<Longrightarrow> prefix (scope_prefix (st_scope st)) key \<Longrightarrow> Q key"
  shows "changes_at objs s Q (sv_store st h)"
  unfolding changes_at_def
  using sv_store_denied_plain [OF assms(1,2)] sv_store_outside [OF assms(1,2)] assms(3) by metis

lemma changes_any:
  assumes "hnd_safe st ok h" "blob_bucket (st_ops st) objs"
    and "\<And>key. prefix (scope_prefix (st_scope st)) key \<Longrightarrow> Q key"
  shows "changes_at objs s Q (sv_store st h)"
  unfolding changes_at_def using sv_store_outside [OF assms(1,2)] assms(3) by metis

lemma changes_mux:
  assumes "\<And>h bs. mux_find rs (rq_method rq) (rq_escaped_path rq) = MuxFound h bs \<Longrightarrow> changes_at objs s Q (run h bs)"
  shows "changes_at objs s Q (serve_mux rs run rq)"
  using assms by (auto simp: changes_at_def serve_mux_def split: mux_result.splits)

lemma data_mux [d_intros]:
  "(\<And>h bs. data_steps r ttl b (run h bs)) \<Longrightarrow> data_steps r ttl b (serve_mux rs run rq)"
  by (cases "mux_find rs (rq_method rq) (rq_escaped_path rq)")
    (auto simp: data_steps_def serve_mux_def intro!: exI [of _ "[]"])

text \<open>Behind the middleware a request has a verified identity; without one nothing changes.\<close>

lemma changes_middleware:
  assumes "\<And>ac. changes_at objs (sv, x) (Q (rq\<lparr>rq_auth := Some ac\<rparr>)) (h (rq\<lparr>rq_auth := Some ac\<rparr>))"
    and "auth_middleware authn h rq rw (A, sv, x) = (rw', A', s')"
    and "objs (nw_bucket (fst s')) key \<noteq> objs (nw_bucket sv) key"
  shows "\<exists>ac. fst (authn rq A) = Inr ac \<and> Q (rq\<lparr>rq_auth := Some ac\<rparr>) key"
proof -
  obtain res A1 where a: "authn rq A = (res, A1)" by (metis prod.collapse)
  with assms(2,3) obtain ac where ac: "res = Inr ac"
    by (cases res) (auto simp: auth_middleware_def)
  then have "s' = snd (h (rq\<lparr>rq_auth := Some ac\<rparr>) rw (sv, x))"
    using assms(2) a by (auto simp: auth_middleware_def split: prod.splits)
  with assms(1) [of ac] assms(3) a ac show ?thesis unfolding changes_at_def by (metis fst_conv)
qed

text \<open>A request with the identity the middleware adds.\<close>

lemma with_identity:
  "rq_method (rq\<lparr>rq_auth := a\<rparr>) = rq_method rq" "rq_escaped_path (rq\<lparr>rq_auth := a\<rparr>) = rq_escaped_path rq"
  "rq_header (rq\<lparr>rq_auth := a\<rparr>) = rq_header rq" "rq_body (rq\<lparr>rq_auth := a\<rparr>) = rq_body rq"
  "rq_now (rq\<lparr>rq_auth := a\<rparr>) = rq_now rq" "rq_auth (rq\<lparr>rq_auth := a\<rparr>) = a"
  by simp_all

text \<open>A registry for the examples: one hosted namespace \<open>n\<close> that \<open>bob\<close> reads and writes.\<close>

definition demo_bob :: subject_matcher where
  "demo_bob = \<lparr>sm_issuer = '''', sm_sub_match = ''bob'', sm_email = '''', sm_claims_match = [], sm_kind = ''''\<rparr>"

definition demo_site_spec :: "string \<Rightarrow> spec" where
  "demo_site_spec mode =
     (demo_spec mode)\<lparr>sp_schema_version := 1, sp_policy := \<lparr>po_readers = [demo_bob], po_writers = [demo_bob]\<rparr>\<rparr>"

definition demo_site :: "string \<Rightarrow> (mem_bucket, string) registry" where
  "demo_site mode =
     new_registry
       \<lparr>ct_ops = mem_ops, ct_root = root_prefix '''', ct_hooks = [], ct_env = demo_env,
        ct_encode = (\<lambda>_. Inr ''{}''), ct_decode = (\<lambda>d. Inr (demo_site_spec mode))\<rparr>
       '''' (demo_store None)"

lemma demo_site_hooks: "ct_hooks (rg_catalog (demo_site mode)) = [policy_invalidate]"
  by (simp add: demo_site_def new_registry_def)

lemma demo_site_bucket: "blob_bucket (st_ops (rg_store (demo_site mode))) map_of"
  by (simp add: demo_site_def new_registry_def mem_bucket)

end
