(* ===== verification/Json.thy ===== *)
theory Json
  imports Http Go_Url "HOL-Library.AList"
begin

text \<open>
  Decoding as Go's \<open>encoding/json\<close> does it: the syntax of a value, \<open>Unmarshal\<close> of a whole input and
  \<open>Decoder.Decode\<close> of its first value, the decoding of objects into structs field by field, and the
  normal form of a value that went through \<open>map[string]any\<close>.  A number is the text of its literal
  (\<open>JRaw\<close>); what \<open>float64\<close> makes of it is a parameter.  The decoder's nesting limit of 10000 is not
  modelled.
\<close>

section \<open>Runes\<close>

definition byte_char :: "int \<Rightarrow> char" where
  "byte_char i = char_of (nat i)"

text \<open>\<open>utf8.EncodeRune\<close> of a valid rune.\<close>

definition encode_rune :: "int \<Rightarrow> string" where
  "encode_rune r =
     (if r < 128 then [byte_char r]
      else if r < 2048 then [byte_char (192 + r div 64), byte_char (128 + r mod 64)]
      else if r < 65536
      then [byte_char (224 + r div 4096), byte_char (128 + r div 64 mod 64), byte_char (128 + r mod 64)]
      else [byte_char (240 + r div 262144), byte_char (128 + r div 4096 mod 64),
            byte_char (128 + r div 64 mod 64), byte_char (128 + r mod 64)])"

section \<open>Tokens\<close>

definition is_ws :: "char \<Rightarrow> bool" where
  "is_ws c \<longleftrightarrow> c \<in> {CHR 0x20, CHR 0x09, CHR 0x0A, CHR 0x0D}"

definition skip_ws :: "string \<Rightarrow> string" where
  "skip_ws s = dropWhile is_ws s"

fun get_u4 :: "string \<Rightarrow> int option" where
  "get_u4 (a # b # c # d # s) =
     (if is_hex a \<and> is_hex b \<and> is_hex c \<and> is_hex d
      then Some (int (4096 * unhex a + 256 * unhex b + 16 * unhex c + unhex d)) else None)"
| "get_u4 _ = None"

definition json_escapes :: "(char \<times> char) list" where
  "json_escapes =
     [(CHR 0x22, CHR 0x22), (CHR 0x5C, CHR 0x5C), (CHR ''/'', CHR ''/''), (CHR ''b'', CHR 0x08),
      (CHR ''f'', CHR 0x0C), (CHR ''n'', CHR 0x0A), (CHR ''r'', CHR 0x0D), (CHR ''t'', CHR 0x09)]"

text \<open>The low half of a surrogate pair at the head of the input, and the input after it.\<close>

definition low_surrogate :: "string \<Rightarrow> (int \<times> string) option" where
  "low_surrogate s =
     (if prefix [CHR 0x5C, CHR ''u''] s
      then (case get_u4 (drop 2 s) of
              Some u \<Rightarrow> if 56320 \<le> u \<and> u < 57344 then Some (u, drop 6 s) else None
            | None \<Rightarrow> None)
      else None)"

definition put_front :: "string \<Rightarrow> (string \<times> string) option \<Rightarrow> (string \<times> string) option" where
  "put_front p r = map_option (\<lambda>(s, rest). (p @ s, rest)) r"

text \<open>The rest of a string literal after its opening quote.\<close>

function json_str :: "string \<Rightarrow> (string \<times> string) option" where
  "json_str s =
     (case s of
        [] \<Rightarrow> None
      | c # r \<Rightarrow>
          (if c = CHR 0x22 then Some ([], r)
           else if (of_char c :: nat) < 32 then None
           else if c = CHR 0x5C then
             (if r = [] then None
              else if hd r = CHR ''u'' then
                (case get_u4 (tl r) of
                   None \<Rightarrow> None
                 | Some u \<Rightarrow>
                     (if 55296 \<le> u \<and> u < 57344 then
                        (case low_surrogate (drop 5 r) of
                           Some (l, rest) \<Rightarrow>
                             (if u < 56320
                              then put_front (encode_rune ((u - 55296) * 1024 + (l - 56320) + 65536)) (json_str (drop 11 r))
                              else put_front (encode_rune rune_error) (json_str (drop 5 r)))
                         | None \<Rightarrow> put_front (encode_rune rune_error) (json_str (drop 5 r)))
                      else put_front (encode_rune u) (json_str (drop 5 r))))
              else (case map_of json_escapes (hd r) of
                      None \<Rightarrow> None
                    | Some x \<Rightarrow> put_front [x] (json_str (tl r))))
           else if (of_char c :: nat) < 128 then put_front [c] (json_str r)
           else (case decode_rune s of
                   (u, n) \<Rightarrow> put_front (encode_rune u) (json_str (drop (max n 1) s)))))"
  by pat_completeness auto
termination
  by (relation "measure length") auto

declare json_str.simps [simp del]

definition json_frac :: "string \<Rightarrow> (string \<times> string) option" where
  "json_frac s =
     (if s \<noteq> [] \<and> hd s = CHR ''.''
      then (let ds = takeWhile is_digit (tl s)
            in if ds = [] then None else Some (CHR ''.'' # ds, drop (length ds + 1) s))
      else Some ([], s))"

definition json_exp :: "string \<Rightarrow> (string \<times> string) option" where
  "json_exp s =
     (if s \<noteq> [] \<and> hd s \<in> {CHR ''e'', CHR ''E''}
      then (let sg = (if tl s \<noteq> [] \<and> hd (tl s) \<in> {CHR ''+'', CHR ''-''} then [hd (tl s)] else []);
                ds = takeWhile is_digit (drop (length sg + 1) s)
            in if ds = [] then None else Some (hd s # sg @ ds, drop (length sg + length ds + 1) s))
      else Some ([], s))"

definition json_number :: "string \<Rightarrow> (string \<times> string) option" where
  "json_number s =
     (let sg = (if s \<noteq> [] \<and> hd s = CHR ''-'' then [CHR ''-''] else []);
          r = drop (length sg) s;
          ip = (if r \<noteq> [] \<and> hd r = CHR ''0'' then [CHR ''0''] else takeWhile is_digit r)
      in if ip = [] then None
         else (case json_frac (drop (length ip) r) of
                 None \<Rightarrow> None
               | Some (fp, r1) \<Rightarrow>
                   (case json_exp r1 of
                      None \<Rightarrow> None
                    | Some (ep, r2) \<Rightarrow> Some (sg @ ip @ fp @ ep, r2))))"

section \<open>Values\<close>

text \<open>The fuel bounds the recursion: a value of length \<open>n\<close> needs no more than \<open>2 * n + 1\<close>.\<close>

fun json_value :: "nat \<Rightarrow> string \<Rightarrow> (json \<times> string) option"
  and json_elems :: "nat \<Rightarrow> string \<Rightarrow> (json list \<times> string) option"
  and json_members :: "nat \<Rightarrow> string \<Rightarrow> ((string \<times> json) list \<times> string) option" where
  "json_value 0 s = None"
| "json_value (Suc n) s =
     (case skip_ws s of
        [] \<Rightarrow> None
      | c # r \<Rightarrow>
          (if c = CHR 0x7B then
             (if skip_ws r \<noteq> [] \<and> hd (skip_ws r) = CHR 0x7D then Some (JObject [], tl (skip_ws r))
              else map_option (map_prod JObject id) (json_members n r))
           else if c = CHR ''['' then
             (if skip_ws r \<noteq> [] \<and> hd (skip_ws r) = CHR '']'' then Some (JArray [], tl (skip_ws r))
              else map_option (map_prod JArray id) (json_elems n r))
           else if c = CHR 0x22 then map_option (map_prod JString id) (json_str r)
           else if prefix ''true'' (c # r) then Some (JBool True, drop 3 r)
           else if prefix ''false'' (c # r) then Some (JBool False, drop 4 r)
           else if prefix ''null'' (c # r) then Some (JNull, drop 3 r)
           else map_option (map_prod JRaw id) (json_number (c # r))))"
| "json_elems 0 s = None"
| "json_elems (Suc n) s =
     (case json_value n s of
        None \<Rightarrow> None
      | Some (v, r) \<Rightarrow>
          (case skip_ws r of
             [] \<Rightarrow> None
           | c # r1 \<Rightarrow>
               (if c = CHR '','' then map_option (map_prod (Cons v) id) (json_elems n r1)
                else if c = CHR '']'' then Some ([v], r1) else None)))"
| "json_members 0 s = None"
| "json_members (Suc n) s =
     (case skip_ws s of
        [] \<Rightarrow> None
      | q # r0 \<Rightarrow>
          (if q \<noteq> CHR 0x22 then None
           else case json_str r0 of
             None \<Rightarrow> None
           | Some (k, r) \<Rightarrow>
               (if skip_ws r = [] \<or> hd (skip_ws r) \<noteq> CHR '':'' then None
                else case json_value n (tl (skip_ws r)) of
                  None \<Rightarrow> None
                | Some (v, r1) \<Rightarrow>
                    (case skip_ws r1 of
                       [] \<Rightarrow> None
                     | c # r2 \<Rightarrow>
                         (if c = CHR '','' then map_option (map_prod (Cons (k, v)) id) (json_members n r2)
                          else if c = CHR 0x7D then Some ([(k, v)], r2) else None)))))"

text \<open>\<open>Decoder.Decode\<close> reads the first value; \<open>Unmarshal\<close> wants nothing after it.\<close>

definition json_first :: "string \<Rightarrow> (json \<times> string) option" where
  "json_first s = json_value (2 * length s + 1) s"

definition json_unmarshal :: "string \<Rightarrow> json option" where
  "json_unmarshal s =
     (case json_first s of
        Some (v, r) \<Rightarrow> if skip_ws r = [] then Some v else None
      | None \<Rightarrow> None)"

section \<open>Into Go values\<close>

text \<open>
  Decoding into a struct goes through the entries in order; a key selects the field whose name it
  equals up to case.  \<open>step\<close> decodes one entry; it fails on a value of the wrong type.
\<close>

fun decode_entries :: "(string \<Rightarrow> json \<Rightarrow> 'a \<Rightarrow> 'a option) \<Rightarrow> (string \<times> json) list \<Rightarrow> 'a \<Rightarrow> 'a option" where
  "decode_entries step [] x = Some x"
| "decode_entries step ((k, v) # kvs) x =
     (case step k v x of None \<Rightarrow> None | Some y \<Rightarrow> decode_entries step kvs y)"

definition decode_struct :: "(string \<Rightarrow> json \<Rightarrow> 'a \<Rightarrow> 'a option) \<Rightarrow> json \<Rightarrow> 'a \<Rightarrow> 'a option" where
  "decode_struct step v x =
     (case v of JObject kvs \<Rightarrow> decode_entries step kvs x | JNull \<Rightarrow> Some x | _ \<Rightarrow> None)"

text \<open>The field that a key selects, from a table of names and decoders.\<close>

fun decode_field ::
  "bool \<Rightarrow> (string \<times> (json \<Rightarrow> 'a \<Rightarrow> 'a option)) list \<Rightarrow> string \<Rightarrow> json \<Rightarrow> 'a \<Rightarrow> 'a option" where
  "decode_field strict [] k v x = (if strict then None else Some x)"
| "decode_field strict ((n, f) # fs) k v x =
     (if equal_fold k n then f v x else decode_field strict fs k v x)"

text \<open>A string field: \<open>null\<close> leaves it as it is.\<close>

definition decode_string :: "json \<Rightarrow> string \<Rightarrow> string option" where
  "decode_string v x = (case v of JString s \<Rightarrow> Some s | JNull \<Rightarrow> Some x | _ \<Rightarrow> None)"

text \<open>An \<open>int\<close> field takes an integer literal in range, without fraction or exponent.\<close>

definition decode_int :: "json \<Rightarrow> int \<Rightarrow> int option" where
  "decode_int v x =
     (case v of
        JNull \<Rightarrow> Some x
      | JRaw lit \<Rightarrow>
          (let neg = (lit \<noteq> [] \<and> hd lit = CHR ''-'');
               ds = (if neg then tl lit else lit);
               n = foldl (\<lambda>a d. a * 10 + (int (of_char d) - 48)) 0 ds;
               i = (if neg then - n else n)
           in if list_all is_digit ds \<and> - (2 ^ 63) \<le> i \<and> i < 2 ^ 63 then Some i else None)
      | _ \<Rightarrow> None)"

text \<open>A map keeps the entries it has and gets those of the object; \<open>null\<close> makes it nil.\<close>

definition decode_map :: "(json \<Rightarrow> 'v option) \<Rightarrow> json \<Rightarrow> (string \<times> 'v) list \<Rightarrow> (string \<times> 'v) list option" where
  "decode_map f v m =
     (case v of
        JObject kvs \<Rightarrow> decode_entries (\<lambda>k x m. map_option (\<lambda>y. AList.update k y m) (f x)) kvs m
      | JNull \<Rightarrow> Some []
      | _ \<Rightarrow> None)"

text \<open>
  What \<open>Marshal\<close> prints of a value decoded into \<open>any\<close>: objects are maps, with sorted and distinct
  keys, and numbers are what \<open>float64\<close> makes of them (\<open>None\<close> where it is out of range).
\<close>

fun json_any :: "(string \<Rightarrow> string option) \<Rightarrow> json \<Rightarrow> json option" where
  "json_any num (JRaw lit) = map_option JRaw (num lit)"
| "json_any num (JArray xs) = map_option JArray (those (map (json_any num) xs))"
| "json_any num (JObject kvs) =
     map_option (\<lambda>ys. json_map (fold (\<lambda>(k, y). AList.update k y) ys []))
       (those (map (\<lambda>(k, x). map_option (Pair k) (json_any num x)) kvs))"
| "json_any num v = Some v"

text \<open>The value of an annotation, or of an opaque knob.\<close>

fun jval_of_json :: "json \<Rightarrow> jval" where
  "jval_of_json (JString s) = JStr s"
| "jval_of_json v = JOther (json_print v)"

definition decode_any_map ::
  "(string \<Rightarrow> string option) \<Rightarrow> json \<Rightarrow> (string \<times> jval) list \<Rightarrow> (string \<times> jval) list option" where
  "decode_any_map num = decode_map (\<lambda>x. map_option jval_of_json (json_any num x))"

end
