(* ===== verification/Generic.thy ===== *)
theory Generic
  imports Data_Plane Json
begin

text \<open>
  The generic REST surface, \<open>handler.go\<close> and \<open>codec.go\<close> of \<open>pkg/surface/generic\<close>: packages,
  versions and files over the store, with checksum headers and annotation bodies.  What
  \<open>float64\<close> makes of a number, the printing of times and the MIME table are parameters.
\<close>

record generic_config =
  gc_max_upload :: int
  gc_allow_overwrite :: bool

record generic_env =
  gn_num :: "string \<Rightarrow> string option"
  gn_time :: "int \<Rightarrow> string"
  gn_mime :: "string \<Rightarrow> string"

definition generic_default_max_upload :: int where
  "generic_default_max_upload = 100 * 2 ^ 20"

definition create_body_limit :: int where "create_body_limit = 2 ^ 20"

definition generic_upload_limit :: "generic_config \<Rightarrow> int" where
  "generic_upload_limit c = (if gc_max_upload c \<le> 0 then generic_default_max_upload else gc_max_upload c)"

section \<open>The codec\<close>

definition ann_content_type :: string where "ann_content_type = ''generic:content_type''"

definition json_names :: "string list \<Rightarrow> json" where
  "json_names ns = JArray (map JString ns)"

text \<open>An \<open>omitempty\<close> time, absent when zero.\<close>

definition json_time :: "generic_env \<Rightarrow> string \<Rightarrow> int \<Rightarrow> (string \<times> json) list" where
  "json_time E k t = omit_empty (t = 0) k (JString (gn_time E t))"

definition json_annotations :: "annotations \<Rightarrow> (string \<times> json) list" where
  "json_annotations a =
     omit_empty (a = []) ''annotations'' (json_map (map (\<lambda>(k, v). (k, json_of_jval v)) a))"

definition package_response :: "generic_env \<Rightarrow> string \<Rightarrow> meta \<Rightarrow> string list \<Rightarrow> json" where
  "package_response E name m versions =
     JObject ([(''name'', JString name)] @ json_time E ''created_at'' (m_created_at m)
       @ json_time E ''updated_at'' (m_updated_at m) @ json_annotations (m_annotations m)
       @ [(''versions'', json_names versions)])"

definition version_response ::
  "generic_env \<Rightarrow> string \<Rightarrow> string \<Rightarrow> meta \<Rightarrow> string list \<Rightarrow> json" where
  "version_response E pkg ver m files =
     JObject ([(''package'', JString pkg), (''version'', JString ver)]
       @ json_time E ''created_at'' (m_created_at m) @ json_time E ''updated_at'' (m_updated_at m)
       @ json_annotations (m_annotations m) @ [(''files'', json_names files)])"

definition content_type_from_meta :: "meta \<Rightarrow> string" where
  "content_type_from_meta m =
     (case map_of (m_annotations m) ann_content_type of Some (JStr ct) \<Rightarrow> ct | _ \<Rightarrow> '''')"

definition file_to_response :: "generic_env \<Rightarrow> string \<Rightarrow> meta \<Rightarrow> json" where
  "file_to_response E name m =
     JObject ([(''name'', JString name), (''size'', JInt (m_size m))]
       @ omit_empty (m_digest m = '''') ''digest'' (JString (m_digest m))
       @ omit_empty (content_type_from_meta m = '''') ''content_type'' (JString (content_type_from_meta m))
       @ json_time E ''created_at'' (m_created_at m))"

text \<open>\<open>path.Ext\<close>: from the last dot of the last element.\<close>

definition path_ext :: "string \<Rightarrow> string" where
  "path_ext p =
     (let el = last (split_on CHR ''/'' p)
      in if CHR ''.'' \<in> set el then CHR ''.'' # rev (takeWhile (\<lambda>c. c \<noteq> CHR ''.'') (rev el)) else '''')"

definition download_content_type :: "generic_env \<Rightarrow> string \<Rightarrow> meta \<Rightarrow> string" where
  "download_content_type E name m =
     (let ct = content_type_from_meta m
      in if ct \<noteq> '''' then ct
         else (let ct = gn_mime E (path_ext name)
               in if ct \<noteq> '''' then ct else ''application/octet-stream''))"

definition checksum_headers :: "(string \<times> hash_alg) list" where
  "checksum_headers =
     [(''X-Checksum-Sha256'', SHA256), (''X-Checksum-Sha1'', SHA1), (''X-Checksum-Sha512'', SHA512)]"

text \<open>The name of the first malformed header, or the digests to verify.\<close>

fun parse_checksums :: "header \<Rightarrow> (string \<times> hash_alg) list \<Rightarrow> string + expected_digest list" where
  "parse_checksums h [] = Inr []"
| "parse_checksums h ((name, alg) # cs) =
     (let v = trim_space (header_get h name)
      in if v = '''' then parse_checksums h cs
         else case hex_decode v of
           None \<Rightarrow> Inl name
         | Some bytes \<Rightarrow>
             rbind (parse_checksums h cs) (\<lambda>out. Inr (\<lparr>ed_hash = alg, ed_sum = bytes\<rparr> # out)))"

definition parse_checksum_headers :: "header \<Rightarrow> string + expected_digest list" where
  "parse_checksum_headers h = parse_checksums h checksum_headers"

section \<open>The handlers\<close>

text \<open>An error other than \<open>ErrAlreadyExists\<close> ends the request.\<close>

definition h_ensure :: "('b, 'a) act \<Rightarrow> 'b hnd \<Rightarrow> 'b hnd" where
  "h_ensure m k =
     h_try m (\<lambda>e. if e = ErrAlreadyExists then k else h_done (write_store_error e)) (\<lambda>_. k)"

definition meta_or_zero :: "('b, meta) act \<Rightarrow> (meta \<Rightarrow> 'b hnd) \<Rightarrow> 'b hnd" where
  "meta_or_zero m k =
     h_try m (\<lambda>e. if e = ErrNotFound then k zero_meta else h_done (write_store_error e)) k"

definition list_packages :: "'b store \<Rightarrow> string \<Rightarrow> 'b hnd" where
  "list_packages s ns =
     h_store (store_packages s)
       (\<lambda>pkgs. h_done (write_json 200
          (JObject [(''namespace'', JString ns), (''packages'', json_names (map p_name pkgs))])))"

definition get_package :: "generic_env \<Rightarrow> 'b store \<Rightarrow> string \<Rightarrow> 'b hnd" where
  "get_package E s name =
     h_store (pkg_exists s (store_package name))
       (\<lambda>ex. if \<not> ex then h_done (write_error 404 ''package not found'')
        else h_store (pkg_versions s (store_package name))
          (\<lambda>vs. meta_or_zero (pkg_meta s (store_package name))
             (\<lambda>m. h_done (write_json 200 (package_response E name m (map v_name vs))))))"

definition upsert_container ::
  "('b, unit) act \<Rightarrow> (create_option list \<Rightarrow> ('b, 'a) act) \<Rightarrow> annotations \<Rightarrow> ('b, int) act" where
  "upsert_container annotate add ann =
     act_catch (add (if ann \<noteq> [] then [WithAnnotations ann] else []))
       (\<lambda>r. case r of
          Inr _ \<Rightarrow> act_ret 201
        | Inl e \<Rightarrow>
            (if e \<noteq> ErrAlreadyExists then act_fail e
             else if ann \<noteq> [] then act_bind annotate (\<lambda>_. act_ret 200) else act_ret 200))"

definition parse_create :: "generic_env \<Rightarrow> string \<Rightarrow> annotations option" where
  "parse_create E body =
     (case json_unmarshal body of
        None \<Rightarrow> None
      | Some v \<Rightarrow> decode_struct (decode_field False [(''annotations'', decode_any_map (gn_num E))]) v [])"

text \<open>The annotations of a create body, or the response that rejects it.\<close>

definition read_create :: "generic_env \<Rightarrow> request \<Rightarrow> (writer \<Rightarrow> writer) + annotations" where
  "read_create E rq =
     (case read_capped_body create_body_limit (rq_body rq) of
        (body, too_large, e) \<Rightarrow>
          (if too_large then Inl (write_error 413 ''request body too large'')
           else if e \<noteq> None then Inl (write_error 400 ''invalid request body'')
           else if trim_space body = '''' then Inr []
           else case parse_create E body of
             None \<Rightarrow> Inl (write_error 400 ''invalid JSON body'')
           | Some ann \<Rightarrow> Inr ann))"

definition put_package :: "generic_env \<Rightarrow> 'b store \<Rightarrow> request \<Rightarrow> string \<Rightarrow> 'b hnd" where
  "put_package E s rq name =
     (case read_create E rq of
        Inl bad \<Rightarrow> h_done bad
      | Inr ann \<Rightarrow>
          h_store
            (upsert_container (pkg_annotate s (rq_now rq) (store_package name) ann)
               (add_package s (rq_now rq) name) ann)
            (\<lambda>st. h_done (write_json st (json_map [(''name'', JString name)]))))"

definition list_versions :: "'b store \<Rightarrow> string \<Rightarrow> string \<Rightarrow> 'b hnd" where
  "list_versions s ns name =
     h_store (pkg_versions s (store_package name))
       (\<lambda>vs. h_done (write_json 200
          (JObject [(''namespace'', JString ns), (''package'', JString name),
                    (''versions'', json_names (map v_name vs))])))"

definition get_version :: "generic_env \<Rightarrow> 'b store \<Rightarrow> string \<Rightarrow> string \<Rightarrow> 'b hnd" where
  "get_version E s pkg ver =
     (let v = pkg_version (store_package pkg) ver
      in h_store (version_exists s v)
           (\<lambda>ex. if \<not> ex then h_done (write_error 404 ''version not found'')
            else h_store (version_files s v)
              (\<lambda>fs. meta_or_zero (version_meta s v)
                 (\<lambda>m. h_done (write_json 200 (version_response E pkg ver m (map f_name fs)))))))"

definition put_version :: "generic_env \<Rightarrow> 'b store \<Rightarrow> request \<Rightarrow> string \<Rightarrow> string \<Rightarrow> 'b hnd" where
  "put_version E s rq pkg ver =
     (case read_create E rq of
        Inl bad \<Rightarrow> h_done bad
      | Inr ann \<Rightarrow>
          h_ensure (add_package s (rq_now rq) pkg [])
            (h_store
               (upsert_container
                  (version_annotate s (rq_now rq) (pkg_version (store_package pkg) ver) ann)
                  (pkg_add_version s (rq_now rq) (store_package pkg) ver) ann)
               (\<lambda>st. h_done (write_json st
                  (json_map [(''package'', JString pkg), (''version'', JString ver)])))))"

fun files_json ::
  "generic_env \<Rightarrow> 'b store \<Rightarrow> request \<Rightarrow> file_handle list \<Rightarrow> json list \<Rightarrow> (json list \<Rightarrow> 'b hnd) \<Rightarrow> 'b hnd" where
  "files_json E s rq [] out k = k out"
| "files_json E s rq (f # fs) out k =
     h_store (file_meta s (rq_now rq) (rq_now rq) (rq_now rq) f)
       (\<lambda>m. files_json E s rq fs (out @ [file_to_response E (f_name f) m]) k)"

definition list_files :: "generic_env \<Rightarrow> 'b store \<Rightarrow> request \<Rightarrow> string \<Rightarrow> string \<Rightarrow> string \<Rightarrow> 'b hnd" where
  "list_files E s rq ns pkg ver =
     h_store (version_files s (pkg_version (store_package pkg) ver))
       (\<lambda>fs. files_json E s rq fs []
          (\<lambda>out. h_done (write_json 200
             (JObject [(''namespace'', JString ns), (''package'', JString pkg),
                       (''version'', JString ver), (''files'', JArray out)]))))"

definition download_file :: "generic_env \<Rightarrow> 'b store \<Rightarrow> request \<Rightarrow> string \<Rightarrow> string \<Rightarrow> string \<Rightarrow> 'b hnd" where
  "download_file E s rq pkg ver name =
     (let f = new_file s (pkg_version (store_package pkg) ver) name
      in h_store (file_meta s (rq_now rq) (rq_now rq) (rq_now rq) f)
           (\<lambda>m. redirect_or_stream_file s rq f (download_content_type E (f_name f) m)))"

definition upload_options :: "generic_config \<Rightarrow> request \<Rightarrow> expected_digest list \<Rightarrow> create_option list" where
  "upload_options cfg rq expected =
     (let ct = header_get (rq_header rq) ''Content-Type'';
          ct = (if ct = '''' then ''application/octet-stream'' else ct)
      in [WithAnnotations [(ann_content_type, JStr ct)]]
         @ (if expected \<noteq> [] then [WithExpectedDigests expected] else [])
         @ (if gc_allow_overwrite cfg then [WithAllowOverwrite True] else []))"

definition upload_response :: "string \<Rightarrow> string \<Rightarrow> string \<Rightarrow> int \<Rightarrow> string \<Rightarrow> json" where
  "upload_response pkg ver name sz digest =
     JObject ([(''package'', JString pkg), (''version'', JString ver), (''name'', JString name),
               (''size'', JInt sz)] @ omit_empty (digest = '''') ''digest'' (JString digest))"

definition upload_file ::
  "generic_config \<Rightarrow> 'b store \<Rightarrow> request \<Rightarrow> string \<Rightarrow> string \<Rightarrow> string \<Rightarrow> 'b hnd" where
  "upload_file cfg s rq pkg ver name =
     (case parse_checksum_headers (rq_header rq) of
        Inl h \<Rightarrow> h_done (write_error 400 (''invalid '' @ h @ '' header: want lowercase hex''))
      | Inr expected \<Rightarrow>
          h_ensure (add_package s (rq_now rq) pkg [])
            (h_ensure (pkg_add_version s (rq_now rq) (store_package pkg) ver [])
              (h_try
                (version_add_file s (rq_now rq) (pkg_version (store_package pkg) ver) name
                   (with_max_body (generic_upload_limit cfg) (rq_body rq))
                   (upload_options cfg rq expected))
                (\<lambda>e. if e = ErrMaxBytes then h_done (write_error 413 ''upload too large'')
                     else h_done (write_store_error e))
                (\<lambda>f. h_try (file_meta s (rq_now rq) (rq_now rq) (rq_now rq) f)
                   (\<lambda>e. h_done (write_json 201 (upload_response pkg ver name 0 '''')))
                   (\<lambda>m. h_done (write_json 201
                      (upload_response pkg ver name (m_size m) (m_digest m))))))))"

section \<open>Routes\<close>

datatype generic_route =
    GListPackages | GGetPackage | GPutPackage | GListVersions | GGetVersion | GPutVersion
  | GListFiles | GDownload | GUpload

definition generic_routes :: "generic_route route list" where
  "generic_routes =
     (let root = [Wild ''namespace'', Lit ''generic'', Lit ''packages''];
          pkg = root @ [Wild ''package''];
          vers = pkg @ [Lit ''versions''];
          ver = vers @ [Wild ''version''];
          files = ver @ [Lit ''files''];
          file1 = files @ [Wild ''file'']
      in [Route ''GET'' root GListPackages, Route ''GET'' pkg GGetPackage, Route ''PUT'' pkg GPutPackage,
          Route ''GET'' vers GListVersions, Route ''GET'' ver GGetVersion, Route ''PUT'' ver GPutVersion,
          Route ''GET'' files GListFiles, Route ''GET'' file1 GDownload, Route ''PUT'' file1 GUpload])"

fun generic_route_write :: "generic_route \<Rightarrow> bool" where
  "generic_route_write GPutPackage = True"
| "generic_route_write GPutVersion = True"
| "generic_route_write GUpload = True"
| "generic_route_write _ = False"

fun generic_action ::
  "generic_env \<Rightarrow> generic_config \<Rightarrow> 'b store \<Rightarrow> request \<Rightarrow> (string \<times> string) list \<Rightarrow> generic_route \<Rightarrow> 'b hnd" where
  "generic_action E cfg s rq b GListPackages = list_packages s (path_value b ''namespace'')"
| "generic_action E cfg s rq b GGetPackage = get_package E s (path_value b ''package'')"
| "generic_action E cfg s rq b GPutPackage = put_package E s rq (path_value b ''package'')"
| "generic_action E cfg s rq b GListVersions =
     list_versions s (path_value b ''namespace'') (path_value b ''package'')"
| "generic_action E cfg s rq b GGetVersion =
     get_version E s (path_value b ''package'') (path_value b ''version'')"
| "generic_action E cfg s rq b GPutVersion =
     put_version E s rq (path_value b ''package'') (path_value b ''version'')"
| "generic_action E cfg s rq b GListFiles =
     list_files E s rq (path_value b ''namespace'') (path_value b ''package'') (path_value b ''version'')"
| "generic_action E cfg s rq b GDownload =
     download_file E s rq (path_value b ''package'') (path_value b ''version'') (path_value b ''file'')"
| "generic_action E cfg s rq b GUpload =
     upload_file cfg s rq (path_value b ''package'') (path_value b ''version'') (path_value b ''file'')"

text \<open>\<open>store\<close>: the namespace-scoped store; a proxy namespace is refused.\<close>

definition generic_store ::
  "('b, 're) registry \<Rightarrow> request \<Rightarrow> string \<Rightarrow> bool \<Rightarrow> ('b store \<Rightarrow> 'b hnd) \<Rightarrow> ('b, 're, 'x) sv_hnd" where
  "generic_store r rq ns write k =
     open_store r rq ns format_generic (if write then NamespaceDataWrite else NamespaceDataRead)
       (\<lambda>st spec.
          if is_proxy spec then h_done (write_error 501 ''generic proxy mode is not supported'')
          else sv_store st (on_store (k st)))"

definition generic_mux ::
  "generic_env \<Rightarrow> generic_config \<Rightarrow> ('b, 're) registry \<Rightarrow> request \<Rightarrow> ('b, 're, 'x) sv_hnd" where
  "generic_mux E cfg r rq =
     serve_mux generic_routes
       (\<lambda>g b. generic_store r rq (path_value b ''namespace'') (generic_route_write g)
                (\<lambda>st. generic_action E cfg st rq b g)) rq"

text \<open>The format keeps no state of its own: the rest \<open>'x\<close> of the state is untouched.\<close>

definition generic_handler ::
  "generic_env \<Rightarrow> generic_config \<Rightarrow> ('b, 're) registry \<Rightarrow> 'p oidc_lib \<Rightarrow> request
    \<Rightarrow> ('p authn \<times> ('b, 're policy_cache) ns_world \<times> 'x) handler" where
  "generic_handler E cfg r L = auth_middleware (authenticate L) (generic_mux E cfg r)"

end
