(* ===== verification/Upstream.thy ===== *)
theory Upstream
  imports Surface Negcache Proxy_Filter
begin

text \<open>
  The proxies' upstream HTTP client, \<open>pkg/proxy/httpclient/client.go\<close>.  \<open>http.Client.Do\<close> is a
  parameter that maps a method, a URL and the state of the outside world to a response or a
  transport error; its headers are received and its body is read by the program.
\<close>

record upstream_response =
  ur_status :: int
  ur_header :: header
  ur_length :: int
  ur_body :: body

type_synonym 'u upstream = "string \<Rightarrow> string \<Rightarrow> 'u \<Rightarrow> upstream_response res \<times> 'u"

section \<open>The client\<close>

definition default_max_body_bytes :: int where "default_max_body_bytes = 64 * 2 ^ 20"

record http_client = hc_max_body :: int

datatype client_option = WithMaxBodyBytes int

fun apply_client_option :: "client_option \<Rightarrow> http_client \<Rightarrow> http_client" where
  "apply_client_option (WithMaxBodyBytes n) c = (if n > 0 then c\<lparr>hc_max_body := n\<rparr> else c)"

definition new_client :: "client_option list \<Rightarrow> http_client" where
  "new_client opts = fold apply_client_option opts \<lparr>hc_max_body = default_max_body_bytes\<rparr>"

record response =
  rs_status :: int
  rs_body :: string
  rs_header :: header

definition status_ok :: "int \<Rightarrow> bool" where "status_ok st \<longleftrightarrow> 200 \<le> st \<and> st < 300"

definition status_not_found :: "int \<Rightarrow> bool" where "status_not_found st \<longleftrightarrow> st = 404"

definition status_server_error :: "int \<Rightarrow> bool" where "status_server_error st \<longleftrightarrow> 500 \<le> st"

datatype fetch_error = Oversized | FetchFailed err

text \<open>The sum of two \<open>int64\<close> values wraps around.\<close>

definition int64 :: "int \<Rightarrow> int" where
  "int64 i = (i + 2 ^ 63) mod 2 ^ 64 - 2 ^ 63"

text \<open>\<open>io.LimitReader\<close> ends after \<open>n\<close> bytes, at once where \<open>n\<close> is not positive.\<close>

definition limit_reader :: "int \<Rightarrow> body \<Rightarrow> body" where
  "limit_reader n b =
     (if int (length (bd_data b)) < n then b
      else \<lparr>bd_data = take (nat n) (bd_data b), bd_err = None\<rparr>)"

definition read_capped :: "http_client \<Rightarrow> body \<Rightarrow> fetch_error + string" where
  "read_capped c b =
     (let limited = limit_reader (int64 (hc_max_body c + 1)) b
      in case bd_err limited of
           Some e \<Rightarrow> Inl (FetchFailed e)
         | None \<Rightarrow>
             (if int (length (bd_data limited)) > hc_max_body c then Inl Oversized
              else Inr (bd_data limited)))"

definition client_get ::
  "'u upstream \<Rightarrow> http_client \<Rightarrow> string \<Rightarrow> 'u \<Rightarrow> (fetch_error + response) \<times> 'u" where
  "client_get up c url u =
     (case up ''GET'' url u of
        (Inl e, u1) \<Rightarrow> (Inl (FetchFailed e), u1)
      | (Inr resp, u1) \<Rightarrow>
          (case read_capped c (ur_body resp) of
             Inl e \<Rightarrow> (Inl e, u1)
           | Inr body \<Rightarrow> (Inr \<lparr>rs_status = ur_status resp, rs_body = body, rs_header = ur_header resp\<rparr>, u1)))"

definition client_stream :: "'u upstream \<Rightarrow> string \<Rightarrow> 'u \<Rightarrow> upstream_response res \<times> 'u" where
  "client_stream up url u = up ''GET'' url u"

definition client_head :: "'u upstream \<Rightarrow> string \<Rightarrow> 'u \<Rightarrow> response res \<times> 'u" where
  "client_head up url u =
     (case up ''HEAD'' url u of
        (Inl e, u1) \<Rightarrow> (Inl e, u1)
      | (Inr resp, u1) \<Rightarrow>
          (Inr \<lparr>rs_status = ur_status resp, rs_body = '''', rs_header = ur_header resp\<rparr>, u1))"

section \<open>The cap\<close>

lemma int64_id: "- (2 ^ 63) \<le> i \<Longrightarrow> i < 2 ^ 63 \<Longrightarrow> int64 i = i"
  by (simp add: int64_def)

lemma read_capped_spec:
  assumes "0 < hc_max_body c" "hc_max_body c < 2 ^ 63 - 1"
  shows "read_capped c b =
     (if int (length (bd_data b)) > hc_max_body c then Inl Oversized
      else case bd_err b of None \<Rightarrow> Inr (bd_data b) | Some e \<Rightarrow> Inl (FetchFailed e))"
proof -
  have "int64 (hc_max_body c + 1) = hc_max_body c + 1" using assms by (intro int64_id) auto
  then show ?thesis
    using assms by (auto simp: read_capped_def limit_reader_def Let_def split: option.split)
qed

text \<open>At the largest \<open>int64\<close> the cap's successor wraps, and every body reads as empty.\<close>

lemma read_capped_wraps:
  assumes "hc_max_body c = 2 ^ 63 - 1"
  shows "read_capped c b = Inr ''''"
  using assms by (simp add: read_capped_def limit_reader_def int64_def Let_def)

text \<open>An option that is not positive leaves the cap that an earlier option set.\<close>

lemma nonpositive_option_keeps_cap:
  "0 < n \<Longrightarrow> new_client [WithMaxBodyBytes n, WithMaxBodyBytes 0] = \<lparr>hc_max_body = n\<rparr>"
  by (simp add: new_client_def)

text \<open>A buffered fetch is all or nothing: with a cap that options may set below the largest
  \<open>int64\<close>, \<open>Get\<close> returns the upstream's status and exactly its whole body, which is within the
  cap; a longer body is reported as oversized, and a body that breaks off is an error.\<close>

theorem get_whole_body:
  assumes "new_client opts = c" "\<forall>n. WithMaxBodyBytes n \<in> set opts \<longrightarrow> n < 2 ^ 63 - 1"
    and "up ''GET'' url u = (Inr resp, u')"
  shows "(\<forall>r. fst (client_get up c url u) = Inr r \<longleftrightarrow>
            r = \<lparr>rs_status = ur_status resp, rs_body = bd_data (ur_body resp), rs_header = ur_header resp\<rparr>
            \<and> bd_err (ur_body resp) = None \<and> int (length (bd_data (ur_body resp))) \<le> hc_max_body c)
    \<and> (fst (client_get up c url u) = Inl Oversized \<longleftrightarrow> int (length (bd_data (ur_body resp))) > hc_max_body c)"
proof -
  have "0 < hc_max_body c0 \<and> hc_max_body c0 < 2 ^ 63 - 1 \<Longrightarrow> \<forall>n. WithMaxBodyBytes n \<in> set os \<longrightarrow> n < 2 ^ 63 - 1 \<Longrightarrow>
      0 < hc_max_body (fold apply_client_option os c0) \<and> hc_max_body (fold apply_client_option os c0) < 2 ^ 63 - 1" for os c0
  proof (induction os arbitrary: c0)
    case (Cons op os)
    then show ?case by (cases op) auto
  qed simp
  from this [of "\<lparr>hc_max_body = default_max_body_bytes\<rparr>" opts] assms(1,2)
  have "0 < hc_max_body c" "hc_max_body c < 2 ^ 63 - 1"
    by (simp_all add: new_client_def default_max_body_bytes_def)
  from read_capped_spec [OF this, of "ur_body resp"] show ?thesis
    by (auto simp: client_get_def assms(3) split: option.splits)
qed

text \<open>An upstream that answers every request with a short body.\<close>

definition demo_upstream :: "int \<Rightarrow> string \<Rightarrow> unit upstream" where
  "demo_upstream st data m url u =
     (Inr \<lparr>ur_status = st, ur_header = Map.empty, ur_length = int (length data), ur_body = bytes_body data\<rparr>, u)"

theorem get_whole_body_witness:
  "fst (client_get (demo_upstream 200 ''abc'') (new_client [WithMaxBodyBytes 2]) ''u'' ()) = Inl Oversized
    \<and> new_client [WithMaxBodyBytes 2] = \<lparr>hc_max_body = 2\<rparr>"
proof -
  have n: "new_client [WithMaxBodyBytes 2] = \<lparr>hc_max_body = 2\<rparr>" by (simp add: new_client_def)
  have "demo_upstream 200 ''abc'' ''GET'' ''u'' ()
      = (Inr \<lparr>ur_status = 200, ur_header = Map.empty, ur_length = 3, ur_body = bytes_body ''abc''\<rparr>, ())"
    by (simp add: demo_upstream_def)
  from get_whole_body [where up = "demo_upstream 200 ''abc''", OF n _ this] show ?thesis by (simp add: n bytes_body_def)
qed

section \<open>What every proxy keeps\<close>

text \<open>
  A proxy engine's state: the negative cache, and the outside world its requests change.  The
  operations of the cache read the clock of the request.
\<close>

record 'u proxy_state =
  ps_neg :: negcache
  ps_up :: 'u

definition h_neg_has ::
  "request \<Rightarrow> string \<Rightarrow> string \<Rightarrow> string \<Rightarrow> ('w \<times> ('u, 'z) proxy_state_scheme) handler
    \<Rightarrow> ('w \<times> ('u, 'z) proxy_state_scheme) handler \<Rightarrow> ('w \<times> ('u, 'z) proxy_state_scheme) handler" where
  "h_neg_has rq ns fmt key hit miss rw s =
     (case neg_has (rq_now rq) ns fmt key (ps_neg (snd s)) of
        (has, neg) \<Rightarrow> (if has then hit else miss) rw (fst s, (snd s)\<lparr>ps_neg := neg\<rparr>))"

definition h_neg_mark ::
  "request \<Rightarrow> string \<Rightarrow> string \<Rightarrow> string \<Rightarrow> ('w \<times> ('u, 'z) proxy_state_scheme) handler
    \<Rightarrow> ('w \<times> ('u, 'z) proxy_state_scheme) handler" where
  "h_neg_mark rq ns fmt key k rw s =
     k rw (fst s, (snd s)\<lparr>ps_neg := neg_mark (rq_now rq) ns fmt key (ps_neg (snd s))\<rparr>)"

text \<open>A call of the upstream, and a call of the store, by a handler of both.\<close>

definition h_up ::
  "('u \<Rightarrow> 'r \<times> 'u) \<Rightarrow> ('r \<Rightarrow> ('w \<times> ('u, 'z) proxy_state_scheme) handler) \<Rightarrow> ('w \<times> ('u, 'z) proxy_state_scheme) handler" where
  "h_up m k rw s = (case m (ps_up (snd s)) of (x, u) \<Rightarrow> k x rw (fst s, (snd s)\<lparr>ps_up := u\<rparr>))"

definition in_store :: "('b, 'a) act \<Rightarrow> 'b world \<times> 'x \<Rightarrow> 'a res \<times> 'b world \<times> 'x" where
  "in_store m s = (case m (fst s) of (res, w) \<Rightarrow> (res, w, snd s))"

text \<open>A call whose error is logged only.\<close>

definition h_best_effort :: "('s \<Rightarrow> 'a res \<times> 's) \<Rightarrow> 's handler \<Rightarrow> 's handler" where
  "h_best_effort m k = h_try m (\<lambda>e. k) (\<lambda>x. k)"

text \<open>A remembered 404 of the upstream.\<close>

definition h_not_found ::
  "request \<Rightarrow> string \<Rightarrow> string \<Rightarrow> string \<Rightarrow> ('w \<times> ('u, 'z) proxy_state_scheme) handler" where
  "h_not_found rq ns fmt key =
     h_neg_mark rq ns fmt key (h_done (write_store_error ErrNotFound))"

text \<open>An error other than \<open>ErrAlreadyExists\<close> is returned.\<close>

definition act_ensure :: "('b, 'a) act \<Rightarrow> ('b, unit) act" where
  "act_ensure m =
     act_catch m (\<lambda>r. case r of Inr _ \<Rightarrow> act_ret ()
       | Inl e \<Rightarrow> if e = ErrAlreadyExists then act_ret () else act_fail e)"

definition write_typed_bytes :: "string \<Rightarrow> string \<Rightarrow> writer \<Rightarrow> writer" where
  "write_typed_bytes ct data rw = write_bytes data (write_header 200 (header_set ''Content-Type'' ct rw))"

definition write_upstream_unavailable :: "writer \<Rightarrow> writer" where
  "write_upstream_unavailable = write_error 503 ''upstream unavailable''"

definition write_head_ok :: "string \<Rightarrow> writer \<Rightarrow> writer" where
  "write_head_ok ct rw = write_header 200 (header_set ''Content-Type'' ct rw)"

text \<open>
  The end of every format's artifact handler: stream the upstream's answer to the client and into
  the store, remember a 404, and report anything else.
\<close>

definition pull_artifact ::
  "'u upstream \<Rightarrow> request \<Rightarrow> string \<Rightarrow> string \<Rightarrow> string \<Rightarrow> string \<Rightarrow> string
    \<Rightarrow> (body \<Rightarrow> 'w \<times> ('u, 'z) proxy_state_scheme \<Rightarrow> 'a res \<times> 'w \<times> ('u, 'z) proxy_state_scheme)
    \<Rightarrow> (err option \<Rightarrow> err option \<Rightarrow> ('w \<times> ('u, 'z) proxy_state_scheme) handler)
    \<Rightarrow> ('w \<times> ('u, 'z) proxy_state_scheme) handler" where
  "pull_artifact up rq ns fmt key url ct fill k =
     h_up (client_stream up url)
       (\<lambda>res. case res of
          Inl e \<Rightarrow> h_done (write_error 502 ''upstream fetch failed'')
        | Inr resp \<Rightarrow>
            (if status_not_found (ur_status resp) then h_not_found rq ns fmt key
             else if \<not> status_ok (ur_status resp) then h_done (write_error 502 ''upstream unavailable'')
             else tee_stream_to_store rq (ur_body resp) ct (ur_length resp) fill k))"

text \<open>The end of a fill: the parents are recorded once client and store have the whole body.\<close>

definition after_fill :: "('s \<Rightarrow> 'a res \<times> 's) \<Rightarrow> err option \<Rightarrow> err option \<Rightarrow> 's handler" where
  "after_fill rec copy_err fill_err =
     (if copy_err = None \<and> fill_err = None then h_best_effort rec (h_done id) else h_done id)"

end
