(* ===== verification/Maven_Path.thy ===== *)
theory Maven_Path
  imports Upstream Namespace Blob_Properties
begin

text \<open>
  The Maven codec, \<open>pkg/surface/maven/codec.go\<close>: the coordinates in a request path, checksum
  companions and snapshot versions.  An absent checksum algorithm (\<open>checksumNone\<close>) is \<open>None\<close>.
\<close>

definition metadata_file :: string where "metadata_file = ''maven-metadata.xml''"

definition archetype_file :: string where "archetype_file = ''archetype-catalog.xml''"

datatype path_kind = PathArtifact | PathArtifactMetadata | PathVersionMetadata | PathArchetypeCatalog

record maven_path =
  mp_namespace :: string
  mp_kind :: path_kind
  mp_group_path :: "string list"
  mp_group_id :: string
  mp_artifact_id :: string
  mp_package :: string
  mp_version :: string
  mp_file :: string
  mp_checksum :: "hash_alg option"
  mp_target_file :: string

definition segment_char :: "char \<Rightarrow> bool" where
  "segment_char c \<longleftrightarrow> is_lower c \<or> is_upper c \<or> is_digit c \<or> c \<in> set ''._-''"

text \<open>\<open>segmentPattern\<close> accepts one or more of these characters.\<close>

definition validate_maven_segment :: "string \<Rightarrow> err option" where
  "validate_maven_segment seg =
     (if seg = '''' then Some ErrInvalidName
      else if seg = ''.'' \<or> seg = ''..'' then Some ErrInvalidName
      else if has_prefix seg ''.'' then Some ErrInvalidName
      else if \<not> list_all segment_char seg then Some ErrInvalidName
      else None)"

definition unescape_segment :: "string \<Rightarrow> string res" where
  "unescape_segment seg =
     (case path_unescape seg of None \<Rightarrow> Inl ErrInvalidName | Some decoded \<Rightarrow> Inr decoded)"

definition checksum_suffixes :: "(string \<times> hash_alg) list" where
  "checksum_suffixes = [(''.md5'', MD5), (''.sha1'', SHA1), (''.sha256'', SHA256), (''.sha512'', SHA512)]"

fun checksum_name :: "hash_alg \<Rightarrow> string" where
  "checksum_name MD5 = ''md5''"
| "checksum_name SHA1 = ''sha1''"
| "checksum_name SHA256 = ''sha256''"
| "checksum_name SHA512 = ''sha512''"

text \<open>The loop ranges over a Go map: the order of the suffixes is not fixed.\<close>

fun checksum_target_in :: "(string \<times> hash_alg) list \<Rightarrow> string \<Rightarrow> hash_alg option \<times> string" where
  "checksum_target_in [] filename = (None, '''')"
| "checksum_target_in ((sfx, alg) # rest) filename =
     (if has_suffix filename sfx then (Some alg, trim_suffix filename sfx)
      else checksum_target_in rest filename)"

definition checksum_target :: "string \<Rightarrow> hash_alg option \<times> string" where
  "checksum_target = checksum_target_in checksum_suffixes"

definition is_snapshot_version :: "string \<Rightarrow> bool" where
  "is_snapshot_version version = has_suffix (to_upper version) ''-SNAPSHOT''"

definition build_coordinate_path ::
  "string \<Rightarrow> path_kind \<Rightarrow> string list \<Rightarrow> string \<Rightarrow> string \<Rightarrow> string \<Rightarrow> hash_alg option \<Rightarrow> string \<Rightarrow> maven_path res" where
  "build_coordinate_path ns kind grp artifact_id version fname checksum target_file =
     (if grp = [] then Inl ErrInvalidName
      else Inr \<lparr>mp_namespace = ns, mp_kind = kind, mp_group_path = grp, mp_group_id = join ''.'' grp,
                mp_artifact_id = artifact_id, mp_package = join ''/'' (grp @ [artifact_id]),
                mp_version = version, mp_file = fname, mp_checksum = checksum, mp_target_file = target_file\<rparr>)"

definition archetype_path :: "string \<Rightarrow> maven_path" where
  "archetype_path ns =
     \<lparr>mp_namespace = ns, mp_kind = PathArchetypeCatalog, mp_group_path = [], mp_group_id = '''',
      mp_artifact_id = '''', mp_package = '''', mp_version = '''', mp_file = archetype_file,
      mp_checksum = None, mp_target_file = ''''\<rparr>"

text \<open>The part of \<open>parsePath\<close> after the namespace and the root: the coordinate of the segments.\<close>

definition parse_coordinate :: "string \<Rightarrow> string list \<Rightarrow> maven_path res" where
  "parse_coordinate ns segments =
     (if segments = [archetype_file] then Inr (archetype_path ns)
      else if length segments < 3 then Inl ErrInvalidName
      else
        (let n = length segments;
             fname = segments ! (n - 1);
             (checksum, target_file) = checksum_target fname;
             metadata_target = (target_file = metadata_file \<or> fname = metadata_file)
         in if metadata_target \<and> n \<ge> 4 \<and> is_snapshot_version (segments ! (n - 2))
            then build_coordinate_path ns PathVersionMetadata (take (n - 3) segments) (segments ! (n - 3))
                   (segments ! (n - 2)) fname checksum target_file
            else if metadata_target
            then build_coordinate_path ns PathArtifactMetadata (take (n - 2) segments) (segments ! (n - 2))
                   '''' fname checksum target_file
            else if n < 4 then Inl ErrInvalidName
            else build_coordinate_path ns PathArtifact (take (n - 3) segments) (segments ! (n - 3))
                   (segments ! (n - 2)) fname checksum target_file))"

definition maven_parse_path :: "string \<Rightarrow> maven_path res" where
  "maven_parse_path escaped =
     (if \<not> has_prefix escaped ''/'' then Inl ErrInvalidName
      else
        (let raw = split_on CHR ''/'' (trim_prefix escaped ''/'')
         in if length raw < 3 then Inl ErrInvalidName
            else rbind (unescape_segment (raw ! 0)) (\<lambda>ns.
              case ns_validate_name ns of
                Some e \<Rightarrow> Inl e
              | None \<Rightarrow> rbind (unescape_segment (raw ! 1)) (\<lambda>root.
                  if root \<noteq> ''maven2'' then Inl ErrInvalidName
                  else rbind (rmap unescape_segment (drop 2 raw)) (\<lambda>segments.
                    case first_err (map validate_maven_segment segments) of
                      Some e \<Rightarrow> Inl e
                    | None \<Rightarrow> parse_coordinate ns segments)))))"

section \<open>Checksums\<close>

text \<open>The first of \<open>strings.Fields\<close>, empty where there is none.\<close>

fun until_space :: "string \<Rightarrow> string" where
  "until_space [] = []"
| "until_space (c # cs) =
     (if list_ex (\<lambda>r. prefix r (c # cs)) space_runes then [] else c # until_space cs)"

definition first_field :: "string \<Rightarrow> string" where
  "first_field s = until_space (trim_left_runes space_runes s)"

text \<open>\<open>digest\<close> is the hash of an algorithm, from Go's \<open>crypto\<close> packages; \<open>target\<close> is what the
  reader of the target delivers.\<close>

definition verify_checksum :: "(hash_alg \<Rightarrow> string \<Rightarrow> string) \<Rightarrow> hash_alg \<Rightarrow> string \<times> err option \<Rightarrow> string \<Rightarrow> err option" where
  "verify_checksum digest alg target declared =
     (case snd target of
        Some e \<Rightarrow> Some e
      | None \<Rightarrow>
          (let got = hex_encode (digest alg (fst target)); want = first_field declared
           in if want = '''' \<or> \<not> equal_fold got want then Some ErrDigestMismatch else None))"

section \<open>Where a path's file is kept\<close>

definition maven_level :: "maven_path \<Rightarrow> level" where
  "maven_level p =
     (case mp_kind p of
        PathArchetypeCatalog \<Rightarrow> LStore
      | PathArtifactMetadata \<Rightarrow> LPkg (mp_package p)
      | _ \<Rightarrow> LVer (mp_package p) (mp_version p))"

fun level_segments :: "level \<Rightarrow> string list" where
  "level_segments LStore = []"
| "level_segments (LPkg q) = split_on CHR ''/'' q"
| "level_segments (LVer q v) = split_on CHR ''/'' q @ [v]"

lemma segments_split:
  assumes "length xs = n" "2 \<le> n"
  shows "xs = take (n - 2) xs @ [xs ! (n - 2), xs ! (n - 1)]"
proof -
  have "drop (n - 2) xs = xs ! (n - 2) # xs ! (n - 1) # []"
    using assms Cons_nth_drop_Suc [of "n - 2" xs] Cons_nth_drop_Suc [of "n - 1" xs]
    by (simp add: Suc_diff_Suc numeral_2_eq_2)
  then show ?thesis by (metis append_take_drop_id)
qed

lemma take_step: "i < length xs \<Longrightarrow> take i xs @ [xs ! i] = take (Suc i) xs"
  by (simp add: take_Suc_conv_app_nth)

lemma parse_coordinate_segments:
  assumes "parse_coordinate ns segs = Inr p" "\<And>s. s \<in> set segs \<Longrightarrow> CHR ''/'' \<notin> set s"
  shows "level_segments (maven_level p) @ [mp_file p] = segs"
proof -
  let ?n = "length segs"
  have split: "split_on CHR ''/'' (join ''/'' (take (Suc i) segs)) = take (Suc i) segs" if "segs \<noteq> []" for i
    using split_on_join [of "take (Suc i) segs" "CHR ''/''"] assms(2) that by (auto dest: in_set_takeD)
  from assms(1) consider "segs = [archetype_file]" "p = archetype_path ns"
    | "3 \<le> ?n" "mp_kind p = PathArtifactMetadata" "mp_package p = join ''/'' (take (?n - 2) segs @ [segs ! (?n - 2)])"
      "mp_file p = segs ! (?n - 1)"
    | "4 \<le> ?n" "mp_kind p \<in> {PathArtifact, PathVersionMetadata}"
      "mp_package p = join ''/'' (take (?n - 3) segs @ [segs ! (?n - 3)])"
      "mp_version p = segs ! (?n - 2)" "mp_file p = segs ! (?n - 1)"
    by (auto simp: parse_coordinate_def build_coordinate_path_def Let_def split: if_splits prod.splits)
  then show ?thesis
  proof cases
    case 1
    then show ?thesis by (simp add: archetype_path_def maven_level_def)
  next
    case 2
    moreover have "Suc (?n - 2) = ?n - 1" using 2 by simp
    ultimately have "level_segments (maven_level p) = take (?n - 1) segs"
      using split [of "?n - 2"] take_step [of "?n - 2" segs] by (cases segs) (auto simp: maven_level_def)
    with 2 take_step [of "?n - 1" segs] show ?thesis by (cases segs) auto
  next
    case 3
    moreover have "Suc (?n - 3) = ?n - 2" using 3 by simp
    ultimately have "level_segments (maven_level p) = take (?n - 2) segs @ [segs ! (?n - 2)]"
      using split [of "?n - 3"] take_step [of "?n - 3" segs] by (cases segs) (auto simp: maven_level_def)
    with 3 segments_split [of segs ?n] show ?thesis by simp
  qed
qed

lemma maven_segment_valid:
  assumes "validate_maven_segment s = None"
  shows "valid_name s" "CHR ''/'' \<notin> set s"
proof -
  have "\<not> segment_char (CHR ''/'')" by code_simp
  with assms show "valid_name s" "CHR ''/'' \<notin> set s"
    by (auto simp: validate_maven_segment_def validate_name_def list_all_iff split: if_splits)
qed

text \<open>What the parser accepts: the decoded segments after the root.\<close>

lemma maven_parse_path_Inr:
  assumes "maven_parse_path e = Inr p"
  obtains segs where "parse_coordinate (mp_namespace p) segs = Inr p" "ns_validate_name (mp_namespace p) = None"
    "rmap unescape_segment (drop 2 (split_on CHR ''/'' (trim_prefix e ''/''))) = Inr segs"
    "\<And>s. s \<in> set segs \<Longrightarrow> validate_maven_segment s = None"
proof -
  from assms obtain ns segs where c: "parse_coordinate ns segs = Inr p" "ns_validate_name ns = None"
    "rmap unescape_segment (drop 2 (split_on CHR ''/'' (trim_prefix e ''/''))) = Inr segs"
    "first_err (map validate_maven_segment segs) = None"
    by (auto simp: maven_parse_path_def rbind_eq_Inr_conv Let_def split: if_splits option.splits)
  have "mp_namespace p = ns"
    using c(1) by (auto simp: parse_coordinate_def build_coordinate_path_def archetype_path_def Let_def
        split: if_splits prod.splits)
  with c show ?thesis by (intro that [of segs]) (auto simp: first_err_eq_None)
qed

text \<open>The order in which Go ranges over the suffixes does not matter: at most one fits.\<close>

lemma one_checksum_suffix:
  assumes "(s, a) \<in> set checksum_suffixes" "(s', a') \<in> set checksum_suffixes" "has_suffix f s" "has_suffix f s'"
  shows "(s, a) = (s', a')"
proof -
  have "suffix s s' \<or> suffix s' s"
    using assms(3,4) suffix_same_cases [of s f s'] by (auto simp: has_suffix_def)
  moreover have "list_all (\<lambda>(x, a). list_all (\<lambda>(y, b). suffix x y \<longrightarrow> (x, a) = (y, b)) checksum_suffixes) checksum_suffixes"
    by code_simp
  ultimately show ?thesis using assms(1,2) by (auto simp: list_all_iff)
qed

lemma checksum_target_in_fit:
  assumes "set sfx \<subseteq> set checksum_suffixes" "(s, a) \<in> set sfx" "has_suffix f s"
  shows "checksum_target_in sfx f = (Some a, trim_suffix f s)"
  using assms(1,2)
proof (induction sfx)
  case (Cons x xs)
  obtain s' a' where x: "x = (s', a')" by (cases x)
  with Cons one_checksum_suffix [of s' a' s a f] assms(3) show ?case by (auto split: if_splits)
qed simp

lemma checksum_target_in_unfit:
  "\<forall>(s, a) \<in> set sfx. \<not> has_suffix f s \<Longrightarrow> checksum_target_in sfx f = (None, '''')"
  by (induction sfx) auto

lemma checksum_target_order:
  assumes "set sfx = set checksum_suffixes"
  shows "checksum_target_in sfx f = checksum_target f"
proof (cases "\<exists>(s, a) \<in> set checksum_suffixes. has_suffix f s")
  case True
  then obtain s a where "(s, a) \<in> set checksum_suffixes" "has_suffix f s" by blast
  then show ?thesis
    unfolding checksum_target_def using assms checksum_target_in_fit [of _ s a f] by simp
next
  case False
  then have "\<forall>(s, a) \<in> set checksum_suffixes. \<not> has_suffix f s" by blast
  then show ?thesis
    unfolding checksum_target_def using assms checksum_target_in_unfit [of _ f] by metis
qed

lemma checksum_target_cases:
  assumes "checksum_target f = (Some alg, t)"
  obtains s where "(s, alg) \<in> set checksum_suffixes" "f = t @ s"
  using assms
  by (auto simp: checksum_target_def checksum_suffixes_def trim_suffix_def has_suffix_def suffix_def split: if_splits)

lemma parse_coordinate_checksum:
  "parse_coordinate ns segs = Inr p \<Longrightarrow> mp_checksum p \<noteq> None
    \<Longrightarrow> checksum_target (mp_file p) = (mp_checksum p, mp_target_file p)"
  by (auto simp: parse_coordinate_def build_coordinate_path_def archetype_path_def Let_def split: if_splits prod.splits)

lemma join_hd: "xs \<noteq> [] \<Longrightarrow> hd xs \<noteq> [] \<Longrightarrow> join sep xs \<noteq> [] \<and> hd (join sep xs) = hd (hd xs)"
  by (cases xs rule: list.exhaust, simp, rename_tac y ys, case_tac ys) auto

lemma level_names_valid:
  assumes "\<And>s. s \<in> set (level_segments l @ [n]) \<Longrightarrow> valid_name s"
  shows "list_all (\<lambda>n. valid_name n) (level_names l @ [n])"
proof -
  have "valid_name q" if "\<And>s. s \<in> set (split_on CHR ''/'' q) \<Longrightarrow> valid_name s" for q
    using join_hd [of "split_on CHR ''/'' q" "''/''"] that [OF hd_in_set [OF split_on_nonempty]]
    by (simp add: join_split_on valid_name_iff)
  with assms show ?thesis by (cases l) (auto simp: list_all_iff)
qed

text \<open>C31: what the parser accepts can be stored: every name that the handler derives from an accepted
  path is a valid name of the store, the target of a checksum companion's included.\<close>

theorem maven_accepted_names_valid:
  assumes "maven_parse_path e = Inr p"
  shows "ns_validate_name (mp_namespace p) = None
    \<and> list_all (\<lambda>n. valid_name n) (level_names (maven_level p) @ [mp_file p])
    \<and> (mp_checksum p \<noteq> None \<longrightarrow> valid_name (mp_target_file p))"
proof -
  from maven_parse_path_Inr [OF assms] obtain segs where c: "parse_coordinate (mp_namespace p) segs = Inr p"
    "ns_validate_name (mp_namespace p) = None" "\<And>s. s \<in> set segs \<Longrightarrow> validate_maven_segment s = None" by metis
  note v = maven_segment_valid [OF c(3)]
  have segs: "level_segments (maven_level p) @ [mp_file p] = segs"
    by (rule parse_coordinate_segments [OF c(1) v(2)])
  have names: "list_all (\<lambda>n. valid_name n) (level_names (maven_level p) @ [mp_file p])"
    by (rule level_names_valid) (use segs v(1) in auto)
  have "valid_name (mp_target_file p)" if sum: "mp_checksum p \<noteq> None"
  proof -
    from sum obtain alg where a: "checksum_target (mp_file p) = (Some alg, mp_target_file p)"
      using parse_coordinate_checksum [OF c(1)] by auto
    from checksum_target_cases [OF a] obtain s where "(s, alg) \<in> set checksum_suffixes" "mp_file p = mp_target_file p @ s"
      by blast
    moreover from this(1) have "hd s = CHR ''.''" by (auto simp: checksum_suffixes_def)
    moreover have "valid_name (mp_file p)" using names by simp
    ultimately show ?thesis by (cases "mp_target_file p") (auto simp: valid_name_iff)
  qed
  with c(2) names show ?thesis by blast
qed

text \<open>Two requests of a namespace share a stored file only if they name the same coordinate in the
  same way: the level and the file name determine every part of the parsed path.\<close>

theorem maven_locations_distinct:
  assumes "maven_parse_path e = Inr p" "maven_parse_path e' = Inr p'" "mp_namespace p = mp_namespace p'"
    and "file_object (maven_level p) (mp_file p) = file_object (maven_level p') (mp_file p')"
  shows "p = p'"
proof -
  from maven_parse_path_Inr [OF assms(1)] obtain segs where c: "parse_coordinate (mp_namespace p) segs = Inr p"
    "\<And>s. s \<in> set segs \<Longrightarrow> validate_maven_segment s = None" by metis
  from maven_parse_path_Inr [OF assms(2)] obtain segs' where c': "parse_coordinate (mp_namespace p') segs' = Inr p'"
    "\<And>s. s \<in> set segs' \<Longrightarrow> validate_maven_segment s = None" by metis
  have "level_segments (maven_level p) @ [mp_file p] = segs"
    by (rule parse_coordinate_segments [OF c(1) maven_segment_valid(2) [OF c(2)]])
  moreover have "level_segments (maven_level p') @ [mp_file p'] = segs'"
    by (rule parse_coordinate_segments [OF c'(1) maven_segment_valid(2) [OF c'(2)]])
  moreover have "maven_level p = maven_level p'" "mp_file p = mp_file p'" using assms(4) by simp_all
  ultimately have "segs = segs'" by metis
  then have "parse_coordinate (mp_namespace p) segs = Inr p'" using c'(1) assms(3) by metis
  then show ?thesis using c(1) by (metis sum.inject(2))
qed

text \<open>The keys of the negative cache do not identify paths: coordinates with different groups share one.\<close>

lemma demo_maven_paths:
  "maven_parse_path ''/n/maven2/a.b/x/1/f.jar'' = Inr
     \<lparr>mp_namespace = ''n'', mp_kind = PathArtifact, mp_group_path = [''a.b''], mp_group_id = ''a.b'',
      mp_artifact_id = ''x'', mp_package = ''a.b/x'', mp_version = ''1'', mp_file = ''f.jar'',
      mp_checksum = None, mp_target_file = ''''\<rparr>"
  "maven_parse_path ''/n/maven2/a/b/x/1/f.jar.sha1'' = Inr
     \<lparr>mp_namespace = ''n'', mp_kind = PathArtifact, mp_group_path = [''a'', ''b''], mp_group_id = ''a.b'',
      mp_artifact_id = ''x'', mp_package = ''a/b/x'', mp_version = ''1'', mp_file = ''f.jar.sha1'',
      mp_checksum = Some SHA1, mp_target_file = ''f.jar''\<rparr>"
  by code_simp+

theorem maven_accepted_names_valid_witness:
  "\<exists>p. maven_parse_path ''/n/maven2/a/b/x/1/f.jar.sha1'' = Inr p \<and> valid_name (mp_target_file p)"
  using maven_accepted_names_valid [OF demo_maven_paths(2)] demo_maven_paths(2) by simp

theorem maven_locations_distinct_witness:
  "\<exists>p. maven_parse_path ''/n/maven2/a.b/x/1/f.jar'' = Inr p \<and> p = p"
  using maven_locations_distinct [OF demo_maven_paths(1) demo_maven_paths(1)] demo_maven_paths(1) by simp

end
