(* ===== verification/Proxy_Plane.thy ===== *)
theory Proxy_Plane
  imports Upstream Data_Plane
begin

text \<open>
  The frame rules for handlers that also call an upstream, and what a format's surface may change:
  a hosted namespace for its writers, and the cache of a proxy namespace for its readers.
\<close>

section \<open>Frames of actions\<close>

lemma act_pres_ret [h_intros]: "act_pres P (act_ret x)" "act_pres P (act_fail e)" "act_pres P (act_check c)"
  by (cases c; simp add: act_pres_def act_ret_def act_fail_def)+

lemma act_pres_bind [h_intros]:
  assumes "act_pres P m" "\<And>x. act_pres P (f x)"
  shows "act_pres P (act_bind m f)"
  unfolding act_pres_def
proof (intro allI impI)
  fix w
  assume "P w"
  obtain res w1 where m: "m w = (res, w1)" by (metis prod.collapse)
  with act_presD [OF assms(1) m \<open>P w\<close>] assms(2) show "P (after (act_bind m f) w)"
    by (cases res) (auto simp: act_bind_def act_pres_def)
qed

lemma act_pres_catch [h_intros]:
  assumes "act_pres P m" "\<And>x. act_pres P (f x)"
  shows "act_pres P (act_catch m f)"
  using assms by (simp add: act_pres_def act_catch_def split: prod.split) (metis snd_conv)

lemma act_pres_case_sum [h_intros]:
  "(\<And>e. act_pres P (f e)) \<Longrightarrow> (\<And>x. act_pres P (g x)) \<Longrightarrow> act_pres P (case r of Inl e \<Rightarrow> f e | Inr x \<Rightarrow> g x)"
  by (cases r) simp_all

lemma act_pres_case_option [h_intros]:
  "act_pres P f \<Longrightarrow> (\<And>x. act_pres P (g x)) \<Longrightarrow> act_pres P (case r of None \<Rightarrow> f | Some x \<Rightarrow> g x)"
  by (cases r) simp_all

lemma act_pres_prod [h_intros]: "(\<And>x y. act_pres P (f x y)) \<Longrightarrow> act_pres P (case p of (x, y) \<Rightarrow> f x y)"
  by (cases p) simp

lemma act_pres_if [h_intros]: "act_pres P a \<Longrightarrow> act_pres P b \<Longrightarrow> act_pres P (if c then a else b)"
  by simp

lemma act_pres_in_store [h_intros]: "act_pres P m \<Longrightarrow> act_pres (\<lambda>u. P (fst u)) (in_store m)"
  by (simp add: act_pres_def in_store_def split: prod.split) (metis snd_conv)

lemma act_pres_ensure [h_intros]: "act_pres P m \<Longrightarrow> act_pres P (act_ensure m)"
  unfolding act_ensure_def by (intro h_intros)

section \<open>Frames of handlers\<close>

lemma h_pres_case_sum [h_intros]:
  "(\<And>e. r = Inl e \<Longrightarrow> h_pres P (f e)) \<Longrightarrow> (\<And>x. r = Inr x \<Longrightarrow> h_pres P (g x)) \<Longrightarrow> h_pres P (case r of Inl e \<Rightarrow> f e | Inr x \<Rightarrow> g x)"
  by (cases r) simp_all

lemma h_pres_case_option [h_intros]:
  "h_pres P f \<Longrightarrow> (\<And>x. h_pres P (g x)) \<Longrightarrow> h_pres P (case r of None \<Rightarrow> f | Some x \<Rightarrow> g x)"
  by (cases r) simp_all

lemma h_pres_case_fetch [h_intros]:
  "h_pres P f \<Longrightarrow> (\<And>x. h_pres P (g x)) \<Longrightarrow> h_pres P (case r of Oversized \<Rightarrow> f | FetchFailed x \<Rightarrow> g x)"
  by (cases r) simp_all

lemma h_pres_best_effort [h_intros]: "act_pres P m \<Longrightarrow> h_pres P k \<Longrightarrow> h_pres P (h_best_effort m k)"
  unfolding h_best_effort_def by (intro h_intros)

lemma h_pres_neg_has [h_intros]:
  "h_pres (\<lambda>u. P (fst u)) hit \<Longrightarrow> h_pres (\<lambda>u. P (fst u)) miss
    \<Longrightarrow> h_pres (\<lambda>u. P (fst u)) (h_neg_has rq ns fmt key hit miss)"
  by (auto simp: h_pres_def h_neg_has_def split: prod.split)

lemma h_pres_neg_mark [h_intros]:
  "h_pres (\<lambda>u. P (fst u)) k \<Longrightarrow> h_pres (\<lambda>u. P (fst u)) (h_neg_mark rq ns fmt key k)"
  by (auto simp: h_pres_def h_neg_mark_def)

lemma h_pres_up [h_intros]:
  "(\<And>x u u'. m u = (x, u') \<Longrightarrow> h_pres (\<lambda>u. P (fst u)) (k x)) \<Longrightarrow> h_pres (\<lambda>u. P (fst u)) (h_up m k)"
  by (auto simp: h_pres_def h_up_def split: prod.split)

lemmas h_pres_tee_fill [h_intros] = h_pres_tee

section \<open>What a surface may change\<close>

lemma recent_lookup:
  assumes "recent_spec r ttl b (now_lookup rq ns' fmt # es) now ns sp"
  shows "recent_spec r ttl b es now ns sp"
proof -
  have "recent_bucket r ttl b es now ns b'" if b': "recent_bucket r ttl b (now_lookup rq ns' fmt # es) now ns b'" for b'
    using b' [unfolded recent_bucket_def]
  proof (elim disjE exE conjE)
    assume "b' = nw_bucket (reg_run r ttl b (now_lookup rq ns' fmt # es))"
    then show ?thesis unfolding recent_bucket_def lookup_bucket by simp
  next
    fix newer older u1 u2 t0 f
    assume *: "now_lookup rq ns' fmt # es = newer @ RLookup u1 u2 t0 ns f # older" "now < t0 + ttl"
      "b' = nw_bucket (reg_run r ttl b older)"
      "unchanged_since r ttl b ns (RLookup u1 u2 t0 ns f # older) newer"
    show ?thesis
    proof (cases newer)
      case Nil
      with * show ?thesis by (simp add: recent_bucket_def)
    next
      case (Cons ev newer')
      with * show ?thesis unfolding recent_bucket_def by auto
    qed
  qed
  with assms show ?thesis unfolding recent_spec_def by blast
qed

text \<open>The key is an object of the namespace's format.\<close>

definition in_tenant :: "('b, 're) registry \<Rightarrow> string \<Rightarrow> string \<Rightarrow> string \<Rightarrow> bool" where
  "in_tenant r ns fmt key \<longleftrightarrow> prefix (scope_prefix (scope_of (rg_prefix r) ns fmt)) key"

text \<open>A hosted namespace that was recently declared to let the identity write.\<close>

definition hosted_writer ::
  "('b, 're) registry \<Rightarrow> int \<Rightarrow> 'b \<Rightarrow> 'b reg_event list \<Rightarrow> request \<Rightarrow> string \<Rightarrow> bool" where
  "hosted_writer r ttl b es rq ns \<longleftrightarrow>
     (\<exists>sp. recent_spec r ttl b es (rq_now rq) ns sp \<and> \<not> is_proxy sp \<and> may_write r rq sp)"

text \<open>A namespace recently declared a proxy, and recently declared to let the identity read.\<close>

definition proxy_reader ::
  "('b, 're) registry \<Rightarrow> int \<Rightarrow> 'b \<Rightarrow> 'b reg_event list \<Rightarrow> request \<Rightarrow> string \<Rightarrow> bool" where
  "proxy_reader r ttl b es rq ns \<longleftrightarrow>
     (\<exists>sp. recent_spec r ttl b es (rq_now rq) ns sp \<and> is_proxy sp)
     \<and> (\<exists>sp. recent_spec r ttl b es (rq_now rq) ns sp \<and> may_read r rq sp)"

lemma changes_hosted:
  assumes "hnd_safe st plain_op h" "blob_bucket (st_ops (rg_store r)) objs"
    and "st_ops st = st_ops (rg_store r)" "st_scope st = scope_of (rg_prefix r) ns fmt"
    and "recent_spec r ttl b es (rq_now rq) ns sp" "\<not> is_proxy sp" "guard_verdict st True = None \<Longrightarrow> may_write r rq sp"
    and "\<And>key. hosted_writer r ttl b es rq ns \<Longrightarrow> in_tenant r ns fmt key \<Longrightarrow> Q key"
  shows "changes_at objs s Q (sv_store st h)"
  by (rule changes_write [OF assms(1)])
    (use assms(2-) in \<open>auto simp: hosted_writer_def in_tenant_def\<close>)

text \<open>A proxy's handler behind both lookups.\<close>

lemma changes_proxy:
  fixes r :: "('b, 're) registry" and h :: "'b store \<Rightarrow> ('b world \<times> 'x) handler"
  assumes "ct_hooks (rg_catalog r) = [policy_invalidate]" "blob_bucket (st_ops (rg_store r)) objs"
    and "\<And>pst. hnd_safe pst ok (h pst)"
    and "recent_spec r ttl b es (rq_now rq) ns sp" "is_proxy sp"
    and "\<And>key. proxy_reader r ttl b es rq ns \<Longrightarrow> in_tenant r ns fmt key \<Longrightarrow> Q key"
  shows "changes_at objs (reg_run r ttl b (now_lookup rq ns fmt # es), x) Q
    (open_proxy_store r rq ns fmt (\<lambda>pst. sv_store pst (h pst)))"
proof (rule changes_open_proxy [OF assms(1)])
  fix pst :: "'b store" and spec
  assume p: "recent_spec r ttl b (now_lookup rq ns fmt # es) (rq_now rq) ns spec" "may_read r rq spec"
    "st_scope pst = scope_of (rg_prefix r) ns fmt" "st_ops pst = st_ops (rg_store r)"
  show "changes_at objs (reg_run r ttl b (now_lookup rq ns fmt # now_lookup rq ns fmt # es), x) Q (sv_store pst (h pst))"
    by (rule changes_any [OF assms(3)])
      (use p assms(2,4-) recent_lookup [OF p(1)] in \<open>auto simp: proxy_reader_def in_tenant_def\<close>)
qed

lemmas c_proxy = changes_done changes_if changes_open_store changes_proxy

end
