(* ===== verification/Maven.thy ===== *)
theory Maven
  imports Maven_Path Proxy_Plane
begin

text \<open>
  The Maven surface, \<open>handler.go\<close> and \<open>proxy.go\<close> of \<open>pkg/surface/maven\<close>: hosted uploads and
  downloads, and the pull-through proxy.  The hash functions, the layouts of times and the XML
  decoding of the metadata's \<open>lastUpdated\<close> are parameters.
\<close>

record maven_config =
  mc_max_upload :: int
  mc_allow_overwrite :: bool
  mc_proxy_metadata_max :: int
  mc_proxy_negative_ttl :: int

record maven_env =
  mv_digest :: "hash_alg \<Rightarrow> string \<Rightarrow> string"
  mv_time :: "int \<Rightarrow> string"
  mv_last_updated :: "string \<Rightarrow> string option"
  mv_parse_time :: "string \<Rightarrow> int option"
  mv_parse_dur :: "string \<Rightarrow> int option"

definition maven_default_max_upload :: int where "maven_default_max_upload = 100 * 2 ^ 20"

definition maven_default_metadata_max :: int where "maven_default_metadata_max = 32 * 2 ^ 20"

definition maven_upload_limit :: "maven_config \<Rightarrow> int" where
  "maven_upload_limit c = (if mc_max_upload c \<le> 0 then maven_default_max_upload else mc_max_upload c)"

definition maven_metadata_max :: "maven_config \<Rightarrow> int" where
  "maven_metadata_max c =
     (if mc_proxy_metadata_max c \<le> 0 then maven_default_metadata_max else mc_proxy_metadata_max c)"

section \<open>Locations in the store\<close>

definition maven_file :: "'b store \<Rightarrow> maven_path \<Rightarrow> string \<Rightarrow> file_handle" where
  "maven_file s p name =
     (case mp_kind p of
        PathArchetypeCatalog \<Rightarrow> new_store_file s name
      | PathArtifactMetadata \<Rightarrow> new_package_file s (store_package (mp_package p)) name
      | _ \<Rightarrow> new_file s (pkg_version (store_package (mp_package p)) (mp_version p)) name)"

definition maven_add_file ::
  "'b store \<Rightarrow> int \<Rightarrow> maven_path \<Rightarrow> body \<Rightarrow> create_option list \<Rightarrow> ('b, file_handle) act" where
  "maven_add_file s now p b opts =
     (case mp_kind p of
        PathArchetypeCatalog \<Rightarrow> store_add_file s now (mp_file p) b opts
      | PathArtifactMetadata \<Rightarrow> pkg_add_file s now (store_package (mp_package p)) (mp_file p) b opts
      | _ \<Rightarrow> version_add_file s now (pkg_version (store_package (mp_package p)) (mp_version p)) (mp_file p) b opts)"

lemma maven_file_level: "maven_file s p name = level_file s (maven_level p) name"
  by (simp add: maven_file_def maven_level_def split: path_kind.split)

section \<open>Hosted uploads\<close>

definition maven_package_annotations :: "maven_path \<Rightarrow> annotations" where
  "maven_package_annotations p =
     [(''maven:artifact_id'', JStr (mp_artifact_id p)), (''maven:group_id'', JStr (mp_group_id p))]"

definition maven_ensure_parents :: "'b store \<Rightarrow> int \<Rightarrow> maven_path \<Rightarrow> ('b, unit) act" where
  "maven_ensure_parents s now p =
     (if mp_kind p = PathArchetypeCatalog then act_ret ()
      else act_bind
        (act_ensure (add_package s now (mp_package p) [WithAnnotations (maven_package_annotations p)]))
        (\<lambda>_. if mp_kind p = PathArtifactMetadata then act_ret ()
           else act_ensure (pkg_add_version s now (store_package (mp_package p)) (mp_version p)
                  [WithAnnotations [(''maven:version'', JStr (mp_version p))]])))"

definition maven_upload_annotations :: "maven_env \<Rightarrow> maven_path \<Rightarrow> int \<Rightarrow> annotations" where
  "maven_upload_annotations E p now =
     [(''maven:file'', JStr (mp_file p)), (''maven:uploaded_at'', JStr (mv_time E now))]
     @ (if mp_group_id p \<noteq> '''' then [(''maven:group_id'', JStr (mp_group_id p))] else [])
     @ (if mp_artifact_id p \<noteq> '''' then [(''maven:artifact_id'', JStr (mp_artifact_id p))] else [])
     @ (case mp_checksum p of
          None \<Rightarrow> []
        | Some alg \<Rightarrow> [(''maven:checksum'', JStr (checksum_name alg)),
                       (''maven:checksum_target'', JStr (mp_target_file p))])"

definition maven_allow_overwrite :: "maven_config \<Rightarrow> maven_path \<Rightarrow> bool" where
  "maven_allow_overwrite cfg p \<longleftrightarrow> mc_allow_overwrite cfg \<or> is_snapshot_version (mp_version p)"

text \<open>The body, or the response that rejects it.\<close>

definition maven_read_upload_body :: "maven_config \<Rightarrow> request \<Rightarrow> (writer \<Rightarrow> writer) + string" where
  "maven_read_upload_body cfg rq =
     (let b = with_max_body (maven_upload_limit cfg) (rq_body rq)
      in case bd_err b of
           None \<Rightarrow> Inr (bd_data b)
         | Some e \<Rightarrow>
             (if e = ErrMaxBytes then Inl (write_error 413 ''upload too large'')
              else Inl (write_error 400 ''invalid upload body'')))"

text \<open>The error of a reader that breaks off is some backend's.\<close>

definition maven_verify_upload ::
  "maven_env \<Rightarrow> 'b store \<Rightarrow> maven_path \<Rightarrow> hash_alg \<Rightarrow> string \<Rightarrow> ('b, unit) act" where
  "maven_verify_upload E s p alg data =
     act_bind (file_read s (maven_file s p (mp_target_file p)))
       (\<lambda>(target, broken).
          act_check (verify_checksum (mv_digest E) alg (target, map_option ErrBackend broken) data))"

definition h_check :: "('b, unit) act \<Rightarrow> (err \<Rightarrow> writer \<Rightarrow> writer) \<Rightarrow> 'b hnd \<Rightarrow> 'b hnd" where
  "h_check m bad k = h_try m (\<lambda>e. h_done (bad e)) (\<lambda>_. k)"

definition maven_store_upload ::
  "maven_env \<Rightarrow> maven_config \<Rightarrow> 'b store \<Rightarrow> request \<Rightarrow> maven_path \<Rightarrow> string \<Rightarrow> 'b hnd" where
  "maven_store_upload E cfg s rq p data =
     h_check (maven_ensure_parents s (rq_now rq) p) write_store_error
       (h_try
          (maven_add_file s (rq_now rq) p (bytes_body data)
             ([WithAnnotations (maven_upload_annotations E p (rq_now rq))]
              @ (if maven_allow_overwrite cfg p then [WithAllowOverwrite True] else [])))
          (\<lambda>e. h_done (write_store_error e))
          (\<lambda>_. h_done (\<lambda>rw. write_bytes (''uploaded'' @ [CHR 0x0A])
             (write_header 201 (header_set ''Content-Type'' ''text/plain; charset=utf-8'' rw)))))"

definition maven_hosted_upload ::
  "maven_env \<Rightarrow> maven_config \<Rightarrow> 'b store \<Rightarrow> request \<Rightarrow> maven_path \<Rightarrow> 'b hnd" where
  "maven_hosted_upload E cfg s rq p =
     (case maven_read_upload_body cfg rq of
        Inl bad \<Rightarrow> h_done bad
      | Inr data \<Rightarrow>
          (case mp_checksum p of
             None \<Rightarrow> maven_store_upload E cfg s rq p data
           | Some alg \<Rightarrow>
               h_check (maven_verify_upload E s p alg data)
                 (\<lambda>e. if e = ErrNotFound then write_error 409 ''checksum target not found''
                      else write_store_error e)
                 (maven_store_upload E cfg s rq p data)))"

definition maven_upload ::
  "maven_env \<Rightarrow> maven_config \<Rightarrow> ('b, 're) registry \<Rightarrow> request \<Rightarrow> ('b, 're, 'x) sv_hnd" where
  "maven_upload E cfg r rq =
     (case maven_parse_path (rq_escaped_path rq) of
        Inl e \<Rightarrow> h_done (write_store_error e)
      | Inr p \<Rightarrow>
          open_store r rq (mp_namespace p) format_maven NamespaceDataWrite
            (\<lambda>st spec.
               if is_proxy spec then h_done (write_method_not_allowed [''GET'', ''HEAD''])
               else sv_store st (on_store (maven_hosted_upload E cfg st rq p))))"

definition maven_content_type :: "maven_path \<Rightarrow> string" where
  "maven_content_type p =
     (if mp_file p = metadata_file \<or> mp_file p = archetype_file then ''application/xml''
      else ''application/octet-stream'')"

section \<open>The proxy\<close>

definition upstream_base :: "spec \<Rightarrow> string" where
  "upstream_base sp = trim_right_slash (px_upstream (sp_proxy sp))"

definition coordinate_path :: "maven_path \<Rightarrow> string" where
  "coordinate_path p =
     join ''/'' (mp_group_path p @ [mp_artifact_id p]
       @ (if mp_version p \<noteq> '''' then [mp_version p] else []) @ [mp_file p])"

definition maven_upstream_url :: "spec \<Rightarrow> maven_path \<Rightarrow> string" where
  "maven_upstream_url sp p = upstream_base sp @ ''/'' @ coordinate_path p"

definition maven_metadata_url :: "spec \<Rightarrow> maven_path \<Rightarrow> string" where
  "maven_metadata_url sp p =
     upstream_base sp @ ''/'' @ join ''/'' (mp_group_path p @ [mp_artifact_id p, metadata_file])"

definition file_neg_key :: "maven_path \<Rightarrow> string" where
  "file_neg_key p =
     ''maven:file:'' @ mp_group_id p @ '':'' @ mp_artifact_id p @ '':'' @ mp_version p @ '':'' @ mp_file p"

definition metadata_neg_key :: "maven_path \<Rightarrow> string" where
  "metadata_neg_key p = ''maven:metadata:'' @ mp_group_id p @ '':'' @ mp_artifact_id p"

definition maven_proxy_type :: "maven_path \<Rightarrow> string" where
  "maven_proxy_type p =
     (if mp_checksum p \<noteq> None then ''text/plain; charset=utf-8''
      else if mp_file p = metadata_file then ''application/xml'' else ''application/octet-stream'')"

definition maven_serve_metadata ::
  "'u upstream \<Rightarrow> http_client \<Rightarrow> request \<Rightarrow> string \<Rightarrow> spec \<Rightarrow> maven_path
    \<Rightarrow> ('w \<times> ('u, 'z) proxy_state_scheme) handler" where
  "maven_serve_metadata up hc rq ns sp p =
     (let url = maven_upstream_url sp p;
          answer = (\<lambda>st ok. if status_not_found st then h_not_found rq ns format_maven (metadata_neg_key p)
             else if status_ok st then h_done ok
             else if status_server_error st then h_done write_upstream_unavailable
             else h_done (write_error 502 ''upstream metadata error''))
      in h_neg_has rq ns format_maven (metadata_neg_key p) (h_done (write_store_error ErrNotFound))
           (if rq_method rq = ''HEAD''
            then h_up (client_head up url)
              (\<lambda>res. case res of
                 Inl e \<Rightarrow> h_done write_upstream_unavailable
               | Inr resp \<Rightarrow> answer (rs_status resp) (write_head_ok (maven_proxy_type p)))
            else h_up (client_get up hc url)
              (\<lambda>res. case res of
                 Inl Oversized \<Rightarrow> h_done (write_error 502 ''upstream metadata too large'')
               | Inl (FetchFailed e) \<Rightarrow> h_done write_upstream_unavailable
               | Inr resp \<Rightarrow>
                   answer (rs_status resp) (write_typed_bytes (maven_proxy_type p) (rs_body resp)))))"

definition maven_serve_catalog :: "'b store \<Rightarrow> request \<Rightarrow> maven_path \<Rightarrow> 'b hnd" where
  "maven_serve_catalog s rq p =
     (let f = new_store_file s (mp_file p)
      in h_store (file_exists s f)
           (\<lambda>ex. if \<not> ex then h_done (write_store_error ErrNotFound)
            else redirect_or_stream_file s rq f ''application/xml''))"

definition maven_last_updated ::
  "maven_env \<Rightarrow> 'u upstream \<Rightarrow> http_client \<Rightarrow> spec \<Rightarrow> maven_path \<Rightarrow> 'u \<Rightarrow> int option \<times> 'u" where
  "maven_last_updated E up hc sp p u =
     (case client_get up hc (maven_metadata_url sp p) u of
        (Inl e, u1) \<Rightarrow> (None, u1)
      | (Inr resp, u1) \<Rightarrow>
          (if \<not> status_ok (rs_status resp) then (None, u1)
           else case mv_last_updated E (rs_body resp) of
             None \<Rightarrow> (None, u1)
           | Some t \<Rightarrow> (let t = trim_space t in if t = '''' then (None, u1) else (mv_parse_time E t, u1))))"

definition maven_ref :: "maven_path \<Rightarrow> int option \<Rightarrow> ref" where
  "maven_ref p published =
     \<lparr>ref_package = mp_group_id p @ '':'' @ mp_artifact_id p, ref_version = mp_version p,
      ref_published_at = published\<rparr>"

definition maven_allow ::
  "maven_env \<Rightarrow> 'u upstream \<Rightarrow> http_client \<Rightarrow> request \<Rightarrow> spec \<Rightarrow> maven_path \<Rightarrow> 'u \<Rightarrow> bool \<times> 'u" where
  "maven_allow E up hc rq sp p u =
     (if px_filters (sp_proxy sp) = [] then (True, u)
      else case compile_chain (mv_parse_dur E) (px_filters (sp_proxy sp)) of
        Inl e \<Rightarrow> (False, u)
      | Inr ch \<Rightarrow>
          (let dec = decide_at ch (maven_ref p None) (rq_now rq)
           in if needs_metadata dec
              then (case maven_last_updated E up hc sp p u of
                      (None, u1) \<Rightarrow> (False, u1)
                    | (Some t, u1) \<Rightarrow> (allowed (decide_at ch (maven_ref p (Some t)) (rq_now rq)), u1))
              else (allowed dec, u)))"

definition maven_head_artifact ::
  "'u upstream \<Rightarrow> request \<Rightarrow> string \<Rightarrow> spec \<Rightarrow> maven_path \<Rightarrow> ('w \<times> ('u, 'z) proxy_state_scheme) handler" where
  "maven_head_artifact up rq ns sp p =
     h_up (client_head up (maven_upstream_url sp p))
       (\<lambda>res. case res of
          Inl e \<Rightarrow> h_done (write_error 502 ''upstream fetch failed'')
        | Inr resp \<Rightarrow>
            (if status_not_found (rs_status resp) then h_not_found rq ns format_maven (file_neg_key p)
             else if status_ok (rs_status resp) then h_done (write_head_ok (maven_proxy_type p))
             else h_done (write_error 502 ''upstream unavailable'')))"

definition maven_artifact_annotations :: "maven_env \<Rightarrow> maven_path \<Rightarrow> int \<Rightarrow> string \<Rightarrow> annotations" where
  "maven_artifact_annotations E p now upstream =
     [(''maven:file'', JStr (mp_file p)), (''maven:group_id'', JStr (mp_group_id p)),
      (''maven:artifact_id'', JStr (mp_artifact_id p)), (''maven:version'', JStr (mp_version p)),
      (''maven:uploaded_at'', JStr (mv_time E now))]
     @ (if upstream \<noteq> '''' then [(''maven:upstream_url'', JStr upstream)] else [])"

definition maven_checksum_annotations :: "maven_env \<Rightarrow> maven_path \<Rightarrow> hash_alg \<Rightarrow> int \<Rightarrow> annotations" where
  "maven_checksum_annotations E p alg now =
     maven_artifact_annotations E p now ''''
     @ [(''maven:checksum'', JStr (checksum_name alg)), (''maven:checksum_target'', JStr (mp_target_file p))]"

text \<open>Failures are logged; a failed package ends the recording.\<close>

definition maven_record_parents :: "'b store \<Rightarrow> int \<Rightarrow> maven_path \<Rightarrow> ('b, unit) act" where
  "maven_record_parents s now p =
     act_bind
       (act_ensure (add_package s now (mp_package p) [WithAnnotations (maven_package_annotations p)]))
       (\<lambda>_. act_ensure (pkg_add_version s now (store_package (mp_package p)) (mp_version p)
               [WithAnnotations [(''maven:version'', JStr (mp_version p))]]))"

definition maven_version_file :: "'b store \<Rightarrow> maven_path \<Rightarrow> string \<Rightarrow> file_handle" where
  "maven_version_file s p name = new_file s (pkg_version (store_package (mp_package p)) (mp_version p)) name"

definition maven_fill ::
  "'b store \<Rightarrow> int \<Rightarrow> maven_path \<Rightarrow> annotations \<Rightarrow> body \<Rightarrow> ('b, file_handle) act" where
  "maven_fill s now p ann b =
     version_add_file s now (pkg_version (store_package (mp_package p)) (mp_version p)) (mp_file p) b
       [WithAnnotations ann]"

text \<open>\<open>computeChecksum\<close>: the digest of a cached file.\<close>

definition maven_compute_checksum :: "maven_env \<Rightarrow> 'b store \<Rightarrow> hash_alg \<Rightarrow> file_handle \<Rightarrow> ('b, string) act" where
  "maven_compute_checksum E s alg f =
     act_bind (file_read s f)
       (\<lambda>(data, broken). case broken of
          Some c \<Rightarrow> act_fail (ErrBackend c)
        | None \<Rightarrow> act_ret (hex_encode (mv_digest E alg data)))"

definition maven_serve_checksum ::
  "maven_env \<Rightarrow> 'u upstream \<Rightarrow> http_client \<Rightarrow> 'b store \<Rightarrow> request \<Rightarrow> string \<Rightarrow> spec \<Rightarrow> maven_path \<Rightarrow> hash_alg
    \<Rightarrow> ('b world \<times> ('u, 'z) proxy_state_scheme) handler" where
  "maven_serve_checksum E up hc s rq ns sp p alg =
     (let target = maven_version_file s p (mp_target_file p);
          fill = (\<lambda>data. in_store (maven_fill s (rq_now rq) p
                    (maven_checksum_annotations E p alg (rq_now rq)) (bytes_body data)))
      in h_store (in_store (file_exists s target))
           (\<lambda>cached.
              if cached
              then h_store (in_store (maven_compute_checksum E s alg target))
                (\<lambda>sum. h_best_effort (fill sum)
                   (h_done (if rq_method rq = ''HEAD'' then write_head_ok (maven_proxy_type p)
                            else write_typed_bytes (maven_proxy_type p) sum)))
              else if rq_method rq = ''HEAD'' then maven_head_artifact up rq ns sp p
              else h_up (client_get up hc (maven_upstream_url sp p))
                (\<lambda>res. case res of
                   Inl e \<Rightarrow> h_done (write_error 502 ''upstream fetch failed'')
                 | Inr resp \<Rightarrow>
                     (if status_not_found (rs_status resp) then h_not_found rq ns format_maven (file_neg_key p)
                      else if status_ok (rs_status resp)
                      then h_best_effort (in_store (maven_record_parents s (rq_now rq) p))
                             (h_best_effort (fill (rs_body resp))
                                (h_done (write_typed_bytes (maven_proxy_type p) (rs_body resp))))
                      else h_done (write_error 502 ''upstream unavailable'')))))"

definition maven_stream_and_cache ::
  "maven_env \<Rightarrow> 'u upstream \<Rightarrow> 'b store \<Rightarrow> request \<Rightarrow> string \<Rightarrow> spec \<Rightarrow> maven_path
    \<Rightarrow> ('b world \<times> ('u, 'z) proxy_state_scheme) handler" where
  "maven_stream_and_cache E up s rq ns sp p =
     (let url = maven_upstream_url sp p
      in pull_artifact up rq ns format_maven (file_neg_key p) url (maven_proxy_type p)
           (\<lambda>b. in_store (maven_fill s (rq_now rq) p (maven_artifact_annotations E p (rq_now rq) url) b))
           (after_fill (in_store (maven_record_parents s (rq_now rq) p))))"

definition maven_serve_artifact ::
  "maven_env \<Rightarrow> 'u upstream \<Rightarrow> http_client \<Rightarrow> 'b store \<Rightarrow> request \<Rightarrow> string \<Rightarrow> spec \<Rightarrow> maven_path
    \<Rightarrow> ('b world \<times> ('u, 'z) proxy_state_scheme) handler" where
  "maven_serve_artifact E up hc s rq ns sp p =
     (let f = maven_version_file s p (mp_file p)
      in h_store (in_store (file_exists s f))
           (\<lambda>ex. if ex then on_store (redirect_or_stream_file s rq f (maven_proxy_type p))
            else h_neg_has rq ns format_maven (file_neg_key p) (h_done (write_store_error ErrNotFound))
              (case mp_checksum p of
                 Some alg \<Rightarrow> maven_serve_checksum E up hc s rq ns sp p alg
               | None \<Rightarrow>
                   (if rq_method rq = ''HEAD'' then maven_head_artifact up rq ns sp p
                    else h_up (maven_allow E up hc rq sp p)
                      (\<lambda>ok. if ok then maven_stream_and_cache E up s rq ns sp p
                         else h_done (write_store_error ErrNotFound))))))"

definition maven_proxy_serve ::
  "maven_env \<Rightarrow> 'u upstream \<Rightarrow> http_client \<Rightarrow> request \<Rightarrow> maven_path \<Rightarrow> string \<Rightarrow> spec \<Rightarrow> 'b store
    \<Rightarrow> ('b world \<times> ('u, 'z) proxy_state_scheme) handler" where
  "maven_proxy_serve E up hc rq p ns sp s =
     (case mp_kind p of
        PathArchetypeCatalog \<Rightarrow> on_store (maven_serve_catalog s rq p)
      | PathArtifact \<Rightarrow> maven_serve_artifact E up hc s rq ns sp p
      | _ \<Rightarrow> maven_serve_metadata up hc rq ns sp p)"

section \<open>Downloads and dispatch\<close>

definition maven_download ::
  "maven_env \<Rightarrow> maven_config \<Rightarrow> ('b, 're) registry \<Rightarrow> 'u upstream \<Rightarrow> request
    \<Rightarrow> ('b, 're, ('u, 'z) proxy_state_scheme) sv_hnd" where
  "maven_download E cfg r up rq =
     (case maven_parse_path (rq_escaped_path rq) of
        Inl e \<Rightarrow> h_done (write_store_error e)
      | Inr p \<Rightarrow>
          (let ns = mp_namespace p
           in open_store r rq ns format_maven NamespaceDataRead
                (\<lambda>st spec.
                   if is_proxy spec
                   then open_proxy_store r rq ns format_maven
                     (\<lambda>pst. sv_store pst
                        (maven_proxy_serve E up (new_client [WithMaxBodyBytes (maven_metadata_max cfg)]) rq p ns spec pst))
                   else sv_store st
                     (on_store (redirect_or_stream_file st rq (maven_file st p (mp_file p)) (maven_content_type p))))))"

definition maven_serve_http ::
  "maven_env \<Rightarrow> maven_config \<Rightarrow> ('b, 're) registry \<Rightarrow> 'u upstream \<Rightarrow> request
    \<Rightarrow> ('b, 're, ('u, 'z) proxy_state_scheme) sv_hnd" where
  "maven_serve_http E cfg r up rq =
     (if rq_method rq = ''GET'' \<or> rq_method rq = ''HEAD'' then maven_download E cfg r up rq
      else if rq_method rq = ''PUT'' \<or> rq_method rq = ''POST'' then maven_upload E cfg r rq
      else h_done (write_method_not_allowed [''GET'', ''HEAD'', ''POST'', ''PUT'']))"

definition maven_handler ::
  "maven_env \<Rightarrow> maven_config \<Rightarrow> ('b, 're) registry \<Rightarrow> 'p oidc_lib \<Rightarrow> 'u upstream \<Rightarrow> request
    \<Rightarrow> ('p authn \<times> ('b, 're policy_cache) ns_world \<times> ('u, 'z) proxy_state_scheme) handler" where
  "maven_handler E cfg r L up = auth_middleware (authenticate L) (maven_serve_http E cfg r up)"

definition maven_new_proxy :: "maven_config \<Rightarrow> 'u \<Rightarrow> 'u proxy_state" where
  "maven_new_proxy cfg u = \<lparr>ps_neg = neg_new (mc_proxy_negative_ttl cfg), ps_up = u\<rparr>"

end
