(* ===== verification/Npm_Name.thy ===== *)
theory Npm_Name
  imports Data_Plane Upstream Json
begin

text \<open>
  The npm codec, \<open>pkg/surface/npm/codec.go\<close>: package names and their store form, the validation of
  versions, tags and file names, declared digests, and the documents' JSON.  A \<open>map[string]any\<close> is
  the list of its entries in the order of the keys; what \<open>float64\<close> makes of a number is a parameter.
\<close>

section \<open>Package names\<close>

definition max_package_name_len :: nat where "max_package_name_len = 214"

record package_name =
  pn_original :: string
  pn_scope :: string
  pn_name :: string

definition pn_scoped :: "package_name \<Rightarrow> bool" where
  "pn_scoped p \<longleftrightarrow> pn_scope p \<noteq> ''''"

definition pn_core :: "package_name \<Rightarrow> string" where
  "pn_core p =
     (if pn_scoped p then ''s/'' @ pn_scope p @ ''/'' @ pn_name p else ''u/'' @ pn_name p)"

definition name_char :: "char \<Rightarrow> bool" where
  "name_char c \<longleftrightarrow> is_lower c \<or> is_digit c \<or> c \<in> set ''._-''"

definition validate_name_segment :: "string \<Rightarrow> err option" where
  "validate_name_segment s =
     (if s = '''' then Some ErrInvalidName
      else if s = ''.'' \<or> s = ''..'' then Some ErrInvalidName
      else if has_prefix s ''.'' \<or> has_prefix s ''_'' then Some ErrInvalidName
      else if list_ex (\<lambda>c. \<not> name_char c) s then Some ErrInvalidName
      else None)"

definition parse_package_name :: "string \<Rightarrow> package_name res" where
  "parse_package_name raw =
     (if raw = '''' then Inl ErrInvalidName
      else if length raw > max_package_name_len then Inl ErrInvalidName
      else if has_prefix raw ''@'' then
        (let rest = tl raw; slash = index_byte rest CHR ''/''
         in if slash < 0 then Inl ErrInvalidName
            else
              (let scope = take (nat slash) rest; name = drop (nat slash + 1) rest
               in case validate_name_segment scope of
                    Some e \<Rightarrow> Inl e
                  | None \<Rightarrow>
                      (case validate_name_segment name of
                         Some e \<Rightarrow> Inl e
                       | None \<Rightarrow> Inr \<lparr>pn_original = raw, pn_scope = scope, pn_name = name\<rparr>)))
      else case validate_name_segment raw of
        Some e \<Rightarrow> Inl e
      | None \<Rightarrow> Inr \<lparr>pn_original = raw, pn_scope = '''', pn_name = raw\<rparr>)"

definition decode_core_package :: "string \<Rightarrow> package_name res" where
  "decode_core_package core =
     (if has_prefix core ''s/'' then
        (let rest = drop 2 core; slash = index_byte rest CHR ''/''
         in if slash < 0 then Inl ErrInvalidName
            else
              (let scope = take (nat slash) rest; name = drop (nat slash + 1) rest
               in Inr \<lparr>pn_original = ''@'' @ scope @ ''/'' @ name, pn_scope = scope, pn_name = name\<rparr>))
      else if has_prefix core ''u/'' then
        Inr \<lparr>pn_original = drop 2 core, pn_scope = '''', pn_name = drop 2 core\<rparr>
      else Inl ErrInvalidName)"

section \<open>Versions, tags and files\<close>

definition bad_name_chars :: string where
  "bad_name_chars = [CHR ''/'', CHR 0x5C, CHR '' '', CHR 0x09, CHR 0x0D, CHR 0x0A]"

definition npm_validate_version :: "string \<Rightarrow> err option" where
  "npm_validate_version v =
     (if v = '''' then Some ErrInvalidName
      else if has_prefix v ''.'' then Some ErrInvalidName
      else if v = ''.'' \<or> v = ''..'' \<or> path_clean v \<noteq> v then Some ErrInvalidName
      else if contains_any v bad_name_chars then Some ErrInvalidName
      else None)"

definition validate_tag :: "string \<Rightarrow> err option" where
  "validate_tag t =
     (if t = '''' then Some ErrInvalidName
      else if has_prefix t ''.'' then Some ErrInvalidName
      else if t = ''.'' \<or> t = ''..'' \<or> path_clean t \<noteq> t then Some ErrInvalidName
      else if contains_any t bad_name_chars then Some ErrInvalidName
      else None)"

definition validate_tarball_name :: "string \<Rightarrow> err option" where
  "validate_tarball_name f =
     (if f = '''' then Some ErrInvalidName
      else if has_prefix f ''.'' then Some ErrInvalidName
      else if path_clean f \<noteq> f \<or> contains_any f bad_name_chars then Some ErrInvalidName
      else if \<not> has_suffix f ''.tgz'' then Some ErrInvalidName
      else None)"

section \<open>Documents\<close>

type_synonym any_map = "(string \<times> json) list"

text \<open>A type assertion that yields the zero value where it fails.\<close>

definition any_string :: "any_map \<Rightarrow> string \<Rightarrow> string" where
  "any_string m k = (case map_of m k of Some (JString s) \<Rightarrow> s | _ \<Rightarrow> '''')"

definition any_object :: "any_map \<Rightarrow> string \<Rightarrow> any_map option" where
  "any_object m k = (case map_of m k of Some (JObject kvs) \<Rightarrow> Some kvs | _ \<Rightarrow> None)"

text \<open>\<open>Unmarshal\<close> into a \<open>map[string]any\<close> that is empty: \<open>null\<close> makes it nil, the inner \<open>None\<close>.\<close>

definition decode_any_object :: "(string \<Rightarrow> string option) \<Rightarrow> json \<Rightarrow> any_map option option" where
  "decode_any_object num v =
     (case v of
        JNull \<Rightarrow> Some None
      | JObject kvs \<Rightarrow>
          (case json_any num v of Some (JObject kvs) \<Rightarrow> Some (Some kvs) | _ \<Rightarrow> None)
      | _ \<Rightarrow> None)"

record attachment =
  at_content_type :: string
  at_data :: string
  at_length :: int

definition zero_attachment :: attachment where
  "zero_attachment = \<lparr>at_content_type = '''', at_data = '''', at_length = 0\<rparr>"

text \<open>\<open>Versions\<close> holds raw values.\<close>

record publish_doc =
  pd_id :: string
  pd_name :: string
  pd_versions :: "(string \<times> json) list"
  pd_attachments :: "(string \<times> attachment) list"
  pd_dist_tags :: "(string \<times> string) list"

definition decode_attachment :: "json \<Rightarrow> attachment \<Rightarrow> attachment option" where
  "decode_attachment = decode_struct (decode_field False
     [(''content_type'', \<lambda>v a. map_option (\<lambda>s. a\<lparr>at_content_type := s\<rparr>) (decode_string v (at_content_type a))),
      (''data'', \<lambda>v a. map_option (\<lambda>s. a\<lparr>at_data := s\<rparr>) (decode_string v (at_data a))),
      (''length'', \<lambda>v a. map_option (\<lambda>i. a\<lparr>at_length := i\<rparr>) (decode_int v (at_length a)))])"

definition decode_string_map :: "json \<Rightarrow> (string \<times> string) list \<Rightarrow> (string \<times> string) list option" where
  "decode_string_map = decode_map (\<lambda>x. decode_string x '''')"

definition decode_publish :: "string \<Rightarrow> publish_doc option" where
  "decode_publish body =
     (case json_unmarshal body of
        None \<Rightarrow> None
      | Some v \<Rightarrow> decode_struct (decode_field False
          [(''_id'', \<lambda>v d. map_option (\<lambda>s. d\<lparr>pd_id := s\<rparr>) (decode_string v (pd_id d))),
           (''name'', \<lambda>v d. map_option (\<lambda>s. d\<lparr>pd_name := s\<rparr>) (decode_string v (pd_name d))),
           (''versions'', \<lambda>v d. map_option (\<lambda>m. d\<lparr>pd_versions := m\<rparr>) (decode_map Some v (pd_versions d))),
           (''_attachments'', \<lambda>v d. map_option (\<lambda>m. d\<lparr>pd_attachments := m\<rparr>)
              (decode_map (\<lambda>x. decode_attachment x zero_attachment) v (pd_attachments d))),
           (''dist-tags'', \<lambda>v d. map_option (\<lambda>m. d\<lparr>pd_dist_tags := m\<rparr>)
              (decode_string_map v (pd_dist_tags d)))])
          v \<lparr>pd_id = '''', pd_name = '''', pd_versions = [], pd_attachments = [], pd_dist_tags = []\<rparr>)"

section \<open>Declared digests\<close>

text \<open>\<open>None\<close> is \<open>errBadDigest\<close>.\<close>

definition declared_shasum :: "any_map \<Rightarrow> expected_digest list option" where
  "declared_shasum dist =
     (let s = trim_space (any_string dist ''shasum'')
      in if s = '''' then Some []
         else map_option (\<lambda>raw. [\<lparr>ed_hash = SHA1, ed_sum = raw\<rparr>]) (hex_decode s))"

definition declared_integrity :: "any_map \<Rightarrow> expected_digest list option" where
  "declared_integrity dist =
     (let s = trim_space (any_string dist ''integrity'')
      in if has_prefix s ''sha512-''
         then map_option (\<lambda>raw. [\<lparr>ed_hash = SHA512, ed_sum = raw\<rparr>])
           (b64_decode std_alphabet True (trim_prefix s ''sha512-''))
         else Some [])"

definition expected_digests :: "any_map option \<Rightarrow> expected_digest list option" where
  "expected_digests dist =
     (case dist of
        None \<Rightarrow> Some []
      | Some m \<Rightarrow>
          (case declared_shasum m of
             None \<Rightarrow> None
           | Some xs \<Rightarrow> map_option ((@) xs) (declared_integrity m)))"

section \<open>The attachment's stream\<close>

text \<open>
  \<open>base64.NewDecoder\<close> reads its input 1024 bytes at a time, without line ends, and decodes what
  it has up to a multiple of four characters.  \<open>b64_chunk\<close> is one such step: the bytes decoded
  before the first bad character, and whether all were good.
\<close>

fun b64_chunk :: "string \<Rightarrow> string \<times> bool" where
  "b64_chunk (a # b # c # d # rest) =
     (case b64_quanta std_alphabet True [a, b, c, d] of
        None \<Rightarrow> ([], False)
      | Some out \<Rightarrow>
          (if d = CHR ''='' then (out, rest = [])
           else (case b64_chunk rest of (tail_out, ok) \<Rightarrow> (out @ tail_out, ok))))"
| "b64_chunk _ = ([], True)"

definition err_corrupt :: err where "err_corrupt = ErrOther ''base64''"

definition err_unexpected_eof :: err where "err_unexpected_eof = ErrOther ''unexpected EOF''"

function b64_stream :: "string \<Rightarrow> string \<Rightarrow> string \<Rightarrow> body" where
  "b64_stream out buf r =
     (if length buf < 4 then
        (if r = [] then
           (if buf = [] then bytes_body out else \<lparr>bd_data = out, bd_err = Some err_unexpected_eof\<rparr>)
         else b64_stream out
           (buf @ filter (\<lambda>c. c \<noteq> CHR 0x0A \<and> c \<noteq> CHR 0x0D) (take (1024 - length buf) r))
           (drop (1024 - length buf) r))
      else
        (let n = length buf div 4 * 4
         in case b64_chunk (take n buf) of
              (tail_out, ok) \<Rightarrow>
                (if ok then b64_stream (out @ tail_out) (drop n buf) r
                 else \<lparr>bd_data = out @ tail_out, bd_err = Some err_corrupt\<rparr>)))"
  by pat_completeness auto
termination
proof (relation "measure (\<lambda>(out, buf, r). 2 * length r + length buf)", goal_cases)
  case (2 out buf r)
  have "length (filter (\<lambda>c. c \<noteq> CHR 0x0A \<and> c \<noteq> CHR 0x0D) (take (1024 - length buf) r))
      \<le> min (length r) (1024 - length buf)"
    by (rule order_trans [OF length_filter_le]) simp
  with 2 show ?case by (cases r) auto
next
  case 3
  then show ?case by (simp add: div_greater_zero_iff)
qed simp

declare b64_stream.simps [simp del]

definition tarball_stream :: "string \<Rightarrow> body" where
  "tarball_stream data = b64_stream [] [] (trim_space data)"

section \<open>URLs and file names\<close>

definition request_base_url :: "request \<Rightarrow> string" where
  "request_base_url rq =
     (let scheme = (if rq_tls rq then ''https'' else ''http'');
          p = header_get (rq_header rq) ''X-Forwarded-Proto'';
          scheme = (if p \<noteq> '''' then p else scheme);
          h = header_get (rq_header rq) ''X-Forwarded-Host'';
          host = (if h \<noteq> '''' then h else rq_host rq)
      in scheme @ ''://'' @ host)"

definition tarball_url :: "string \<Rightarrow> string \<Rightarrow> package_name \<Rightarrow> string \<Rightarrow> string" where
  "tarball_url base ns pn filename =
     base @ ''/'' @ path_escape ns
       @ (if pn_scoped pn then ''/@'' @ path_escape (pn_scope pn) @ ''/'' @ path_escape (pn_name pn)
          else ''/'' @ path_escape (pn_name pn))
       @ ''/-/'' @ path_escape filename"

definition npm_derive_version :: "package_name \<Rightarrow> string \<Rightarrow> string" where
  "npm_derive_version pn filename =
     (let trimmed = trim_suffix filename ''.tgz''; p = pn_name pn @ ''-''
      in if \<not> has_prefix trimmed p then '''' else trim_prefix trimmed p)"

definition tarball_storage_name :: "package_name \<Rightarrow> string \<Rightarrow> any_map option \<Rightarrow> string res" where
  "tarball_storage_name pn version dist =
     (let t = (case dist of None \<Rightarrow> '''' | Some d \<Rightarrow> any_string d ''tarball'')
      in if t \<noteq> ''''
         then (case validate_tarball_name (path_base t) of Some e \<Rightarrow> Inl e | None \<Rightarrow> Inr (path_base t))
         else Inr (pn_name pn @ ''-'' @ version @ ''.tgz''))"

definition pick_attachment ::
  "(string \<times> attachment) list \<Rightarrow> string \<Rightarrow> package_name \<Rightarrow> string \<Rightarrow> attachment option" where
  "pick_attachment atts storage_name pn version =
     (case atts of
        [(_, a)] \<Rightarrow> Some a
      | _ \<Rightarrow>
          (case map_of atts storage_name of
             Some a \<Rightarrow> Some a
           | None \<Rightarrow> map_of atts (pn_original pn @ ''-'' @ version @ ''.tgz'')))"

text \<open>Where a document's tarball is served from: its base name, under this registry.\<close>

definition rewrite_tarball :: "any_map \<Rightarrow> string \<Rightarrow> string \<Rightarrow> package_name \<Rightarrow> any_map" where
  "rewrite_tarball m base ns pn =
     (case any_object m ''dist'' of
        None \<Rightarrow> m
      | Some dist \<Rightarrow>
          (let filename = path_base (any_string dist ''tarball'')
           in if filename = '''' \<or> filename = ''.'' \<or> filename = ''/'' then m
              else AList.update ''dist''
                (JObject (AList.update ''tarball'' (JString (tarball_url base ns pn filename)) dist)) m))"

definition parse_tag_version :: "string \<Rightarrow> string res" where
  "parse_tag_version raw =
     (let s = (case json_unmarshal raw of
                 Some v \<Rightarrow> (case decode_string v '''' of Some q \<Rightarrow> trim_space q | None \<Rightarrow> trim_space raw)
               | None \<Rightarrow> trim_space raw)
      in case npm_validate_version s of Some e \<Rightarrow> Inl e | None \<Rightarrow> Inr s)"

end
