(* ===== verification/Memo_Fetch.thy ===== *)
theory Memo_Fetch
  imports Proxy_Plane
begin

text \<open>
  The metadata half of the npm and PyPI proxies, whose sources are the same up to the type of the
  document: a burst memo in front of an upstream fetch whose answer is snapshot in the store, with
  the snapshot and then a synthesized document as fallbacks.  The memo is the map of
  \<open>packumentMemo\<close> and of \<open>indexMemo\<close>; a caller that leads its singleflight is modelled.
\<close>

section \<open>The burst memo\<close>

type_synonym 'v memo = "string \<rightharpoonup> 'v \<times> int"

definition burst_get :: "int \<Rightarrow> int \<Rightarrow> string \<Rightarrow> 'v memo \<Rightarrow> 'v option" where
  "burst_get ttl now key m =
     (if ttl \<le> 0 then None
      else case m key of
        None \<Rightarrow> None
      | Some (v, expires) \<Rightarrow> (if now < expires then Some v else None))"

definition burst_put :: "int \<Rightarrow> int \<Rightarrow> string \<Rightarrow> 'v \<Rightarrow> 'v memo \<Rightarrow> 'v memo" where
  "burst_put ttl now key v m = (if ttl \<le> 0 then m else m(key \<mapsto> (v, now + ttl)))"

text \<open>Like the other caches it never serves but the last value, within its lifetime.\<close>

interpretation burst: ttl_cache "Map.empty :: 'v memo" "burst_put ttl" "\<lambda>k m. m(k := None)" "\<lambda>t k m. m"
    "\<lambda>m t k. burst_get ttl t k m" "\<lambda>t t0. t < t0 + ttl" "\<lambda>m. True" for ttl
  by unfold_locales (auto simp: burst_get_def burst_put_def split: if_splits option.splits)

lemma burst_serves_last:
  assumes "burst_get ttl t k (run_cache (burst_put ttl) (\<lambda>k m. m(k := None)) (\<lambda>t k m. m) Map.empty es) = Some v"
  shows "\<exists>t0. last_put k es = Some (t0, v) \<and> t < t0 + ttl"
  by (rule burst.live_from_last_put [OF assms])

section \<open>The fetch\<close>

record ('u, 'v) memo_state = "'u proxy_state" +
  ms_memo :: "'v memo"

definition h_memo_put ::
  "int \<Rightarrow> request \<Rightarrow> string \<Rightarrow> 'v \<Rightarrow> ('w \<times> ('u, 'v, 'z) memo_state_scheme) handler
    \<Rightarrow> ('w \<times> ('u, 'v, 'z) memo_state_scheme) handler" where
  "h_memo_put ttl rq key v k rw s =
     k rw (fst s, (snd s)\<lparr>ms_memo := burst_put ttl (rq_now rq) key v (ms_memo (snd s))\<rparr>)"

definition h_memo_get ::
  "int \<Rightarrow> request \<Rightarrow> string \<Rightarrow> ('v \<Rightarrow> ('w \<times> ('u, 'v, 'z) memo_state_scheme) handler)
    \<Rightarrow> ('w \<times> ('u, 'v, 'z) memo_state_scheme) handler \<Rightarrow> ('w \<times> ('u, 'v, 'z) memo_state_scheme) handler" where
  "h_memo_get ttl rq key hit miss rw s =
     (case burst_get ttl (rq_now rq) key (ms_memo (snd s)) of
        Some v \<Rightarrow> hit v rw s
      | None \<Rightarrow> miss rw s)"

definition h_neg_delete ::
  "string \<Rightarrow> string \<Rightarrow> string \<Rightarrow> ('w \<times> ('u, 'z) proxy_state_scheme) handler
    \<Rightarrow> ('w \<times> ('u, 'z) proxy_state_scheme) handler" where
  "h_neg_delete ns fmt key k rw s =
     k rw (fst s, (snd s)\<lparr>ps_neg := neg_delete ns fmt key (ps_neg (snd s))\<rparr>)"

text \<open>
  \<open>fetchPackument\<close> and \<open>fetchIndex\<close>: the memo, the negative cache, the memo again (another leader
  may have filled it), then the load.  The key joins namespace and package with a NUL.
\<close>

definition memo_key :: "string \<Rightarrow> string \<Rightarrow> string" where
  "memo_key ns name = ns @ [CHR 0x00] @ name"

definition fetch_document ::
  "int \<Rightarrow> request \<Rightarrow> string \<Rightarrow> string \<Rightarrow> string \<Rightarrow> string
    \<Rightarrow> (('v res \<Rightarrow> ('w \<times> ('u, 'v, 'z) memo_state_scheme) handler) \<Rightarrow> ('w \<times> ('u, 'v, 'z) memo_state_scheme) handler)
    \<Rightarrow> ('v res \<Rightarrow> ('w \<times> ('u, 'v, 'z) memo_state_scheme) handler)
    \<Rightarrow> ('w \<times> ('u, 'v, 'z) memo_state_scheme) handler" where
  "fetch_document ttl rq ns fmt name neg_key load k =
     (let key = memo_key ns name; found = (\<lambda>v. h_memo_put ttl rq key v (k (Inr v)))
      in h_memo_get ttl rq key (\<lambda>v. k (Inr v))
           (h_neg_has rq ns fmt neg_key (k (Inl ErrNotFound))
              (h_memo_get ttl rq key found
                 (load (\<lambda>r. case r of Inl e \<Rightarrow> k (Inl e) | Inr v \<Rightarrow> found v)))))"

definition err_upstream_unavailable :: err where
  "err_upstream_unavailable = ErrOther ''upstream unavailable''"

text \<open>\<open>fallbackPackument\<close> and \<open>fallbackIndex\<close>.\<close>

definition read_whole :: "'b store \<Rightarrow> file_handle \<Rightarrow> ('b, string) act" where
  "read_whole s f =
     act_bind (file_read s f)
       (\<lambda>(data, broken). case broken of Some c \<Rightarrow> act_fail (ErrBackend c) | None \<Rightarrow> act_ret data)"

definition read_snapshot :: "(string \<Rightarrow> 'v option) \<Rightarrow> 'b store \<Rightarrow> file_handle \<Rightarrow> ('b, 'v option) act" where
  "read_snapshot decode s cf =
     act_catch (read_whole s cf)
       (\<lambda>r. case r of Inl e \<Rightarrow> act_ret None | Inr raw \<Rightarrow> act_ret (decode raw))"

definition existing_snapshot :: "(string \<Rightarrow> 'v option) \<Rightarrow> 'b store \<Rightarrow> file_handle \<Rightarrow> ('b, 'v option) act" where
  "existing_snapshot decode s cf =
     act_catch (file_exists s cf)
       (\<lambda>r. case r of
          Inl e \<Rightarrow> act_ret None
        | Inr ex \<Rightarrow> if ex then read_snapshot decode s cf else act_ret None)"

definition fallback_document ::
  "(string \<Rightarrow> 'v option) \<Rightarrow> 'b store \<Rightarrow> string \<Rightarrow> ('b, 'v option) act \<Rightarrow> ('b, 'v) act" where
  "fallback_document decode s key synth =
     act_bind (existing_snapshot decode s (store_cache s key))
       (\<lambda>r. case r of
          Some p \<Rightarrow> act_ret p
        | None \<Rightarrow> act_bind synth
            (\<lambda>r. case r of Some p \<Rightarrow> act_ret p | None \<Rightarrow> act_fail err_upstream_unavailable))"

text \<open>The fetch of \<open>loadPackument\<close> and \<open>loadIndex\<close>: a parsed answer is snapshot, a 404 remembered.\<close>

definition refresh_document ::
  "'u upstream \<Rightarrow> http_client \<Rightarrow> 'b store \<Rightarrow> request \<Rightarrow> string \<Rightarrow> string \<Rightarrow> string \<Rightarrow> string
    \<Rightarrow> (response \<Rightarrow> 'v option) \<Rightarrow> ('v \<Rightarrow> string) \<Rightarrow> ('b, 'v) act
    \<Rightarrow> ('v res \<Rightarrow> ('b world \<times> ('u, 'z) proxy_state_scheme) handler)
    \<Rightarrow> ('b world \<times> ('u, 'z) proxy_state_scheme) handler" where
  "refresh_document up hc s rq ns fmt key url parse_doc print_doc fallback k =
     (let fall = h_try (in_store fallback) (\<lambda>e. k (Inl e)) (\<lambda>p. k (Inr p))
      in h_up (client_get up hc url)
           (\<lambda>res. case res of
              Inl e \<Rightarrow> fall
            | Inr resp \<Rightarrow>
                (if status_not_found (rs_status resp) then h_neg_mark rq ns fmt key (k (Inl ErrNotFound))
                 else if status_ok (rs_status resp) then
                   (case parse_doc resp of
                      None \<Rightarrow> fall
                    | Some p \<Rightarrow>
                        h_best_effort (in_store (store_add_cache s (rq_now rq) key (bytes_body (print_doc p))))
                          (h_neg_delete ns fmt key (k (Inr p))))
                 else fall)))"

text \<open>\<open>writeError\<close> and \<open>writeIndexError\<close>.\<close>

definition write_fetch_error :: "err \<Rightarrow> writer \<Rightarrow> writer" where
  "write_fetch_error e =
     (if e = ErrNotFound then write_store_error ErrNotFound
      else if e = err_upstream_unavailable then write_upstream_unavailable
      else write_store_error e)"

section \<open>Frames\<close>

lemma h_pres_memo_put [h_intros]:
  "h_pres (\<lambda>u. P (fst u)) k \<Longrightarrow> h_pres (\<lambda>u. P (fst u)) (h_memo_put ttl rq key v k)"
  by (simp add: h_pres_def h_memo_put_def)

lemma h_pres_memo_get [h_intros]:
  "(\<And>v. h_pres P (hit v)) \<Longrightarrow> h_pres P miss \<Longrightarrow> h_pres P (h_memo_get ttl rq key hit miss)"
  by (simp add: h_pres_def h_memo_get_def split: option.split)

lemma h_pres_neg_delete [h_intros]:
  "h_pres (\<lambda>u. P (fst u)) k \<Longrightarrow> h_pres (\<lambda>u. P (fst u)) (h_neg_delete ns fmt key k)"
  by (simp add: h_pres_def h_neg_delete_def)

lemma keeps_read_whole [keeps_intros]: "keeps (read_whole s f)"
  unfolding read_whole_def by (intro keeps_intros)

lemma keeps_snapshot [keeps_intros]:
  "keeps (read_snapshot d s cf)" "keeps (existing_snapshot d s cf)"
  unfolding read_snapshot_def existing_snapshot_def by (intro keeps_intros)+

lemma keeps_fallback [keeps_intros]: "keeps synth \<Longrightarrow> keeps (fallback_document d s key synth)"
  unfolding fallback_document_def by (intro keeps_intros)

lemma h_pres_fetch [h_intros]:
  assumes "\<And>r. h_pres (\<lambda>u. P (fst u)) (k r)"
    and "\<And>k'. (\<And>r. h_pres (\<lambda>u. P (fst u)) (k' r)) \<Longrightarrow> h_pres (\<lambda>u. P (fst u)) (load k')"
  shows "h_pres (\<lambda>u. P (fst u)) (fetch_document ttl rq ns fmt name neg_key load k)"
  unfolding fetch_document_def Let_def by (intro h_intros assms)

lemma h_pres_refresh [h_intros]:
  assumes "\<And>r. h_pres (\<lambda>u. P (fst u)) (k r)" "act_pres P fallback"
    and "\<And>p. act_pres P (store_add_cache s (rq_now rq) key (bytes_body (print_doc p)))"
  shows "h_pres (\<lambda>u. P (fst u)) (refresh_document up hc s rq ns fmt key url parse_doc print_doc fallback k)"
  unfolding refresh_document_def Let_def by (intro h_intros assms)

end
