(* ===== verification/Route_Plane.thy ===== *)
theory Route_Plane
  imports Proxy_Plane
begin

text \<open>
  What the npm and PyPI surfaces do around their handlers, \<open>namespace\<close>, \<open>spec\<close>,
  \<open>authorizedHostedStore\<close> and \<open>authorizedProxyStore\<close>, whose sources are the same up to the format:
  a router (\<open>github.com/gorilla/mux\<close>, a parameter) finds the route; the namespace is validated, its
  mode found by a first lookup, and its store opened by a second.
\<close>

text \<open>What a router finds: a route and its variables, no route for the method, or an answer of its own.\<close>

datatype 'h routed = Routed 'h "(string \<times> string) list" | MethodMismatch | RouterAnswer "writer \<Rightarrow> writer"

type_synonym 'h router = "(string \<times> string list \<times> 'h) list \<Rightarrow> request \<Rightarrow> 'h routed"

definition route_ctx :: "bool \<Rightarrow> ns_error_context" where
  "route_ctx write = (if write then NamespaceDataWrite else NamespaceDataRead)"

definition route_spec ::
  "string \<Rightarrow> ('b, 're) registry \<Rightarrow> request \<Rightarrow> (string \<times> string) list \<Rightarrow> bool
    \<Rightarrow> (string \<Rightarrow> spec \<Rightarrow> ('b, 're, 'x) sv_hnd) \<Rightarrow> ('b, 're, 'x) sv_hnd" where
  "route_spec fmt r rq vars write k =
     (let ns = path_value vars ''namespace''
      in case ns_validate_name ns of
           Some e \<Rightarrow> h_done (write_namespace_error e (route_ctx write))
         | None \<Rightarrow> open_store r rq ns fmt (route_ctx write) (\<lambda>st spec. k ns spec))"

definition route_hosted ::
  "string \<Rightarrow> ('b, 're) registry \<Rightarrow> request \<Rightarrow> string \<Rightarrow> bool \<Rightarrow> ('b store \<Rightarrow> ('b world \<times> 'x) handler)
    \<Rightarrow> ('b, 're, 'x) sv_hnd" where
  "route_hosted fmt r rq ns write k =
     open_store r rq ns fmt (route_ctx write)
       (\<lambda>st spec. if is_proxy spec then h_done (write_store_error ErrUnsupported) else sv_store st (k st))"

definition route_proxied ::
  "string \<Rightarrow> ('b, 're) registry \<Rightarrow> request \<Rightarrow> string \<Rightarrow> ('b store \<Rightarrow> ('b world \<times> 'x) handler) \<Rightarrow> ('b, 're, 'x) sv_hnd" where
  "route_proxied fmt r rq ns k = open_proxy_store r rq ns fmt (\<lambda>st. sv_store st (k st))"

section \<open>What a route may change\<close>

lemma hosted_writer_lookup: "hosted_writer r ttl b (now_lookup rq ns' fmt # es) rq ns \<Longrightarrow> hosted_writer r ttl b es rq ns"
  unfolding hosted_writer_def by (elim exE conjE, intro exI conjI, rule recent_lookup, assumption+)

lemma changes_route_spec:
  assumes "ct_hooks (rg_catalog r) = [policy_invalidate]"
    and "\<And>spec. recent_spec r ttl b es (rq_now rq) (path_value vars ''namespace'') spec \<Longrightarrow>
        changes_at objs (reg_run r ttl b (now_lookup rq (path_value vars ''namespace'') fmt # es), x) Q
          (k (path_value vars ''namespace'') spec)"
  shows "changes_at objs (reg_run r ttl b es, x) Q (route_spec fmt r rq vars write k)"
  unfolding route_spec_def Let_def
  by (auto split: option.split intro!: changes_done changes_open_store assms)

lemma changes_route_hosted:
  fixes x :: 'x and r :: "('b, 're) registry"
  assumes "ct_hooks (rg_catalog r) = [policy_invalidate]" "blob_bucket (st_ops (rg_store r)) objs"
    and "\<And>st. hnd_safe st plain_op (h st :: ('b world \<times> 'x) handler)"
    and "\<And>key. hosted_writer r ttl b es rq ns \<Longrightarrow> in_tenant r ns fmt key \<Longrightarrow> Q key"
  shows "changes_at objs (reg_run r ttl b (now_lookup rq ns' fmt # es), x) Q (route_hosted fmt r rq ns write h)"
  unfolding route_hosted_def
  by (intro c_proxy assms(1,2) changes_hosted [OF assms(3,2), where ns = ns and fmt = fmt])
    (auto intro: assms(4) hosted_writer_lookup)

lemma changes_route_reads:
  fixes x :: 'x and r :: "('b, 're) registry"
  assumes "ct_hooks (rg_catalog r) = [policy_invalidate]" "blob_bucket (st_ops (rg_store r)) objs"
    and "\<And>st. hnd_safe st read_op (h st :: ('b world \<times> 'x) handler)"
  shows "changes_at objs (reg_run r ttl b es, x) Q (route_hosted fmt r rq ns write h)"
  unfolding route_hosted_def
  by (intro c_proxy assms(1,2) changes_read [OF assms(3)]) (use assms(2) in auto)

lemma changes_route_proxied:
  fixes x :: 'x and r :: "('b, 're) registry"
  assumes "ct_hooks (rg_catalog r) = [policy_invalidate]" "blob_bucket (st_ops (rg_store r)) objs"
    and "\<And>st. hnd_safe st any_op (h st :: ('b world \<times> 'x) handler)"
    and "recent_spec r ttl b es (rq_now rq) ns sp" "is_proxy sp"
    and "\<And>key. proxy_reader r ttl b es rq ns \<Longrightarrow> in_tenant r ns fmt key \<Longrightarrow> Q key"
  shows "changes_at objs (reg_run r ttl b (now_lookup rq ns fmt # es), x) Q (route_proxied fmt r rq ns h)"
  unfolding route_proxied_def by (rule changes_proxy [OF assms])

end
