(* ===== verification/Npm.thy ===== *)
theory Npm
  imports Npm_Name Memo_Fetch Route_Plane
begin

text \<open>
  The npm surface, \<open>handler.go\<close> and \<open>proxy.go\<close> of \<open>pkg/surface/npm\<close>: publishing, packuments,
  dist-tags and tarballs of a hosted namespace, and the pull-through cache of a proxy namespace.
  The router (\<open>github.com/gorilla/mux\<close>), the layouts of times, \<open>float64\<close> and the orders in which
  concurrent reads finish and maps are visited are parameters.
\<close>

record npm_config =
  npc_max_upload :: int
  npc_memo_ttl :: int
  npc_cache_ttl :: int
  npc_negative_ttl :: int

definition npm_default_max_upload :: int where "npm_default_max_upload = 100 * 2 ^ 20"
definition default_packument_memo_ttl :: int where "default_packument_memo_ttl = 10 * 10 ^ 9"
definition default_packument_cache_ttl :: int where "default_packument_cache_ttl = 600 * 10 ^ 9"

definition npm_upload_limit :: "npm_config \<Rightarrow> int" where
  "npm_upload_limit c = (if npc_max_upload c \<le> 0 then npm_default_max_upload else npc_max_upload c)"

definition packument_memo_ttl :: "npm_config \<Rightarrow> int" where
  "packument_memo_ttl c = (if npc_memo_ttl c = 0 then default_packument_memo_ttl else npc_memo_ttl c)"

definition packument_cache_ttl :: "npm_config \<Rightarrow> int" where
  "packument_cache_ttl c = (if npc_cache_ttl c = 0 then default_packument_cache_ttl else npc_cache_ttl c)"

text \<open>The routes as they are registered: a pattern, its methods, and the handler.\<close>

datatype npm_route = NpmPing | NpmRoot | NpmTagsList | NpmTags | NpmTarball | NpmPackage

definition npm_routes :: "(string \<times> string list \<times> npm_route) list" where
  "npm_routes =
     (let read = [''GET'', ''HEAD'']; change = [''PUT'', ''POST'', ''DELETE'']
      in [(''/{namespace}/-/ping'', read, NpmPing),
          (''/{namespace}'', read, NpmRoot), (''/{namespace}/'', read, NpmRoot),
          (''/{namespace}/-/package/@'' @ ''{scope}/{name}/dist-tags'', read, NpmTagsList),
          (''/{namespace}/-/package/{name}/dist-tags'', read, NpmTagsList),
          (''/{namespace}/-/package/@'' @ ''{scope}/{name}/dist-tags/{tag}'', change, NpmTags),
          (''/{namespace}/-/package/{name}/dist-tags/{tag}'', change, NpmTags),
          (''/{namespace}/@'' @ ''{scope}/{name}/-/{filename}'', read, NpmTarball),
          (''/{namespace}/{name}/-/{filename}'', read, NpmTarball),
          (''/{namespace}/@'' @ ''{scope}/{name}'', [''GET'', ''HEAD'', ''PUT''], NpmPackage),
          (''/{namespace}/{name}'', [''GET'', ''HEAD'', ''PUT''], NpmPackage)])"

record npm_env =
  nm_router :: "npm_route router"
  nm_num :: "string \<Rightarrow> string option"
  nm_time :: "int \<Rightarrow> string"
  nm_parse_time :: "string \<Rightarrow> int option"
  nm_parse_dur :: "string \<Rightarrow> int option"
  nm_finish_tags :: "string list \<Rightarrow> string list"
  nm_finish_versions :: "version list \<Rightarrow> version list"
  nm_visit :: "(string \<times> any_map option) list \<Rightarrow> (string \<times> any_map option) list"

section \<open>Documents in the store\<close>

definition metadata_file :: string where "metadata_file = ''package.json''"

definition doc_json :: "any_map option \<Rightarrow> json" where
  "doc_json d = (case d of None \<Rightarrow> JNull | Some m \<Rightarrow> JObject m)"

definition string_map_json :: "(string \<times> string) list \<Rightarrow> json" where
  "string_map_json m = json_map (map (\<lambda>(k, v). (k, JString v)) m)"

definition packument_json ::
  "package_name \<Rightarrow> (string \<times> string) list \<Rightarrow> (string \<times> json) list \<Rightarrow> (string \<times> string) list \<Rightarrow> json" where
  "packument_json pn tags versions stamps =
     JObject ([(''_id'', JString (pn_original pn)), (''name'', JString (pn_original pn)),
               (''dist-tags'', string_map_json tags), (''versions'', json_map versions)]
       @ omit_empty (stamps = []) ''time'' (string_map_json stamps))"

text \<open>A version's document and its upload time.\<close>

definition uploaded_at_of :: "meta res \<Rightarrow> string" where
  "uploaded_at_of r =
     (case r of
        Inl e \<Rightarrow> ''''
      | Inr m \<Rightarrow> (case map_of (m_annotations m) ''npm:uploaded_at'' of Some (JStr t) \<Rightarrow> t | _ \<Rightarrow> ''''))"

definition read_version_metadata ::
  "npm_env \<Rightarrow> 'b store \<Rightarrow> version \<Rightarrow> ('b, any_map option \<times> string) act" where
  "read_version_metadata E s v =
     act_bind (read_whole s (new_file s v metadata_file))
       (\<lambda>raw. case json_unmarshal raw of
          None \<Rightarrow> act_fail (ErrOther ''decode'')
        | Some j \<Rightarrow>
            (case decode_any_object (nm_num E) j of
               None \<Rightarrow> act_fail (ErrOther ''decode'')
             | Some d \<Rightarrow> act_catch (version_meta s v) (\<lambda>r. act_ret (d, uploaded_at_of r))))"

section \<open>A hosted namespace\<close>

text \<open>\<open>collect_versions\<close> visits the versions in the order in which their reads finish.\<close>

fun collect_versions ::
  "npm_env \<Rightarrow> 'b store \<Rightarrow> string \<Rightarrow> string \<Rightarrow> package_name \<Rightarrow> version list \<Rightarrow> err option
    \<Rightarrow> (string \<times> json) list \<Rightarrow> (string \<times> string) list
    \<Rightarrow> ('b, (string \<times> json) list \<times> (string \<times> string) list) act" where
  "collect_versions E s base ns pn [] first docs stamps =
     (case first of Some e \<Rightarrow> act_fail e | None \<Rightarrow> act_ret (docs, stamps))"
| "collect_versions E s base ns pn (v # vs) first docs stamps =
     act_catch (read_version_metadata E s v)
       (\<lambda>r. case r of
          Inl e \<Rightarrow>
            (if e = ErrNotFound then collect_versions E s base ns pn vs first docs stamps
             else collect_versions E s base ns pn vs
               (case first of None \<Rightarrow> Some e | Some e0 \<Rightarrow> Some e0) docs stamps)
        | Inr (d, uploaded) \<Rightarrow>
            collect_versions E s base ns pn vs first
              (AList.update (v_name v) (doc_json (map_option (\<lambda>m. rewrite_tarball m base ns pn) d)) docs)
              (if uploaded \<noteq> '''' then AList.update (v_name v) uploaded stamps else stamps))"

definition npm_packument :: "npm_env \<Rightarrow> 'b store \<Rightarrow> request \<Rightarrow> string \<Rightarrow> package_name \<Rightarrow> 'b hnd" where
  "npm_packument E s rq ns pn =
     (let pkg = store_package (pn_core pn)
      in h_store (pkg_exists s pkg)
           (\<lambda>ex. if \<not> ex then h_done (write_store_error ErrNotFound)
            else h_store (pkg_versions s pkg)
              (\<lambda>vs. h_store (collect_versions E s (request_base_url rq) ns pn (nm_finish_versions E vs) None [] [])
                 (\<lambda>(docs, stamps). if docs = [] then h_done (write_store_error ErrNotFound)
                  else h_store (pkg_tag_targets s (nm_finish_tags E) pkg)
                    (\<lambda>tags. h_done (if rq_method rq = ''HEAD'' then write_head_ok ''application/json''
                       else write_json 200 (packument_json pn tags docs stamps)))))))"

fun scan_versions :: "'b store \<Rightarrow> string \<Rightarrow> version list \<Rightarrow> ('b, file_handle option) act" where
  "scan_versions s filename [] = act_ret None"
| "scan_versions s filename (v # vs) =
     act_bind (file_exists s (new_file s v filename))
       (\<lambda>ex. if ex then act_ret (Some (new_file s v filename)) else scan_versions s filename vs)"

definition find_tarball :: "'b store \<Rightarrow> package_name \<Rightarrow> string \<Rightarrow> ('b, file_handle option) act" where
  "find_tarball s pn filename =
     (let pkg = store_package (pn_core pn); version = npm_derive_version pn filename;
          f = new_file s (pkg_version pkg version) filename;
          scan = act_bind (pkg_versions s pkg) (scan_versions s filename)
      in if version \<noteq> ''''
         then act_bind (file_exists s f) (\<lambda>ex. if ex then act_ret (Some f) else scan)
         else scan)"

definition npm_tarball :: "'b store \<Rightarrow> request \<Rightarrow> package_name \<Rightarrow> string \<Rightarrow> 'b hnd" where
  "npm_tarball s rq pn filename =
     h_store (find_tarball s pn filename)
       (\<lambda>r. case r of
          None \<Rightarrow> h_done (write_store_error ErrNotFound)
        | Some f \<Rightarrow> redirect_or_stream_file s rq f ''application/octet-stream'')"

definition write_tags :: "npm_env \<Rightarrow> 'b store \<Rightarrow> package_name \<Rightarrow> 'b hnd" where
  "write_tags E s pn =
     h_store (pkg_tag_targets s (nm_finish_tags E) (store_package (pn_core pn)))
       (\<lambda>tags. h_done (write_json 200 (string_map_json tags)))"

definition npm_list_tags :: "npm_env \<Rightarrow> 'b store \<Rightarrow> package_name \<Rightarrow> 'b hnd" where
  "npm_list_tags E s pn =
     h_store (pkg_exists s (store_package (pn_core pn)))
       (\<lambda>ex. if \<not> ex then h_done (write_store_error ErrNotFound) else write_tags E s pn)"

definition npm_set_tag :: "npm_env \<Rightarrow> 'b store \<Rightarrow> request \<Rightarrow> package_name \<Rightarrow> string \<Rightarrow> 'b hnd" where
  "npm_set_tag E s rq pn tag =
     (case read_capped_body (64 * 2 ^ 10) (rq_body rq) of
        (raw, too_large, e) \<Rightarrow>
          (if too_large then h_done (write_error 413 ''dist-tag body too large'')
           else if e \<noteq> None then h_done (write_error 400 ''invalid dist-tag body'')
           else case parse_tag_version raw of
             Inl e \<Rightarrow> h_done (write_store_error e)
           | Inr version \<Rightarrow>
               (let pkg = store_package (pn_core pn)
                in h_store (version_exists s (pkg_version pkg version))
                     (\<lambda>ex. if \<not> ex then h_done (write_store_error ErrNotFound)
                      else h_store (pkg_set_tag s pkg tag version) (\<lambda>_. write_tags E s pn)))))"

section \<open>Publishing\<close>

fun set_tags :: "'b store \<Rightarrow> pkg \<Rightarrow> (string \<times> string) list \<Rightarrow> ('b, unit) act" where
  "set_tags s p [] = act_ret ()"
| "set_tags s p ((name, target) # ts) =
     act_bind (act_check (validate_tag name))
       (\<lambda>_. act_bind (act_check (npm_validate_version target))
          (\<lambda>_. act_bind (pkg_set_tag s p name target) (\<lambda>_. set_tags s p ts)))"

definition apply_dist_tags :: "'b store \<Rightarrow> pkg \<Rightarrow> (string \<times> string) list \<Rightarrow> string \<Rightarrow> ('b, unit) act" where
  "apply_dist_tags s p tags version =
     (if tags = [] then pkg_set_tag s p ''latest'' version
      else set_tags s p (sort_key fst tags))"

text \<open>What a publish document means: what is stored under which name, or why it is refused.\<close>

record publication =
  pb_version :: string
  pb_tarball :: string
  pb_body :: body
  pb_expected :: "expected_digest list"
  pb_metadata :: string
  pb_tags :: "(string \<times> string) list"

text \<open>The document that is stored: its tarball's URL is this registry's.\<close>

definition published_metadata :: "any_map \<Rightarrow> any_map option \<Rightarrow> string \<Rightarrow> any_map" where
  "published_metadata m dist url =
     AList.update ''dist''
       (json_map (AList.update ''tarball'' (JString url) (case dist of None \<Rightarrow> [] | Some d \<Rightarrow> d))) m"

text \<open>A version document \<open>null\<close> leaves the map nil, and writing to it panics.\<close>

definition read_publication ::
  "npm_env \<Rightarrow> npm_config \<Rightarrow> request \<Rightarrow> string \<Rightarrow> package_name \<Rightarrow> (writer \<Rightarrow> writer) + publication" where
  "read_publication E cfg rq ns pn =
     (case read_capped_body (npm_upload_limit cfg) (rq_body rq) of
        (raw, too_large, e) \<Rightarrow>
          (if too_large then Inl (write_error 413 ''upload too large'')
           else if e \<noteq> None then Inl (write_error 400 ''invalid publish body'')
           else case decode_publish raw of
             None \<Rightarrow> Inl (write_error 400 ''invalid publish document'')
           | Some doc \<Rightarrow>
               (if pd_name doc \<noteq> pn_original pn then Inl (write_error 400 ''publish name does not match URL'')
                else case pd_versions doc of
                  [(version, j)] \<Rightarrow>
                    (case npm_validate_version version of
                       Some e \<Rightarrow> Inl (write_store_error e)
                     | None \<Rightarrow>
                         (case decode_any_object (nm_num E) j of
                            None \<Rightarrow> Inl (write_error 400 ''invalid version metadata'')
                          | Some d \<Rightarrow>
                              (let dist = (case d of None \<Rightarrow> None | Some m \<Rightarrow> any_object m ''dist'')
                               in case tarball_storage_name pn version dist of
                                    Inl e \<Rightarrow> Inl (write_store_error e)
                                  | Inr filename \<Rightarrow>
                                      (case pick_attachment (pd_attachments doc) filename pn version of
                                         None \<Rightarrow> Inl (write_error 400 ''missing tarball attachment'')
                                       | Some att \<Rightarrow>
                                           (case expected_digests dist of
                                              None \<Rightarrow> Inl (write_error 400 ''invalid integrity declaration'')
                                            | Some expected \<Rightarrow>
                                                (case d of
                                                   None \<Rightarrow> Inl abort_response
                                                 | Some m \<Rightarrow>
                                                     Inr \<lparr>pb_version = version, pb_tarball = filename,
                                                          pb_body = tarball_stream (at_data att),
                                                          pb_expected = expected,
                                                          pb_metadata = json_print (json_map (published_metadata m dist
                                                            (tarball_url (request_base_url rq) ns pn filename))),
                                                          pb_tags = pd_dist_tags doc\<rparr>))))))
                | _ \<Rightarrow> Inl (write_error 400 ''publish must contain exactly one version''))))"

definition publish_annotations :: "npm_env \<Rightarrow> request \<Rightarrow> package_name \<Rightarrow> publication \<Rightarrow> annotations" where
  "publish_annotations E rq pn pb =
     [(''npm:name'', JStr (pn_original pn)), (''npm:version'', JStr (pb_version pb)),
      (''npm:filename'', JStr (pb_tarball pb)), (''npm:uploaded_at'', JStr (nm_time E (rq_now rq)))]"

definition version_annotations :: "package_name \<Rightarrow> string \<Rightarrow> string \<Rightarrow> annotations" where
  "version_annotations pn version uploaded_at =
     [(''npm:name'', JStr (pn_original pn)), (''npm:version'', JStr version),
      (''npm:uploaded_at'', JStr uploaded_at)]"

text \<open>The envelopes, the metadata document and the tags, after the tarball.\<close>

definition record_publication ::
  "npm_env \<Rightarrow> 'b store \<Rightarrow> request \<Rightarrow> package_name \<Rightarrow> publication \<Rightarrow> ('b, unit) act" where
  "record_publication E s rq pn pb =
     (let now = rq_now rq; core = pn_core pn; pkg = store_package core; ver = pkg_version pkg (pb_version pb)
      in act_bind (act_ensure (add_package s now core [WithAnnotations [(''npm:name'', JStr (pn_original pn))]]))
           (\<lambda>_. act_bind (act_ensure (pkg_add_version s now pkg (pb_version pb)
                   [WithAnnotations (version_annotations pn (pb_version pb) (nm_time E now))]))
              (\<lambda>_. act_bind (version_add_file s now ver metadata_file (bytes_body (pb_metadata pb))
                      [WithAllowOverwrite True])
                 (\<lambda>_. apply_dist_tags s pkg (pb_tags pb) (pb_version pb)))))"

definition npm_publish ::
  "npm_env \<Rightarrow> npm_config \<Rightarrow> 'b store \<Rightarrow> request \<Rightarrow> string \<Rightarrow> package_name \<Rightarrow> 'b hnd" where
  "npm_publish E cfg s rq ns pn =
     (case read_publication E cfg rq ns pn of
        Inl bad \<Rightarrow> h_done bad
      | Inr pb \<Rightarrow>
          h_try (version_add_file s (rq_now rq) (pkg_version (store_package (pn_core pn)) (pb_version pb))
                   (pb_tarball pb) (pb_body pb)
                   [WithExpectedDigests (pb_expected pb), WithAnnotations (publish_annotations E rq pn pb)])
            (\<lambda>e. if e = err_corrupt then h_done (write_error 400 ''invalid base64 tarball attachment'')
                 else h_done (write_store_error e))
            (\<lambda>_. h_store (record_publication E s rq pn pb)
               (\<lambda>_. h_done (write_json 201
                  (json_map [(''ok'', JBool True), (''id'', JString (pn_original pn)), (''rev'', JString '''')])))))"

section \<open>A proxy namespace\<close>

record proxy_packument =
  pp_name :: string
  pp_dist_tags :: "(string \<times> string) list"
  pp_versions :: "(string \<times> any_map option) list"
  pp_time :: "(string \<times> string) list"

definition decode_packument :: "npm_env \<Rightarrow> string \<Rightarrow> proxy_packument option" where
  "decode_packument E body =
     (case json_unmarshal body of
        None \<Rightarrow> None
      | Some v \<Rightarrow> decode_struct (decode_field False
          [(''name'', \<lambda>v p. map_option (\<lambda>s. p\<lparr>pp_name := s\<rparr>) (decode_string v (pp_name p))),
           (''dist-tags'', \<lambda>v p. map_option (\<lambda>m. p\<lparr>pp_dist_tags := m\<rparr>) (decode_string_map v (pp_dist_tags p))),
           (''versions'', \<lambda>v p. map_option (\<lambda>m. p\<lparr>pp_versions := m\<rparr>)
              (decode_map (decode_any_object (nm_num E)) v (pp_versions p))),
           (''time'', \<lambda>v p. map_option (\<lambda>m. p\<lparr>pp_time := m\<rparr>) (decode_string_map v (pp_time p)))])
          v \<lparr>pp_name = '''', pp_dist_tags = [], pp_versions = [], pp_time = []\<rparr>)"

definition parse_upstream_packument :: "npm_env \<Rightarrow> package_name \<Rightarrow> response \<Rightarrow> proxy_packument option" where
  "parse_upstream_packument E pn resp =
     (case decode_packument E (rs_body resp) of
        None \<Rightarrow> None
      | Some p \<Rightarrow> if pp_versions p = [] then None else Some (p\<lparr>pp_name := pn_original pn\<rparr>))"

definition proxy_packument_json :: "proxy_packument \<Rightarrow> json" where
  "proxy_packument_json p =
     JObject ([(''name'', JString (pp_name p))]
       @ omit_empty (pp_dist_tags p = []) ''dist-tags'' (string_map_json (pp_dist_tags p))
       @ [(''versions'', json_map (map (\<lambda>(v, d). (v, doc_json d)) (pp_versions p)))]
       @ omit_empty (pp_time p = []) ''time'' (string_map_json (pp_time p)))"

definition dist_tarball :: "any_map option \<Rightarrow> string" where
  "dist_tarball d =
     (case d of
        None \<Rightarrow> ''''
      | Some m \<Rightarrow> (case any_object m ''dist'' of None \<Rightarrow> '''' | Some dist \<Rightarrow> any_string dist ''tarball''))"

definition find_by_filename :: "npm_env \<Rightarrow> proxy_packument \<Rightarrow> string \<Rightarrow> (string \<times> string) option" where
  "find_by_filename E p filename =
     map_option (\<lambda>(v, d). (v, dist_tarball d))
       (find (\<lambda>(v, d). dist_tarball d \<noteq> '''' \<and> path_base (dist_tarball d) = filename) (nm_visit E (pp_versions p)))"

definition publish_time :: "npm_env \<Rightarrow> proxy_packument \<Rightarrow> string \<Rightarrow> int option" where
  "publish_time E p version =
     (case map_of (pp_time p) version of
        None \<Rightarrow> None
      | Some t \<Rightarrow> if t = '''' then None else nm_parse_time E t)"

text \<open>A copy of the document is rewritten; a nil one becomes empty.\<close>

definition rewrite_version :: "any_map option \<Rightarrow> string \<Rightarrow> string \<Rightarrow> package_name \<Rightarrow> json" where
  "rewrite_version d base ns pn =
     JObject (case d of None \<Rightarrow> [] | Some m \<Rightarrow> rewrite_tarball m base ns pn)"

definition render_packument :: "proxy_packument \<Rightarrow> string \<Rightarrow> string \<Rightarrow> package_name \<Rightarrow> json" where
  "render_packument p base ns pn =
     packument_json pn (pp_dist_tags p)
       (map (\<lambda>(v, d). (v, rewrite_version d base ns pn)) (pp_versions p)) (pp_time p)"

definition packument_key :: "string \<Rightarrow> string" where
  "packument_key core = ''npm:packument:'' @ core"

definition tarball_key :: "string \<Rightarrow> string \<Rightarrow> string" where
  "tarball_key core filename = ''npm:tarball:'' @ core @ '':'' @ filename"

definition packument_url :: "spec \<Rightarrow> package_name \<Rightarrow> string" where
  "packument_url sp pn =
     (let base = trim_right_slash (px_upstream (sp_proxy sp))
      in if pn_scoped pn then base @ ''/@'' @ pn_scope pn @ ''%2f'' @ pn_name pn
         else base @ ''/'' @ pn_name pn)"

fun synth_versions ::
  "npm_env \<Rightarrow> 'b store \<Rightarrow> version list \<Rightarrow> proxy_packument \<Rightarrow> ('b, proxy_packument) act" where
  "synth_versions E s [] p = act_ret p"
| "synth_versions E s (v # vs) p =
     act_catch (read_version_metadata E s v)
       (\<lambda>r. case r of
          Inl e \<Rightarrow> synth_versions E s vs p
        | Inr (d, uploaded) \<Rightarrow>
            synth_versions E s vs
              (p\<lparr>pp_versions := AList.update (v_name v) d (pp_versions p),
                 pp_time := (if uploaded \<noteq> '''' then AList.update (v_name v) uploaded (pp_time p) else pp_time p)\<rparr>))"

definition synthesize_packument ::
  "npm_env \<Rightarrow> 'b store \<Rightarrow> package_name \<Rightarrow> ('b, proxy_packument option) act" where
  "synthesize_packument E s pn =
     (let pkg = store_package (pn_core pn);
          start = \<lparr>pp_name = pn_original pn, pp_dist_tags = [], pp_versions = [], pp_time = []\<rparr>
      in act_catch (pkg_exists s pkg)
           (\<lambda>r. if r \<noteq> Inr True then act_ret None
            else act_catch (pkg_versions s pkg)
              (\<lambda>r. case r of
                 Inl e \<Rightarrow> act_ret None
               | Inr vs \<Rightarrow>
                   act_bind (synth_versions E s vs start)
                     (\<lambda>p. if pp_versions p = [] then act_ret None
                      else act_catch (pkg_tag_targets s (nm_finish_tags E) pkg)
                        (\<lambda>r. case r of
                           Inl e \<Rightarrow> act_ret (Some p)
                         | Inr tags \<Rightarrow> act_ret (Some (p\<lparr>pp_dist_tags := tags\<rparr>)))))))"

text \<open>The durable snapshot while it is fresh.\<close>

definition fresh_snapshot ::
  "npm_env \<Rightarrow> npm_config \<Rightarrow> 'b store \<Rightarrow> request \<Rightarrow> package_name \<Rightarrow> ('b, proxy_packument option) act" where
  "fresh_snapshot E cfg s rq pn =
     (let cf = store_cache s (packument_key (pn_core pn)); ttl = packument_cache_ttl cfg
      in if ttl \<le> 0 then act_ret None
         else act_catch (file_exists s cf)
           (\<lambda>r. if r \<noteq> Inr True then act_ret None
            else act_catch (file_meta s (rq_now rq) (rq_now rq) (rq_now rq) cf)
              (\<lambda>r. case r of
                 Inl e \<Rightarrow> act_ret None
               | Inr m \<Rightarrow>
                   (if time_sub (rq_now rq) (m_updated_at m) < ttl then read_snapshot (decode_packument E) s cf
                    else act_ret None))))"

definition load_packument ::
  "npm_env \<Rightarrow> npm_config \<Rightarrow> 'u upstream \<Rightarrow> http_client \<Rightarrow> 'b store \<Rightarrow> request \<Rightarrow> string \<Rightarrow> spec \<Rightarrow> package_name
    \<Rightarrow> (proxy_packument res \<Rightarrow> ('b world \<times> ('u, 'z) proxy_state_scheme) handler)
    \<Rightarrow> ('b world \<times> ('u, 'z) proxy_state_scheme) handler" where
  "load_packument E cfg up hc s rq ns sp pn k =
     (let key = packument_key (pn_core pn)
      in h_try (in_store (fresh_snapshot E cfg s rq pn)) (\<lambda>e. k (Inl e))
           (\<lambda>r. case r of
              Some p \<Rightarrow> k (Inr p)
            | None \<Rightarrow>
                refresh_document up hc s rq ns format_npm key (packument_url sp pn)
                  (parse_upstream_packument E pn) (\<lambda>p. json_print (proxy_packument_json p))
                  (fallback_document (decode_packument E) s key (synthesize_packument E s pn)) k))"

type_synonym ('b, 'u) npm_hnd = "('b world \<times> ('u, proxy_packument) memo_state) handler"

definition fetch_packument ::
  "npm_env \<Rightarrow> npm_config \<Rightarrow> 'u upstream \<Rightarrow> http_client \<Rightarrow> 'b store \<Rightarrow> request \<Rightarrow> string \<Rightarrow> spec \<Rightarrow> package_name
    \<Rightarrow> (proxy_packument \<Rightarrow> ('b, 'u) npm_hnd) \<Rightarrow> ('b, 'u) npm_hnd" where
  "fetch_packument E cfg up hc s rq ns sp pn k =
     fetch_document (packument_memo_ttl cfg) rq ns format_npm (pn_core pn) (packument_key (pn_core pn))
       (load_packument E cfg up hc s rq ns sp pn)
       (\<lambda>r. case r of Inl e \<Rightarrow> h_done (write_fetch_error e) | Inr p \<Rightarrow> k p)"

definition npm_proxy_packument ::
  "npm_env \<Rightarrow> npm_config \<Rightarrow> 'u upstream \<Rightarrow> http_client \<Rightarrow> 'b store \<Rightarrow> request \<Rightarrow> string \<Rightarrow> spec \<Rightarrow> package_name
    \<Rightarrow> ('b, 'u) npm_hnd" where
  "npm_proxy_packument E cfg up hc s rq ns sp pn =
     fetch_packument E cfg up hc s rq ns sp pn
       (\<lambda>p. h_done (if rq_method rq = ''HEAD'' then write_head_ok ''application/json''
          else write_json 200 (render_packument p (request_base_url rq) ns pn)))"

definition npm_proxy_tags ::
  "npm_env \<Rightarrow> npm_config \<Rightarrow> 'u upstream \<Rightarrow> http_client \<Rightarrow> 'b store \<Rightarrow> request \<Rightarrow> string \<Rightarrow> spec \<Rightarrow> package_name
    \<Rightarrow> ('b, 'u) npm_hnd" where
  "npm_proxy_tags E cfg up hc s rq ns sp pn =
     fetch_packument E cfg up hc s rq ns sp pn
       (\<lambda>p. h_done (if rq_method rq = ''HEAD'' then write_head_ok ''application/json''
          else write_json 200 (string_map_json (pp_dist_tags p))))"

definition npm_allow :: "npm_env \<Rightarrow> request \<Rightarrow> spec \<Rightarrow> package_name \<Rightarrow> string \<Rightarrow> proxy_packument \<Rightarrow> bool" where
  "npm_allow E rq sp pn version p =
     (if px_filters (sp_proxy sp) = [] then True
      else case compile_chain (nm_parse_dur E) (px_filters (sp_proxy sp)) of
        Inl e \<Rightarrow> False
      | Inr ch \<Rightarrow>
          allowed (decide_at ch
            \<lparr>ref_package = pn_original pn, ref_version = version, ref_published_at = publish_time E p version\<rparr>
            (rq_now rq)))"

definition npm_record_parents ::
  "npm_env \<Rightarrow> 'b store \<Rightarrow> request \<Rightarrow> string \<Rightarrow> package_name \<Rightarrow> string \<Rightarrow> string \<Rightarrow> proxy_packument \<Rightarrow> ('b, unit) act"
where
  "npm_record_parents E s rq ns pn version uploaded_at p =
     (let now = rq_now rq; core = pn_core pn; pkg = store_package core
      in act_bind (act_ensure (add_package s now core [WithAnnotations [(''npm:name'', JStr (pn_original pn))]]))
           (\<lambda>_. act_bind (act_ensure (pkg_add_version s now pkg version
                   [WithAnnotations (version_annotations pn version uploaded_at)]))
              (\<lambda>_. case map_of (pp_versions p) version of
                 None \<Rightarrow> act_ret ()
               | Some d \<Rightarrow>
                   act_void (version_add_file s now (pkg_version pkg version) metadata_file
                     (bytes_body (json_print (rewrite_version d (request_base_url rq) ns pn)))
                     [WithAllowOverwrite True]))))"

text \<open>The stream of a tarball that the packument names and the filters allow.\<close>

definition npm_stream ::
  "npm_env \<Rightarrow> 'u upstream \<Rightarrow> 'b store \<Rightarrow> request \<Rightarrow> string \<Rightarrow> package_name \<Rightarrow> string \<Rightarrow> string \<Rightarrow> string
    \<Rightarrow> proxy_packument \<Rightarrow> ('b world \<times> ('u, 'z) proxy_state_scheme) handler" where
  "npm_stream E up s rq ns pn version filename url p =
     (let uploaded_at = nm_time E (case publish_time E p version of Some t \<Rightarrow> t | None \<Rightarrow> rq_now rq)
      in pull_artifact up rq ns format_npm (tarball_key (pn_core pn) filename) url ''application/octet-stream''
           (\<lambda>b. in_store (version_add_file s (rq_now rq) (pkg_version (store_package (pn_core pn)) version) filename b
              [WithAnnotations
                [(''npm:name'', JStr (pn_original pn)), (''npm:version'', JStr version),
                 (''npm:filename'', JStr filename), (''npm:upstream_url'', JStr url),
                 (''npm:uploaded_at'', JStr uploaded_at)]]))
           (after_fill (in_store (npm_record_parents E s rq ns pn version uploaded_at p))))"

definition npm_local ::
  "'b store \<Rightarrow> request \<Rightarrow> package_name \<Rightarrow> string \<Rightarrow> string \<Rightarrow> ('b world \<times> 'x) handler \<Rightarrow> ('b world \<times> 'x) handler" where
  "npm_local s rq pn version filename miss =
     (let f = new_file s (pkg_version (store_package (pn_core pn)) version) filename
      in h_store (in_store (file_exists s f))
           (\<lambda>ex. if ex then on_store (redirect_or_stream_file s rq f ''application/octet-stream'') else miss))"

definition npm_cold_tarball ::
  "npm_env \<Rightarrow> npm_config \<Rightarrow> 'u upstream \<Rightarrow> http_client \<Rightarrow> 'b store \<Rightarrow> request \<Rightarrow> string \<Rightarrow> spec \<Rightarrow> package_name
    \<Rightarrow> string \<Rightarrow> ('b, 'u) npm_hnd" where
  "npm_cold_tarball E cfg up hc s rq ns sp pn filename =
     h_neg_has rq ns format_npm (tarball_key (pn_core pn) filename) (h_done (write_store_error ErrNotFound))
       (fetch_packument E cfg up hc s rq ns sp pn
          (\<lambda>p. case find_by_filename E p filename of
             None \<Rightarrow> h_not_found rq ns format_npm (tarball_key (pn_core pn) filename)
           | Some (version, url) \<Rightarrow>
               npm_local s rq pn version filename
                 (if \<not> npm_allow E rq sp pn version p then h_done (write_store_error ErrNotFound)
                  else if rq_method rq = ''HEAD'' then h_done (write_head_ok ''application/octet-stream'')
                  else npm_stream E up s rq ns pn version filename url p)))"

definition npm_proxy_tarball ::
  "npm_env \<Rightarrow> npm_config \<Rightarrow> 'u upstream \<Rightarrow> http_client \<Rightarrow> 'b store \<Rightarrow> request \<Rightarrow> string \<Rightarrow> spec \<Rightarrow> package_name
    \<Rightarrow> string \<Rightarrow> ('b, 'u) npm_hnd" where
  "npm_proxy_tarball E cfg up hc s rq ns sp pn filename =
     (let version = npm_derive_version pn filename; cold = npm_cold_tarball E cfg up hc s rq ns sp pn filename
      in if version \<noteq> '''' then npm_local s rq pn version filename cold else cold)"

text \<open>A new engine's client and state.\<close>

definition npm_client :: http_client where "npm_client = new_client []"

definition npm_new_proxy :: "npm_config \<Rightarrow> 'u \<Rightarrow> ('u, proxy_packument) memo_state" where
  "npm_new_proxy cfg u = \<lparr>ps_neg = neg_new (npc_negative_ttl cfg), ps_up = u, ms_memo = Map.empty\<rparr>"

section \<open>Dispatch\<close>

text \<open>A namespace by its variable, its mode by a first lookup, and its store by a second.\<close>

type_synonym ('b, 're, 'u) npm_sv = "('b, 're, ('u, proxy_packument) memo_state) sv_hnd"

definition npm_spec ::
  "('b, 're) registry \<Rightarrow> request \<Rightarrow> (string \<times> string) list \<Rightarrow> bool \<Rightarrow> (string \<Rightarrow> spec \<Rightarrow> ('b, 're, 'x) sv_hnd)
    \<Rightarrow> ('b, 're, 'x) sv_hnd" where
  "npm_spec = route_spec format_npm"

definition npm_hosted ::
  "('b, 're) registry \<Rightarrow> request \<Rightarrow> string \<Rightarrow> bool \<Rightarrow> ('b store \<Rightarrow> 'b hnd) \<Rightarrow> ('b, 're, 'x) sv_hnd" where
  "npm_hosted r rq ns write k = route_hosted format_npm r rq ns write (\<lambda>st. on_store (k st))"

definition npm_proxied ::
  "('b, 're) registry \<Rightarrow> request \<Rightarrow> string \<Rightarrow> ('b store \<Rightarrow> ('b world \<times> 'x) handler) \<Rightarrow> ('b, 're, 'x) sv_hnd" where
  "npm_proxied = route_proxied format_npm"

definition parse_package_vars :: "(string \<times> string) list \<Rightarrow> package_name res" where
  "parse_package_vars vars =
     (case map_of vars ''scope'' of
        Some scope \<Rightarrow> parse_package_name (''@'' @ scope @ ''/'' @ path_value vars ''name'')
      | None \<Rightarrow> parse_package_name (path_value vars ''name''))"

definition npm_probe_route ::
  "('b, 're) registry \<Rightarrow> request \<Rightarrow> (string \<times> string) list \<Rightarrow> json \<Rightarrow> ('b, 're, 'x) sv_hnd" where
  "npm_probe_route r rq vars v = npm_spec r rq vars False (\<lambda>ns spec. h_done (write_json 200 v))"

definition npm_package_route ::
  "npm_env \<Rightarrow> npm_config \<Rightarrow> ('b, 're) registry \<Rightarrow> 'u upstream \<Rightarrow> http_client \<Rightarrow> request \<Rightarrow> (string \<times> string) list
    \<Rightarrow> ('b, 're, 'u) npm_sv" where
  "npm_package_route E cfg r up hc rq vars =
     (case parse_package_vars vars of
        Inl e \<Rightarrow> h_done (write_store_error e)
      | Inr pn \<Rightarrow>
          (let write = (rq_method rq = ''PUT'')
           in npm_spec r rq vars write
                (\<lambda>ns spec.
                   if is_proxy spec then
                     (if write then h_done (write_method_not_allowed [''GET'', ''HEAD''])
                      else npm_proxied r rq ns (\<lambda>st. npm_proxy_packument E cfg up hc st rq ns spec pn))
                   else if write then npm_hosted r rq ns True (\<lambda>st. npm_publish E cfg st rq ns pn)
                   else npm_hosted r rq ns False (\<lambda>st. npm_packument E st rq ns pn))))"

definition npm_tarball_route ::
  "npm_env \<Rightarrow> npm_config \<Rightarrow> ('b, 're) registry \<Rightarrow> 'u upstream \<Rightarrow> http_client \<Rightarrow> request \<Rightarrow> (string \<times> string) list
    \<Rightarrow> ('b, 're, 'u) npm_sv" where
  "npm_tarball_route E cfg r up hc rq vars =
     (case parse_package_vars vars of
        Inl e \<Rightarrow> h_done (write_store_error e)
      | Inr pn \<Rightarrow>
          (let filename = path_value vars ''filename''
           in case validate_tarball_name filename of
                Some e \<Rightarrow> h_done (write_store_error e)
              | None \<Rightarrow> npm_spec r rq vars False
                  (\<lambda>ns spec.
                     if is_proxy spec
                     then npm_proxied r rq ns (\<lambda>st. npm_proxy_tarball E cfg up hc st rq ns spec pn filename)
                     else npm_hosted r rq ns False (\<lambda>st. npm_tarball st rq pn filename))))"

definition npm_tags_list_route ::
  "npm_env \<Rightarrow> npm_config \<Rightarrow> ('b, 're) registry \<Rightarrow> 'u upstream \<Rightarrow> http_client \<Rightarrow> request \<Rightarrow> (string \<times> string) list
    \<Rightarrow> ('b, 're, 'u) npm_sv" where
  "npm_tags_list_route E cfg r up hc rq vars =
     (case parse_package_vars vars of
        Inl e \<Rightarrow> h_done (write_store_error e)
      | Inr pn \<Rightarrow> npm_spec r rq vars False
          (\<lambda>ns spec.
             if is_proxy spec then npm_proxied r rq ns (\<lambda>st. npm_proxy_tags E cfg up hc st rq ns spec pn)
             else npm_hosted r rq ns False (\<lambda>st. npm_list_tags E st pn)))"

definition npm_tags_route ::
  "npm_env \<Rightarrow> ('b, 're) registry \<Rightarrow> request \<Rightarrow> (string \<times> string) list \<Rightarrow> ('b, 're, 'x) sv_hnd" where
  "npm_tags_route E r rq vars =
     (case parse_package_vars vars of
        Inl e \<Rightarrow> h_done (write_store_error e)
      | Inr pn \<Rightarrow>
          (let tag = path_value vars ''tag''
           in case validate_tag tag of
                Some e \<Rightarrow> h_done (write_store_error e)
              | None \<Rightarrow> npm_spec r rq vars True
                  (\<lambda>ns spec.
                     if is_proxy spec then h_done (write_method_not_allowed [''GET'', ''HEAD''])
                     else if rq_method rq = ''DELETE'' then h_done (write_store_error ErrUnsupported)
                     else npm_hosted r rq ns True (\<lambda>st. npm_set_tag E st rq pn tag))))"

fun npm_action ::
  "npm_env \<Rightarrow> npm_config \<Rightarrow> ('b, 're) registry \<Rightarrow> 'u upstream \<Rightarrow> http_client \<Rightarrow> request \<Rightarrow> (string \<times> string) list
    \<Rightarrow> npm_route \<Rightarrow> ('b, 're, 'u) npm_sv" where
  "npm_action E cfg r up hc rq vars NpmPing = npm_probe_route r rq vars (JObject [])"
| "npm_action E cfg r up hc rq vars NpmRoot =
     npm_probe_route r rq vars (json_map [(''db_name'', JString ''open-artifact'')])"
| "npm_action E cfg r up hc rq vars NpmTagsList = npm_tags_list_route E cfg r up hc rq vars"
| "npm_action E cfg r up hc rq vars NpmTags = npm_tags_route E r rq vars"
| "npm_action E cfg r up hc rq vars NpmTarball = npm_tarball_route E cfg r up hc rq vars"
| "npm_action E cfg r up hc rq vars NpmPackage = npm_package_route E cfg r up hc rq vars"

definition npm_serve ::
  "npm_env \<Rightarrow> npm_config \<Rightarrow> ('b, 're) registry \<Rightarrow> 'u upstream \<Rightarrow> http_client \<Rightarrow> request \<Rightarrow> ('b, 're, 'u) npm_sv" where
  "npm_serve E cfg r up hc rq =
     (case nm_router E npm_routes rq of
        Routed h vars \<Rightarrow> npm_action E cfg r up hc rq vars h
      | MethodMismatch \<Rightarrow> h_done (write_method_not_allowed [''GET'', ''HEAD'', ''PUT'', ''POST''])
      | RouterAnswer f \<Rightarrow> h_done f)"

definition npm_handler ::
  "npm_env \<Rightarrow> npm_config \<Rightarrow> ('b, 're) registry \<Rightarrow> 'p oidc_lib \<Rightarrow> 'u upstream \<Rightarrow> request
    \<Rightarrow> ('p authn \<times> ('b, 're policy_cache) ns_world \<times> ('u, proxy_packument) memo_state) handler" where
  "npm_handler E cfg r L up = auth_middleware (authenticate L) (npm_serve E cfg r up npm_client)"

end
