(* ===== verification/Spec_Codec.thy ===== *)
theory Spec_Codec
  imports Json Namespace
begin

text \<open>
  The JSON form of namespaces: what \<open>encoding/json\<close> prints of the structs of
  \<open>pkg/namespace/namespace.go\<close> and \<open>pkg/proxy/filter/filter.go\<close> and how it decodes them, with
  unknown fields ignored (\<open>Unmarshal\<close>) or refused (\<open>DisallowUnknownFields\<close>).  A duplicate key is
  decoded onto the value that its field already has.  What \<open>float64\<close> makes of a number literal is
  the parameter \<open>num\<close>.
\<close>

section \<open>Printing\<close>

definition omit_string :: "string \<Rightarrow> string \<Rightarrow> (string \<times> json) list" where
  "omit_string k s = omit_empty (s = '''') k (JString s)"

definition matcher_json :: "subject_matcher \<Rightarrow> json" where
  "matcher_json m =
     JObject (omit_string ''issuer'' (sm_issuer m) @ omit_string ''sub_match'' (sm_sub_match m)
       @ omit_string ''email'' (sm_email m)
       @ omit_empty (sm_claims_match m = []) ''claims_match''
           (json_map (map (\<lambda>(k, v). (k, JString v)) (sm_claims_match m)))
       @ omit_string ''kind'' (sm_kind m))"

definition omit_list :: "string \<Rightarrow> ('a \<Rightarrow> json) \<Rightarrow> 'a list \<Rightarrow> (string \<times> json) list" where
  "omit_list k f xs = omit_empty (xs = []) k (JArray (map f xs))"

definition policy_json :: "policy \<Rightarrow> json" where
  "policy_json p =
     JObject (omit_list ''readers'' matcher_json (po_readers p)
       @ omit_list ''writers'' matcher_json (po_writers p))"

definition rule_json :: "rule \<Rightarrow> json" where
  "rule_json r =
     JObject (omit_string ''package'' (r_package r) @ omit_string ''version'' (r_version r))"

definition filter_spec_json :: "filter_spec \<Rightarrow> json" where
  "filter_spec_json f =
     JObject ((''kind'', JString (fs_kind f)) # omit_list ''patterns'' JString (fs_patterns f)
       @ omit_list ''rules'' rule_json (fs_rules f) @ omit_string ''min_age'' (fs_min_age f))"

definition proxy_json :: "proxy \<Rightarrow> json" where
  "proxy_json p =
     JObject (omit_string ''upstream'' (px_upstream p)
       @ omit_list ''filters'' filter_spec_json (px_filters p))"

definition spec_json :: "spec \<Rightarrow> json" where
  "spec_json sp =
     JObject (omit_empty (sp_schema_version sp = 0) ''schema_version'' (JInt (sp_schema_version sp))
       @ omit_string ''mode'' (sp_mode sp)
       @ [(''policy'', policy_json (sp_policy sp)), (''proxy'', proxy_json (sp_proxy sp))]
       @ omit_empty (sp_format sp = []) ''format''
           (json_map (map (\<lambda>(k, v). (k, json_of_jval v)) (sp_format sp))))"

definition namespace_json :: "namespace \<Rightarrow> json" where
  "namespace_json ns = JObject [(''name'', JString (ns_name ns)), (''spec'', spec_json (ns_spec ns))]"

section \<open>Decoding\<close>

text \<open>
  An array is decoded into the elements a slice has and into zero values after them.  (The
  elements between its length and its capacity, which a third array of the same key would find,
  are not modelled.)
\<close>

fun decode_elems :: "(json \<Rightarrow> 'a \<Rightarrow> 'a option) \<Rightarrow> 'a \<Rightarrow> json list \<Rightarrow> 'a list \<Rightarrow> 'a list option" where
  "decode_elems f z [] xs = Some []"
| "decode_elems f z (v # vs) xs =
     (case f v (if xs = [] then z else hd xs) of
        None \<Rightarrow> None
      | Some y \<Rightarrow> map_option (Cons y) (decode_elems f z vs (tl xs)))"

definition decode_slice :: "(json \<Rightarrow> 'a \<Rightarrow> 'a option) \<Rightarrow> 'a \<Rightarrow> json \<Rightarrow> 'a list \<Rightarrow> 'a list option" where
  "decode_slice f z v xs =
     (case v of JArray vs \<Rightarrow> decode_elems f z vs xs | JNull \<Rightarrow> Some [] | _ \<Rightarrow> None)"

definition decode_matcher :: "bool \<Rightarrow> json \<Rightarrow> subject_matcher \<Rightarrow> subject_matcher option" where
  "decode_matcher strict = decode_struct (decode_field strict
     [(''issuer'', \<lambda>v m. map_option (\<lambda>s. m\<lparr>sm_issuer := s\<rparr>) (decode_string v (sm_issuer m))),
      (''sub_match'', \<lambda>v m. map_option (\<lambda>s. m\<lparr>sm_sub_match := s\<rparr>) (decode_string v (sm_sub_match m))),
      (''email'', \<lambda>v m. map_option (\<lambda>s. m\<lparr>sm_email := s\<rparr>) (decode_string v (sm_email m))),
      (''claims_match'', \<lambda>v m. map_option (\<lambda>c. m\<lparr>sm_claims_match := c\<rparr>)
         (decode_map (\<lambda>x. decode_string x '''') v (sm_claims_match m))),
      (''kind'', \<lambda>v m. map_option (\<lambda>s. m\<lparr>sm_kind := s\<rparr>) (decode_string v (sm_kind m)))])"

definition zero_matcher :: subject_matcher where
  "zero_matcher = \<lparr>sm_issuer = '''', sm_sub_match = '''', sm_email = '''', sm_claims_match = [],
                   sm_kind = ''''\<rparr>"

definition decode_policy :: "bool \<Rightarrow> json \<Rightarrow> policy \<Rightarrow> policy option" where
  "decode_policy strict = decode_struct (decode_field strict
     [(''readers'', \<lambda>v p. map_option (\<lambda>xs. p\<lparr>po_readers := xs\<rparr>)
         (decode_slice (decode_matcher strict) zero_matcher v (po_readers p))),
      (''writers'', \<lambda>v p. map_option (\<lambda>xs. p\<lparr>po_writers := xs\<rparr>)
         (decode_slice (decode_matcher strict) zero_matcher v (po_writers p)))])"

definition decode_rule :: "bool \<Rightarrow> json \<Rightarrow> rule \<Rightarrow> rule option" where
  "decode_rule strict = decode_struct (decode_field strict
     [(''package'', \<lambda>v r. map_option (\<lambda>s. r\<lparr>r_package := s\<rparr>) (decode_string v (r_package r))),
      (''version'', \<lambda>v r. map_option (\<lambda>s. r\<lparr>r_version := s\<rparr>) (decode_string v (r_version r)))])"

definition decode_filter_spec :: "bool \<Rightarrow> json \<Rightarrow> filter_spec \<Rightarrow> filter_spec option" where
  "decode_filter_spec strict = decode_struct (decode_field strict
     [(''kind'', \<lambda>v f. map_option (\<lambda>s. f\<lparr>fs_kind := s\<rparr>) (decode_string v (fs_kind f))),
      (''patterns'', \<lambda>v f. map_option (\<lambda>xs. f\<lparr>fs_patterns := xs\<rparr>)
         (decode_slice decode_string '''' v (fs_patterns f))),
      (''rules'', \<lambda>v f. map_option (\<lambda>xs. f\<lparr>fs_rules := xs\<rparr>)
         (decode_slice (decode_rule strict) \<lparr>r_package = '''', r_version = ''''\<rparr> v (fs_rules f))),
      (''min_age'', \<lambda>v f. map_option (\<lambda>s. f\<lparr>fs_min_age := s\<rparr>) (decode_string v (fs_min_age f)))])"

definition decode_proxy :: "bool \<Rightarrow> json \<Rightarrow> proxy \<Rightarrow> proxy option" where
  "decode_proxy strict = decode_struct (decode_field strict
     [(''upstream'', \<lambda>v p. map_option (\<lambda>s. p\<lparr>px_upstream := s\<rparr>) (decode_string v (px_upstream p))),
      (''filters'', \<lambda>v p. map_option (\<lambda>xs. p\<lparr>px_filters := xs\<rparr>)
         (decode_slice (decode_filter_spec strict)
            \<lparr>fs_kind = '''', fs_patterns = [], fs_rules = [], fs_min_age = ''''\<rparr> v (px_filters p)))])"

definition decode_spec :: "(string \<Rightarrow> string option) \<Rightarrow> bool \<Rightarrow> json \<Rightarrow> spec \<Rightarrow> spec option" where
  "decode_spec num strict = decode_struct (decode_field strict
     [(''schema_version'', \<lambda>v s. map_option (\<lambda>i. s\<lparr>sp_schema_version := i\<rparr>)
         (decode_int v (sp_schema_version s))),
      (''mode'', \<lambda>v s. map_option (\<lambda>x. s\<lparr>sp_mode := x\<rparr>) (decode_string v (sp_mode s))),
      (''policy'', \<lambda>v s. map_option (\<lambda>x. s\<lparr>sp_policy := x\<rparr>) (decode_policy strict v (sp_policy s))),
      (''proxy'', \<lambda>v s. map_option (\<lambda>x. s\<lparr>sp_proxy := x\<rparr>) (decode_proxy strict v (sp_proxy s))),
      (''format'', \<lambda>v s. map_option (\<lambda>x. s\<lparr>sp_format := x\<rparr>)
         (decode_any_map num v (sp_format s)))])"

text \<open>The codec of the catalog, and the strict decoder of the admin plane.\<close>

definition marshal_spec :: "spec \<Rightarrow> string" where
  "marshal_spec sp = json_print (spec_json sp)"

definition unmarshal_spec :: "(string \<Rightarrow> string option) \<Rightarrow> string \<Rightarrow> spec option" where
  "unmarshal_spec num raw =
     (case json_unmarshal raw of None \<Rightarrow> None | Some v \<Rightarrow> decode_spec num False v zero_spec)"

end
