(* ===== verification/Pypi_Name.thy ===== *)
theory Pypi_Name
  imports Spec_Codec Upstream
begin

text \<open>
  The codec of the PyPI surface, \<open>codec.go\<close> of \<open>pkg/surface/pypi\<close>: names, the choice of a response
  format, and the pages.  \<open>mime.ParseMediaType\<close>, the case tables of Unicode and the order in which
  \<open>sort.Slice\<close> leaves equal elements are parameters.
\<close>

definition simple_json_type :: string where
  "simple_json_type = ''application/vnd.pypi.simple.v1+json''"

section \<open>Names\<close>

text \<open>\<open>[-_.]+\<close> is replaced by one hyphen.\<close>

definition is_separator :: "char \<Rightarrow> bool" where
  "is_separator c \<longleftrightarrow> c \<in> set ''-_.''"

fun collapse_separators :: "string \<Rightarrow> string" where
  "collapse_separators [] = []"
| "collapse_separators (c # s) =
     (if is_separator c then
        (case s of
           d # t \<Rightarrow> if is_separator d then collapse_separators s else CHR ''-'' # collapse_separators s
         | [] \<Rightarrow> ''-'')
      else c # collapse_separators s)"

definition go_lower :: "(string \<Rightarrow> string) \<Rightarrow> string \<Rightarrow> string" where
  "go_lower uni s = (if is_ascii s then to_lower s else uni s)"

definition pypi_validate_segment :: "string \<Rightarrow> bool \<Rightarrow> err option" where
  "pypi_validate_segment s lenient =
     (if s = '''' \<or> has_prefix s ''.'' \<or> CHR ''/'' \<in> set s \<or> CHR 0x5C \<in> set s
        \<or> \<not> lenient \<and> (s = ''.'' \<or> s = ''..'' \<or> path_clean s \<noteq> s)
      then Some ErrInvalidName else None)"

definition normalize_project :: "(string \<Rightarrow> string) \<Rightarrow> string \<Rightarrow> string res" where
  "normalize_project uni name =
     (case pypi_validate_segment name True of
        Some e \<Rightarrow> Inl e
      | None \<Rightarrow> Inr (go_lower uni (collapse_separators name)))"

definition pypi_validate_version :: "string \<Rightarrow> err option" where
  "pypi_validate_version v = pypi_validate_segment v False"

definition pypi_validate_filename :: "string \<Rightarrow> err option" where
  "pypi_validate_filename f =
     (case pypi_validate_segment f False of
        Some e \<Rightarrow> Some e
      | None \<Rightarrow>
          (if has_suffix f ''.whl'' \<or> has_suffix f ''.tar.gz'' \<or> has_suffix f ''.zip'' then None
           else Some ErrInvalidName))"

section \<open>The response format\<close>

datatype simple_response = SimpleHTML | SimpleJSON

fun preferred_of :: "(string \<Rightarrow> (string \<times> (string \<times> string) list) option) \<Rightarrow> string list \<Rightarrow> simple_response" where
  "preferred_of media [] = SimpleHTML"
| "preferred_of media (p # ps) =
     (case media (trim_space p) of
        None \<Rightarrow> SimpleHTML
      | Some (mt, params) \<Rightarrow>
          (if map_of params ''q'' = Some ''0'' then preferred_of media ps
           else if mt \<in> {simple_json_type, ''*/*'', ''application/*''} then SimpleJSON
           else if mt \<in> {''text/html'', ''application/vnd.pypi.simple.v1+html''} then SimpleHTML
           else preferred_of media ps))"

definition prefers_simple_json ::
  "(string \<Rightarrow> (string \<times> (string \<times> string) list) option) \<Rightarrow> string \<Rightarrow> bool" where
  "prefers_simple_json media accept = (preferred_of media (split_on (CHR '','') accept) = SimpleJSON)"

definition hash_from_digest :: "string \<Rightarrow> string" where
  "hash_from_digest d = (if \<not> has_prefix d ''sha256:'' then '''' else trim_prefix d ''sha256:'')"

section \<open>Pages\<close>

record file_link =
  fl_filename :: string
  fl_url :: string
  fl_sha256 :: string
  fl_requires :: string

record project_page =
  pg_name :: string
  pg_files :: "file_link list"

definition fl_href :: "file_link \<Rightarrow> string" where
  "fl_href f = (if fl_sha256 f = '''' then fl_url f else fl_url f @ ''#sha256='' @ fl_sha256 f)"

text \<open>
  What \<open>html/template\<close> makes of a string: in text and in a quoted attribute five characters and NUL
  are replaced; at the start of an \<open>href\<close> a scheme other than \<open>http\<close>, \<open>https\<close> and \<open>mailto\<close> is
  refused and every byte that is not of a URL is escaped first.
\<close>

definition html_replace :: "char \<Rightarrow> string" where
  "html_replace c =
     (if c = CHR 0x00 then [CHR 0xEF, CHR 0xBF, CHR 0xBD]
      else if c = CHR 0x22 then ''&#34;'' else if c = CHR ''&'' then ''&amp;''
      else if c = CHR 0x27 then ''&#39;'' else if c = CHR ''+'' then ''&#43;''
      else if c = CHR ''<'' then ''&lt;'' else if c = CHR ''>'' then ''&gt;'' else [c])"

definition html_escape :: "string \<Rightarrow> string" where
  "html_escape s = concat (map html_replace s)"

definition is_safe_url :: "string \<Rightarrow> bool" where
  "is_safe_url s =
     (case split_on (CHR '':'') s of
        p # _ # _ \<Rightarrow> CHR ''/'' \<in> set p \<or> list_ex (equal_fold p) [''http'', ''https'', ''mailto'']
      | _ \<Rightarrow> True)"

definition url_keeps :: "char \<Rightarrow> bool" where
  "url_keeps c \<longleftrightarrow> c \<in> set ''!#$&*+,/:;=?@[]'' \<or> unreserved c"

fun url_normalize :: "string \<Rightarrow> string" where
  "url_normalize [] = []"
| "url_normalize (c # s) =
     (if url_keeps c \<or> c = CHR ''%'' \<and> 2 \<le> length s \<and> is_hex (s ! 0) \<and> is_hex (s ! 1) then c # url_normalize s
      else CHR ''%'' # hex_lower (of_char c div 16) # hex_lower (of_char c mod 16) # url_normalize s)"

definition html_href :: "string \<Rightarrow> string" where
  "html_href s = html_escape (url_normalize (if is_safe_url s then s else ''#ZgotmplZ''))"

definition html_head :: string where
  "html_head = join [CHR 0x0A]
     [''<!doctype html>'', ''<html>'', ''<head>'',
      ''<meta name='' @ [CHR 0x22] @ ''pypi:repository-version'' @ [CHR 0x22] @ '' content='' @ [CHR 0x22] @ ''1.0'' @ [CHR 0x22] @ ''>'',
      ''</head>'', ''<body>'', '''']"

definition html_foot :: string where
  "html_foot = join [CHR 0x0A] [''</body>'', ''</html>'', '''']"

definition html_attr :: "string \<Rightarrow> string \<Rightarrow> string" where
  "html_attr name v = name @ ''='' @ [CHR 0x22] @ v @ [CHR 0x22]"

definition render_root_html :: "string list \<Rightarrow> string" where
  "render_root_html names =
     html_head
     @ concat (map (\<lambda>n. ''<a '' @ html_attr ''href'' (html_href n @ ''/'') @ ''>'' @ html_escape n @ ''</a>'' @ [CHR 0x0A]) (sort names))
     @ html_foot"

text \<open>\<open>sort.Slice\<close> by file name; \<open>order\<close> is the order that links of one name are left in.\<close>

definition sorted_links :: "(file_link list \<Rightarrow> file_link list) \<Rightarrow> project_page \<Rightarrow> file_link list" where
  "sorted_links order page = sort_key fl_filename (order (pg_files page))"

definition render_link :: "file_link \<Rightarrow> string" where
  "render_link f =
     ''<a '' @ html_attr ''href'' (html_href (fl_href f))
       @ (if fl_requires f = '''' then '''' else '' '' @ html_attr ''data-requires-python'' (html_escape (fl_requires f)))
       @ ''>'' @ html_escape (fl_filename f) @ ''</a>'' @ [CHR 0x0A]"

definition render_project_html :: "(file_link list \<Rightarrow> file_link list) \<Rightarrow> project_page \<Rightarrow> string" where
  "render_project_html order page = html_head @ concat (map render_link (sorted_links order page)) @ html_foot"

definition file_json :: "file_link \<Rightarrow> json" where
  "file_json f =
     JObject ([(''filename'', JString (fl_filename f)), (''url'', JString (fl_url f))]
       @ omit_empty (fl_sha256 f = '''') ''hashes'' (JObject [(''sha256'', JString (fl_sha256 f))])
       @ omit_empty (fl_requires f = '''') ''requires-python'' (JString (fl_requires f)))"

definition project_json :: "(file_link list \<Rightarrow> file_link list) \<Rightarrow> project_page \<Rightarrow> json" where
  "project_json order page =
     JObject [(''meta'', JObject [(''api-version'', JString ''1.0'')]), (''name'', JString (pg_name page)),
       (''files'', JArray (map file_json (sorted_links order page)))]"

definition package_url :: "string \<Rightarrow> string \<Rightarrow> string \<Rightarrow> string \<Rightarrow> string" where
  "package_url ns project version filename =
     ''/'' @ path_escape ns @ ''/packages/'' @ path_escape project @ ''/'' @ path_escape version @ ''/'' @ path_escape filename"

end
