(* ===== verification/Pypi_Index.thy ===== *)
theory Pypi_Index
  imports Pypi_Name
begin

text \<open>
  The upstream indexes of the PyPI proxy, \<open>proxy.go\<close> of \<open>pkg/surface/pypi\<close>: parsing PEP 691 JSON and
  PEP 503 HTML, versions and digests out of names and URLs, and the snapshot's own JSON.
  \<open>golang.org/x/net/html\<close> is a parameter that gives the tree, \<open>net/url\<close> one that resolves
  references, and times are parsed by parameters.
\<close>

text \<open>A time as an instant and as its RFC 3339 text.\<close>

type_synonym stamp = "int \<times> string"

record index_file =
  if_filename :: string
  if_upstream_url :: string
  if_sha256 :: string
  if_requires :: string
  if_version :: string
  if_upload_time :: "stamp option"

record proxy_index =
  ix_name :: string
  ix_files :: "index_file list"

datatype html_node =
  HElement string "(string \<times> string) list" "html_node list"
| HText string
| HOther "html_node list"

record pypi_env =
  py_media :: "string \<Rightarrow> (string \<times> (string \<times> string) list) option"
  py_lower :: "string \<Rightarrow> string"
  py_order :: "file_link list \<Rightarrow> file_link list"
  py_time :: "int \<Rightarrow> string"
  py_parse_time :: "string \<Rightarrow> stamp option"
  py_json_time :: "string \<Rightarrow> stamp option"
  py_parse_dur :: "string \<Rightarrow> int option"
  py_html :: "string \<Rightarrow> html_node option"
  py_url_ok :: "string \<Rightarrow> bool"
  py_url_join :: "string \<Rightarrow> string \<Rightarrow> string"
  py_sha256 :: "string \<Rightarrow> string"

section \<open>Names and URLs\<close>

text \<open>\<open>deriveVersion\<close>: the second part of a wheel's name, or what follows the last hyphen.\<close>

definition pypi_derive_version :: "string \<Rightarrow> string" where
  "pypi_derive_version filename =
     (if has_suffix filename ''.whl'' then
        (case split_on (CHR ''-'') (trim_suffix filename ''.whl'') of a # b # _ \<Rightarrow> b | _ \<Rightarrow> '''')
      else if has_suffix filename ''.tar.gz'' \<or> has_suffix filename ''.zip'' then
        (let base = trim_suffix (trim_suffix filename ''.tar.gz'') ''.zip''
         in if CHR ''-'' \<in> set base then last (split_on (CHR ''-'') base) else '''')
      else '''')"

definition resolve_url :: "pypi_env \<Rightarrow> string \<Rightarrow> string \<Rightarrow> string" where
  "resolve_url E base href = (if py_url_ok E base \<and> py_url_ok E href then py_url_join E base href else href)"

definition strip_fragment :: "string \<Rightarrow> string" where
  "strip_fragment raw = takeWhile (\<lambda>c. c \<noteq> CHR ''#'') raw"

definition sha_from_fragment :: "string \<Rightarrow> string" where
  "sha_from_fragment raw =
     (case cut raw (CHR ''#'') of
        (_, frag, True) \<Rightarrow>
          (case find (\<lambda>p. has_prefix p ''sha256='') (split_on (CHR ''&'') frag) of
             Some p \<Rightarrow> trim_prefix p ''sha256=''
           | None \<Rightarrow> '''')
      | _ \<Rightarrow> '''')"

section \<open>JSON indexes\<close>

record json_file =
  jf_filename :: string
  jf_url :: string
  jf_hashes :: "(string \<times> string) list"
  jf_requires :: string
  jf_upload_time :: string

definition zero_json_file :: json_file where
  "zero_json_file = \<lparr>jf_filename = '''', jf_url = '''', jf_hashes = [], jf_requires = '''', jf_upload_time = ''''\<rparr>"

definition decode_json_file :: "json \<Rightarrow> json_file \<Rightarrow> json_file option" where
  "decode_json_file = decode_struct (decode_field False
     [(''filename'', \<lambda>v f. map_option (\<lambda>s. f\<lparr>jf_filename := s\<rparr>) (decode_string v (jf_filename f))),
      (''url'', \<lambda>v f. map_option (\<lambda>s. f\<lparr>jf_url := s\<rparr>) (decode_string v (jf_url f))),
      (''hashes'', \<lambda>v f. map_option (\<lambda>m. f\<lparr>jf_hashes := m\<rparr>)
         (decode_map (\<lambda>x. decode_string x '''') v (jf_hashes f))),
      (''requires-python'', \<lambda>v f. map_option (\<lambda>s. f\<lparr>jf_requires := s\<rparr>) (decode_string v (jf_requires f))),
      (''upload-time'', \<lambda>v f. map_option (\<lambda>s. f\<lparr>jf_upload_time := s\<rparr>) (decode_string v (jf_upload_time f)))])"

definition index_entry :: "pypi_env \<Rightarrow> string \<Rightarrow> json_file \<Rightarrow> index_file" where
  "index_entry E base f =
     (let abs = resolve_url E base (jf_url f);
          sha = (case map_of (jf_hashes f) ''sha256'' of Some s \<Rightarrow> s | None \<Rightarrow> '''')
      in \<lparr>if_filename = jf_filename f, if_upstream_url = strip_fragment abs,
          if_sha256 = (if sha = '''' then sha_from_fragment abs else sha), if_requires = jf_requires f,
          if_version = pypi_derive_version (jf_filename f),
          if_upload_time = (if jf_upload_time f = '''' then None else py_parse_time E (jf_upload_time f))\<rparr>)"

definition parse_json_index :: "pypi_env \<Rightarrow> string \<Rightarrow> string \<Rightarrow> string \<Rightarrow> proxy_index option" where
  "parse_json_index E body base project =
     (case json_unmarshal body of
        None \<Rightarrow> None
      | Some v \<Rightarrow>
          map_option
            (\<lambda>fs. \<lparr>ix_name = project,
                   ix_files = map (index_entry E base) (filter (\<lambda>f. pypi_validate_filename (jf_filename f) = None) fs)\<rparr>)
            (decode_struct (decode_field False [(''files'', \<lambda>v fs. decode_slice decode_json_file zero_json_file v fs)]) v []))"

section \<open>HTML indexes\<close>

definition node_text :: "html_node list \<Rightarrow> string" where
  "node_text ns = concat (map (\<lambda>n. case n of HText s \<Rightarrow> s | _ \<Rightarrow> '''') ns)"

text \<open>The last of several attributes of one name counts.\<close>

definition html_attribute :: "(string \<times> string) list \<Rightarrow> string \<Rightarrow> string" where
  "html_attribute as k = (case map_of (rev as) k of Some v \<Rightarrow> v | None \<Rightarrow> '''')"

definition anchor_entry :: "pypi_env \<Rightarrow> string \<Rightarrow> (string \<times> string) list \<Rightarrow> html_node list \<Rightarrow> index_file list" where
  "anchor_entry E base as ns =
     (let href = html_attribute as ''href''; filename = trim_space (node_text ns); abs = resolve_url E base href
      in if href \<noteq> '''' \<and> pypi_validate_filename filename = None
         then [\<lparr>if_filename = filename, if_upstream_url = strip_fragment abs, if_sha256 = sha_from_fragment abs,
                if_requires = html_attribute as ''data-requires-python'',
                if_version = pypi_derive_version filename, if_upload_time = None\<rparr>]
         else [])"

fun html_files :: "pypi_env \<Rightarrow> string \<Rightarrow> html_node \<Rightarrow> index_file list" where
  "html_files E base (HText s) = []"
| "html_files E base (HOther ns) = concat (map (html_files E base) ns)"
| "html_files E base (HElement tag as ns) =
     (if tag = ''a'' then anchor_entry E base as ns else []) @ concat (map (html_files E base) ns)"

definition parse_html_index :: "pypi_env \<Rightarrow> string \<Rightarrow> string \<Rightarrow> string \<Rightarrow> proxy_index option" where
  "parse_html_index E body base project =
     map_option (\<lambda>root. \<lparr>ix_name = project, ix_files = html_files E base root\<rparr>) (py_html E body)"

definition str_contains :: "string \<Rightarrow> string \<Rightarrow> bool" where
  "str_contains s t = list_ex (\<lambda>n. prefix t (drop n s)) [0..<Suc (length s)]"

definition parse_upstream_index :: "pypi_env \<Rightarrow> string \<Rightarrow> string \<Rightarrow> response \<Rightarrow> proxy_index option" where
  "parse_upstream_index E base project resp =
     (if str_contains (go_lower (py_lower E) (header_get (rs_header resp) ''Content-Type'')) ''json''
      then parse_json_index E (rs_body resp) base project
      else parse_html_index E (rs_body resp) base project)"

section \<open>Snapshots\<close>

definition index_file_json :: "index_file \<Rightarrow> json" where
  "index_file_json f =
     JObject ([(''filename'', JString (if_filename f))]
       @ omit_empty (if_upstream_url f = '''') ''upstream_url'' (JString (if_upstream_url f))
       @ omit_empty (if_sha256 f = '''') ''sha256'' (JString (if_sha256 f))
       @ omit_empty (if_requires f = '''') ''requires_python'' (JString (if_requires f))
       @ omit_empty (if_version f = '''') ''version'' (JString (if_version f))
       @ (case if_upload_time f of None \<Rightarrow> [] | Some t \<Rightarrow> [(''upload_time'', JString (snd t))]))"

definition index_json :: "proxy_index \<Rightarrow> json" where
  "index_json ix =
     JObject [(''name'', JString (ix_name ix)),
       (''files'', if ix_files ix = [] then JNull else JArray (map index_file_json (ix_files ix)))]"

definition zero_index_file :: index_file where
  "zero_index_file = \<lparr>if_filename = '''', if_upstream_url = '''', if_sha256 = '''', if_requires = '''',
     if_version = '''', if_upload_time = None\<rparr>"

definition decode_stamp :: "pypi_env \<Rightarrow> json \<Rightarrow> stamp option option" where
  "decode_stamp E v =
     (case v of JNull \<Rightarrow> Some None | JString s \<Rightarrow> map_option Some (py_json_time E s) | _ \<Rightarrow> None)"

definition decode_index_file :: "pypi_env \<Rightarrow> json \<Rightarrow> index_file \<Rightarrow> index_file option" where
  "decode_index_file E = decode_struct (decode_field False
     [(''filename'', \<lambda>v f. map_option (\<lambda>s. f\<lparr>if_filename := s\<rparr>) (decode_string v (if_filename f))),
      (''upstream_url'', \<lambda>v f. map_option (\<lambda>s. f\<lparr>if_upstream_url := s\<rparr>) (decode_string v (if_upstream_url f))),
      (''sha256'', \<lambda>v f. map_option (\<lambda>s. f\<lparr>if_sha256 := s\<rparr>) (decode_string v (if_sha256 f))),
      (''requires_python'', \<lambda>v f. map_option (\<lambda>s. f\<lparr>if_requires := s\<rparr>) (decode_string v (if_requires f))),
      (''version'', \<lambda>v f. map_option (\<lambda>s. f\<lparr>if_version := s\<rparr>) (decode_string v (if_version f))),
      (''upload_time'', \<lambda>v f. map_option (\<lambda>t. f\<lparr>if_upload_time := t\<rparr>) (decode_stamp E v))])"

definition decode_index :: "pypi_env \<Rightarrow> string \<Rightarrow> proxy_index option" where
  "decode_index E body =
     (case json_unmarshal body of
        None \<Rightarrow> None
      | Some v \<Rightarrow> decode_struct (decode_field False
          [(''name'', \<lambda>v ix. map_option (\<lambda>s. ix\<lparr>ix_name := s\<rparr>) (decode_string v (ix_name ix))),
           (''files'', \<lambda>v ix. map_option (\<lambda>fs. ix\<lparr>ix_files := fs\<rparr>)
              (decode_slice (decode_index_file E) zero_index_file v (ix_files ix)))])
          v \<lparr>ix_name = '''', ix_files = []\<rparr>)"

text \<open>\<open>find\<close>: by file name, and by version where that is known.\<close>

definition index_find :: "proxy_index \<Rightarrow> string \<Rightarrow> string \<Rightarrow> index_file option" where
  "index_find ix filename version =
     (case find (\<lambda>f. if_filename f = filename) (ix_files ix) of
        None \<Rightarrow> None
      | Some f \<Rightarrow> if if_version f \<noteq> '''' \<and> if_version f \<noteq> version then None else Some f)"

definition index_page :: "string \<Rightarrow> proxy_index \<Rightarrow> project_page" where
  "index_page ns ix =
     \<lparr>pg_name = ix_name ix,
      pg_files = map (\<lambda>f. \<lparr>fl_filename = if_filename f, fl_url = package_url ns (ix_name ix) (if_version f) (if_filename f),
          fl_sha256 = if_sha256 f, fl_requires = if_requires f\<rparr>) (filter (\<lambda>f. if_version f \<noteq> '''') (ix_files ix))\<rparr>"

end
