(* ===== verification/Page_Cache.thy ===== *)
theory Page_Cache
  imports Paths "HOL-Library.Word"
begin

text \<open>
  The cache of rendered project pages, \<open>projectCache\<close> of \<open>pkg/surface/pypi/handler.go\<close>: a page is
  loaded outside the lock, so a generation counter keeps a page whose load overlapped an upload from
  being cached.  Callers are interleaved step by step; the counter is a \<open>uint64\<close>.
\<close>

record 'v page_cache =
  pgc_ttl :: int
  pgc_generation :: "64 word"
  pgc_entries :: "string \<rightharpoonup> 'v \<times> int"

definition new_page_cache :: "int \<Rightarrow> 'v page_cache" where
  "new_page_cache ttl = \<lparr>pgc_ttl = ttl, pgc_generation = 0, pgc_entries = Map.empty\<rparr>"

definition page_lookup :: "int \<Rightarrow> string \<Rightarrow> 'v page_cache \<Rightarrow> 'v option" where
  "page_lookup now key c =
     (case pgc_entries c key of
        None \<Rightarrow> None
      | Some (v, expires) \<Rightarrow> (if now < expires then Some v else None))"

text \<open>The end of \<open>get\<close>: the loaded page is stored unless an upload came in between.\<close>

definition page_finish :: "int \<Rightarrow> string \<Rightarrow> 64 word \<Rightarrow> 'v \<Rightarrow> 'v page_cache \<Rightarrow> 'v page_cache" where
  "page_finish now key generation v c =
     (if generation = pgc_generation c then c\<lparr>pgc_entries := (pgc_entries c)(key \<mapsto> (v, now + pgc_ttl c))\<rparr> else c)"

definition page_invalidate :: "string \<Rightarrow> 'v page_cache \<Rightarrow> 'v page_cache" where
  "page_invalidate key c =
     (if pgc_ttl c \<le> 0 then c
      else c\<lparr>pgc_generation := pgc_generation c + 1, pgc_entries := (pgc_entries c)(key := None)\<rparr>)"

definition page_key :: "string \<Rightarrow> string \<Rightarrow> string" where
  "page_key ns project = ns @ [CHR 0x00] @ project"

section \<open>Interleaved callers\<close>

text \<open>
  The events of any number of callers, latest first: a caller misses and notes the generation,
  its load returns a page or fails, and it finishes; an upload invalidates.
\<close>

datatype 'v page_event =
  Missed nat string int
| Loaded nat 'v
| LoadFailed nat
| Finished nat int
| Uploaded string

record 'v page_run =
  pr_cache :: "'v page_cache"
  pr_callers :: "nat \<rightharpoonup> string \<times> 64 word \<times> 'v option"

inductive page_trace :: "int \<Rightarrow> 'v page_event list \<Rightarrow> 'v page_run \<Rightarrow> bool" for ttl where
  start: "page_trace ttl [] \<lparr>pr_cache = new_page_cache ttl, pr_callers = Map.empty\<rparr>"
| missed: "page_trace ttl es s \<Longrightarrow> 0 < ttl \<Longrightarrow> pr_callers s i = None \<Longrightarrow> page_lookup now key (pr_cache s) = None \<Longrightarrow>
    page_trace ttl (Missed i key now # es)
      (s\<lparr>pr_callers := (pr_callers s)(i \<mapsto> (key, pgc_generation (pr_cache s), None))\<rparr>)"
| loaded: "page_trace ttl es s \<Longrightarrow> pr_callers s i = Some (key, g, None) \<Longrightarrow>
    page_trace ttl (Loaded i v # es) (s\<lparr>pr_callers := (pr_callers s)(i \<mapsto> (key, g, Some v))\<rparr>)"
| failed: "page_trace ttl es s \<Longrightarrow> pr_callers s i = Some (key, g, None) \<Longrightarrow>
    page_trace ttl (LoadFailed i # es) (s\<lparr>pr_callers := (pr_callers s)(i := None)\<rparr>)"
| finished: "page_trace ttl es s \<Longrightarrow> pr_callers s i = Some (key, g, Some v) \<Longrightarrow>
    page_trace ttl (Finished i now # es)
      (s\<lparr>pr_cache := page_finish now key g v (pr_cache s), pr_callers := (pr_callers s)(i := None)\<rparr>)"
| uploaded: "page_trace ttl es s \<Longrightarrow>
    page_trace ttl (Uploaded key # es) (s\<lparr>pr_cache := page_invalidate key (pr_cache s)\<rparr>)"

fun uploads :: "'v page_event list \<Rightarrow> nat" where
  "uploads [] = 0"
| "uploads (Uploaded key # es) = Suc (uploads es)"
| "uploads (e # es) = uploads es"

lemma uploads_append: "uploads (es @ es') = uploads es + uploads es'"
  by (induction es rule: uploads.induct) auto

lemma uploads_0: "uploads es = 0 \<longleftrightarrow> (\<forall>key. Uploaded key \<notin> set es)"
  by (induction es rule: uploads.induct) auto

lemma trace_cache:
  assumes "page_trace ttl es s"
  shows "pgc_ttl (pr_cache s) = ttl \<and> (0 < ttl \<longrightarrow> pgc_generation (pr_cache s) = of_nat (uploads es))"
  using assms
  by induction (auto simp: new_page_cache_def page_finish_def page_invalidate_def)

text \<open>A value that a caller loads was loaded after the caller noted the generation it carries.\<close>

definition loads :: "'v page_event list \<Rightarrow> nat \<Rightarrow> string \<Rightarrow> 64 word \<Rightarrow> 'v option \<Rightarrow> bool" where
  "loads es i key g lo \<longleftrightarrow>
     (\<exists>newer t older. es = newer @ Missed i key t # older \<and> g = of_nat (uploads older)
        \<and> (\<forall>v. lo = Some v \<longrightarrow> Loaded i v \<in> set newer))"

lemma loads_Cons: "loads es i key g lo \<Longrightarrow> loads (e # es) i key g lo"
  unfolding loads_def by (metis append_Cons list.set_intros(2))

lemma trace_callers:
  assumes "page_trace ttl es s" "pr_callers s i = Some (key, g, lo)"
  shows "loads es i key g lo"
  using assms
proof (induction arbitrary: i key g lo)
  case (missed es s j now k)
  show ?case
  proof (cases "i = j")
    case True
    with missed trace_cache [OF missed.hyps(1)] show ?thesis
      unfolding loads_def by (auto intro!: exI [of _ "[]"])
  qed (use missed in \<open>auto intro: loads_Cons\<close>)
next
  case (loaded es s j k g' v)
  show ?case
  proof (cases "i = j")
    case True
    with loaded have eq: "key = k" "g = g'" "lo = Some v" by auto
    from loaded.IH [OF loaded.hyps(2)] obtain newer t older where
      "es = newer @ Missed j k t # older" "g' = of_nat (uploads older)" unfolding loads_def by blast
    with True eq show ?thesis unfolding loads_def by (intro exI [of _ "Loaded j v # newer"]) auto
  qed (use loaded in \<open>auto intro: loads_Cons\<close>)
qed (auto intro: loads_Cons split: if_splits)

text \<open>A cached value was loaded by a caller since whose miss no upload of its project ended.\<close>

definition current :: "'v page_event list \<Rightarrow> string \<Rightarrow> 'v \<Rightarrow> bool" where
  "current es key v \<longleftrightarrow>
     (\<exists>newer i t older. es = newer @ Missed i key t # older \<and> Loaded i v \<in> set newer \<and> Uploaded key \<notin> set newer)"

lemma current_Cons: "current es key v \<Longrightarrow> e \<noteq> Uploaded key \<Longrightarrow> current (e # es) key v"
  unfolding current_def by (elim exE conjE) (rule_tac x = "e # newer" in exI, auto)

lemma uploads_bound: "page_trace ttl (e # es) s \<Longrightarrow> uploads (e # es) < n \<Longrightarrow> uploads es < n"
  by (cases e) auto

lemma trace_disabled:
  "page_trace ttl es s \<Longrightarrow> ttl \<le> 0 \<Longrightarrow> pr_callers s = Map.empty \<and> pgc_entries (pr_cache s) = Map.empty"
  by (induction rule: page_trace.induct) (auto simp: new_page_cache_def page_invalidate_def)

lemma trace_entries:
  assumes "page_trace ttl es s" "uploads es < 2 ^ 64" "pgc_entries (pr_cache s) key = Some (v, x)"
  shows "current es key v"
  using assms
proof (induction arbitrary: key v x)
  case (finished es s i k g u now)
  then have old: "current es key v" if "pgc_entries (pr_cache s) key = Some (v, x)" using that by simp
  show ?case
  proof (cases "g = pgc_generation (pr_cache s) \<and> key = k")
    case True
    from trace_callers [OF finished.hyps(1,2)] obtain newer t older where
      es: "es = newer @ Missed i k t # older" "g = of_nat (uploads older)" "Loaded i u \<in> set newer"
      unfolding loads_def by blast
    have "0 < ttl" using trace_disabled [OF finished.hyps(1)] finished.hyps(2) by (cases "0 < ttl") auto
    then have "of_nat (uploads older) = (of_nat (uploads es) :: 64 word)"
      using trace_cache [OF finished.hyps(1)] True es(2) by simp
    then have "unat (of_nat (uploads older) :: 64 word) = unat (of_nat (uploads es) :: 64 word)" by simp
    then have "uploads older mod 2 ^ 64 = uploads es mod 2 ^ 64" by (simp add: unat_of_nat)
    moreover have "uploads es < 2 ^ 64" using finished.prems(1) by simp
    moreover have "uploads es = uploads newer + uploads older" using es(1) by (simp add: uploads_append)
    ultimately have "uploads newer = 0"
      by simp
    with es True finished.prems(2) have "current es key v"
      unfolding current_def by (auto simp: uploads_0 page_finish_def)
    then show ?thesis by (rule current_Cons) simp
  next
    case False
    with finished.prems(2) old show ?thesis by (auto simp: page_finish_def intro: current_Cons split: if_splits)
  qed
next
  case (uploaded es s k)
  have "0 < ttl" using trace_disabled [OF uploaded.hyps] uploaded.prems(2)
    by (cases "0 < ttl") (auto simp: page_invalidate_def split: if_splits)
  with uploaded trace_cache [OF uploaded.hyps] show ?case
    by (auto simp: page_invalidate_def intro: current_Cons split: if_splits)
qed (auto simp: new_page_cache_def intro: current_Cons)

text \<open>C38: the index of a hosted project is not stale: however requests and uploads interleave, as long
  as fewer than \<open>2 ^ 64\<close> uploads were made, a page that the cache serves was loaded by a request
  that missed the cache after the last upload of the project had invalidated it.\<close>

theorem served_page_current:
  assumes "page_trace ttl es s" "uploads es < 2 ^ 64" "page_lookup now key (pr_cache s) = Some v"
  shows "\<exists>newer i t older. es = newer @ Missed i key t # older \<and> Loaded i v \<in> set newer \<and> Uploaded key \<notin> set newer"
proof -
  obtain x where "pgc_entries (pr_cache s) key = Some (v, x)"
    using assms(3) by (auto simp: page_lookup_def split: option.splits if_splits)
  from trace_entries [OF assms(1,2) this] show ?thesis unfolding current_def .
qed

text \<open>Two requests and an upload between them: only the later one's page is cached.\<close>

definition demo_page_events :: "string page_event list" where
  "demo_page_events =
     [Finished 1 5, Loaded 1 ''new'', Finished 0 4, Missed 1 ''k'' 3, Uploaded ''k'', Loaded 0 ''old'', Missed 0 ''k'' 1]"

lemma demo_page_trace:
  "page_trace 10 demo_page_events
     \<lparr>pr_cache = \<lparr>pgc_ttl = 10, pgc_generation = 1, pgc_entries = [''k'' \<mapsto> (''new'', 15)]\<rparr>, pr_callers = Map.empty\<rparr>"
proof -
  let ?c = "\<lambda>g m. \<lparr>pgc_ttl = 10, pgc_generation = g, pgc_entries = m\<rparr>"
  let ?s = "\<lambda>g m cs. \<lparr>pr_cache = ?c g m, pr_callers = cs\<rparr>"
  have "page_trace 10 [] (?s 0 Map.empty Map.empty)"
    using page_trace.start [of 10] by (simp add: new_page_cache_def)
  from page_trace.missed [OF this, of 0 1 "''k''"] have "page_trace 10 [Missed 0 ''k'' 1] (?s 0 Map.empty [0 \<mapsto> (''k'', 0, None)])"
    by (simp add: page_lookup_def)
  from page_trace.loaded [OF this, of 0 "''k''" 0 "''old''"]
  have "page_trace 10 [Loaded 0 ''old'', Missed 0 ''k'' 1] (?s 0 Map.empty [0 \<mapsto> (''k'', 0, Some ''old'')])" by simp
  from page_trace.uploaded [OF this, of "''k''"]
  have "page_trace 10 [Uploaded ''k'', Loaded 0 ''old'', Missed 0 ''k'' 1] (?s 1 Map.empty [0 \<mapsto> (''k'', 0, Some ''old'')])"
    by (simp add: page_invalidate_def)
  from page_trace.missed [OF this, of 1 3 "''k''"]
  have "page_trace 10 [Missed 1 ''k'' 3, Uploaded ''k'', Loaded 0 ''old'', Missed 0 ''k'' 1]
      (?s 1 Map.empty [0 \<mapsto> (''k'', 0, Some ''old''), 1 \<mapsto> (''k'', 1, None)])" by (simp add: page_lookup_def)
  from page_trace.finished [OF this, of 0 "''k''" 0 "''old''" 4]
  have "page_trace 10 [Finished 0 4, Missed 1 ''k'' 3, Uploaded ''k'', Loaded 0 ''old'', Missed 0 ''k'' 1]
      (?s 1 Map.empty [1 \<mapsto> (''k'', 1, None)])" by (simp add: page_finish_def fun_upd_twist)
  from page_trace.loaded [OF this, of 1 "''k''" 1 "''new''"]
  have "page_trace 10 [Loaded 1 ''new'', Finished 0 4, Missed 1 ''k'' 3, Uploaded ''k'', Loaded 0 ''old'', Missed 0 ''k'' 1]
      (?s 1 Map.empty [1 \<mapsto> (''k'', 1, Some ''new'')])" by simp
  from page_trace.finished [OF this, of 1 "''k''" 1 "''new''" 5] show ?thesis
    by (simp add: page_finish_def demo_page_events_def)
qed

theorem served_page_current_witness:
  "\<exists>newer i t older. demo_page_events = newer @ Missed i ''k'' t # older \<and> Loaded i ''new'' \<in> set newer
     \<and> Uploaded ''k'' \<notin> set newer"
  by (rule served_page_current [OF demo_page_trace, where now = 6])
    (simp_all add: demo_page_events_def page_lookup_def)

end
