(* ===== verification/Pypi.thy ===== *)
theory Pypi
  imports Pypi_Index Page_Cache Memo_Fetch Route_Plane
begin

text \<open>
  The PyPI surface, \<open>handler.go\<close> and \<open>proxy.go\<close> of \<open>pkg/surface/pypi\<close>: uploads, indexes and
  downloads of a hosted namespace, and the pull-through cache of a proxy namespace.  The parser of
  multipart forms (\<open>net/http\<close>) and the router (\<open>github.com/gorilla/mux\<close>) are parameters.
\<close>

record pypi_config =
  pyc_max_upload :: int
  pyc_simple_ttl :: int
  pyc_index_ttl :: int
  pyc_negative_ttl :: int

definition pypi_default_max_upload :: int where "pypi_default_max_upload = 100 * 2 ^ 20"
definition default_proxy_index_ttl :: int where "default_proxy_index_ttl = 10 * 10 ^ 9"

definition pypi_upload_limit :: "pypi_config \<Rightarrow> int" where
  "pypi_upload_limit c = (if pyc_max_upload c \<le> 0 then pypi_default_max_upload else pyc_max_upload c)"

definition proxy_index_ttl :: "pypi_config \<Rightarrow> int" where
  "proxy_index_ttl c = (if pyc_index_ttl c = 0 then default_proxy_index_ttl else pyc_index_ttl c)"

datatype pypi_route = PypiUpload | PypiRoot | PypiProject | PypiDownload

definition pypi_routes :: "(string \<times> string list \<times> pypi_route) list" where
  "pypi_routes =
     (let read = [''GET'', ''HEAD'']; change = [''POST'', ''PUT'']
      in [(''/{namespace}'', change, PypiUpload), (''/{namespace}/'', change, PypiUpload),
          (''/{namespace}/simple'', read, PypiRoot), (''/{namespace}/simple/'', read, PypiRoot),
          (''/{namespace}/simple/{project}'', read, PypiProject), (''/{namespace}/simple/{project}/'', read, PypiProject),
          (''/{namespace}/packages/{project}/{version}/{filename}'', read, PypiDownload)])"

text \<open>A parsed form: the first value of each key, and the file of \<open>content\<close>.\<close>

record pypi_form =
  fo_values :: "(string \<times> string) list"
  fo_content :: "(string \<times> string) option"

definition form_value :: "pypi_form \<Rightarrow> string \<Rightarrow> string" where
  "form_value fo k = (case map_of (fo_values fo) k of Some v \<Rightarrow> v | None \<Rightarrow> '''')"

record pypi_wire =
  pw_router :: "pypi_route router"
  pw_form :: "request \<Rightarrow> body \<Rightarrow> string + pypi_form"

record 'u pypi_state = "('u, proxy_index) memo_state" +
  py_pages :: "project_page page_cache"

type_synonym ('b, 'u) pypi_hnd = "('b world \<times> 'u pypi_state) handler"

section \<open>Uploads\<close>

text \<open>The file is hashed from its start, and read again from there by the store.\<close>

definition verify_declared_sha256 :: "pypi_env \<Rightarrow> string \<Rightarrow> string \<Rightarrow> err option" where
  "verify_declared_sha256 E data declared =
     (if equal_fold (hex_encode (py_sha256 E data)) (trim_space declared) then None else Some ErrDigestMismatch)"

definition pypi_upload_annotations :: "pypi_form \<Rightarrow> string \<Rightarrow> string \<Rightarrow> string \<Rightarrow> string \<Rightarrow> annotations" where
  "pypi_upload_annotations fo project version filename uploaded_at =
     [(''pypi:name'', JStr project), (''pypi:version'', JStr version), (''pypi:filename'', JStr filename),
      (''pypi:uploaded_at'', JStr uploaded_at)]
     @ concat (map (\<lambda>(form, key). if form_value fo form \<noteq> '''' then [(key, JStr (form_value fo form))] else [])
         [(''filetype'', ''pypi:filetype''), (''pyversion'', ''pypi:pyversion''),
          (''metadata_version'', ''pypi:metadata_version''), (''summary'', ''pypi:summary''),
          (''requires_python'', ''pypi:requires_python''), (''sha256_digest'', ''pypi:sha256_digest'')])"

record upload_doc =
  pu_project :: string
  pu_version :: string
  pu_filename :: string
  pu_data :: string
  pu_form :: pypi_form

definition read_upload ::
  "pypi_env \<Rightarrow> pypi_wire \<Rightarrow> pypi_config \<Rightarrow> request \<Rightarrow> (writer \<Rightarrow> writer) + upload_doc" where
  "read_upload E W cfg rq =
     (case pw_form W rq (with_max_body (pypi_upload_limit cfg) (rq_body rq)) of
        Inl text \<Rightarrow>
          (if str_contains text ''request body too large'' then Inl (write_error 413 ''upload too large'')
           else Inl (write_error 400 ''invalid multipart upload''))
      | Inr fo \<Rightarrow>
          (case normalize_project (py_lower E) (form_value fo ''name'') of
             Inl e \<Rightarrow> Inl (write_store_error e)
           | Inr project \<Rightarrow>
               (let version = form_value fo ''version''
                in case pypi_validate_version version of
                     Some e \<Rightarrow> Inl (write_store_error e)
                   | None \<Rightarrow>
                       (case fo_content fo of
                          None \<Rightarrow> Inl (write_error 400 ''missing content file'')
                        | Some (filename, data) \<Rightarrow>
                            (case pypi_validate_filename filename of
                               Some e \<Rightarrow> Inl (write_store_error e)
                             | None \<Rightarrow>
                                 (let declared = trim_space (form_value fo ''sha256_digest'');
                                      bad = (if declared = '''' then None else verify_declared_sha256 E data declared)
                                  in case bad of
                                       Some e \<Rightarrow> Inl (write_store_error e)
                                     | None \<Rightarrow> Inr \<lparr>pu_project = project, pu_version = version,
                                         pu_filename = filename, pu_data = data, pu_form = fo\<rparr>))))))"

definition store_upload :: "pypi_env \<Rightarrow> 'b store \<Rightarrow> request \<Rightarrow> upload_doc \<Rightarrow> ('b, unit) act" where
  "store_upload E s rq u =
     (let now = rq_now rq; pkg = store_package (pu_project u)
      in act_bind (act_ensure (add_package s now (pu_project u) [WithAnnotations [(''pypi:name'', JStr (pu_project u))]]))
           (\<lambda>_. act_bind (act_ensure (pkg_add_version s now pkg (pu_version u)
                   [WithAnnotations [(''pypi:version'', JStr (pu_version u))]]))
              (\<lambda>_. act_void (version_add_file s now (pkg_version pkg (pu_version u)) (pu_filename u) (bytes_body (pu_data u))
                 [WithAnnotations (pypi_upload_annotations (pu_form u) (pu_project u) (pu_version u) (pu_filename u)
                    (py_time E now))]))))"

definition h_page_invalidate :: "string \<Rightarrow> ('b, 'u) pypi_hnd \<Rightarrow> ('b, 'u) pypi_hnd" where
  "h_page_invalidate key k rw s = k rw (fst s, (snd s)\<lparr>py_pages := page_invalidate key (py_pages (snd s))\<rparr>)"

definition write_uploaded :: "writer \<Rightarrow> writer" where
  "write_uploaded rw =
     write_bytes (''uploaded'' @ [CHR 0x0A]) (write_header 201 (header_set ''Content-Type'' ''text/plain; charset=utf-8'' rw))"

definition pypi_upload ::
  "pypi_env \<Rightarrow> pypi_wire \<Rightarrow> pypi_config \<Rightarrow> 'b store \<Rightarrow> request \<Rightarrow> string \<Rightarrow> ('b, 'u) pypi_hnd" where
  "pypi_upload E W cfg s rq ns =
     (case read_upload E W cfg rq of
        Inl bad \<Rightarrow> h_done bad
      | Inr u \<Rightarrow> h_store (in_store (store_upload E s rq u))
          (\<lambda>_. h_page_invalidate (page_key ns (pu_project u)) (h_done write_uploaded)))"

section \<open>Hosted pages and downloads\<close>

definition write_html :: "request \<Rightarrow> string \<Rightarrow> writer \<Rightarrow> writer" where
  "write_html rq text rw =
     (let rw = write_header 200 (header_set ''Content-Type'' ''text/html; charset=utf-8'' rw)
      in if rq_method rq = ''HEAD'' then rw else write_bytes text rw)"

text \<open>\<open>rootIndex\<close> and \<open>proxyRootIndex\<close>.\<close>

definition pypi_root_index :: "'b store \<Rightarrow> request \<Rightarrow> ('b world \<times> 'x) handler" where
  "pypi_root_index s rq =
     h_store (in_store (store_packages s)) (\<lambda>ps. h_done (write_html rq (render_root_html (map p_name ps))))"

definition annotation_string :: "annotations \<Rightarrow> string \<Rightarrow> string" where
  "annotation_string an key = (case map_of an key of Some (JStr v) \<Rightarrow> v | _ \<Rightarrow> '''')"

definition page_link :: "string \<Rightarrow> string \<Rightarrow> string \<Rightarrow> string \<Rightarrow> meta \<Rightarrow> file_link" where
  "page_link ns project version n m =
     \<lparr>fl_filename = n, fl_url = package_url ns project version n, fl_sha256 = hash_from_digest (m_digest m),
      fl_requires = annotation_string (m_annotations m) ''pypi:requires_python''\<rparr>"

fun file_links ::
  "'b store \<Rightarrow> request \<Rightarrow> string \<Rightarrow> string \<Rightarrow> version \<Rightarrow> file_handle list \<Rightarrow> ('b, file_link list) act" where
  "file_links s rq ns project v [] = act_ret []"
| "file_links s rq ns project v (f # fs) =
     act_bind (file_meta s (rq_now rq) (rq_now rq) (rq_now rq) f)
       (\<lambda>m. act_bind (file_links s rq ns project v fs)
          (\<lambda>ls. act_ret (page_link ns project (v_name v) (f_name f) m # ls)))"

fun version_links :: "'b store \<Rightarrow> request \<Rightarrow> string \<Rightarrow> string \<Rightarrow> version list \<Rightarrow> ('b, file_link list) act" where
  "version_links s rq ns project [] = act_ret []"
| "version_links s rq ns project (v # vs) =
     act_bind (version_files s v)
       (\<lambda>fs. act_bind (file_links s rq ns project v fs)
          (\<lambda>ls. act_bind (version_links s rq ns project vs) (\<lambda>ls'. act_ret (ls @ ls'))))"

text \<open>Links are sorted by file name, then by URL.\<close>

definition build_project_page :: "'b store \<Rightarrow> request \<Rightarrow> string \<Rightarrow> string \<Rightarrow> pkg \<Rightarrow> ('b, project_page) act" where
  "build_project_page s rq ns project p =
     act_bind (pkg_versions s p)
       (\<lambda>vs. act_bind (version_links s rq ns project vs)
          (\<lambda>ls. act_ret \<lparr>pg_name = project, pg_files = sort_key fl_filename (sort_key fl_url ls)\<rparr>))"

text \<open>\<open>projectCache.get\<close>: the generation is noted before the load.\<close>

definition h_page_finish ::
  "request \<Rightarrow> string \<Rightarrow> 64 word \<Rightarrow> project_page \<Rightarrow> ('b, 'u) pypi_hnd \<Rightarrow> ('b, 'u) pypi_hnd" where
  "h_page_finish rq key generation p k rw s =
     k rw (fst s, (snd s)\<lparr>py_pages := page_finish (rq_now rq) key generation p (py_pages (snd s))\<rparr>)"

definition h_page_get ::
  "request \<Rightarrow> string \<Rightarrow> ('b, project_page) act \<Rightarrow> (project_page \<Rightarrow> ('b, 'u) pypi_hnd) \<Rightarrow> ('b, 'u) pypi_hnd" where
  "h_page_get rq key load k rw s =
     (let c = py_pages (snd s)
      in if pgc_ttl c \<le> 0 then h_store (in_store load) k rw s
         else case page_lookup (rq_now rq) key c of
           Some p \<Rightarrow> k p rw s
         | None \<Rightarrow> h_store (in_store load) (\<lambda>p. h_page_finish rq key (pgc_generation c) p (k p)) rw s)"

definition write_project_page :: "pypi_env \<Rightarrow> request \<Rightarrow> project_page \<Rightarrow> writer \<Rightarrow> writer" where
  "write_project_page E rq page =
     (if prefers_simple_json (py_media E) (header_get (rq_header rq) ''Accept'') then
        (if rq_method rq = ''HEAD'' then write_head_ok simple_json_type
         else write_typed_bytes simple_json_type (json_print (project_json (py_order E) page) @ [CHR 0x0A]))
      else write_html rq (render_project_html (py_order E) page))"

definition pypi_project_index ::
  "pypi_env \<Rightarrow> 'b store \<Rightarrow> request \<Rightarrow> string \<Rightarrow> string \<Rightarrow> ('b, 'u) pypi_hnd" where
  "pypi_project_index E s rq ns project =
     (let p = store_package project
      in h_store (in_store (pkg_exists s p))
           (\<lambda>ex. if \<not> ex then h_done (write_store_error ErrNotFound)
            else h_page_get rq (page_key ns project) (build_project_page s rq ns project p)
              (\<lambda>page. h_done (write_project_page E rq page))))"

text \<open>The names of a download, in the order they are checked.\<close>

definition check_download :: "pypi_env \<Rightarrow> string \<Rightarrow> string \<Rightarrow> string \<Rightarrow> string res" where
  "check_download E raw version filename =
     (case normalize_project (py_lower E) raw of
        Inl e \<Rightarrow> Inl e
      | Inr project \<Rightarrow>
          (case pypi_validate_version version of
             Some e \<Rightarrow> Inl e
           | None \<Rightarrow> (case pypi_validate_filename filename of Some e \<Rightarrow> Inl e | None \<Rightarrow> Inr project)))"

definition pypi_file :: "'b store \<Rightarrow> string \<Rightarrow> string \<Rightarrow> string \<Rightarrow> file_handle" where
  "pypi_file s project version filename = new_file s (pkg_version (store_package project) version) filename"

definition pypi_download :: "'b store \<Rightarrow> request \<Rightarrow> file_handle \<Rightarrow> ('b world \<times> 'x) handler" where
  "pypi_download s rq f = on_store (redirect_or_stream_file s rq f ''application/octet-stream'')"

section \<open>A proxy namespace\<close>

definition simple_key :: "string \<Rightarrow> string" where
  "simple_key project = ''pypi:simple:'' @ project"

definition pypi_file_key :: "string \<Rightarrow> string \<Rightarrow> string \<Rightarrow> string" where
  "pypi_file_key project version filename = ''pypi:file:'' @ project @ '':'' @ version @ '':'' @ filename"

definition pypi_upstream_base :: "spec \<Rightarrow> string" where
  "pypi_upstream_base sp = trim_right_slash (px_upstream (sp_proxy sp))"

definition simple_url :: "spec \<Rightarrow> string \<Rightarrow> string" where
  "simple_url sp project = pypi_upstream_base sp @ ''/simple/'' @ path_escape project @ ''/''"

text \<open>A file whose metadata cannot be read is left out; versions that cannot be listed end it all.\<close>

fun synth_files :: "'b store \<Rightarrow> request \<Rightarrow> version \<Rightarrow> file_handle list \<Rightarrow> ('b, index_file list) act" where
  "synth_files s rq v [] = act_ret []"
| "synth_files s rq v (f # fs) =
     act_catch (file_meta s (rq_now rq) (rq_now rq) (rq_now rq) f)
       (\<lambda>r. act_bind (synth_files s rq v fs)
          (\<lambda>xs. act_ret (case r of
             Inl e \<Rightarrow> xs
           | Inr m \<Rightarrow>
               \<lparr>if_filename = f_name f, if_upstream_url = '''', if_sha256 = hash_from_digest (m_digest m),
                if_requires = annotation_string (m_annotations m) ''pypi:requires_python'',
                if_version = v_name v, if_upload_time = None\<rparr> # xs)))"

fun synth_index :: "'b store \<Rightarrow> request \<Rightarrow> version list \<Rightarrow> ('b, index_file list) act" where
  "synth_index s rq [] = act_ret []"
| "synth_index s rq (v # vs) =
     act_bind (version_files s v)
       (\<lambda>fs. act_bind (synth_files s rq v fs)
          (\<lambda>xs. act_bind (synth_index s rq vs) (\<lambda>ys. act_ret (xs @ ys))))"

definition synthesize_index :: "'b store \<Rightarrow> request \<Rightarrow> string \<Rightarrow> ('b, proxy_index option) act" where
  "synthesize_index s rq project =
     (let p = store_package project
      in act_catch (pkg_exists s p)
           (\<lambda>r. if r \<noteq> Inr True then act_ret None
            else act_catch (act_bind (pkg_versions s p) (synth_index s rq))
              (\<lambda>r. case r of
                 Inl e \<Rightarrow> act_ret None
               | Inr fs \<Rightarrow> act_ret (if fs = [] then None else Some \<lparr>ix_name = project, ix_files = fs\<rparr>))))"

definition load_index ::
  "pypi_env \<Rightarrow> 'u upstream \<Rightarrow> http_client \<Rightarrow> 'b store \<Rightarrow> request \<Rightarrow> string \<Rightarrow> spec \<Rightarrow> string
    \<Rightarrow> (proxy_index res \<Rightarrow> ('b world \<times> ('u, 'z) proxy_state_scheme) handler)
    \<Rightarrow> ('b world \<times> ('u, 'z) proxy_state_scheme) handler" where
  "load_index E up hc s rq ns sp project =
     refresh_document up hc s rq ns format_pypi (simple_key project) (simple_url sp project)
       (parse_upstream_index E (simple_url sp project) project) (\<lambda>ix. json_print (index_json ix))
       (fallback_document (decode_index E) s (simple_key project) (synthesize_index s rq project))"

definition fetch_index ::
  "pypi_env \<Rightarrow> pypi_config \<Rightarrow> 'u upstream \<Rightarrow> http_client \<Rightarrow> 'b store \<Rightarrow> request \<Rightarrow> string \<Rightarrow> spec \<Rightarrow> string
    \<Rightarrow> (proxy_index \<Rightarrow> ('b, 'u) pypi_hnd) \<Rightarrow> ('b, 'u) pypi_hnd" where
  "fetch_index E cfg up hc s rq ns sp project k =
     fetch_document (proxy_index_ttl cfg) rq ns format_pypi project (simple_key project)
       (load_index E up hc s rq ns sp project)
       (\<lambda>r. case r of Inl e \<Rightarrow> h_done (write_fetch_error e) | Inr ix \<Rightarrow> k ix)"

definition pypi_proxy_index ::
  "pypi_env \<Rightarrow> pypi_config \<Rightarrow> 'u upstream \<Rightarrow> http_client \<Rightarrow> 'b store \<Rightarrow> request \<Rightarrow> string \<Rightarrow> spec \<Rightarrow> string
    \<Rightarrow> ('b, 'u) pypi_hnd" where
  "pypi_proxy_index E cfg up hc s rq ns sp raw =
     (case normalize_project (py_lower E) raw of
        Inl e \<Rightarrow> h_done (write_store_error e)
      | Inr project \<Rightarrow>
          fetch_index E cfg up hc s rq ns sp project (\<lambda>ix. h_done (write_project_page E rq (index_page ns ix))))"

text \<open>The publish time of a file out of the upstream's JSON of its release.\<close>

definition decode_release :: "string \<Rightarrow> (string \<times> string) list option" where
  "decode_release body =
     (case json_unmarshal body of
        None \<Rightarrow> None
      | Some v \<Rightarrow> decode_struct (decode_field False
          [(''urls'', \<lambda>v fs. decode_slice
             (decode_struct (decode_field False
                [(''filename'', \<lambda>v f. map_option (\<lambda>s. (s, snd f)) (decode_string v (fst f))),
                 (''upload_time_iso_8601'', \<lambda>v f. map_option (\<lambda>s. (fst f, s)) (decode_string v (snd f)))]))
             ('''', '''') v fs)]) v [])"

definition release_time :: "pypi_env \<Rightarrow> string \<Rightarrow> (string \<times> string) list \<Rightarrow> stamp option" where
  "release_time E filename fs =
     (case List.map_filter (\<lambda>(n, t). if n = filename \<and> t \<noteq> '''' then py_parse_time E t else None) fs of
        [] \<Rightarrow> None
      | t # _ \<Rightarrow> Some t)"

definition release_url :: "spec \<Rightarrow> string \<Rightarrow> string \<Rightarrow> string" where
  "release_url sp project version =
     pypi_upstream_base sp @ ''/pypi/'' @ path_escape project @ ''/'' @ path_escape version @ ''/json''"

definition resolve_upload_time ::
  "pypi_env \<Rightarrow> 'u upstream \<Rightarrow> http_client \<Rightarrow> spec \<Rightarrow> string \<Rightarrow> string \<Rightarrow> string \<Rightarrow> 'u \<Rightarrow> stamp option \<times> 'u" where
  "resolve_upload_time E up hc sp project version filename u =
     (case client_get up hc (release_url sp project version) u of
        (Inl e, u1) \<Rightarrow> (None, u1)
      | (Inr resp, u1) \<Rightarrow>
          (if \<not> status_ok (rs_status resp) then (None, u1)
           else (Option.bind (decode_release (rs_body resp)) (release_time E filename), u1)))"

definition pypi_allow ::
  "pypi_env \<Rightarrow> 'u upstream \<Rightarrow> http_client \<Rightarrow> request \<Rightarrow> spec \<Rightarrow> string \<Rightarrow> string \<Rightarrow> string \<Rightarrow> index_file \<Rightarrow> 'u
    \<Rightarrow> bool \<times> 'u" where
  "pypi_allow E up hc rq sp project version filename f u =
     (if px_filters (sp_proxy sp) = [] then (True, u)
      else case compile_chain (py_parse_dur E) (px_filters (sp_proxy sp)) of
        Inl e \<Rightarrow> (False, u)
      | Inr ch \<Rightarrow>
          (let decide = (\<lambda>t. decide_at ch \<lparr>ref_package = project, ref_version = version,
                 ref_published_at = map_option fst t\<rparr> (rq_now rq));
               dec = decide (if_upload_time f)
           in if needs_metadata dec
              then case resolve_upload_time E up hc sp project version filename u of
                (Some t, u1) \<Rightarrow> (allowed (decide (Some t)), u1)
              | (None, u1) \<Rightarrow> (allowed dec, u1)
              else (allowed dec, u)))"

text \<open>What is recorded with a pulled file; its upload time is the index's, or that of the fetch.\<close>

definition pypi_proxy_annotations ::
  "pypi_env \<Rightarrow> string \<Rightarrow> string \<Rightarrow> string \<Rightarrow> index_file \<Rightarrow> int \<Rightarrow> annotations" where
  "pypi_proxy_annotations E project version filename f fetched_at =
     [(''pypi:name'', JStr project), (''pypi:version'', JStr version), (''pypi:filename'', JStr filename)]
     @ (if if_upstream_url f = '''' then [] else [(''pypi:upstream_url'', JStr (if_upstream_url f))])
     @ (if if_sha256 f = '''' then [] else [(''pypi:sha256_digest'', JStr (if_sha256 f))])
     @ (if if_requires f = '''' then [] else [(''pypi:requires_python'', JStr (if_requires f))])
     @ [(''pypi:uploaded_at'', JStr (py_time E (case if_upload_time f of Some (t, _) \<Rightarrow> t | None \<Rightarrow> fetched_at)))]"

definition pypi_record_parents :: "'b store \<Rightarrow> request \<Rightarrow> string \<Rightarrow> string \<Rightarrow> ('b, unit) act" where
  "pypi_record_parents s rq project version =
     act_bind (act_ensure (add_package s (rq_now rq) project [WithAnnotations [(''pypi:name'', JStr project)]]))
       (\<lambda>_. act_ensure (pkg_add_version s (rq_now rq) (store_package project) version
          [WithAnnotations [(''pypi:version'', JStr version)]]))"

definition pypi_stream ::
  "pypi_env \<Rightarrow> 'u upstream \<Rightarrow> 'b store \<Rightarrow> request \<Rightarrow> string \<Rightarrow> string \<Rightarrow> string \<Rightarrow> string \<Rightarrow> index_file
    \<Rightarrow> ('b world \<times> ('u, 'z) proxy_state_scheme) handler" where
  "pypi_stream E up s rq ns project version filename f =
     pull_artifact up rq ns format_pypi (pypi_file_key project version filename) (if_upstream_url f) ''application/octet-stream''
       (\<lambda>b. in_store (version_add_file s (rq_now rq) (pkg_version (store_package project) version) filename b
          [WithAnnotations (pypi_proxy_annotations E project version filename f (rq_now rq))]))
       (after_fill (in_store (pypi_record_parents s rq project version)))"

definition pypi_cold_download ::
  "pypi_env \<Rightarrow> pypi_config \<Rightarrow> 'u upstream \<Rightarrow> http_client \<Rightarrow> 'b store \<Rightarrow> request \<Rightarrow> string \<Rightarrow> spec
    \<Rightarrow> string \<Rightarrow> string \<Rightarrow> string \<Rightarrow> ('b, 'u) pypi_hnd" where
  "pypi_cold_download E cfg up hc s rq ns sp project version filename =
     (let key = pypi_file_key project version filename
      in h_neg_has rq ns format_pypi key (h_done (write_store_error ErrNotFound))
           (fetch_index E cfg up hc s rq ns sp project
              (\<lambda>ix. case index_find ix filename version of
                 None \<Rightarrow> h_not_found rq ns format_pypi key
               | Some f \<Rightarrow>
                   (if if_upstream_url f = '''' then h_not_found rq ns format_pypi key
                    else h_up (pypi_allow E up hc rq sp project version filename f)
                      (\<lambda>ok. if \<not> ok then h_done (write_store_error ErrNotFound)
                       else if rq_method rq = ''HEAD'' then h_done (write_head_ok ''application/octet-stream'')
                       else pypi_stream E up s rq ns project version filename f)))))"

definition pypi_proxy_download ::
  "pypi_env \<Rightarrow> pypi_config \<Rightarrow> 'u upstream \<Rightarrow> http_client \<Rightarrow> 'b store \<Rightarrow> request \<Rightarrow> string \<Rightarrow> spec
    \<Rightarrow> string \<Rightarrow> string \<Rightarrow> string \<Rightarrow> ('b, 'u) pypi_hnd" where
  "pypi_proxy_download E cfg up hc s rq ns sp raw version filename =
     (case check_download E raw version filename of
        Inl e \<Rightarrow> h_done (write_store_error e)
      | Inr project \<Rightarrow>
          h_store (in_store (file_exists s (pypi_file s project version filename)))
            (\<lambda>ex. if ex then pypi_download s rq (pypi_file s project version filename)
             else pypi_cold_download E cfg up hc s rq ns sp project version filename))"

text \<open>A new handler's client and state.\<close>

definition pypi_client :: http_client where "pypi_client = new_client []"

definition pypi_new_handler :: "pypi_config \<Rightarrow> 'u \<Rightarrow> 'u pypi_state" where
  "pypi_new_handler cfg u = \<lparr>ps_neg = neg_new (pyc_negative_ttl cfg), ps_up = u, ms_memo = Map.empty,
     py_pages = new_page_cache (pyc_simple_ttl cfg)\<rparr>"

section \<open>Dispatch\<close>

type_synonym ('b, 're, 'u) pypi_sv = "('b, 're, 'u pypi_state) sv_hnd"

definition pypi_spec ::
  "('b, 're) registry \<Rightarrow> request \<Rightarrow> (string \<times> string) list \<Rightarrow> bool \<Rightarrow> (string \<Rightarrow> spec \<Rightarrow> ('b, 're, 'x) sv_hnd)
    \<Rightarrow> ('b, 're, 'x) sv_hnd" where
  "pypi_spec = route_spec format_pypi"

definition pypi_hosted ::
  "('b, 're) registry \<Rightarrow> request \<Rightarrow> string \<Rightarrow> bool \<Rightarrow> ('b store \<Rightarrow> ('b world \<times> 'x) handler) \<Rightarrow> ('b, 're, 'x) sv_hnd" where
  "pypi_hosted = route_hosted format_pypi"

definition pypi_proxied ::
  "('b, 're) registry \<Rightarrow> request \<Rightarrow> string \<Rightarrow> ('b store \<Rightarrow> ('b world \<times> 'x) handler) \<Rightarrow> ('b, 're, 'x) sv_hnd" where
  "pypi_proxied = route_proxied format_pypi"

fun pypi_action ::
  "pypi_env \<Rightarrow> pypi_wire \<Rightarrow> pypi_config \<Rightarrow> ('b, 're) registry \<Rightarrow> 'u upstream \<Rightarrow> http_client \<Rightarrow> request
    \<Rightarrow> (string \<times> string) list \<Rightarrow> pypi_route \<Rightarrow> ('b, 're, 'u) pypi_sv" where
  "pypi_action E W cfg r up hc rq vars PypiUpload =
     pypi_spec r rq vars True
       (\<lambda>ns sp. if is_proxy sp then h_done (write_method_not_allowed [''GET'', ''HEAD''])
        else pypi_hosted r rq ns True (\<lambda>st. pypi_upload E W cfg st rq ns))"
| "pypi_action E W cfg r up hc rq vars PypiRoot =
     pypi_spec r rq vars False
       (\<lambda>ns sp. if is_proxy sp then pypi_proxied r rq ns (\<lambda>st. pypi_root_index st rq)
        else pypi_hosted r rq ns False (\<lambda>st. pypi_root_index st rq))"
| "pypi_action E W cfg r up hc rq vars PypiProject =
     pypi_spec r rq vars False
       (\<lambda>ns sp. let raw = path_value vars ''project''
        in if is_proxy sp then pypi_proxied r rq ns (\<lambda>st. pypi_proxy_index E cfg up hc st rq ns sp raw)
           else case normalize_project (py_lower E) raw of
             Inl e \<Rightarrow> h_done (write_store_error e)
           | Inr project \<Rightarrow> pypi_hosted r rq ns False (\<lambda>st. pypi_project_index E st rq ns project))"
| "pypi_action E W cfg r up hc rq vars PypiDownload =
     pypi_spec r rq vars False
       (\<lambda>ns sp. let raw = path_value vars ''project''; version = path_value vars ''version'';
            filename = path_value vars ''filename''
        in if is_proxy sp
           then pypi_proxied r rq ns (\<lambda>st. pypi_proxy_download E cfg up hc st rq ns sp raw version filename)
           else case check_download E raw version filename of
             Inl e \<Rightarrow> h_done (write_store_error e)
           | Inr project \<Rightarrow>
               pypi_hosted r rq ns False (\<lambda>st. pypi_download st rq (pypi_file st project version filename)))"

definition pypi_serve ::
  "pypi_env \<Rightarrow> pypi_wire \<Rightarrow> pypi_config \<Rightarrow> ('b, 're) registry \<Rightarrow> 'u upstream \<Rightarrow> http_client \<Rightarrow> request
    \<Rightarrow> ('b, 're, 'u) pypi_sv" where
  "pypi_serve E W cfg r up hc rq =
     (case pw_router W pypi_routes rq of
        Routed h vars \<Rightarrow> pypi_action E W cfg r up hc rq vars h
      | MethodMismatch \<Rightarrow> h_done (write_method_not_allowed [''GET'', ''HEAD'', ''POST'', ''PUT''])
      | RouterAnswer f \<Rightarrow> h_done f)"

definition pypi_handler ::
  "pypi_env \<Rightarrow> pypi_wire \<Rightarrow> pypi_config \<Rightarrow> ('b, 're) registry \<Rightarrow> 'p oidc_lib \<Rightarrow> 'u upstream \<Rightarrow> request
    \<Rightarrow> ('p authn \<times> ('b, 're policy_cache) ns_world \<times> 'u pypi_state) handler" where
  "pypi_handler E W cfg r L up = auth_middleware (authenticate L) (pypi_serve E W cfg r up pypi_client)"

end
