(* ===== verification/Flags.thy ===== *)
theory Flags
  imports Config Generic Maven Npm Pypi
begin

text \<open>
  The flags of the two servers and their defaults, \<open>addSharedFlags\<close> and \<open>addDataPlaneFlags\<close> of
  \<open>pkg/command/config.go\<close>, and the logger that the environment describes.
\<close>

definition default_data_port :: int where "default_data_port = 8080"
definition default_admin_port :: int where "default_admin_port = 8081"
definition debian_default_negative_ttl :: int where "debian_default_negative_ttl = 30 * 10 ^ 9"
definition pypi_default_negative_ttl :: int where "pypi_default_negative_ttl = 30 * 10 ^ 9"
definition npm_default_negative_ttl :: int where "npm_default_negative_ttl = 30 * 10 ^ 9"

definition shared_ints :: "int \<Rightarrow> (string \<times> int) list" where
  "shared_ints port = [(''port'', port)]"

definition shared_strings :: "(string \<times> string) list" where
  "shared_strings =
     [(''bucket-url'', ''''), (''bucket-prefix'', ''''), (''metrics-path'', ''/metrics''), (''log-level'', ''info''),
      (''log-format'', ''text'')]"

definition shared_bools :: "(string \<times> bool) list" where
  "shared_bools = [(''enable-metrics'', True), (''log-debug'', False)]"

definition data_ints :: "(string \<times> int) list" where
  "data_ints =
     [(''maven-max-upload-bytes'', maven_default_max_upload), (''pypi-max-upload-bytes'', pypi_default_max_upload),
      (''pypi-simple-index-cache-ttl'', 60 * 10 ^ 9), (''pypi-proxy-index-cache-ttl'', default_proxy_index_ttl),
      (''pypi-proxy-negative-cache-ttl'', pypi_default_negative_ttl), (''npm-max-upload-bytes'', npm_default_max_upload),
      (''npm-proxy-packument-memo-ttl'', default_packument_memo_ttl),
      (''npm-proxy-packument-cache-ttl'', default_packument_cache_ttl),
      (''npm-proxy-negative-cache-ttl'', npm_default_negative_ttl),
      (''debian-proxy-negative-cache-ttl'', debian_default_negative_ttl),
      (''generic-max-upload-bytes'', generic_default_max_upload)]"

definition data_strings :: "(string \<times> string) list" where
  "data_strings = [(''repo-type'', ''''), (''authn-kind'', ''oidc''), (''authn-oidc-audience'', '''')]"

definition data_bools :: "(string \<times> bool) list" where
  "data_bools = [(''disable-authn'', False), (''generic-allow-overwrite'', False)]"

definition flag_default :: "'a \<Rightarrow> (string \<times> 'a) list \<Rightarrow> string \<Rightarrow> 'a" where
  "flag_default z fs k = (case map_of fs k of Some v \<Rightarrow> v | None \<Rightarrow> z)"

text \<open>What viper reads when no flag and no variable is set.\<close>

definition default_flags :: "bool \<Rightarrow> flag_source" where
  "default_flags data_plane =
     \<lparr>fl_int = flag_default 0
        (shared_ints (if data_plane then default_data_port else default_admin_port) @ (if data_plane then data_ints else [])),
      fl_string = flag_default '''' (shared_strings @ (if data_plane then data_strings else [])),
      fl_bool = flag_default False (shared_bools @ (if data_plane then data_bools else [])),
      fl_strings = flag_default [] [(''authn-oidc-issuers'', [])], fl_kind_set = False\<rparr>"

definition set_string :: "string \<Rightarrow> string \<Rightarrow> flag_source \<Rightarrow> flag_source" where
  "set_string k x v = v\<lparr>fl_string := (fl_string v)(k := x)\<rparr>"

definition set_strings :: "string \<Rightarrow> string list \<Rightarrow> flag_source \<Rightarrow> flag_source" where
  "set_strings k x v = v\<lparr>fl_strings := (fl_strings v)(k := x)\<rparr>"

text \<open>\<open>NewFromEnv\<close>: the variables are looked up by their suffix.\<close>

definition env_debug :: "string \<Rightarrow> bool" where
  "env_debug s = (to_lower (trim_space s) \<in> {''1'', ''true'', ''yes''})"

definition new_logger_from_env :: "(string \<Rightarrow> string option) \<Rightarrow> (log_level \<times> log_handler \<times> bool) option" where
  "new_logger_from_env env =
     (let get = (\<lambda>k def. case env k of Some v \<Rightarrow> v | None \<Rightarrow> def)
      in new_logger (get ''_LOG_LEVEL'' ''info'') (get ''_LOG_FORMAT'' ''text'') (env_debug (get ''_LOG_DEBUG'' ''false'')))"

section \<open>The defaults are usable\<close>

text \<open>Of a control plane's flags only the bucket has to be named; a data plane also needs an issuer and an
  audience.  Whatever the bucket is, the rest of the defaults passes validation.\<close>

lemma default_admin_missing: "resolve_config False (default_flags False) = Inl [''bucket-url'']"
  by code_simp

lemma default_data_missing:
  "resolve_config True (default_flags True) = Inl [''bucket-url'', ''authn-oidc-issuers'', ''authn-oidc-audience'']"
  by code_simp

lemmas flag_tables = default_flags_def flag_default_def shared_ints_def shared_strings_def shared_bools_def data_ints_def
  data_strings_def data_bools_def set_string_def set_strings_def

lemma default_admin_resolves:
  assumes "trim_space url \<noteq> ''''"
  shows "\<exists>c. resolve_config False (set_string ''bucket-url'' url (default_flags False)) = Inr c
    \<and> rt_port c = 8081 \<and> rt_bucket_url c = trim_space url"
proof -
  let ?v = "set_string ''bucket-url'' url (default_flags False)"
  have "valid_log_level ''info''" "valid_log_format ''text''" "validate_bucket_prefix ''''" "has_prefix ''/metrics'' ''/''"
    by code_simp+
  then have "validate_config False (shared_config ?v) = []"
    using assms by (simp add: validate_config_def shared_config_def flag_tables default_admin_port_def
        reserved_observability_paths_def)
  then show ?thesis
    by (simp add: resolve_config_def Let_def) (simp add: shared_config_def flag_tables default_admin_port_def)
qed

lemma default_data_resolves:
  assumes "trim_space url \<noteq> ''''" "split_csv issuers \<noteq> []" "trim_space aud \<noteq> ''''"
  shows "\<exists>c. resolve_config True (set_string ''bucket-url'' url (set_strings ''authn-oidc-issuers'' issuers
      (set_string ''authn-oidc-audience'' aud (default_flags True)))) = Inr c
    \<and> rt_port c = 8080 \<and> \<not> rt_disable_authn c \<and> rt_authn_oidc_issuers c = split_csv issuers
    \<and> rt_authn_oidc_audience c = trim_space aud"
proof -
  let ?v = "set_string ''bucket-url'' url (set_strings ''authn-oidc-issuers'' issuers
      (set_string ''authn-oidc-audience'' aud (default_flags True)))"
  let ?c = "data_config ?v (shared_config ?v)"
  have fixed: "valid_log_level ''info''" "valid_log_format ''text''" "validate_bucket_prefix ''''"
    "has_prefix ''/metrics'' ''/''" "trim_space ''oidc'' = ''oidc''" "trim_space '''' = ''''"
    by code_simp+
  have "validate_config True ?c = []"
    using assms by (simp add: validate_config_def validate_authn_def data_config_def shared_config_def flag_tables fixed
        default_data_port_def reserved_observability_paths_def maven_default_max_upload_def pypi_default_max_upload_def
        pypi_default_negative_ttl_def npm_default_max_upload_def npm_default_negative_ttl_def
        debian_default_negative_ttl_def generic_default_max_upload_def)
  then show ?thesis
    by (simp add: resolve_config_def Let_def)
      (simp add: data_config_def shared_config_def flag_tables default_data_port_def)
qed

text \<open>Without a variable set the logger is made with its defaults.\<close>

lemma new_logger_from_env_default: "new_logger_from_env (\<lambda>_. None) = Some (LevelInfo, TextHandler, False)"
  by code_simp

end
