(* ===== verification/Observability.thy ===== *)
theory Observability
  imports Mux Surface Ttl_Cache
begin

text \<open>
  The wrapper around both planes, \<open>pkg/observability\<close>: liveness, readiness and metrics endpoints
  before the plane's own routes, one metric per request, and the recorder that watches a response.
  The metrics path is a clean literal path without a trailing slash; the backend's ping, the
  metrics exposition, the length of a request body and the labels that inner routes set are
  parameters; log records are not kept.
\<close>

section \<open>Readiness\<close>

definition ready_cache_ttl :: int where "ready_cache_ttl = 10 ^ 9"

text \<open>The time until which the last successful probe counts; failures are not kept.\<close>

type_synonym prober = "int option"

definition probe_cached :: "int \<Rightarrow> prober \<Rightarrow> bool" where
  "probe_cached now p = (case p of Some t \<Rightarrow> now < t | None \<Rightarrow> False)"

definition probe ::
  "('s \<Rightarrow> err option \<times> 's) option \<Rightarrow> int \<Rightarrow> int \<Rightarrow> prober \<times> 's \<Rightarrow> err option \<times> prober \<times> 's" where
  "probe ping t1 t2 ps =
     (case ping of
        None \<Rightarrow> (None, ps)
      | Some f \<Rightarrow>
          (if probe_cached t1 (fst ps) then (None, ps)
           else case f (snd ps) of
             (Some e, s') \<Rightarrow> (Some e, fst ps, s')
           | (None, s') \<Rightarrow> (None, Some (t2 + ready_cache_ttl), s')))"

section \<open>The response recorder\<close>

text \<open>What a handler calls on its writer; \<open>Flush\<close> and \<open>Unwrap\<close> only forward.\<close>

datatype writer_call = CallHeader int | CallWrite string

record recorder =
  rr_status :: int
  rr_bytes :: int
  rr_wrote :: bool

definition new_recorder :: recorder where
  "new_recorder = \<lparr>rr_status = 0, rr_bytes = 0, rr_wrote = False\<rparr>"

definition rr_write_header :: "int \<Rightarrow> recorder \<times> writer \<Rightarrow> recorder \<times> writer" where
  "rr_write_header code s =
     (if rr_wrote (fst s) then s
      else ((fst s)\<lparr>rr_status := code, rr_wrote := True\<rparr>, write_header code (snd s)))"

definition rr_write :: "string \<Rightarrow> recorder \<times> writer \<Rightarrow> recorder \<times> writer" where
  "rr_write p s =
     (let s = (if rr_wrote (fst s) then s else rr_write_header 200 s)
      in ((fst s)\<lparr>rr_bytes := rr_bytes (fst s) + int (length p)\<rparr>, write_bytes p (snd s)))"

definition status_or_default :: "recorder \<Rightarrow> int" where
  "status_or_default rr = (if rr_status rr = 0 then 200 else rr_status rr)"

fun recorded_call :: "writer_call \<Rightarrow> recorder \<times> writer \<Rightarrow> recorder \<times> writer" where
  "recorded_call (CallHeader code) = rr_write_header code"
| "recorded_call (CallWrite p) = rr_write p"

fun plain_call :: "writer_call \<Rightarrow> writer \<Rightarrow> writer" where
  "plain_call (CallHeader code) = write_header code"
| "plain_call (CallWrite p) = write_bytes p"

section \<open>Requests\<close>

record request_labels =
  rl_format :: string
  rl_op :: string

record http_event =
  he_format :: string
  he_op :: string
  he_status :: int
  he_bytes_in :: int
  he_bytes_out :: int

definition op_or_fallback :: "string \<Rightarrow> string \<Rightarrow> string" where
  "op_or_fallback op meth =
     (if op \<noteq> '''' then op
      else if meth \<in> {''GET'', ''HEAD''} then ''read''
      else if meth \<in> {''PUT'', ''POST'', ''PATCH''} then ''write''
      else if meth = ''DELETE'' then ''delete''
      else to_lower meth)"

definition request_bytes_in :: "int \<Rightarrow> int" where
  "request_bytes_in content_length = (if content_length > 0 then content_length else 0)"

record 's obs_config =
  ob_ping :: "('s \<Rightarrow> err option \<times> 's) option"
  ob_metrics :: "(writer \<Rightarrow> writer) option"
  ob_metrics_path :: string
  ob_build :: "string \<times> string \<times> string"
  ob_length :: "request \<Rightarrow> int"
  ob_labels :: "request \<Rightarrow> request_labels"

record obs_state =
  os_ready :: prober
  os_events :: "http_event list"

text \<open>The newest event comes first.  A handler that panics takes \<open>observe\<close> with it: its request is not recorded.\<close>

definition observe_request ::
  "'s obs_config \<Rightarrow> (request \<Rightarrow> 's handler) \<Rightarrow> request \<Rightarrow> (obs_state \<times> 's) handler" where
  "observe_request cfg nxt rq rw s =
     (case nxt rq rw (snd s) of
        (rw', s') \<Rightarrow>
          (let l = ob_labels cfg rq;
               ev = \<lparr>he_format = (if rl_format l = '''' then ''unknown'' else rl_format l),
                     he_op = op_or_fallback (rl_op l) (rq_method rq), he_status = response_status rw',
                     he_bytes_in = request_bytes_in (ob_length cfg rq),
                     he_bytes_out = int (length (wr_body rw')) - int (length (wr_body rw))\<rparr>
           in (rw', if wr_aborted rw' then fst s else (fst s)\<lparr>os_events := ev # os_events (fst s)\<rparr>, s')))"

definition liveness :: "request \<Rightarrow> writer \<Rightarrow> writer" where
  "liveness rq rw =
     (if rq_method rq = ''HEAD'' then write_header 200 rw
      else write_bytes (''ok'' @ [CHR 0x0A])
        (write_header 200 (header_set ''Content-Type'' ''text/plain; charset=utf-8'' rw)))"

definition ready_json :: "string \<times> string \<times> string \<Rightarrow> err option \<Rightarrow> json" where
  "ready_json b e =
     (let st = (if e = None then ''ok'' else ''error'')
      in JObject ([(''status'', JString st), (''backend'', JString st),
            (''build'', JObject [(''version'', JString (fst b)), (''commit'', JString (fst (snd b))),
               (''os_arch'', JString (snd (snd b)))])]
          @ (if e = None then [] else [(''error'', JString ''backend not ready'')])))"

definition readyz :: "'s obs_config \<Rightarrow> request \<Rightarrow> (obs_state \<times> 's) handler" where
  "readyz cfg rq rw s =
     (case probe (ob_ping cfg) (rq_now rq) (rq_now rq) (os_ready (fst s), snd s) of
        (e, p, s') \<Rightarrow>
          (let st = (if e = None then 200 else 503)
           in (if rq_method rq = ''HEAD'' then write_header st rw else write_json st (ready_json (ob_build cfg) e) rw,
               (fst s)\<lparr>os_ready := p\<rparr>, s')))"

section \<open>Dispatch\<close>

definition path_segs :: "string \<Rightarrow> string list" where
  "path_segs p = split_on (CHR ''/'') (tl p)"

definition metrics_path :: "'s obs_config \<Rightarrow> string" where
  "metrics_path cfg = (if ob_metrics_path cfg = '''' then ''/metrics'' else ob_metrics_path cfg)"

definition obs_wrap ::
  "'s obs_config \<Rightarrow> (request \<Rightarrow> 's handler) \<Rightarrow> request \<Rightarrow> (obs_state \<times> 's) handler" where
  "obs_wrap cfg nxt rq =
     (let p = mux_clean_path (rq_escaped_path rq); segs = mux_segments p; get = rq_method rq \<in> {''GET'', ''HEAD''}
      in if p \<noteq> rq_escaped_path rq then h_done (\<lambda>rw. write_header 301 (header_set ''Location'' p rw))
         else if get \<and> segs = [''healthz''] then h_done (liveness rq)
         else if get \<and> segs = [''readyz''] then readyz cfg rq
         else if get \<and> segs = path_segs (metrics_path cfg) then
           h_done (case ob_metrics cfg of Some f \<Rightarrow> f | None \<Rightarrow> http_error 404 ''404 page not found'')
         else observe_request cfg nxt rq)"

section \<open>What the endpoints promise\<close>

text \<open>
  A history of probes, the latest first, while the backend's state changes freely in between.
  \<open>Pinged t\<close> is a ping that succeeded, the clock being \<open>t\<close> right after it.
\<close>

datatype probe_event = Pinged int | PingFailed | FromCache

inductive probe_trace :: "('s \<Rightarrow> err option \<times> 's) \<Rightarrow> probe_event list \<Rightarrow> prober \<times> 's \<Rightarrow> bool" for f where
  start: "probe_trace f [] (None, s)"
| moved: "probe_trace f es (p, s) \<Longrightarrow> probe_trace f es (p, s')"
| probed: "probe_trace f es (p, s) \<Longrightarrow> probe (Some f) t1 t2 (p, s) = (e, p', s') \<Longrightarrow>
    probe_trace f ((if probe_cached t1 p then FromCache else if e = None then Pinged t2 else PingFailed) # es) (p', s')"

lemma probe_trace_backed:
  assumes "probe_trace f es (p, s)" "p = Some u"
  shows "\<exists>t. Pinged t \<in> set es \<and> u = t + ready_cache_ttl"
  using assms
proof (induction es "(p, s)" arbitrary: p s u rule: probe_trace.induct)
  case (probed es p s t1 t2 e p' s')
  then show ?case by (auto simp: probe_def split: if_splits prod.splits option.splits)
qed auto

text \<open>C25: readiness is backed by the backend: a probe that reports ready either pinged the backend
  successfully itself, or an earlier ping succeeded less than a second before.\<close>

theorem ready_is_backed:
  assumes "probe_trace f es (p, s)" "probe (Some f) t1 t2 (p, s) = (None, p', s')"
  shows "fst (f s) = None \<or> (\<exists>t. Pinged t \<in> set es \<and> t1 < t + 10 ^ 9)"
proof (cases "probe_cached t1 p")
  case True
  then obtain u where u: "p = Some u" "t1 < u" by (auto simp: probe_cached_def split: option.splits)
  with probe_trace_backed [OF assms(1)] show ?thesis by (auto simp: ready_cache_ttl_def)
next
  case False
  with assms(2) show ?thesis by (auto simp: probe_def split: prod.splits option.splits)
qed

theorem ready_is_backed_witness:
  "probe_trace (\<lambda>s. (s, s)) [Pinged 5] (Some (5 + ready_cache_ttl), None)
    \<and> (\<exists>t. Pinged t \<in> set [Pinged 5] \<and> 6 < t + 10 ^ 9)"
proof -
  let ?f = "\<lambda>s :: err option. (s, s)"
  have "probe_trace ?f [] (None, None)" by (rule probe_trace.start)
  from probe_trace.probed [OF this, of 5 5 None "Some (5 + ready_cache_ttl)" None]
  have 1: "probe_trace ?f [Pinged 5] (Some (5 + ready_cache_ttl), None)" by (simp add: probe_def probe_cached_def)
  then have 2: "probe_trace ?f [Pinged 5] (Some (5 + ready_cache_ttl), Some ErrNotFound)" by (rule probe_trace.moved)
  have "probe (Some ?f) 6 6 (Some (5 + ready_cache_ttl), Some ErrNotFound)
      = (None, Some (5 + ready_cache_ttl), Some ErrNotFound)"
    by (simp add: probe_def probe_cached_def ready_cache_ttl_def)
  from ready_is_backed [OF 2 this] 1 show ?thesis by simp
qed

text \<open>The recorder against the writer it wraps.\<close>

definition recorder_agrees :: "int \<Rightarrow> recorder \<Rightarrow> writer \<Rightarrow> bool" where
  "recorder_agrees n rr rw \<longleftrightarrow>
     (rr_wrote rr \<longleftrightarrow> wr_sent rw \<noteq> None) \<and> \<not> wr_head rw
     \<and> (case wr_sent rw of None \<Rightarrow> rr_status rr = 0 | Some (st, _) \<Rightarrow> rr_status rr = st \<and> st \<noteq> 0)
     \<and> int (length (wr_body rw)) = n + rr_bytes rr"

lemma recorded_step:
  assumes "recorder_agrees n rr rw" "c \<noteq> CallHeader 0" "recorded_call c (rr, rw) = (rr', rw')"
  shows "rw' = plain_call c rw \<and> recorder_agrees n rr' rw'"
  using assms
  by (cases c)
    (auto simp: recorder_agrees_def rr_write_header_def rr_write_def write_header_def write_bytes_def Let_def
      split: option.splits if_splits)



text \<open>A request that reaches the plane is counted exactly once, if its handler returns; the other endpoints do not
  reach it.\<close>

lemma obs_wrap_cases:
  obtains (endpoint) "snd (snd (obs_wrap cfg nxt rq rw s)) = snd s" "os_events (fst (snd (obs_wrap cfg nxt rq rw s))) = os_events (fst s)"
  | (ready) "obs_wrap cfg nxt rq = readyz cfg rq"
  | (plane) "obs_wrap cfg nxt rq = observe_request cfg nxt rq"
proof (cases "obs_wrap cfg nxt rq = readyz cfg rq \<or> obs_wrap cfg nxt rq = observe_request cfg nxt rq")
  case False
  then have "\<exists>g. obs_wrap cfg nxt rq = h_done g" unfolding obs_wrap_def Let_def by (auto split: if_splits)
  then show ?thesis using endpoint by (auto simp: h_done_def)
qed (use ready plane in blast)

lemma readyz_quiet:
  assumes "ob_ping cfg = Some f" "\<And>s. snd (f s) = s"
  shows "snd (snd (readyz cfg rq rw s)) = snd s"
proof -
  have "snd (snd (probe (Some f) t1 t2 (p, s'))) = s'" for t1 t2 p s'
    using assms(2) [of s'] by (cases "f s'") (auto simp: probe_def split: option.split)
  then show ?thesis
    by (simp add: readyz_def assms(1) Let_def case_prod_beta)
qed

lemma observed:
  assumes "observe_request cfg nxt rq rw s = (rw', o', s')"
  shows "nxt rq rw (snd s) = (rw', s') \<and> (\<not> wr_aborted rw' \<longrightarrow> (\<exists>ev. os_events o' = ev # os_events (fst s) \<and> he_status ev = response_status rw'))"
  using assms by (cases "nxt rq rw (snd s)") (auto simp: observe_request_def Let_def)

lemma obs_wrap_changed:
  assumes "obs_wrap cfg nxt rq rw s = (rw', o', s')" "s' \<noteq> snd s" "ob_ping cfg = Some f" "\<And>s. snd (f s) = s"
  shows "nxt rq rw (snd s) = (rw', s') \<and> (\<not> wr_aborted rw' \<longrightarrow> (\<exists>ev. os_events o' = ev # os_events (fst s) \<and> he_status ev = response_status rw'))"
proof (cases rule: obs_wrap_cases [of cfg nxt rq rw s])
  case endpoint
  with assms(1,2) show ?thesis by simp
next
  case ready
  with readyz_quiet [OF assms(3,4), of rq rw s] assms(1,2) show ?thesis by simp
next
  case plane
  with assms(1) observed show ?thesis by metis
qed

end
