(* ===== verification/Metrics.thy ===== *)
theory Metrics
  imports Observability
begin

text \<open>
  The Prometheus recorder, \<open>pkg/metrics/metrics.go\<close>: what the HTTP wrapper and the bucket primitives
  report, added up per label.  Counters are unbounded integers where the library adds \<open>float64\<close>; of
  a histogram the number of observations is kept.  The library's counters refuse a negative
  addition with a panic, which is \<open>None\<close> here.
\<close>

section \<open>The recorder\<close>

record prom =
  pm_requests :: "string \<times> string \<times> int \<Rightarrow> int"
  pm_durations :: "string \<times> string \<Rightarrow> int"
  pm_bytes_in :: "string \<times> string \<Rightarrow> int"
  pm_bytes_out :: "string \<times> string \<Rightarrow> int"
  pm_blob_requests :: "string \<times> string \<Rightarrow> int"
  pm_blob_durations :: "string \<Rightarrow> int"
  pm_redirects :: "string \<Rightarrow> int"

definition new_prometheus :: prom where
  "new_prometheus =
     \<lparr>pm_requests = (\<lambda>_. 0), pm_durations = (\<lambda>_. 0), pm_bytes_in = (\<lambda>_. 0), pm_bytes_out = (\<lambda>_. 0),
      pm_blob_requests = (\<lambda>_. 0), pm_blob_durations = (\<lambda>_. 0), pm_redirects = (\<lambda>_. 0)\<rparr>"

definition counter_add :: "'l \<Rightarrow> int \<Rightarrow> ('l \<Rightarrow> int) \<Rightarrow> 'l \<Rightarrow> int" where
  "counter_add l n m = m(l := m l + n)"

definition prom_http_request :: "http_event \<Rightarrow> prom \<Rightarrow> prom option" where
  "prom_http_request ev p =
     (let l = (he_format ev, he_op ev);
          p = p\<lparr>pm_requests := counter_add (he_format ev, he_op ev, he_status ev) 1 (pm_requests p),
                pm_durations := counter_add l 1 (pm_durations p)\<rparr>
      in if he_bytes_in ev < 0 \<or> he_bytes_out ev < 0 then None
         else Some (p\<lparr>pm_bytes_in := counter_add l (he_bytes_in ev) (pm_bytes_in p),
                     pm_bytes_out := counter_add l (he_bytes_out ev) (pm_bytes_out p)\<rparr>))"

fun prom_blob :: "metric \<Rightarrow> prom \<Rightarrow> prom" where
  "prom_blob (BlobStoreCall op status) p =
     p\<lparr>pm_blob_requests := counter_add (op, status) 1 (pm_blob_requests p),
       pm_blob_durations := counter_add op 1 (pm_blob_durations p)\<rparr>"
| "prom_blob (BlobRedirect outcome) p = p\<lparr>pm_redirects := counter_add outcome 1 (pm_redirects p)\<rparr>"

text \<open>The metrics of a sequence of requests, the oldest first.\<close>

fun prom_http_requests :: "http_event list \<Rightarrow> prom \<Rightarrow> prom option" where
  "prom_http_requests [] p = Some p"
| "prom_http_requests (ev # evs) p = Option.bind (prom_http_request ev p) (prom_http_requests evs)"

section \<open>What the numbers say\<close>

text \<open>Nothing the wrapper records is refused: the sizes of a request and of a recorded response are
  never negative.\<close>

lemma request_bytes_in_nonneg: "0 \<le> request_bytes_in n"
  by (simp add: request_bytes_in_def)

lemma recorded_bytes_nonneg:
  "0 \<le> rr_bytes (fst s) \<Longrightarrow> 0 \<le> rr_bytes (fst (fold recorded_call cs s))"
proof (induction cs arbitrary: s)
  case (Cons c cs)
  have "0 \<le> rr_bytes (fst (recorded_call c s))"
    using Cons.prems by (cases c) (auto simp: rr_write_header_def rr_write_def Let_def)
  with Cons.IH show ?case by simp
qed simp

lemma counter_add_apply: "counter_add l n m k = m k + (if k = l then n else 0)"
  by (simp add: counter_add_def)

text \<open>The counters are the sums over the requests: a request is counted under its labels once, and the
  bytes of its two bodies are added to the totals of its format and operation.\<close>

lemma prom_http_requests_totals:
  assumes "list_all (\<lambda>ev. 0 \<le> he_bytes_in ev \<and> 0 \<le> he_bytes_out ev) evs"
  shows "\<exists>q. prom_http_requests evs p = Some q
    \<and> pm_requests q (f, o', s) = pm_requests p (f, o', s)
        + int (length (filter (\<lambda>ev. he_format ev = f \<and> he_op ev = o' \<and> he_status ev = s) evs))
    \<and> pm_durations q (f, o') = pm_durations p (f, o') + int (length (filter (\<lambda>ev. he_format ev = f \<and> he_op ev = o') evs))
    \<and> pm_bytes_in q (f, o') = pm_bytes_in p (f, o')
        + sum_list (map he_bytes_in (filter (\<lambda>ev. he_format ev = f \<and> he_op ev = o') evs))
    \<and> pm_bytes_out q (f, o') = pm_bytes_out p (f, o')
        + sum_list (map he_bytes_out (filter (\<lambda>ev. he_format ev = f \<and> he_op ev = o') evs))"
  using assms
proof (induction evs arbitrary: p)
  case (Cons ev evs)
  then obtain p' where p': "prom_http_request ev p = Some p'"
    by (auto simp: prom_http_request_def Let_def not_less)
  with Cons.prems have "pm_requests p' k = pm_requests p k + (if k = (he_format ev, he_op ev, he_status ev) then 1 else 0)"
    "pm_durations p' l = pm_durations p l + (if l = (he_format ev, he_op ev) then 1 else 0)"
    "pm_bytes_in p' l = pm_bytes_in p l + (if l = (he_format ev, he_op ev) then he_bytes_in ev else 0)"
    "pm_bytes_out p' l = pm_bytes_out p l + (if l = (he_format ev, he_op ev) then he_bytes_out ev else 0)" for k l
    by (auto simp: prom_http_request_def Let_def counter_add_apply split: if_splits)
  moreover from Cons.prems have "list_all (\<lambda>ev. 0 \<le> he_bytes_in ev \<and> 0 \<le> he_bytes_out ev) evs" by simp
  note Cons.IH [OF this, of p']
  ultimately show ?case using p' by auto
qed simp

end
