(* ===== verification/Admin.thy ===== *)
theory Admin
  imports Spec_Codec Catalog Surface Mux
begin

text \<open>
  The namespace control plane, \<open>pkg/admin/admin.go\<close>: its routes, handlers and errors over the
  catalog.  \<open>ad_error_text\<close> is the text of an error, which the source builds by wrapping and the
  model does not keep; the startup warning and the logging of internal errors are not modelled.
\<close>

record ('b, 'c, 're) admin_env =
  ad_catalog :: "('b, 'c, 're) catalog"
  ad_num :: "string \<Rightarrow> string option"
  ad_error_text :: "err \<Rightarrow> string"

type_synonym ('b, 'c) adm = "('b, 'c) ns_world handler"

text \<open>The text of an undecodable body's error is a parameter too, so one value stands for it.\<close>

definition err_decode :: err where
  "err_decode = ErrOther ''decode''"

definition status_for :: "err \<Rightarrow> int" where
  "status_for e =
     (if e \<in> {NsErrInvalidName, NsErrInvalidProxy, NsErrInvalidPolicy, NsErrUnsupportedSchemaVersion}
      then 400 else if e = NsErrNotFound then 404 else if e = NsErrNotEmpty then 409 else 500)"

definition admin_write_status :: "int \<Rightarrow> string \<Rightarrow> writer \<Rightarrow> writer" where
  "admin_write_status status msg = write_json status (JObject [(''error'', JString msg)])"

definition admin_write_error :: "('b, 'c, 're) admin_env \<Rightarrow> err \<Rightarrow> writer \<Rightarrow> writer" where
  "admin_write_error E e = admin_write_status (status_for e) (ad_error_text E e)"

text \<open>
  The body is read until its first value ends (one byte more for a literal): what follows it, an
  error of the reader included, goes unseen.
\<close>

definition admin_decode :: "('b, 'c, 're) admin_env \<Rightarrow> request \<Rightarrow> spec option" where
  "admin_decode E rq =
     (case json_first (bd_data (rq_body rq)) of
        None \<Rightarrow> None
      | Some (v, rest) \<Rightarrow>
          (if v = JNull \<and> rest = [] \<and> bd_err (rq_body rq) \<noteq> None then None
           else decode_spec (ad_num E) True v zero_spec))"

definition admin_list :: "('b, 'c, 're) admin_env \<Rightarrow> ('b, 'c) adm" where
  "admin_list E rw w =
     (case catalog_list (ad_catalog E) (nw_bucket w) of
        Inl e \<Rightarrow> (admin_write_error E e rw, w)
      | Inr nss \<Rightarrow>
          (write_json 200 (JObject [(''namespaces'', JArray (map namespace_json nss))]) rw, w))"

definition admin_get :: "('b, 'c, 're) admin_env \<Rightarrow> string \<Rightarrow> ('b, 'c) adm" where
  "admin_get E name rw w =
     (case catalog_get (ad_catalog E) (nw_bucket w) name of
        Inl e \<Rightarrow> (admin_write_error E e rw, w)
      | Inr ns \<Rightarrow> (write_json 200 (namespace_json ns) rw, w))"

definition admin_put :: "('b, 'c, 're) admin_env \<Rightarrow> request \<Rightarrow> string \<Rightarrow> ('b, 'c) adm" where
  "admin_put E rq name rw w =
     (case admin_decode E rq of
        None \<Rightarrow> (admin_write_status 400 (ad_error_text E err_decode) rw, w)
      | Some sp \<Rightarrow>
          (case catalog_get (ad_catalog E) (nw_bucket w) name of
             Inl e \<Rightarrow>
               (if e \<noteq> NsErrNotFound then (admin_write_error E e rw, w)
                else case catalog_put (ad_catalog E) (Some \<lparr>ns_name = name, ns_spec = sp\<rparr>) w of
                  (Inl e, w1) \<Rightarrow> (admin_write_error E e rw, w1)
                | (Inr ns, w1) \<Rightarrow> (write_json 201 (namespace_json ns) rw, w1))
           | Inr _ \<Rightarrow>
               (case catalog_put (ad_catalog E) (Some \<lparr>ns_name = name, ns_spec = sp\<rparr>) w of
                  (Inl e, w1) \<Rightarrow> (admin_write_error E e rw, w1)
                | (Inr ns, w1) \<Rightarrow> (write_json 200 (namespace_json ns) rw, w1))))"

definition admin_delete :: "('b, 'c, 're) admin_env \<Rightarrow> string \<Rightarrow> ('b, 'c) adm" where
  "admin_delete E name rw w =
     (case catalog_delete (ad_catalog E) name w of
        (Inl e, w1) \<Rightarrow> (admin_write_error E e rw, w1)
      | (Inr _, w1) \<Rightarrow> (write_header 204 rw, w1))"

datatype admin_route = AdminList | AdminGet | AdminPut | AdminDelete

definition admin_routes :: "admin_route route list" where
  "admin_routes =
     (let base = [Lit ''admin'', Lit ''v1'', Lit ''namespaces'']
      in [Route ''GET'' base AdminList,
          Route ''GET'' (base @ [Wild ''name'']) AdminGet,
          Route ''PUT'' (base @ [Wild ''name'']) AdminPut,
          Route ''DELETE'' (base @ [Wild ''name'']) AdminDelete])"

definition admin_handler :: "('b, 'c, 're) admin_env \<Rightarrow> request \<Rightarrow> ('b, 'c) adm" where
  "admin_handler E rq =
     serve_mux admin_routes
       (\<lambda>h b. case h of
          AdminList \<Rightarrow> admin_list E
        | AdminGet \<Rightarrow> admin_get E (path_value b ''name'')
        | AdminPut \<Rightarrow> admin_put E rq (path_value b ''name'')
        | AdminDelete \<Rightarrow> admin_delete E (path_value b ''name'')) rq"

end
