(* ===== verification/Json_Laws.thy ===== *)
theory Json_Laws
  imports Json
begin

text \<open>
  Printing and parsing JSON are inverse: what \<open>json_print\<close> makes of a value is read back by the
  decoder.  \<open>json_reads v u\<close> says which value \<open>u\<close> the text of \<open>v\<close> decodes to: \<open>v\<close> itself, with
  numbers as literals and raw text parsed.
\<close>

section \<open>String literals\<close>

lemma byte_char_of [simp]: "byte_char (int (of_char c)) = c"
  by (simp add: byte_char_def)

lemma is_hex_lower: "n < 16 \<Longrightarrow> is_hex (hex_lower n) \<and> unhex (hex_lower n) = n"
  by (auto simp: hex_lower_def is_hex_def unhex_def is_digit_def Let_def of_char_of take_bit_eq_mod)

lemma get_u4_u00:
  assumes "(of_char c :: nat) < 128"
  shows "get_u4 (CHR ''0'' # CHR ''0'' # hex_lower (of_char c div 16) # hex_lower (of_char c mod 16) # t)
    = Some (int (of_char c))"
  using assms is_hex_lower [of "of_char c div 16"] is_hex_lower [of "of_char c mod 16"]
  by (simp add: is_hex_def unhex_def Let_def)

lemma json_str_u4:
  assumes "get_u4 r = Some u" "\<not> (55296 \<le> u \<and> u < 57344)"
  shows "json_str (CHR 0x5C # CHR ''u'' # r) = put_front (encode_rune u) (json_str (drop 4 r))"
  using assms by (subst json_str.simps) auto

lemma json_str_short:
  assumes "map_of json_escapes x = Some y" "x \<noteq> CHR ''u''"
  shows "json_str (CHR 0x5C # x # t) = put_front [y] (json_str t)"
  using assms by (subst json_str.simps) simp

lemma json_str_plain:
  assumes "32 \<le> (of_char c :: nat)" "(of_char c :: nat) < 128" "c \<noteq> CHR 0x5C" "c \<noteq> CHR 0x22"
  shows "json_str (c # t) = put_front [c] (json_str t)"
  using assms by (subst json_str.simps) simp

lemma json_escape_byte_cases:
  obtains (short) x where "json_escape_byte c = [CHR 0x5C, x]" "map_of json_escapes x = Some c" "x \<noteq> CHR ''u''"
  | (u00) "json_escape_byte c = json_u00 c"
  | (plain) "json_escape_byte c = [c]" "32 \<le> (of_char c :: nat)" "c \<noteq> CHR 0x5C" "c \<noteq> CHR 0x22"
proof (cases "c \<in> {CHR 0x5C, CHR 0x22, CHR 0x08, CHR 0x09, CHR 0x0A, CHR 0x0C, CHR 0x0D}")
  case True
  then have "\<exists>x. json_escape_byte c = [CHR 0x5C, x] \<and> map_of json_escapes x = Some c \<and> x \<noteq> CHR ''u''"
    by (elim insertE emptyE) (simp_all add: json_escape_byte_def json_escapes_def)
  then show thesis using short by blast
next
  case False
  then have "json_escape_byte c = (if (of_char c :: nat) < 32 \<or> c \<in> set ''<>&'' then json_u00 c else [c])"
    by (simp add: json_escape_byte_def)
  with False show thesis using u00 plain by (cases "(of_char c :: nat) < 32 \<or> c \<in> set ''<>&''") auto
qed

lemma json_str_escape_byte:
  assumes "(of_char c :: nat) < 128"
  shows "json_str (json_escape_byte c @ t) = put_front [c] (json_str t)"
proof (cases rule: json_escape_byte_cases [of c])
  case (short x)
  with json_str_short [OF short(2,3), of t] show ?thesis by simp
next
  case u00
  have "encode_rune (int (of_char c)) = [c]" using assms by (simp add: encode_rune_def)
  with u00 json_str_u4 [OF get_u4_u00 [OF assms, of t]] assms show ?thesis by (simp add: json_u00_def)
next
  case plain
  with json_str_plain [OF plain(2) assms plain(3,4)] show ?thesis by simp
qed

lemma json_str_escape: "is_ascii s \<Longrightarrow> json_str (json_escape s @ CHR 0x22 # t) = Some (s, t)"
proof (induction s)
  case Nil
  show ?case by (subst json_escape.simps, subst json_str.simps) simp
next
  case (Cons c s)
  then have c: "(of_char c :: nat) < 128" and s: "is_ascii s" by (simp_all add: is_ascii_def)
  have "json_escape (c # s) = json_escape_byte c @ json_escape s"
    using c by (subst json_escape.simps) simp
  then show ?case using json_str_escape_byte [OF c] Cons.IH [OF s] by (simp add: put_front_def)
qed

section \<open>Numbers\<close>

text \<open>What may follow a number in printed JSON.\<close>

definition stops :: "string \<Rightarrow> bool" where
  "stops t \<longleftrightarrow> t = [] \<or> hd t \<in> {CHR '','', CHR '']'', CHR 0x7D}"

lemma digits_of_nat_shape:
  "digits_of_nat n \<noteq> [] \<and> list_all is_digit (digits_of_nat n)
    \<and> (hd (digits_of_nat n) = CHR ''0'' \<longrightarrow> digits_of_nat n = ''0'')
    \<and> foldl (\<lambda>a d. a * 10 + (int (of_char d) - 48)) 0 (digits_of_nat n) = int n"
proof (induction n rule: digits_of_nat.induct)
  case (1 n)
  show ?case
  proof (cases "n < 10")
    case True
    then have "n \<in> {0, 1, 2, 3, 4, 5, 6, 7, 8, 9}" by auto
    then show ?thesis by (subst (1 2 3 4 5) digits_of_nat.simps) (auto simp: is_digit_def of_char_of)
  next
    case False
    have d: "digits_of_nat n = digits_of_nat (n div 10) @ [char_of (48 + n mod 10)]"
      using False by (subst digits_of_nat.simps) simp
    have m: "is_digit (char_of (48 + n mod 10))" "int (of_char (char_of (48 + n mod 10))) = 48 + int (n mod 10)"
      by (simp_all add: is_digit_def take_bit_eq_mod)
    have "hd (digits_of_nat (n div 10)) \<noteq> CHR ''0''"
    proof
      assume "hd (digits_of_nat (n div 10)) = CHR ''0''"
      with 1 [OF False] have "digits_of_nat (n div 10) = ''0''" by simp
      with 1 [OF False] have "int (n div 10) = 0" by simp
      with False show False by linarith
    qed
    moreover have "int (n div 10) * 10 + int (n mod 10) = int n"
      by (metis div_mult_mod_eq of_nat_add of_nat_mult of_nat_numeral)
    ultimately show ?thesis using 1 [OF False] m unfolding d by (simp add: hd_append)
  qed
qed

lemma takeWhile_digits:
  assumes "list_all is_digit ds" "stops t"
  shows "takeWhile is_digit (ds @ t) = ds" "dropWhile is_digit (ds @ t) = t"
proof -
  have "takeWhile is_digit t = []" "dropWhile is_digit t = t"
    using assms(2) by (cases t; auto simp: stops_def is_digit_def)+
  with assms(1) show "takeWhile is_digit (ds @ t) = ds" "dropWhile is_digit (ds @ t) = t"
    by (simp_all add: list_all_iff takeWhile_append2 dropWhile_append2)
qed

lemma json_number_format_int:
  assumes "stops t"
  shows "json_number (format_int i @ t) = Some (format_int i, t)"
proof -
  have f: "json_frac t = Some ([], t)" "json_exp t = Some ([], t)"
    using assms by (auto simp: json_frac_def json_exp_def stops_def)
  have n: "json_number (sg @ digits_of_nat n @ t) = Some (sg @ digits_of_nat n, t)"
    if "sg = [] \<or> sg = [CHR ''-'']" for sg n
  proof -
    note s = digits_of_nat_shape [of n]
    then have nz: "digits_of_nat n \<noteq> []" "hd (digits_of_nat n) \<noteq> CHR ''-''"
      by (cases "digits_of_nat n"; auto simp: is_digit_def)+
    have sg: "(if sg @ digits_of_nat n @ t \<noteq> [] \<and> hd (sg @ digits_of_nat n @ t) = CHR ''-'' then [CHR ''-''] else []) = sg"
      using that nz by auto
    have ip: "(if digits_of_nat n @ t \<noteq> [] \<and> hd (digits_of_nat n @ t) = CHR ''0'' then [CHR ''0'']
        else takeWhile is_digit (digits_of_nat n @ t)) = digits_of_nat n"
      using s nz takeWhile_digits [OF _ assms] by auto
    have d: "drop (length xs) (xs @ ys) = ys" for xs ys :: string by simp
    show ?thesis
      unfolding json_number_def Let_def sg d ip using nz(1) by (simp add: f)
  qed
  show ?thesis using n [of "[]"] n [of "[CHR ''-'']"] by (simp add: format_int_def)
qed

section \<open>Values\<close>

text \<open>The text \<open>raw\<close> decodes to \<open>u\<close> and is not taken for the end of an array; the text of \<open>v\<close> does.\<close>

definition raw_reads :: "string \<Rightarrow> json \<Rightarrow> bool" where
  "raw_reads raw u \<longleftrightarrow> raw \<noteq> [] \<and> \<not> is_ws (hd raw) \<and> hd raw \<noteq> CHR '']''
     \<and> (\<forall>n t. 2 * length raw + 1 \<le> n \<longrightarrow> stops t \<longrightarrow> json_value n (raw @ t) = Some (u, t))"

definition json_reads :: "json \<Rightarrow> json \<Rightarrow> bool" where
  "json_reads v u = raw_reads (json_print v) u"

lemma raw_readsI:
  assumes "raw = c # r" "\<not> is_ws c" "c \<noteq> CHR '']''"
    and "\<And>n t. 2 * length raw \<le> n \<Longrightarrow> stops t \<Longrightarrow> json_value (Suc n) (raw @ t) = Some (u, t)"
  shows "raw_reads raw u"
proof -
  have "json_value n (raw @ t) = Some (u, t)" if "2 * length raw + 1 \<le> n" "stops t" for n t
    using assms(4) [of "n - 1" t] that by (cases n) auto
  with assms(1-3) show ?thesis by (simp add: raw_reads_def)
qed

lemma raw_reads_value:
  "raw_reads raw u \<Longrightarrow> 2 * length raw + 1 \<le> n \<Longrightarrow> stops t \<Longrightarrow> json_value n (raw @ t) = Some (u, t)"
  by (simp add: raw_reads_def)

lemma stops_simps [simp]:
  "stops []" "stops (CHR '','' # t)" "stops (CHR '']'' # t)" "stops (CHR 0x7D # t)"
  by (simp_all add: stops_def)

lemma skip_ws_Cons [simp]: "\<not> is_ws c \<Longrightarrow> skip_ws (c # r) = c # r"
  by (simp add: skip_ws_def)

lemma skip_ws_raw: "raw_reads raw u \<Longrightarrow> skip_ws (raw @ t) = raw @ t"
  by (cases raw) (simp_all add: raw_reads_def)

lemma is_ws_marks [simp]:
  "\<not> is_ws (CHR '','')" "\<not> is_ws (CHR '']'')" "\<not> is_ws (CHR 0x7D)" "\<not> is_ws (CHR 0x7B)" "\<not> is_ws (CHR ''['')"
  "\<not> is_ws (CHR '':'')" "\<not> is_ws (CHR 0x22)"
  by (simp_all add: is_ws_def)

lemma json_elems_reads:
  assumes "list_all2 raw_reads raws us" "raws \<noteq> []" "2 * length (join '','' raws @ '']'') \<le> n"
  shows "json_elems n (join '','' raws @ CHR '']'' # t) = Some (us, t)"
  using assms
proof (induction raws us arbitrary: n rule: list_all2_induct)
  case (Cons raw raws u us)
  obtain m where n: "n = Suc m" using Cons.prems by (cases n) auto
  show ?case
  proof (cases raws)
    case Nil
    then show ?thesis using Cons.hyps Cons.prems n raw_reads_value [of raw u m "CHR '']'' # t"] by simp
  next
    case (Cons r rs)
    then have j: "join '','' (raw # raws) = raw @ CHR '','' # join '','' raws" by simp
    have "json_elems m (join '','' raws @ CHR '']'' # t) = Some (us, t)"
      using Cons.IH Cons Cons.prems n j by simp
    then show ?thesis
      using Cons.hyps Cons.prems n j raw_reads_value [of raw u m "CHR '','' # join '','' raws @ CHR '']'' # t"]
      by simp
  qed
qed simp

lemma json_members_reads:
  assumes "list_all2 (\<lambda>(k, raw) (l, u). k = l \<and> is_ascii k \<and> raw_reads raw u) kvs lus" "kvs \<noteq> []"
    and "2 * length (join '','' (map (\<lambda>(k, raw). json_quote k @ '':'' @ raw) kvs) @ '']'') \<le> n"
  shows "json_members n (join '','' (map (\<lambda>(k, raw). json_quote k @ '':'' @ raw) kvs) @ CHR 0x7D # t) = Some (lus, t)"
  using assms
proof (induction kvs lus arbitrary: n rule: list_all2_induct)
  case (Cons kv kvs lu lus)
  obtain m where n: "n = Suc m" using Cons.prems by (cases n) auto
  obtain k raw l u where kl: "kv = (k, raw)" "lu = (l, u)" by (cases kv; cases lu) auto
  with Cons.hyps have h: "l = k" "is_ascii k" "raw_reads raw u" by auto
  let ?m = "\<lambda>(k, raw). json_quote k @ '':'' @ raw"
  have q: "json_quote k @ r = CHR 0x22 # json_escape k @ CHR 0x22 # r" for r by (simp add: json_quote_def)
  show ?case
  proof (cases kvs)
    case Nil
    then show ?thesis
      using Cons.hyps Cons.prems n kl h json_str_escape [OF h(2)] raw_reads_value [OF h(3), of m "CHR 0x7D # t"]
      by (simp add: q)
  next
    case (Cons r rs)
    then have j: "join '','' (map ?m (kv # kvs)) = json_quote k @ '':'' @ raw @ CHR '','' # join '','' (map ?m kvs)"
      using kl by simp
    have "json_members m (join '','' (map ?m kvs) @ CHR 0x7D # t) = Some (lus, t)"
      by (rule Cons.IH) (use Cons Cons.prems n j in simp_all)
    moreover have "json_value m (raw @ CHR '','' # join '','' (map ?m kvs) @ CHR 0x7D # t)
        = Some (u, CHR '','' # join '','' (map ?m kvs) @ CHR 0x7D # t)"
      by (rule raw_reads_value [OF h(3)]) (use Cons.prems n j in simp_all)
    ultimately show ?thesis
      unfolding j n using kl h json_str_escape [OF h(2)] by (simp add: q)
  qed
qed simp

section \<open>What each value reads as\<close>

lemma reads_simple [intro]:
  "json_reads JNull JNull" "json_reads (JBool b) (JBool b)"
proof -
  have *: "json_reads v v" if "v \<in> {JNull, JBool True, JBool False}" for v
    using that unfolding json_reads_def
    by (elim insertE emptyE) (auto intro!: raw_readsI simp: is_ws_def)
  from * [of JNull] * [of "JBool b"] show "json_reads JNull JNull" "json_reads (JBool b) (JBool b)"
    by (cases b; simp)+
qed

lemma reads_string [intro]: "is_ascii s \<Longrightarrow> json_reads (JString s) (JString s)"
  unfolding json_reads_def
  by (rule raw_readsI [where c = "CHR 0x22"]) (simp_all add: json_quote_def json_str_escape is_ws_def)

lemma format_int_head: "hd (format_int i) = CHR ''-'' \<or> is_digit (hd (format_int i))" "format_int i \<noteq> []"
  using digits_of_nat_shape [of "nat i"] by (auto simp: format_int_def list_all_iff)

lemma reads_int [intro]: "json_reads (JInt i) (JRaw (format_int i))"
proof -
  obtain c r where f: "format_int i = c # r" using format_int_head(2) [of i] by (cases "format_int i") auto
  with format_int_head(1) [of i] have c: "c = CHR ''-'' \<or> is_digit c" by simp
  then have "\<not> is_ws c" "c \<noteq> CHR '']''" "c \<notin> {CHR 0x7B, CHR ''['', CHR 0x22, CHR ''t'', CHR ''f'', CHR ''n''}"
    by (auto simp: is_ws_def is_digit_def)
  with json_number_format_int [of _ i] f show ?thesis
    unfolding json_reads_def by (intro raw_readsI [OF _ _ _]) (auto simp: prefix_def)
qed

lemma reads_raw [intro]: "raw_reads raw u \<Longrightarrow> json_reads (JRaw raw) u"
  by (simp add: json_reads_def)

lemma reads_array [intro]:
  assumes "list_all2 json_reads xs ys"
  shows "json_reads (JArray xs) (JArray ys)"
proof (cases "xs = []")
  case True
  with assms show ?thesis unfolding json_reads_def by (intro raw_readsI) (auto simp: is_ws_def)
next
  case False
  have l: "list_all2 raw_reads (map json_print xs) ys"
    using assms by (simp add: list_all2_map1 json_reads_def [abs_def])
  obtain y ys' where "ys = y # ys'" using assms False by (cases ys) auto
  with l False have hd: "\<exists>c r. join '','' (map json_print xs) = c # r \<and> \<not> is_ws c \<and> c \<noteq> CHR '']''"
    by (cases xs; cases "json_print (hd xs)"; cases "tl xs") (auto simp: raw_reads_def)
  have "json_elems n (join '','' (map json_print xs) @ CHR '']'' # t) = Some (ys, t)"
    if "2 * length (join '','' (map json_print xs) @ '']'') \<le> n" for n t
    by (rule json_elems_reads [OF l]) (use False that in simp_all)
  with hd show ?thesis
    unfolding json_reads_def by (intro raw_readsI) (auto simp: is_ws_def)
qed

lemma reads_object [intro]:
  assumes "list_all2 (\<lambda>(k, v) (l, u). k = l \<and> is_ascii k \<and> json_reads v u) kvs lus"
  shows "json_reads (JObject kvs) (JObject lus)"
proof (cases "kvs = []")
  case True
  with assms show ?thesis unfolding json_reads_def by (intro raw_readsI) (auto simp: is_ws_def)
next
  case False
  let ?kvs = "map (map_prod id json_print) kvs"
  let ?j = "join '','' (map (\<lambda>(k, raw). json_quote k @ '':'' @ raw) ?kvs)"
  have j: "json_print (JObject kvs) = CHR 0x7B # ?j @ [CHR 0x7D]"
    by (simp add: comp_def case_prod_unfold)
  have l: "list_all2 (\<lambda>(k, raw) (l, u). k = l \<and> is_ascii k \<and> raw_reads raw u) ?kvs lus"
    using assms by (simp add: list_all2_map1 json_reads_def case_prod_unfold)
  have hd: "\<exists>r. ?j = CHR 0x22 # r"
    using False by (cases kvs; cases "tl kvs") (auto simp: json_quote_def case_prod_unfold)
  have "json_members n (?j @ CHR 0x7D # t) = Some (lus, t)" if "2 * length (?j @ '']'') \<le> n" for n t
    by (rule json_members_reads [OF l]) (use False that in simp_all)
  with hd show ?thesis
    unfolding json_reads_def j by (intro raw_readsI) (auto simp: is_ws_def)
qed

lemma json_reads_unmarshal:
  assumes "json_reads v u"
  shows "json_unmarshal (json_print v) = Some u"
  using raw_reads_value [OF assms [unfolded json_reads_def] order_refl stops_simps(1)]
  by (simp add: json_unmarshal_def json_first_def skip_ws_def)

end
