(* ===== verification/Spec_Laws.thy ===== *)
theory Spec_Laws
  imports Spec_Codec Json_Laws
begin

text \<open>
  The codec of namespace specs is a round trip on the specs that JSON can carry: those whose
  strings are ASCII and whose maps are in the order of their keys, as they are printed.
\<close>

section \<open>Decoding what was printed\<close>

lemma decode_seq:
  "decode_entries f a x = Some y \<Longrightarrow> decode_entries f b y = r \<Longrightarrow> decode_entries f (a @ b) x = r"
  by (induction f a x rule: decode_entries.induct) (auto split: option.splits)

lemma decode_omit [simp]:
  "decode_entries f (omit_empty z k v @ b) x =
     (if z then decode_entries f b x
      else case f k v x of None \<Rightarrow> None | Some y \<Rightarrow> decode_entries f b y)"
  "decode_entries f (omit_empty z k v) x = (if z then Some x else f k v x)"
  by (auto simp: omit_empty_def split: option.splits)

lemma decode_elems_all:
  "list_all2 (\<lambda>u x. f u z = Some x) us xs \<Longrightarrow> decode_elems f z us [] = Some xs"
  by (induction us xs rule: list_all2_induct) simp_all

lemma decode_slice_all:
  "list_all2 (\<lambda>u x. f u z = Some x) us xs \<Longrightarrow> decode_slice f z (JArray us) [] = Some xs"
  by (simp add: decode_slice_def decode_elems_all)

lemma sort_key_sorted: "sorted (map f xs) \<Longrightarrow> sort_key f xs = xs"
  by (induction xs) (auto simp: insort_is_Cons)

lemma update_new: "k \<notin> fst ` set m \<Longrightarrow> AList.update k v m = m @ [(k, v)]"
  by (induction m) auto

lemma decode_entries_update:
  assumes "list_all2 (\<lambda>(k, v) (l, x). k = l \<and> f v = Some x) kvs lxs" "distinct (map fst lxs)"
    and "fst ` set m \<inter> fst ` set lxs = {}"
  shows "decode_entries (\<lambda>k x m. map_option (\<lambda>y. AList.update k y m) (f x)) kvs m = Some (m @ lxs)"
  using assms
proof (induction kvs lxs arbitrary: m rule: list_all2_induct)
  case (Cons kv kvs lx lxs)
  obtain k v x where kl: "kv = (k, v)" "lx = (k, x)" "f v = Some x" using Cons.hyps by (cases kv; cases lx) auto
  have "decode_entries (\<lambda>k x m. map_option (\<lambda>y. AList.update k y m) (f x)) kvs (m @ [(k, x)])
      = Some ((m @ [(k, x)]) @ lxs)"
    by (rule Cons.IH) (use Cons.prems kl in auto)
  with kl Cons.prems show ?case by (simp add: update_new)
qed simp

lemma decode_map_all:
  assumes "list_all2 (\<lambda>(k, v) (l, x). k = l \<and> f v = Some x) kvs lxs"
    and "distinct (map fst lxs)" "sorted (map fst kvs)"
  shows "decode_map f (json_map kvs) [] = Some lxs"
  using decode_entries_update [OF assms(1,2), of "[]"] sort_key_sorted [OF assms(3)]
  by (simp add: decode_map_def json_map_def)

lemma json_map_sorted: "sorted (map fst kvs) \<Longrightarrow> json_map kvs = JObject kvs"
  by (simp add: json_map_def sort_key_sorted)

text \<open>The entries of an object, and what they read as.\<close>

definition entries_read :: "(string \<times> json) list \<Rightarrow> (string \<times> json) list \<Rightarrow> bool" where
  "entries_read = list_all2 (\<lambda>(k, v) (l, u). k = l \<and> is_ascii k \<and> json_reads v u)"

named_theorems entries_intros

lemma entries_append [entries_intros]:
  "entries_read a a' \<Longrightarrow> entries_read b b' \<Longrightarrow> entries_read (a @ b) (a' @ b')"
  by (simp add: entries_read_def list_all2_appendI)

lemma entries_Cons [entries_intros]:
  "is_ascii k \<Longrightarrow> json_reads v u \<Longrightarrow> entries_read b b' \<Longrightarrow> entries_read ((k, v) # b) ((k, u) # b')"
  by (simp add: entries_read_def)

lemma entries_Nil [entries_intros]: "entries_read [] []"
  by (simp add: entries_read_def)

lemma entries_omit [entries_intros]:
  "is_ascii k \<Longrightarrow> (\<not> z \<Longrightarrow> json_reads v u) \<Longrightarrow> entries_read (omit_empty z k v) (omit_empty z k u)"
  by (simp add: entries_read_def omit_empty_def)

lemma reads_entries: "entries_read kvs lus \<Longrightarrow> json_reads (JObject kvs) (JObject lus)"
  by (rule reads_object) (simp add: entries_read_def)

lemma all2_choice: "(\<And>x. x \<in> set xs \<Longrightarrow> \<exists>y. P x y) \<Longrightarrow> \<exists>ys. list_all2 P xs ys"
proof (induction xs)
  case (Cons x xs)
  from Cons.prems obtain y where "P x y" by auto
  moreover from Cons obtain ys where "list_all2 P xs ys" by auto
  ultimately show ?case by (auto simp: list_all2_Cons1)
qed (rule exI [of _ "[]"], simp)

section \<open>The structs\<close>

lemma field_names_lower [simp]:
  "to_lower ''issuer'' = ''issuer''" "to_lower ''sub_match'' = ''sub_match''" "to_lower ''email'' = ''email''"
  "to_lower ''claims_match'' = ''claims_match''" "to_lower ''kind'' = ''kind''" "to_lower ''readers'' = ''readers''"
  "to_lower ''writers'' = ''writers''" "to_lower ''package'' = ''package''" "to_lower ''version'' = ''version''"
  "to_lower ''patterns'' = ''patterns''" "to_lower ''rules'' = ''rules''" "to_lower ''min_age'' = ''min_age''"
  "to_lower ''upstream'' = ''upstream''" "to_lower ''filters'' = ''filters''" "to_lower ''policy'' = ''policy''"
  "to_lower ''schema_version'' = ''schema_version''" "to_lower ''mode'' = ''mode''" "to_lower ''proxy'' = ''proxy''"
  "to_lower ''format'' = ''format''"
  by code_simp+

lemma field_names_ascii [simp]:
  "is_ascii ''issuer''" "is_ascii ''sub_match''" "is_ascii ''email''" "is_ascii ''claims_match''" "is_ascii ''kind''"
  "is_ascii ''readers''" "is_ascii ''writers''" "is_ascii ''package''" "is_ascii ''version''" "is_ascii ''patterns''"
  "is_ascii ''rules''" "is_ascii ''min_age''" "is_ascii ''upstream''" "is_ascii ''filters''" "is_ascii ''policy''"
  "is_ascii ''schema_version''" "is_ascii ''mode''" "is_ascii ''proxy''" "is_ascii ''format''"
  by code_simp+

definition matcher_plain :: "subject_matcher \<Rightarrow> bool" where
  "matcher_plain m \<longleftrightarrow> is_ascii (sm_issuer m) \<and> is_ascii (sm_sub_match m) \<and> is_ascii (sm_email m)
     \<and> is_ascii (sm_kind m) \<and> list_all (\<lambda>(k, v). is_ascii k \<and> is_ascii v) (sm_claims_match m)
     \<and> sorted (map fst (sm_claims_match m)) \<and> distinct (map fst (sm_claims_match m))"

lemma matcher_reads:
  assumes "matcher_plain m"
  shows "json_reads (matcher_json m) (matcher_json m)"
proof -
  let ?c = "map (\<lambda>(k, v). (k, JString v)) (sm_claims_match m)"
  have s: "sorted (map fst ?c)" using assms by (simp add: matcher_plain_def comp_def case_prod_unfold)
  have "entries_read ?c ?c"
    using assms by (auto simp: entries_read_def list_all2_conv_all_nth list_all_iff matcher_plain_def split_beta)
  then have "json_reads (json_map ?c) (json_map ?c)" unfolding json_map_sorted [OF s] by (rule reads_entries)
  with assms show ?thesis
    unfolding matcher_json_def omit_string_def matcher_plain_def
    by (intro reads_entries entries_intros) auto
qed

lemma matcher_decodes:
  assumes "matcher_plain m"
  shows "decode_matcher strict (matcher_json m) zero_matcher = Some m"
proof -
  let ?c = "map (\<lambda>(k, v). (k, JString v)) (sm_claims_match m)"
  have c: "decode_map (\<lambda>x. decode_string x '''') (json_map ?c) [] = Some (sm_claims_match m)"
    using assms
    by (intro decode_map_all) (auto simp: matcher_plain_def decode_string_def list_all2_conv_all_nth comp_def split_beta)
  obtain a b e cl k where m: "m = \<lparr>sm_issuer = a, sm_sub_match = b, sm_email = e, sm_claims_match = cl, sm_kind = k\<rparr>"
    by (cases m)
  show ?thesis
    using c unfolding decode_matcher_def decode_struct_def matcher_json_def json.case omit_string_def m
    by (cases "a = []"; cases "b = []"; cases "e = []"; cases "cl = []"; cases "k = []")
      (simp_all add: zero_matcher_def equal_fold_def decode_string_def)
qed

lemma reads_all:
  assumes "\<And>x. x \<in> set xs \<Longrightarrow> json_reads (f x) (f x)"
  shows "json_reads (JArray (map f xs)) (JArray (map f xs))"
  by (rule reads_array) (use assms in \<open>auto simp: list_all2_conv_all_nth\<close>)

lemma decode_slice_map:
  assumes "\<And>x. x \<in> set xs \<Longrightarrow> d (f x) z = Some x"
  shows "decode_slice d z (JArray (map f xs)) [] = Some xs"
  by (rule decode_slice_all) (use assms in \<open>auto simp: list_all2_conv_all_nth\<close>)

definition policy_plain :: "policy \<Rightarrow> bool" where
  "policy_plain p \<longleftrightarrow> list_all matcher_plain (po_readers p) \<and> list_all matcher_plain (po_writers p)"

lemma policy_codec:
  assumes "policy_plain p"
  shows "json_reads (policy_json p) (policy_json p)"
    and "decode_policy strict (policy_json p) \<lparr>po_readers = [], po_writers = []\<rparr> = Some p"
proof -
  have m: "json_reads (matcher_json x) (matcher_json x)" "decode_matcher strict (matcher_json x) zero_matcher = Some x"
    if "x \<in> set (po_readers p) \<union> set (po_writers p)" for x
    using assms that matcher_reads matcher_decodes by (auto simp: policy_plain_def list_all_iff)
  then show "json_reads (policy_json p) (policy_json p)"
    unfolding policy_json_def omit_list_def by (intro reads_entries entries_intros reads_all) auto
  have d: "decode_slice (decode_matcher strict) zero_matcher (JArray (map matcher_json xs)) [] = Some xs"
    if "set xs \<subseteq> set (po_readers p) \<union> set (po_writers p)" for xs
    by (rule decode_slice_map) (use m(2) that in auto)
  obtain r w where p: "p = \<lparr>po_readers = r, po_writers = w\<rparr>" by (cases p)
  show "decode_policy strict (policy_json p) \<lparr>po_readers = [], po_writers = []\<rparr> = Some p"
    using d [of r] d [of w] unfolding decode_policy_def decode_struct_def policy_json_def json.case omit_list_def p
    by (cases "r = []"; cases "w = []") (simp_all add: equal_fold_def)
qed

definition rule_plain :: "rule \<Rightarrow> bool" where
  "rule_plain r \<longleftrightarrow> is_ascii (r_package r) \<and> is_ascii (r_version r)"

lemma rule_codec:
  assumes "rule_plain r"
  shows "json_reads (rule_json r) (rule_json r)"
    and "decode_rule strict (rule_json r) \<lparr>r_package = '''', r_version = ''''\<rparr> = Some r"
proof -
  show "json_reads (rule_json r) (rule_json r)"
    using assms unfolding rule_json_def omit_string_def rule_plain_def
    by (intro reads_entries entries_intros) auto
  obtain a b where r: "r = \<lparr>r_package = a, r_version = b\<rparr>" by (cases r)
  show "decode_rule strict (rule_json r) \<lparr>r_package = '''', r_version = ''''\<rparr> = Some r"
    unfolding decode_rule_def decode_struct_def rule_json_def json.case omit_string_def r
    by (cases "a = []"; cases "b = []") (simp_all add: equal_fold_def decode_string_def)
qed

definition filter_plain :: "filter_spec \<Rightarrow> bool" where
  "filter_plain f \<longleftrightarrow> is_ascii (fs_kind f) \<and> list_all is_ascii (fs_patterns f)
     \<and> list_all rule_plain (fs_rules f) \<and> is_ascii (fs_min_age f)"

lemma filter_codec:
  assumes "filter_plain f"
  shows "json_reads (filter_spec_json f) (filter_spec_json f)"
    and "decode_filter_spec strict (filter_spec_json f)
      \<lparr>fs_kind = '''', fs_patterns = [], fs_rules = [], fs_min_age = ''''\<rparr> = Some f"
proof -
  have r: "json_reads (rule_json x) (rule_json x)"
      "decode_rule strict (rule_json x) \<lparr>r_package = '''', r_version = ''''\<rparr> = Some x" if "x \<in> set (fs_rules f)" for x
    using assms that rule_codec by (auto simp: filter_plain_def list_all_iff)
  then show "json_reads (filter_spec_json f) (filter_spec_json f)"
    using assms unfolding filter_spec_json_def omit_list_def omit_string_def filter_plain_def
    by (intro reads_entries entries_intros reads_all) (auto simp: list_all_iff)
  obtain a b c d where f: "f = \<lparr>fs_kind = a, fs_patterns = b, fs_rules = c, fs_min_age = d\<rparr>" by (cases f)
  have "decode_slice decode_string '''' (JArray (map JString b)) [] = Some b"
    by (rule decode_slice_map) (simp add: decode_string_def)
  moreover have "decode_slice (decode_rule strict) \<lparr>r_package = '''', r_version = ''''\<rparr> (JArray (map rule_json c)) [] = Some c"
    by (rule decode_slice_map) (use r(2) f in simp)
  ultimately show "decode_filter_spec strict (filter_spec_json f)
      \<lparr>fs_kind = '''', fs_patterns = [], fs_rules = [], fs_min_age = ''''\<rparr> = Some f"
    unfolding decode_filter_spec_def decode_struct_def filter_spec_json_def json.case omit_list_def omit_string_def f
    by (cases "b = []"; cases "c = []"; cases "d = []") (simp_all add: equal_fold_def decode_string_def)
qed

definition proxy_plain :: "proxy \<Rightarrow> bool" where
  "proxy_plain p \<longleftrightarrow> is_ascii (px_upstream p) \<and> list_all filter_plain (px_filters p)"

lemma proxy_codec:
  assumes "proxy_plain p"
  shows "json_reads (proxy_json p) (proxy_json p)"
    and "decode_proxy strict (proxy_json p) \<lparr>px_upstream = '''', px_filters = []\<rparr> = Some p"
proof -
  have f: "json_reads (filter_spec_json x) (filter_spec_json x)"
      "decode_filter_spec strict (filter_spec_json x)
        \<lparr>fs_kind = '''', fs_patterns = [], fs_rules = [], fs_min_age = ''''\<rparr> = Some x" if "x \<in> set (px_filters p)" for x
    using assms that filter_codec by (auto simp: proxy_plain_def list_all_iff)
  then show "json_reads (proxy_json p) (proxy_json p)"
    using assms unfolding proxy_json_def omit_list_def omit_string_def proxy_plain_def
    by (intro reads_entries entries_intros reads_all) auto
  obtain a b where p: "p = \<lparr>px_upstream = a, px_filters = b\<rparr>" by (cases p)
  have "decode_slice (decode_filter_spec strict)
      \<lparr>fs_kind = '''', fs_patterns = [], fs_rules = [], fs_min_age = ''''\<rparr> (JArray (map filter_spec_json b)) [] = Some b"
    by (rule decode_slice_map) (use f(2) p in simp)
  then show "decode_proxy strict (proxy_json p) \<lparr>px_upstream = '''', px_filters = []\<rparr> = Some p"
    unfolding decode_proxy_def decode_struct_def proxy_json_def json.case omit_list_def omit_string_def p
    by (cases "a = []"; cases "b = []") (simp_all add: equal_fold_def decode_string_def)
qed

lemma decode_int_format:
  assumes "- (2 ^ 63) \<le> i" "i < 2 ^ 63"
  shows "decode_int (JRaw (format_int i)) x = Some i"
proof -
  note s = digits_of_nat_shape [of "nat i"] digits_of_nat_shape [of "nat (- i)"]
  then have "hd (digits_of_nat (nat i)) \<noteq> CHR ''-''"
    by (cases "digits_of_nat (nat i)") (auto simp: is_digit_def)
  with s assms show ?thesis by (simp add: decode_int_def format_int_def Let_def)
qed

text \<open>An opaque knob: a string, or the text of a value in the form in which it is printed again.\<close>

fun knob_plain :: "(string \<Rightarrow> string option) \<Rightarrow> jval \<Rightarrow> bool" where
  "knob_plain num (JStr s) \<longleftrightarrow> is_ascii s"
| "knob_plain num (JOther raw) \<longleftrightarrow>
     (\<exists>u. raw_reads raw u \<and> map_option jval_of_json (json_any num u) = Some (JOther raw))"

definition spec_plain :: "(string \<Rightarrow> string option) \<Rightarrow> spec \<Rightarrow> bool" where
  "spec_plain num sp \<longleftrightarrow> - (2 ^ 63) \<le> sp_schema_version sp \<and> sp_schema_version sp < 2 ^ 63
     \<and> is_ascii (sp_mode sp) \<and> policy_plain (sp_policy sp) \<and> proxy_plain (sp_proxy sp)
     \<and> list_all (\<lambda>(k, v). is_ascii k \<and> knob_plain num v) (sp_format sp)
     \<and> sorted (map fst (sp_format sp)) \<and> distinct (map fst (sp_format sp))"

lemma knob_codec:
  "knob_plain num v \<Longrightarrow>
    \<exists>u. json_reads (json_of_jval v) u \<and> map_option jval_of_json (json_any num u) = Some v"
  by (cases v) (auto intro: exI [of _ "JString s" for s])

lemma knobs_codec:
  assumes "list_all (\<lambda>(k, v). is_ascii k \<and> knob_plain num v) kvs" "sorted (map fst kvs)" "distinct (map fst kvs)"
  shows "\<exists>u. json_reads (json_map (map (\<lambda>(k, v). (k, json_of_jval v)) kvs)) u
    \<and> decode_any_map num u [] = Some kvs"
proof -
  let ?P = "\<lambda>(k, v) (l, u). l = k \<and> is_ascii k \<and> json_reads (json_of_jval v) u
    \<and> map_option jval_of_json (json_any num u) = Some v"
  have "\<exists>us. list_all2 ?P kvs us"
  proof (rule all2_choice)
    fix kv
    assume kv: "kv \<in> set kvs"
    obtain k v where "kv = (k, v)" by (cases kv)
    with kv assms(1) knob_codec [of num v] show "\<exists>y. ?P kv y" by (auto simp: list_all_iff)
  qed
  then obtain us where us: "list_all2 ?P kvs us" by blast
  have keys: "map fst us = map fst kvs"
    using us by (induction rule: list_all2_induct) auto
  let ?js = "map (\<lambda>(k, v). (k, json_of_jval v)) kvs"
  have s: "sorted (map fst ?js)" using assms(2) by (simp add: comp_def case_prod_unfold)
  have "entries_read ?js us"
    using us unfolding entries_read_def list_all2_map1 by (rule list_all2_mono) auto
  then have 1: "json_reads (json_map ?js) (json_map us)"
    unfolding json_map_sorted [OF s] using keys assms(2) by (simp add: json_map_sorted reads_entries)
  have "list_all2 (\<lambda>(k, u) (l, v). k = l \<and> map_option jval_of_json (json_any num u) = Some v) us kvs"
    using us by (auto simp: list_all2_conv_all_nth split_beta)
  from decode_map_all [OF this assms(3)] keys assms(2) 1 show ?thesis by (auto simp: decode_any_map_def)
qed

lemma spec_codec:
  assumes "spec_plain num sp"
  shows "\<exists>u. json_reads (spec_json sp) u \<and> decode_spec num strict u zero_spec = Some sp"
proof -
  obtain v mo po px fo where sp: "sp = \<lparr>sp_schema_version = v, sp_mode = mo, sp_policy = po, sp_proxy = px, sp_format = fo\<rparr>"
    by (cases sp)
  have h: "decode_int (JRaw (format_int v)) 0 = Some v" "is_ascii mo" "policy_plain po" "proxy_plain px"
    using assms decode_int_format by (auto simp: spec_plain_def sp)
  obtain u where u: "json_reads (json_map (map (\<lambda>(k, v). (k, json_of_jval v)) fo)) u"
    "decode_any_map num u [] = Some fo"
    using knobs_codec [of num fo] assms by (auto simp: spec_plain_def sp)
  let ?u = "JObject (omit_empty (v = 0) ''schema_version'' (JRaw (format_int v)) @ omit_string ''mode'' mo
       @ [(''policy'', policy_json po), (''proxy'', proxy_json px)] @ omit_empty (fo = []) ''format'' u)"
  have "json_reads (spec_json sp) ?u"
    unfolding spec_json_def sp omit_string_def spec.simps
    by (intro reads_entries entries_intros) (use h u policy_codec proxy_codec in auto)
  moreover have "decode_spec num strict ?u zero_spec = Some sp"
    using h u(2) policy_codec(2) [OF h(3), of strict] proxy_codec(2) [OF h(4), of strict]
    unfolding decode_spec_def decode_struct_def json.case omit_string_def sp
    by (cases "v = 0"; cases "mo = []"; cases "fo = []") (simp_all add: zero_spec_def equal_fold_def decode_string_def)
  ultimately show ?thesis by blast
qed

lemma unmarshal_marshal: "spec_plain num sp \<Longrightarrow> unmarshal_spec num (marshal_spec sp) = Some sp"
  using spec_codec [of num sp False] json_reads_unmarshal
  by (fastforce simp: unmarshal_spec_def marshal_spec_def)

end
