(* ===== verification/Surface_Laws.thy ===== *)
theory Surface_Laws
  imports Surface Blob_Roundtrip
begin

text \<open>
  What a client sees of a file the surfaces serve, and the two ends of a stream that fills the
  store while it is sent.
\<close>

section \<open>Writers\<close>

definition unsent :: "writer \<Rightarrow> bool" where
  "unsent rw \<longleftrightarrow> wr_sent rw = None \<and> \<not> wr_head rw"

lemma unsent_fresh [simp]: "unsent fresh_writer"
  by (simp add: unsent_def fresh_writer_def)

lemma unsent_set [simp]:
  "unsent (header_set k v rw) = unsent rw" "wr_body (header_set k v rw) = wr_body rw"
  "unsent (set_unless_empty k v rw) = unsent rw" "wr_body (set_unless_empty k v rw) = wr_body rw"
  "unsent (file_headers m rw) = unsent rw" "wr_body (file_headers m rw) = wr_body rw"
  by (simp_all add: unsent_def header_set_def set_unless_empty_def file_headers_def)

lemma write_json_response:
  "unsent rw \<Longrightarrow> response_status (write_json st v rw) = st"
  by (simp add: write_json_def unsent_def writer_defs response_status_def)

lemma write_error_response:
  "unsent rw \<Longrightarrow> response_status (write_error st msg rw) = st"
  by (simp add: write_error_def write_json_response)

lemma store_status_error: "store_status e = (st, msg, known) \<Longrightarrow> 400 \<le> st"
  by (cases e) auto

lemma write_store_error_response:
  "unsent rw \<Longrightarrow> 400 \<le> response_status (write_store_error e rw)"
  using store_status_error by (auto simp: write_store_error_def write_error_response split: prod.split)

lemma copy_to_client_response:
  assumes "unsent rw"
  shows "response_status (copy_to_client d (write_header st rw)) = st"
    "response_header (copy_to_client d (write_header st rw)) = wr_header rw"
    "wr_body (copy_to_client d (write_header st rw)) = wr_body rw @ d"
  using assms
  by (simp_all add: unsent_def copy_to_client_def writer_defs response_status_def response_header_def)

section \<open>Serving\<close>

text \<open>The headers of a served file.\<close>

definition served_header :: "meta \<Rightarrow> string \<Rightarrow> writer \<Rightarrow> header" where
  "served_header m ct rw = wr_header (file_headers m (set_unless_empty ''Content-Type'' ct rw))"

lemma stream_file_get:
  assumes "stream_file s rq f rw w = (rw', w')" "rq_method rq = ''GET''" "unsent rw"
    and "response_status rw' = 200"
  obtains m w1 d e where "file_meta s (rq_now rq) (rq_now rq) (rq_now rq) f w = (Inr m, w1)"
    "file_read s f w1 = (Inr (d, e), w')" "wr_body rw' = wr_body rw @ d"
    "response_header rw' = wr_header (file_headers m rw)"
proof -
  let ?t = "rq_now rq"
  obtain mr w1 where m: "file_meta s ?t ?t ?t f w = (mr, w1)" by (metis prod.collapse)
  show ?thesis
  proof (cases mr)
    case (Inl e)
    with assms m show ?thesis
      using write_store_error_response [of rw e] by (simp add: stream_file_def h_try_def h_done_def)
  next
    case (Inr m0)
    let ?rw = "file_headers m0 rw"
    have u: "unsent ?rw" using assms(3) by simp
    obtain dr w2 where d: "file_read s f w1 = (dr, w2)" by (metis prod.collapse)
    show ?thesis
    proof (cases dr)
      case (Inl e)
      with assms m Inr d show ?thesis
        using write_store_error_response [OF u, of e]
        by (simp add: stream_file_def h_try_def h_done_def h_then_def)
    next
      case (Inr p)
      then obtain x e where x: "dr = Inr (x, e)" by (cases p) simp
      with assms m \<open>mr = Inr m0\<close> d have "rw' = copy_to_client x (write_header 200 ?rw)" "w' = w2"
        by (simp_all add: stream_file_def h_try_def h_done_def h_then_def)
      then show ?thesis
        using that [of m0 w1 x e] m \<open>mr = Inr m0\<close> d x copy_to_client_response [OF u] by simp
    qed
  qed
qed

lemma redirect_or_stream_get:
  assumes "redirect_or_stream_file s rq f ct rw w = (rw', w')" "rq_method rq = ''GET''" "unsent rw"
    and "response_status rw' = 200"
  obtains w0 m w1 d e where "w_bucket w0 = w_bucket w"
    "file_meta s (rq_now rq) (rq_now rq) (rq_now rq) f w0 = (Inr m, w1)"
    "file_read s f w1 = (Inr (d, e), w')" "wr_body rw' = wr_body rw @ d"
    "response_header rw' = served_header m ct rw"
proof -
  let ?t = "rq_now rq"
  obtain ur w0 where u: "download_url s ?t ?t ?t f w = (ur, w0)" by (metis prod.collapse)
  have b: "w_bucket w0 = w_bucket w"
    using keeps_download_url [of s ?t ?t ?t f] u by (metis keeps_def snd_conv)
  show ?thesis
  proof (cases ur)
    case (Inl e)
    with assms u show ?thesis
      using write_store_error_response [of rw e] by (simp add: redirect_or_stream_file_def h_try_def h_done_def)
  next
    case (Inr x)
    let ?rw = "set_unless_empty ''Content-Type'' ct rw"
    show ?thesis
    proof (cases "x = ''''")
      case True
      with assms u Inr have "stream_file s rq f ?rw w0 = (rw', w')"
        by (simp add: redirect_or_stream_file_def h_try_def h_then_def)
      from stream_file_get [OF this assms(2) _ assms(4)] assms(3) b that show ?thesis
        by (metis served_header_def unsent_set(3,4))
    next
      case False
      with assms u Inr have "rw' = write_header 307 (header_set ''Location'' x ?rw)"
        by (simp add: redirect_or_stream_file_def h_try_def h_then_def h_done_def)
      moreover have "unsent ?rw" using assms(3) by simp
      ultimately have "response_status rw' = 307"
        by (simp add: unsent_def writer_defs response_status_def)
      with assms(4) show ?thesis by simp
    qed
  qed
qed

lemma file_read_reader:
  assumes "file_read s f w = (Inr (d, e), w')"
  shows "bo_new_reader (st_ops s) (w_bucket w) (f_blob_key f) = Inr (d, e)"
proof -
  have "b_new_reader s (f_blob_key f) w = (Inr (d, e), w')"
    using enter_run [OF assms [unfolded file_read_def]] by (simp add: act_wrap_Inr)
  then show ?thesis
    by (auto simp: b_new_reader_def b_query_def split: sum.splits prod.splits)
qed

end
