(* ===== verification/Generic_Roundtrip.thy ===== *)
theory Generic_Roundtrip
  imports Generic Surface_Laws
begin

text \<open>A file put through the generic surface and fetched through it again.\<close>

section \<open>What the responses tell\<close>

lemma h_ensure_low:
  assumes "h_ensure m k rw w = (rw', w')" "unsent rw" "response_status rw' < 400"
  obtains w1 where "k rw w1 = (rw', w')"
proof -
  obtain res w1 where m: "m w = (res, w1)" by (metis prod.collapse)
  show ?thesis
  proof (cases res)
    case (Inl e)
    then show ?thesis
      using assms m that [of w1] write_store_error_response [OF assms(2), of e]
      by (auto simp: h_ensure_def h_try_def h_done_def split: if_splits)
  next
    case (Inr x)
    then show ?thesis using assms m that [of w1] by (simp add: h_ensure_def h_try_def)
  qed
qed

lemma upload_file_stored:
  assumes "upload_file cfg s rq pkg ver name rw w = (rw', w')" "unsent rw" "response_status rw' < 400"
  obtains expected w1 f w2 where "parse_checksum_headers (rq_header rq) = Inr expected"
    "version_add_file s (rq_now rq) (pkg_version (store_package pkg) ver) name
       (with_max_body (generic_upload_limit cfg) (rq_body rq)) (upload_options cfg rq expected) w1 = (Inr f, w2)"
    "w_bucket w' = w_bucket w2"
proof (cases "parse_checksum_headers (rq_header rq)")
  case (Inl h)
  with assms show ?thesis by (auto simp: upload_file_def h_done_def write_error_response)
next
  case (Inr expected)
  let ?v = "pkg_version (store_package pkg) ver" and ?t = "rq_now rq"
  let ?add = "version_add_file s ?t ?v name (with_max_body (generic_upload_limit cfg) (rq_body rq))
    (upload_options cfg rq expected)"
  let ?k = "h_try ?add
      (\<lambda>e. if e = ErrMaxBytes then h_done (write_error 413 ''upload too large'') else h_done (write_store_error e))
      (\<lambda>f. h_try (file_meta s ?t ?t ?t f)
         (\<lambda>e. h_done (write_json 201 (upload_response pkg ver name 0 '''')))
         (\<lambda>m. h_done (write_json 201 (upload_response pkg ver name (m_size m) (m_digest m)))))"
  have "h_ensure (add_package s ?t pkg []) (h_ensure (pkg_add_version s ?t (store_package pkg) ver []) ?k) rw w = (rw', w')"
    using assms(1) Inr by (simp add: upload_file_def)
  then obtain w1 where k: "?k rw w1 = (rw', w')"
    using assms(2,3) by (elim h_ensure_low) auto
  obtain res w2 where a: "?add w1 = (res, w2)" by (metis prod.collapse)
  show ?thesis
  proof (cases res)
    case (Inl e)
    then show ?thesis
      using k a assms(3) write_store_error_response [OF assms(2), of e]
      by (auto simp: h_try_def h_done_def write_error_response [OF assms(2)] split: if_splits)
  next
    case (Inr f)
    have "after (file_meta s ?t ?t ?t f) w2 = w'"
      using k a Inr by (auto simp: h_try_def h_done_def split: prod.splits sum.splits)
    moreover have "w_bucket (after (file_meta s ?t ?t ?t f) w2) = w_bucket w2"
      using keeps_read_methods(15) by (metis keeps_def)
    ultimately show ?thesis using that [of expected w1 f w2] Inr a \<open>parse_checksum_headers _ = Inr expected\<close>
      by simp
  qed
qed

lemma download_file_served:
  assumes "download_file E s rq pkg ver name rw w = (rw', w')" "rq_method rq = ''GET''" "unsent rw"
    "response_status rw' = 200"
  obtains m0 w0 w1 m w2 d e where
    "file_meta s (rq_now rq) (rq_now rq) (rq_now rq) (level_file s (LVer pkg ver) name) w = (Inr m0, w0)"
    "file_meta s (rq_now rq) (rq_now rq) (rq_now rq) (level_file s (LVer pkg ver) name) w1 = (Inr m, w2)"
    "file_read s (level_file s (LVer pkg ver) name) w2 = (Inr (d, e), w')"
    "w_bucket w1 = w_bucket w" "w_bucket w2 = w_bucket w"
    "wr_body rw' = wr_body rw @ d"
    "response_header rw' = served_header m (download_content_type E name m0) rw"
proof -
  let ?t = "rq_now rq" and ?f = "level_file s (LVer pkg ver) name"
  have keep: "file_meta s ?t ?t ?t ?f w = (x, w') \<Longrightarrow> w_bucket w' = w_bucket w" for x w w'
    using keeps_read_methods(15) by (metis keeps_def snd_conv)
  obtain mr w0 where m: "file_meta s ?t ?t ?t ?f w = (mr, w0)" by (metis prod.collapse)
  show ?thesis
  proof (cases mr)
    case (Inl e)
    with assms m show ?thesis
      using write_store_error_response [OF assms(3), of e]
      by (simp add: download_file_def h_store_def h_try_def h_done_def Let_def)
  next
    case (Inr m0)
    have n: "f_name ?f = name" by (simp add: new_file_def)
    have "redirect_or_stream_file s rq ?f (download_content_type E name m0) rw w0 = (rw', w')"
      using assms(1) m Inr n by (simp add: download_file_def h_store_def h_try_def Let_def)
    from redirect_or_stream_get [OF this assms(2-4)] obtain w1 m w2 d e where
      "w_bucket w1 = w_bucket w0" "file_meta s ?t ?t ?t ?f w1 = (Inr m, w2)"
      "file_read s ?f w2 = (Inr (d, e), w')" "wr_body rw' = wr_body rw @ d"
      "response_header rw' = served_header m (download_content_type E name m0) rw" .
    with m Inr keep [OF m] keep [OF this(2)] that show ?thesis by simp
  qed
qed

section \<open>The round trip\<close>

definition upload_type :: "request \<Rightarrow> string" where
  "upload_type rq =
     (let ct = header_get (rq_header rq) ''Content-Type''
      in if ct = '''' then ''application/octet-stream'' else ct)"

lemma upload_options_config:
  "cc_annotations (new_create_config (upload_options cfg rq es)) = [(ann_content_type, JStr (upload_type rq))]"
  "cc_expected (new_create_config (upload_options cfg rq es)) = es"
  "cc_allow_overwrite (new_create_config (upload_options cfg rq es)) = gc_allow_overwrite cfg"
  by (simp_all add: upload_options_def new_create_config_def upload_type_def Let_def empty_config_def)

lemma with_max_body_complete:
  assumes "bd_err (with_max_body n b) = None"
  shows "with_max_body n b = b" "0 < n \<Longrightarrow> int (length (bd_data b)) \<le> n"
  using assms by (auto simp: with_max_body_def split: if_splits)

lemma generic_upload_limit_pos: "0 < generic_upload_limit cfg"
  by (simp add: generic_upload_limit_def generic_default_max_upload_def)

lemma file_headers_etag:
  "m_digest m \<noteq> '''' \<Longrightarrow> header_get (wr_header (file_headers m rw)) ''ETag'' = strconv_quote (m_digest m)"
  by (simp add: file_headers_def header_set_def header_get_def)

lemma served_header_type:
  "ct \<noteq> '''' \<Longrightarrow> header_get (served_header m ct rw) ''Content-Type'' = ct"
  by (simp add: served_header_def file_headers_def set_unless_empty_def header_set_def header_get_def Let_def)

lemma uploaded_content_type:
  "content_type_from_meta (uploaded_meta s now d (new_create_config (upload_options cfg rq es))) = upload_type rq"
  by (simp add: content_type_from_meta_def uploaded_meta_def upload_options_config)

text \<open>C20: what is put through the generic surface is what is fetched: if an upload was answered
  below 400 and a later \<open>GET\<close> of the file with 200, its objects being as the upload left them,
  the response body is the request's body, with the upload's content type and the SHA-256 as its
  entity tag; the body was within the limit and every checksum header of the upload was met.\<close>

theorem generic_upload_reads_back:
  assumes bk: "blob_bucket (st_ops s) objs"
    and up: "upload_file cfg s rq pkg ver name fresh_writer w = (rw1, w1)" "response_status rw1 < 400"
    and same: "abs_store objs s w2 (file_object (LVer pkg ver) name) = abs_store objs s w1 (file_object (LVer pkg ver) name)"
      "abs_store objs s w2 (file_meta_object (LVer pkg ver) name) = abs_store objs s w1 (file_meta_object (LVer pkg ver) name)"
    and down: "download_file E s rq2 pkg ver name fresh_writer w2 = (rw2, w3)" "rq_method rq2 = ''GET''"
      "response_status rw2 = 200"
    and reads: "\<And>b k d e. bo_new_reader (st_ops s) b k = Inr (d, e) \<Longrightarrow> e = None"
    and codec: "\<And>d. st_decode s d \<noteq> Inl ErrNotFound"
      "\<And>m j. st_encode s m = Inr j \<Longrightarrow> m_annotations m = [(ann_content_type, JStr (upload_type rq))] \<Longrightarrow>
         st_decode s j = Inr m"
  shows "wr_body rw2 = bd_data (rq_body rq)
    \<and> header_get (response_header rw2) ''Content-Type'' = upload_type rq
    \<and> header_get (response_header rw2) ''ETag'' = strconv_quote (digest_of s (bd_data (rq_body rq)))
    \<and> int (length (bd_data (rq_body rq))) \<le> generic_upload_limit cfg
    \<and> (\<exists>expected. parse_checksum_headers (rq_header rq) = Inr expected
         \<and> expected_ok s (bd_data (rq_body rq)) expected)"
proof -
  let ?b = "with_max_body (generic_upload_limit cfg) (rq_body rq)" and ?l = "LVer pkg ver"
  from upload_file_stored [OF up(1) unsent_fresh up(2)] obtain es wa f wb where a:
    "parse_checksum_headers (rq_header rq) = Inr es"
    "version_add_file s (rq_now rq) (pkg_version (store_package pkg) ver) name ?b (upload_options cfg rq es) wa
      = (Inr f, wb)" "w_bucket w1 = w_bucket wb" .
  let ?cfg = "new_create_config (upload_options cfg rq es)"
  have "run_op s (OpAddFile (rq_now rq) ?l name ?b (upload_options cfg rq es)) wa = (Inr (), wb)"
    using a(2) by (simp add: version_add_file_def act_void_def act_bind_def act_ret_def)
  from upload_stored [OF bk this codec(1)] obtain j where j:
    "st_encode s (uploaded_meta s (rq_now rq) (bd_data ?b) ?cfg) = Inr j"
    "abs_store objs s wb (file_object ?l name) = Some (bd_data ?b)"
    "abs_store objs s wb (file_meta_object ?l name) = Some j"
    "expected_ok s (bd_data ?b) (cc_expected ?cfg)" "bd_err ?b = None" .
  have whole: "?b = rq_body rq" by (rule with_max_body_complete(1) [OF j(5)])
  let ?m = "uploaded_meta s (rq_now rq) (bd_data (rq_body rq)) ?cfg"
  have w1: "abs_store objs s w1 = abs_store objs s wb"
    by (rule abs_store_cong) (simp only: a(3))
  have st: "abs_store objs s w2 (file_object ?l name) = Some (bd_data (rq_body rq))"
    "abs_store objs s w2 (file_meta_object ?l name) = Some j"
    unfolding same w1 j(2,3) whole by (rule refl)+
  have "st_encode s ?m = Inr j" using j(1) unfolding whole .
  then have dec: "st_decode s j = Inr ?m"
    by (rule codec(2)) (simp only: uploaded_meta_def upload_options_config meta.select_convs)
  from download_file_served [OF down(1,2) unsent_fresh down(3)] obtain m0 w0 wc m wd d e where g:
    "file_meta s (rq_now rq2) (rq_now rq2) (rq_now rq2) (level_file s ?l name) w2 = (Inr m0, w0)"
    "file_meta s (rq_now rq2) (rq_now rq2) (rq_now rq2) (level_file s ?l name) wc = (Inr m, wd)"
    "file_read s (level_file s ?l name) wd = (Inr (d, e), w3)" "w_bucket wc = w_bucket w2" "w_bucket wd = w_bucket w2"
    "wr_body rw2 = wr_body fresh_writer @ d"
    "response_header rw2 = served_header m (download_content_type E name m0) fresh_writer" .
  have cong: "abs_store objs s wc = abs_store objs s w2" "abs_store objs s wd = abs_store objs s w2"
    by (rule abs_store_cong, simp only: g(4,5))+
  have m: "m0 = ?m" "m = ?m"
    by (rule blob_bucket.file_meta_abs [OF bk g(1) refl st(2) dec])
      (rule blob_bucket.file_meta_abs [OF bk g(2) refl st(2) [folded cong(1)] dec])
  have "e = None" by (rule reads [OF file_read_reader [OF g(3)]])
  with g(3) have "abs_store objs s wd (file_object ?l name) = Some d"
    by (intro blob_bucket.file_read_abs [OF bk _ refl]) simp
  then have "d = bd_data (rq_body rq)" unfolding cong st by simp
  moreover have "upload_type rq \<noteq> ''''" by (simp add: upload_type_def Let_def)
  then have "header_get (response_header rw2) ''Content-Type'' = upload_type rq"
    unfolding g(7) m by (simp add: served_header_type download_content_type_def uploaded_content_type)
  moreover have "header_get (response_header rw2) ''ETag'' = strconv_quote (digest_of s (bd_data (rq_body rq)))"
    unfolding g(7) m served_header_def
    by (subst file_headers_etag) (simp_all add: uploaded_meta_def digest_of_def)
  moreover have "int (length (bd_data (rq_body rq))) \<le> generic_upload_limit cfg"
    using with_max_body_complete(2) [OF j(5) generic_upload_limit_pos] .
  moreover have "expected_ok s (bd_data (rq_body rq)) es" using j(4) unfolding whole upload_options_config .
  ultimately show ?thesis using g(6) a(1) whole by (simp add: fresh_writer_def)
qed

text \<open>A store whose codec knows the envelope of one upload.\<close>

definition demo_upload_meta :: meta where
  "demo_upload_meta =
     demo_meta\<lparr>m_created_at := 100, m_updated_at := 100,
                m_annotations := [(ann_content_type, JStr ''application/octet-stream'')]\<rparr>"

definition demo_generic_store :: "mem_bucket store" where
  "demo_generic_store =
     (demo_store None)\<lparr>
       st_encode := (\<lambda>m. if m = demo_upload_meta then Inr ''u''
          else if m_annotations m = [] then Inr ''{}'' else Inl (ErrOther ''json'')),
       st_decode := (\<lambda>d. if d = ''u'' then Inr demo_upload_meta else Inl (ErrOther ''json''))\<rparr>"

definition demo_file_request :: "string \<Rightarrow> string \<Rightarrow> request" where
  "demo_file_request m b =
     \<lparr>rq_method = m, rq_escaped_path = '''', rq_header = Map.empty, rq_body = bytes_body b, rq_auth = None,
      rq_client = None, rq_now = 100, rq_host = '''', rq_tls = False\<rparr>"

definition demo_generic_env :: generic_env where
  "demo_generic_env = \<lparr>gn_num = Some, gn_time = (\<lambda>_. ''t''), gn_mime = (\<lambda>_. '''')\<rparr>"

definition demo_generic_config :: generic_config where
  "demo_generic_config = \<lparr>gc_max_upload = 0, gc_allow_overwrite = False\<rparr>"

theorem generic_upload_reads_back_witness:
  "wr_body (fst (download_file demo_generic_env demo_generic_store (demo_file_request ''GET'' '''') ''a'' ''1'' ''f'' fresh_writer
      (snd (upload_file demo_generic_config demo_generic_store (demo_file_request ''PUT'' ''ab'') ''a'' ''1'' ''f''
        fresh_writer (demo_world []))))) = ''ab''"
proof -
  let ?up = "upload_file demo_generic_config demo_generic_store (demo_file_request ''PUT'' ''ab'') ''a'' ''1'' ''f''
        fresh_writer (demo_world [])"
  let ?down = "download_file demo_generic_env demo_generic_store (demo_file_request ''GET'' '''') ''a'' ''1'' ''f''
        fresh_writer (snd ?up)"
  have 1: "response_status (fst ?up) < 400" by code_simp
  have 2: "response_status (fst ?down) = 200" by code_simp
  have "wr_body (fst ?down) = bd_data (rq_body (demo_file_request ''PUT'' ''ab''))"
    by (rule generic_upload_reads_back [where objs = map_of and s = demo_generic_store,
        OF _ prod.collapse [symmetric] 1 refl refl prod.collapse [symmetric] _ 2, THEN conjunct1])
      (auto simp: demo_generic_store_def mem_bucket demo_file_request_def upload_type_def header_get_def
        split: if_splits option.splits)
  then show ?thesis by (simp add: demo_file_request_def bytes_body_def)
qed

end
