(* ===== verification/Generic_Laws.thy ===== *)
theory Generic_Laws
  imports Generic_Roundtrip
begin

text \<open>
  The generic surface: which requests change what, and an upload read back through the surface.
\<close>

section \<open>Frames\<close>

lemma h_pres_ensure [h_intros]: "act_pres P m \<Longrightarrow> h_pres P k \<Longrightarrow> h_pres P (h_ensure m k)"
  unfolding h_ensure_def by (intro h_intros)

lemma h_pres_meta_or_zero [h_intros]:
  "act_pres P m \<Longrightarrow> (\<And>x. h_pres P (k x)) \<Longrightarrow> h_pres P (meta_or_zero m k)"
  unfolding meta_or_zero_def by (intro h_intros)

lemma h_pres_create [h_intros]:
  "(\<And>a. h_pres P (k a)) \<Longrightarrow> h_pres P (case read_create E rq of Inl bad \<Rightarrow> h_done bad | Inr a \<Rightarrow> k a)"
  by (auto intro!: h_intros split: sum.split)

lemma act_pres_upsert:
  assumes "act_pres P annotate" "\<And>opts. act_pres P (add opts)"
  shows "act_pres P (upsert_container annotate add ann)"
  unfolding act_pres_def
proof (intro allI impI)
  fix w
  assume "P w"
  obtain res w1 where a: "add (if ann \<noteq> [] then [WithAnnotations ann] else []) w = (res, w1)"
    by (metis prod.collapse)
  have "P w1" by (rule act_presD [OF assms(2) a \<open>P w\<close>])
  moreover have "P (after annotate w1)" using assms(1) \<open>P w1\<close> by (simp add: act_pres_def)
  moreover have "after (upsert_container annotate add ann) w \<in> {w1, after annotate w1}"
    using a by (cases "annotate w1")
      (auto simp: upsert_container_def act_catch_def act_bind_def act_ret_def act_fail_def split: sum.splits)
  ultimately show "P (after (upsert_container annotate add ann) w)" by auto
qed

lemma h_pres_files_json:
  assumes "\<And>f. act_pres P (file_meta s (rq_now rq) (rq_now rq) (rq_now rq) f)" "\<And>x. h_pres P (k x)"
  shows "h_pres P (files_json E s rq fs out k)"
proof (induction fs arbitrary: out)
  case Nil
  show ?case using assms(2) by simp
next
  case (Cons f fs)
  show ?case unfolding files_json.simps by (intro h_intros assms(1) Cons.IH)
qed

lemmas generic_defs = list_packages_def get_package_def put_package_def list_versions_def get_version_def
  put_version_def list_files_def download_file_def

lemma generic_reads_safe: "\<not> generic_route_write g \<Longrightarrow> hnd_safe st read_op (on_store (generic_action E cfg st rq b g))"
proof (rule hnd_safe_on_store)
  fix P
  assume "\<not> generic_route_write g" and inv: "store_invariant st read_op P"
  then show "h_pres P (generic_action E cfg st rq b g)"
    by (cases g)
      (simp_all add: generic_defs Let_def, (intro h_intros store_invariant.reads_pres [OF inv]
         h_pres_files_json store_invariant.redirect_or_stream_pres [OF inv])+)
qed

lemma generic_safe: "hnd_safe st plain_op (on_store (generic_action E cfg st rq b g))"
proof (rule hnd_safe_on_store)
  fix P
  assume inv: "store_invariant st plain_op P"
  note pres = h_intros act_pres_upsert store_invariant.reads_pres [OF inv] store_invariant.writes_pres [OF inv]
    h_pres_files_json store_invariant.redirect_or_stream_pres [OF inv] plain_op
  show "h_pres P (generic_action E cfg st rq b g)"
  proof (cases g)
    case GUpload
    then show ?thesis
      by (cases "parse_checksum_headers (rq_header rq)") (auto simp: upload_file_def intro!: pres)
  qed (simp_all add: generic_defs Let_def, (intro pres)+)
qed

section \<open>Who can change what\<close>

lemma generic_route_method:
  assumes "mux_find generic_routes m p = MuxFound g bs" "generic_route_write g"
  shows "m = ''PUT''"
proof -
  obtain rm ps where "Route rm ps g \<in> set generic_routes" "method_matches rm m"
    by (rule mux_find_Found [OF assms(1)])
  with assms(2) show ?thesis by (auto simp: generic_routes_def Let_def method_matches_def)
qed

text \<open>What the policy of the generic surface allows a request to change.\<close>

definition generic_may_change ::
  "('b, 're) registry \<Rightarrow> int \<Rightarrow> 'b \<Rightarrow> 'b reg_event list \<Rightarrow> request \<Rightarrow> string \<Rightarrow> bool" where
  "generic_may_change r ttl b es rq key \<longleftrightarrow>
     rq_method rq = ''PUT''
     \<and> (\<exists>g bs sp. mux_find generic_routes (rq_method rq) (rq_escaped_path rq) = MuxFound g bs
          \<and> recent_spec r ttl b es (rq_now rq) (path_value bs ''namespace'') sp \<and> \<not> is_proxy sp
          \<and> may_write r rq sp
          \<and> prefix (scope_prefix (scope_of (rg_prefix r) (path_value bs ''namespace'') format_generic)) key)"

lemma generic_mux_changes:
  assumes "ct_hooks (rg_catalog r) = [policy_invalidate]" "blob_bucket (st_ops (rg_store r)) objs"
  shows "changes_at objs (reg_run r ttl b es, x) (generic_may_change r ttl b es rq) (generic_mux E cfg r rq)"
  unfolding generic_mux_def
proof (rule changes_mux)
  fix g bs
  assume m: "mux_find generic_routes (rq_method rq) (rq_escaped_path rq) = MuxFound g bs"
  show "changes_at objs (reg_run r ttl b es, x) (generic_may_change r ttl b es rq)
      (generic_store r rq (path_value bs ''namespace'') (generic_route_write g) (\<lambda>st. generic_action E cfg st rq bs g))"
    unfolding generic_store_def
  proof (intro c_intros assms(1))
    fix st spec
    assume st: "recent_spec r ttl b es (rq_now rq) (path_value bs ''namespace'') spec"
      "st_scope st = scope_of (rg_prefix r) (path_value bs ''namespace'') format_generic"
      "st_ops st = st_ops (rg_store r)" "guard_verdict st True = None \<Longrightarrow> may_write r rq spec" "\<not> is_proxy spec"
    then have bk: "blob_bucket (st_ops st) objs" using assms(2) by simp
    let ?s = "(reg_run r ttl b (now_lookup rq (path_value bs ''namespace'') format_generic # es), x)"
    show "changes_at objs ?s (generic_may_change r ttl b es rq) (sv_store st (on_store (generic_action E cfg st rq bs g)))"
    proof (cases "generic_route_write g")
      case True
      show ?thesis
        by (rule changes_write [OF generic_safe bk])
          (use st generic_route_method [OF m True] m in \<open>unfold generic_may_change_def, metis\<close>)
    next
      case False
      from changes_read [OF generic_reads_safe [OF False] bk] show ?thesis .
    qed
  qed
qed

lemma generic_mux_data:
  assumes "ct_hooks (rg_catalog r) = [policy_invalidate]"
  shows "data_steps r ttl b (generic_mux E cfg r rq)"
  unfolding generic_mux_def generic_store_def by (intro d_intros assms)

section \<open>Properties\<close>

text \<open>The generic surface changes nothing unless it is told to by a writer: after any history of
  registry events, an object that a request changes belongs to the generic format of the
  namespace in its path, the request is a \<open>PUT\<close> whose credential was verified, and the identity
  fits a writer of the namespace's recent policy, which is not a proxy's.\<close>

theorem generic_write_needs_writer:
  assumes "ct_hooks (rg_catalog r) = [policy_invalidate]" "blob_bucket (st_ops (rg_store r)) objs"
    and "generic_handler E cfg r L rq rw (A, reg_run r ttl b es, x) = (rw', A', s')"
    and "objs (nw_bucket (fst s')) key \<noteq> objs (nw_bucket (reg_run r ttl b es)) key"
  shows "\<exists>ac. fst (authenticate L rq A) = Inr ac \<and> generic_may_change r ttl b es (rq\<lparr>rq_auth := Some ac\<rparr>) key"
  using changes_middleware [OF generic_mux_changes [OF assms(1,2)] assms(3) [unfolded generic_handler_def]] assms(4)
  by simp

text \<open>The demo site's authenticator and a request path.\<close>

definition demo_authn :: "string authn" where
  "demo_authn = build_authenticator False [''i''] ''aud''"

definition demo_package_path :: string where
  "demo_package_path = ''/n/generic/packages/a''"

definition demo_generic_put ::
  "writer \<times> string authn \<times> (mem_bucket, string policy_cache) ns_world \<times> unit" where
  "demo_generic_put =
     generic_handler demo_generic_env demo_generic_config (demo_site '''') demo_oidc
       (demo_request ''PUT'' demo_package_path '''') fresh_writer (demo_authn, reg_run (demo_site '''') 10 demo_bucket [], ())"

theorem generic_write_needs_writer_witness:
  "map_of (nw_bucket (fst (snd (snd demo_generic_put)))) (object_path ''n/generic'' (PackageMeta ''a''))
      = Some ''{}''
    \<and> \<not> isl (fst (authenticate demo_oidc (demo_request ''PUT'' demo_package_path '''') demo_authn))"
proof -
  let ?k = "object_path ''n/generic'' (PackageMeta ''a'')"
  have 1: "map_of (nw_bucket (fst (snd (snd demo_generic_put)))) ?k = Some ''{}''" by code_simp
  have 2: "map_of (nw_bucket (reg_run (demo_site '''') 10 demo_bucket [])) ?k = None" by code_simp
  obtain rw' A' s' where p: "demo_generic_put = (rw', A', s')" by (metis prod.collapse)
  have "map_of (nw_bucket (fst s')) ?k \<noteq> map_of (nw_bucket (reg_run (demo_site '''') 10 demo_bucket [])) ?k"
    unfolding 1 [unfolded p snd_conv] 2 by simp
  from generic_write_needs_writer [OF demo_site_hooks demo_site_bucket p [unfolded demo_generic_put_def] this] 1
  show ?thesis by auto
qed

end
