(* ===== verification/Upload_Laws.thy ===== *)
theory Upload_Laws
  imports Proxy_Plane Surface_Laws
begin

text \<open>
  What a handler can leave in a file or a cache entry: whatever calls it composes, failed ones
  included, the bytes there are the ones it found or the complete body of an upload it makes.
\<close>

section \<open>One upload\<close>

lemma act_pres_wrap [h_intros]: "act_pres P m \<Longrightarrow> act_pres P (act_wrap g m)"
proof -
  have "after (act_wrap g m) w = after m w" for w
    by (cases "m w") (auto simp: act_wrap_def split: sum.splits)
  then show "act_pres P m \<Longrightarrow> act_pres P (act_wrap g m)" by (simp add: act_pres_def)
qed

context blob_bucket
begin

lemma write_file_content:
  assumes "st_ops s = ops" "bk \<noteq> mk"
  shows "objs (w_bucket (after (write_file s now bk mk b cfg) w)) bk = objs (w_bucket w) bk
    \<or> bd_err b = None \<and> objs (w_bucket (after (write_file s now bk mk b cfg) w)) bk = Some (bd_data b)"
proof (cases "bd_err b")
  case (Some e)
  from rejected_write_file(2) [OF prod.collapse [symmetric] assms(1), of b cfg now bk mk w] Some show ?thesis
    by (simp add: upload_rejected_def)
next
  case None
  define P where "P u \<longleftrightarrow> objs (w_bucket u) bk = objs (w_bucket w) bk \<or> objs (w_bucket u) bk = Some (bd_data b)"
    for u :: "'b world"
  have kp: "keeps m \<Longrightarrow> act_pres P m" for m :: "('b, 'c) act"
    by (rule act_pres_keeps) (simp_all add: P_def)
  have tc: "touches objs {mk} m \<Longrightarrow> act_pres P m" for m :: "('b, 'c) act"
    using assms(2) by (simp add: act_pres_def P_def touches_def)
  have cl: "act_pres P (close_writer s bk (bd_data b) ine)" for ine
    unfolding act_pres_def
  proof (intro allI impI)
    fix u
    assume "P u"
    moreover have "objs (snd (bo_commit ops c bk (bd_data b) ine)) bk \<in> {objs c bk, Some (bd_data b)}" for c
      using commit_None [of c bk "bd_data b" ine] commit_Some [of c bk "bd_data b" ine]
      by (cases "bo_commit ops c bk (bd_data b) ine", cases "fst (bo_commit ops c bk (bd_data b) ine)") auto
    ultimately show "P (after (close_writer s bk (bd_data b) ine) u)"
      unfolding close_writer_def b_update_bucket P_def assms(1)
      by (metis insert_iff singletonD)
  qed
  have "act_pres P (write_file s now bk mk b cfg)"
    unfolding write_file_def write_opened_def commit_file_def Let_def
    by (intro h_intros cl tc touches_write_meta [OF assms(1)] touches_abort_with [OF assms(1)]
        kp keeps_stream keeps_probe_free keeps_wrap keeps_prims) simp_all
  then have "P (after (write_file s now bk mk b cfg) w)" by (simp add: act_pres_def P_def)
  with None show ?thesis by (simp add: P_def)
qed

end

section \<open>Any calls\<close>

text \<open>\<open>uploads_only ob D\<close>: a call that uploads \<open>ob\<close> completely uploads bytes \<open>D\<close> allows.\<close>

fun uploads_only :: "store_object \<Rightarrow> (string \<Rightarrow> bool) \<Rightarrow> store_op \<Rightarrow> bool" where
  "uploads_only ob D (OpAddFile now l n b opts) = (file_object l n = ob \<longrightarrow> bd_err b = None \<longrightarrow> D (bd_data b))"
| "uploads_only ob D (OpAddCache now l n b) = (cache_object l n = ob \<longrightarrow> bd_err b = None \<longrightarrow> D (bd_data b))"
| "uploads_only ob D op = True"

definition is_blob :: "store_object \<Rightarrow> bool" where
  "is_blob ob \<longleftrightarrow> (\<exists>l n. ob = file_object l n \<or> ob = cache_object l n)"

definition holds_only ::
  "'b store \<Rightarrow> ('b \<Rightarrow> string \<rightharpoonup> string) \<Rightarrow> store_object \<Rightarrow> string option \<Rightarrow> (string \<Rightarrow> bool) \<Rightarrow> 'b world \<Rightarrow> bool" where
  "holds_only s objs ob old D w \<longleftrightarrow>
     (blob_bucket (st_ops s) objs \<longrightarrow>
        (\<forall>d. abs_store objs s w ob = Some d \<longrightarrow> old = Some d \<or> D d))"

lemma cache_object_eq [simp]:
  "cache_object l n = cache_object l' n' \<longleftrightarrow> l = l' \<and> n = n'"
  "cache_object l n \<noteq> file_object l' n'" "cache_object l n \<noteq> file_meta_object l' n'"
  "cache_object l n \<noteq> cache_meta_object l' n'" "cache_object l n \<noteq> PackageMeta p"
  "cache_object l n \<noteq> VersionMeta p v" "cache_object l n \<noteq> PackageTag p v"
  by (cases l; cases l'; auto)+

lemma is_blobD:
  "is_blob ob \<Longrightarrow> ob \<noteq> PackageMeta p" "is_blob ob \<Longrightarrow> ob \<noteq> VersionMeta p v" "is_blob ob \<Longrightarrow> ob \<noteq> PackageTag p v"
  "is_blob ob \<Longrightarrow> ob \<noteq> file_meta_object l n" "is_blob ob \<Longrightarrow> ob \<noteq> cache_meta_object l n"
  by (auto simp: is_blob_def dest: sym [of _ "file_object _ _"] sym [of _ "cache_object _ _"])

lemma is_blob [simp]: "is_blob (file_object l n)" "is_blob (cache_object l n)"
  unfolding is_blob_def by blast+

text \<open>A store's call leaves in a blob what was there or what it uploads.\<close>

context blob_bucket
begin

lemma add_at_content:
  assumes "st_ops s = ops" "f_blob_key f \<noteq> f_meta_key f"
    and "m = enter s e wr (act_bind (write_file s now (f_blob_key f) (f_meta_key f) b cfg) (\<lambda>x. act_ret (g x)))"
  shows "objs (w_bucket (after m w)) (f_blob_key f) = objs (w_bucket w) (f_blob_key f)
    \<or> bd_err b = None \<and> objs (w_bucket (after m w)) (f_blob_key f) = Some (bd_data b)"
  using enter_then_ret [of s e wr "write_file s now (f_blob_key f) (f_meta_key f) b cfg" g w]
    write_file_content [OF assms(1,2), of now b cfg w] unfolding assms(3) by metis

lemma delete_content:
  assumes "st_ops s = ops" "\<And>u. P u \<longleftrightarrow> (objs (w_bucket u) k = Some d \<longrightarrow> A)"
  shows "act_pres P (enter s e wr (delete_keys s ks))"
proof -
  have del: "act_pres P (b_delete s x)" for x
    unfolding act_pres_def
  proof (intro allI impI)
    fix u
    assume "P u"
    moreover have "objs (snd (bo_delete ops c x)) k \<in> {objs c k, None}" for c
      using delete_None [of c x] delete_Some [of c x]
      by (cases "bo_delete ops c x", cases "fst (bo_delete ops c x)") (auto split: if_splits)
    ultimately show "P (after (b_delete s x) u)"
      unfolding b_delete_def b_update_bucket assms by (metis empty_iff insert_iff option.distinct(1))
  qed
  have "act_pres P (delete_keys s ks)"
    by (induction ks) (simp_all, (intro h_intros del | assumption)+)
  then show ?thesis
    using enter_cases [of s e wr "delete_keys s ks"] unfolding act_pres_def by metis
qed

lemma upload_content:
  assumes "st_ops s = ops" "valid_object ob" "is_blob ob" "uploads_only ob D op"
    and "objs (w_bucket (after (run_op s op) w)) (object_path (st_scope s) ob) = Some d"
  shows "objs (w_bucket w) (object_path (st_scope s) ob) = Some d \<or> D d"
proof (cases "op_error op = None \<and> ob \<in> set (op_objects op)")
  case False
  from False show ?thesis
  proof (cases "op_error op")
    case None
    with False run_op_frame [OF prod.collapse [symmetric] assms(1,2), of op w] assms(5) show ?thesis by simp
  next
    case (Some e)
    then have "run_op s op w = (Inl e, w)"
      using gated_run_op [of s op] by (simp add: gated_def first_err.simps)
    with assms(5) show ?thesis by simp
  qed
next
  case True
  then have ne: "object_path (st_scope s) ob \<noteq> object_path (st_scope s) x"
    if "x \<in> set (op_objects op)" "x \<noteq> ob" for x
    using that object_path_inj [of ob x "st_scope s"] assms(2) op_objects_valid [of op x] by metis
  show ?thesis
  proof (cases op)
    case (OpAddFile now l n b opts)
    with True is_blobD(4) [OF assms(3)] have ob: "ob = file_object l n" by auto
    let ?m = "add_file_at s now (level_file s l n) b opts"
    from add_at_content [OF assms(1) _ add_file_at_def, of "level_file s l n" now b opts w] ne [of "file_meta_object l n"] level_objects_distinct(1) [of l n] OpAddFile ob
    have "objs (w_bucket (after ?m w)) (object_path (st_scope s) ob) = objs (w_bucket w) (object_path (st_scope s) ob)
      \<or> bd_err b = None \<and> objs (w_bucket (after ?m w)) (object_path (st_scope s) ob) = Some (bd_data b)"
      by simp
    moreover have "after (run_op s op) w = after ?m w"
      by (simp add: OpAddFile act_void_def snd_then_ret del: run_op.simps)
    ultimately show ?thesis using assms(4,5) OpAddFile ob by auto
  next
    case (OpAddCache now l n b)
    with True is_blobD(5) [OF assms(3)] have ob: "ob = cache_object l n" by auto
    let ?m = "add_cache_at s now (level_cache s l n) b"
    from add_at_content [OF assms(1) _ add_cache_at_def, of "level_cache s l n" now b w] ne [of "cache_meta_object l n"] level_objects_distinct(2) [of l n] OpAddCache ob
    have "objs (w_bucket (after ?m w)) (object_path (st_scope s) ob) = objs (w_bucket w) (object_path (st_scope s) ob)
      \<or> bd_err b = None \<and> objs (w_bucket (after ?m w)) (object_path (st_scope s) ob) = Some (bd_data b)"
      by simp
    moreover have "after (run_op s op) w = after ?m w"
      by (simp add: OpAddCache act_void_def snd_then_ret del: run_op.simps)
    ultimately show ?thesis using assms(4,5) OpAddCache ob by auto
  next
    case (OpCacheDelete l n)
    define P where "P u \<longleftrightarrow> objs (w_bucket u) (object_path (st_scope s) ob) = Some d
        \<longrightarrow> objs (w_bucket w) (object_path (st_scope s) ob) = Some d" for u :: "'b world"
    have "act_pres P (run_op s op)"
      unfolding OpCacheDelete run_op.simps file_delete_def by (rule delete_content [OF assms(1), of P, OF P_def])
    moreover have "P w" by (simp add: P_def)
    ultimately have "P (after (run_op s op) w)" by (simp add: act_pres_def)
    with assms(5) show ?thesis by (simp add: P_def)
  qed (use True is_blobD [OF assms(3)] in auto)
qed

end

lemma holds_only_invariant:
  assumes "valid_object ob" "is_blob ob"
  shows "store_invariant s (uploads_only ob D) (holds_only s objs ob old D)"
proof
  show "holds_only s objs ob old D w \<longleftrightarrow> holds_only s objs ob old D w'" if "w_bucket w = w_bucket w'" for w w'
    using that by (simp add: holds_only_def abs_store_def)
next
  fix op
  assume op: "uploads_only ob D op"
  show "act_pres (holds_only s objs ob old D) (run_op s op)"
    unfolding act_pres_def
  proof (intro allI impI)
    fix w
    assume w: "holds_only s objs ob old D w"
    show "holds_only s objs ob old D (after (run_op s op) w)"
      unfolding holds_only_def
    proof (intro impI allI)
      fix d
      assume b: "blob_bucket (st_ops s) objs" and d: "abs_store objs s (after (run_op s op) w) ob = Some d"
      from blob_bucket.upload_content [OF b refl assms op, of w d] d assms(1) w b
      show "old = Some d \<or> D d" by (auto simp: abs_store_def holds_only_def)
    qed
  qed
qed

text \<open>A handler on a store: whatever it changed in a blob is an upload it was allowed to make.\<close>

lemma hnd_safe_content:
  fixes w :: "'b world"
  assumes "hnd_safe s (uploads_only ob D) h" "blob_bucket (st_ops s) objs" "valid_object ob" "is_blob ob"
    and "h rw (w, x) = (rw', w', x')" "abs_store objs s w' ob = Some d" "abs_store objs s w ob \<noteq> Some d"
  shows "D d"
proof -
  have "holds_only s objs ob (abs_store objs s w ob) D (fst (snd (h rw (w, x))))"
    by (rule h_presD [OF hnd_safeD [OF assms(1) holds_only_invariant [OF assms(3,4)]]])
      (simp add: holds_only_def)
  with assms(2,5-7) show ?thesis by (simp add: holds_only_def)
qed

section \<open>Streams that fill the store\<close>

lemma h_up_run:
  "h_up m k rw (w, x) = k (fst (m (ps_up x))) rw (w, x\<lparr>ps_up := snd (m (ps_up x))\<rparr>)"
  by (simp add: h_up_def split: prod.split)

lemma h_neg_mark_run [simp]: "fst (snd (h_neg_mark rq ns fmt key (h_done f) rw s)) = fst s"
  by (simp add: h_neg_mark_def h_done_def)

lemma h_neg_has_cases:
  obtains n where "h_neg_has rq ns fmt key hit miss rw (w, x) = hit rw (w, x\<lparr>ps_neg := n\<rparr>)"
  | n where "h_neg_has rq ns fmt key hit miss rw (w, x) = miss rw (w, x\<lparr>ps_neg := n\<rparr>)"
proof (cases "neg_has (rq_now rq) ns fmt key (ps_neg x)")
  case (Pair has n)
  with that [of n] show ?thesis by (cases has) (simp_all add: h_neg_has_def)
qed

lemma tee_to_client:
  assumes "tee_stream_to_store rq b ct cl fill k rw s = (rw', s')" "unsent rw"
    and k: "\<And>e f rw s. fst (k e f rw s) = rw"
  shows "response_status rw' = 200 \<and> wr_body rw' = wr_body rw @ bd_data b"
proof -
  let ?rw = "if cl \<ge> 0 then header_set ''Content-Length'' (format_int cl) (set_unless_empty ''Content-Type'' ct rw)
      else set_unless_empty ''Content-Type'' ct rw"
  have "rw' = copy_to_client (bd_data b) (write_header 200 ?rw)"
    using arg_cong [OF assms(1), of fst]
    by (auto simp: tee_stream_to_store_def tee_response_def Let_def k split: sum.splits prod.splits)
  moreover have "unsent ?rw" using assms(2) by simp
  ultimately show ?thesis using copy_to_client_response [of ?rw "bd_data b" 200] by simp
qed

text \<open>A stream that fills one file: what it leaves in a blob is the whole answer of the upstream.\<close>

definition fills_only ::
  "'b store \<Rightarrow> store_object \<Rightarrow> (body \<Rightarrow> 'b world \<times> 'x \<Rightarrow> 'a res \<times> 'b world \<times> 'x) \<Rightarrow> bool" where
  "fills_only s tgt fill \<longleftrightarrow>
     (\<forall>ob D P b. store_invariant s (uploads_only ob D) P \<longrightarrow> (tgt = ob \<longrightarrow> bd_err b = None \<longrightarrow> D (bd_data b))
        \<longrightarrow> act_pres (\<lambda>u. P (fst u)) (fill b))"

text \<open>What a file or a cached file is after a run, where it is not what it was before.\<close>

definition new_bytes ::
  "'b store \<Rightarrow> ('b \<Rightarrow> string \<rightharpoonup> string) \<Rightarrow> store_object \<Rightarrow> 'b world \<Rightarrow> 'b world \<Rightarrow> string \<Rightarrow> bool" where
  "new_bytes s objs ob w w' d \<longleftrightarrow>
     blob_bucket (st_ops s) objs \<and> is_blob ob \<and> abs_store objs s w' ob = Some d \<and> abs_store objs s w ob \<noteq> Some d"

lemma new_bytes_cong: "w_bucket w1 = w_bucket w \<Longrightarrow> new_bytes s objs ob w w' d \<Longrightarrow> new_bytes s objs ob w1 w' d"
  by (auto simp: new_bytes_def abs_store_def split: if_splits)

lemma new_bytes_irrefl: "\<not> new_bytes s objs ob w w d"
  by (simp add: new_bytes_def)

lemma new_bytes_content:
  assumes "new_bytes s objs ob w w' d" "hnd_safe s (uploads_only ob D) h" "h rw (w, x) = (rw', w', x')"
  shows "D d"
  using assms hnd_safe_content [OF assms(2) _ _ _ assms(3)]
  by (auto simp: new_bytes_def abs_store_def split: if_splits)

definition follows_fill :: "'b store \<Rightarrow> store_object \<Rightarrow> (err option \<Rightarrow> err option \<Rightarrow> ('b world \<times> 'x) handler) \<Rightarrow> bool" where
  "follows_fill s ob k \<longleftrightarrow>
     (\<forall>D P e f. store_invariant s (uploads_only ob D) P \<longrightarrow> h_pres (\<lambda>u. P (fst u)) (k e f))
     \<and> (\<forall>e f rw st. fst (k e f rw st) = rw)"

lemma follows_after_fill:
  assumes "\<And>D P. store_invariant s (uploads_only ob D) P \<Longrightarrow> act_pres (\<lambda>u. P (fst u)) rec"
  shows "follows_fill s ob (after_fill rec)"
proof -
  have "h_pres (\<lambda>u. P (fst u)) (after_fill rec e f)"
    if "store_invariant s (uploads_only ob D) P" for D P e f
    unfolding after_fill_def by (intro h_intros assms [OF that])
  moreover have "fst (after_fill rec e f rw st) = rw" for e f rw st
    by (simp add: after_fill_def h_best_effort_def h_try_def h_done_def split: prod.split sum.split)
  ultimately show ?thesis unfolding follows_fill_def by blast
qed

lemma hnd_safe_tee:
  assumes "fills_only s tgt fill" "follows_fill s ob k"
    and "tgt = ob \<Longrightarrow> tee_copy_error b (rq_client rq) = None \<Longrightarrow> D (bd_data b)"
  shows "hnd_safe s (uploads_only ob D) (tee_stream_to_store rq b ct cl fill k)"
proof (rule hnd_safeI, rule h_pres_tee)
  fix P
  assume inv: "store_invariant s (uploads_only ob D) P"
  show "act_pres (\<lambda>u. P (fst u)) (fill (b\<lparr>bd_err := tee_copy_error b (rq_client rq)\<rparr>))"
    using assms(1) [unfolded fills_only_def] inv assms(3) by simp
  show "h_pres (\<lambda>u. P (fst u)) (k e f)" for e f
    using assms(2) inv unfolding follows_fill_def by blast
qed

lemma tee_caches:
  assumes new: "new_bytes s objs ob w w' d" and fill: "fills_only s tgt fill" "is_blob ob \<Longrightarrow> follows_fill s ob k"
    and run: "tee_stream_to_store rq b ct cl fill k rw (w, x) = (rw', w', x')"
  shows "ob = tgt" "b = \<lparr>bd_data = d, bd_err = None\<rparr>" "rq_client rq = None"
    "unsent rw \<Longrightarrow> response_status rw' = 200 \<and> wr_body rw' = wr_body rw @ d"
proof -
  let ?D = "\<lambda>d'. tgt = ob \<and> tee_copy_error b (rq_client rq) = None \<and> d' = bd_data b"
  have ob: "is_blob ob" using new by (simp add: new_bytes_def)
  note follows = fill(2) [OF ob]
  have D: "?D d" by (rule new_bytes_content [OF new hnd_safe_tee [OF fill(1) follows] run]) auto
  then show "ob = tgt" "b = \<lparr>bd_data = d, bd_err = None\<rparr>" "rq_client rq = None"
    by (cases b; auto simp: tee_copy_error_def split: option.splits)+
  show "response_status rw' = 200 \<and> wr_body rw' = wr_body rw @ d" if "unsent rw"
  proof -
    have "fst (k e f rw s) = rw" for e f rw s using follows unfolding follows_fill_def by blast
    from tee_to_client [OF run that this] D show ?thesis by simp
  qed
qed

lemma pull_caches:
  fixes w :: "'b world"
  assumes new: "new_bytes s objs ob w w' d" and fill: "fills_only s tgt fill" "is_blob ob \<Longrightarrow> follows_fill s ob k"
    and run: "pull_artifact up rq ns fmt key url ct fill k rw (w, x) = (rw', w', x')"
  obtains resp u where "up ''GET'' url (ps_up x) = (Inr resp, u)" "status_ok (ur_status resp)"
    "ob = tgt" "ur_body resp = \<lparr>bd_data = d, bd_err = None\<rparr>" "rq_client rq = None"
    "unsent rw \<Longrightarrow> response_status rw' = 200 \<and> wr_body rw' = wr_body rw @ d"
proof -
  obtain res u where up: "up ''GET'' url (ps_up x) = (res, u)" by (metis prod.collapse)
  have stuck: "w' \<noteq> w" using new new_bytes_irrefl by metis
  obtain resp where res: "res = Inr resp" and st: "status_ok (ur_status resp)" and
    tee: "tee_stream_to_store rq (ur_body resp) ct (ur_length resp) fill k rw (w, x\<lparr>ps_up := u\<rparr>) = (rw', w', x')"
    using run up stuck
    by (cases res)
      (auto simp: pull_artifact_def h_up_run client_stream_def h_done_def h_not_found_def h_neg_mark_def split: if_splits)
  from tee_caches [OF new fill tee] that [of resp u] up res st show ?thesis by simp
qed

text \<open>A request that misses the store and the negative cache.\<close>

lemma warm_miss:
  fixes w :: "'b world"
  assumes new: "new_bytes s objs ob w w' d"
    and run: "h_store (in_store (file_exists s f)) (\<lambda>ex. if ex then on_store (redirect_or_stream_file s rq f ct)
        else h_neg_has rq ns fmt key (h_done g) cold) rw (w, x) = (rw', w', x')"
  obtains w1 n where "w_bucket w1 = w_bucket w" "cold rw (w1, x\<lparr>ps_neg := n\<rparr>) = (rw', w', x')"
proof -
  obtain res w1 where ex: "file_exists s f w = (res, w1)" by (metis prod.collapse)
  have "keeps (file_exists s f)" by (intro keeps_intros)
  with ex have w1: "w_bucket w1 = w_bucket w" by (metis keeps_def snd_conv)
  note new1 = new_bytes_cong [OF w1 new]
  have stuck: "w' \<noteq> w1" using new1 new_bytes_irrefl by metis
  have miss: "h_neg_has rq ns fmt key (h_done g) cold rw (w1, x) = (rw', w', x')"
  proof (cases res)
    case (Inl e)
    with run ex stuck show ?thesis by (simp add: h_store_def h_try_def in_store_def h_done_def)
  next
    case (Inr exi)
    have "hnd_safe s (uploads_only ob (\<lambda>_. False)) (on_store (redirect_or_stream_file s rq f ct))"
      by (rule hnd_safe_on_store) (rule store_invariant.redirect_or_stream_pres)
    then have "on_store (redirect_or_stream_file s rq f ct) rw (w1, x) \<noteq> (rw', w', x')"
      using new_bytes_content [OF new1] by metis
    with run Inr ex show ?thesis
      by (simp add: h_store_def h_try_def in_store_def split: if_splits)
  qed
  show ?thesis
  proof (rule h_neg_has_cases [of rq ns fmt key "h_done g" cold rw w1 x])
    fix n
    assume "h_neg_has rq ns fmt key (h_done g) cold rw (w1, x) = h_done g rw (w1, x\<lparr>ps_neg := n\<rparr>)"
    with miss stuck show ?thesis by (simp add: h_done_def)
  qed (use miss that [OF w1] in simp)
qed

end
