(* ===== verification/Maven_Laws.thy ===== *)
theory Maven_Laws
  imports Maven Upload_Laws Surface_Laws
begin

text \<open>What the Maven surface promises.\<close>

section \<open>Frames\<close>

lemma h_pres_check [h_intros]: "act_pres P m \<Longrightarrow> h_pres P k \<Longrightarrow> h_pres P (h_check m bad k)"
  unfolding h_check_def by (intro h_intros)

lemma maven_hosted_upload_safe: "hnd_safe st plain_op (on_store (maven_hosted_upload E cfg st rq p))"
proof (rule hnd_safe_on_store)
  fix P
  assume inv: "store_invariant st plain_op P"
  note pres = h_intros store_invariant.method_pres [OF inv] plain_op
  have "act_pres P (maven_ensure_parents st (rq_now rq) p)"
    unfolding maven_ensure_parents_def by (intro pres)
  moreover have "act_pres P (maven_add_file st (rq_now rq) p b opts)" for b opts
    unfolding maven_add_file_def by (cases "mp_kind p") (simp_all, (intro pres)+)
  moreover have "act_pres P (maven_verify_upload E st p alg data)" for alg data
    unfolding maven_verify_upload_def by (intro pres)
  ultimately show "h_pres P (maven_hosted_upload E cfg st rq p)"
    unfolding maven_hosted_upload_def maven_store_upload_def by (intro pres)
qed

lemma maven_hosted_download_safe: "hnd_safe st read_op (on_store (redirect_or_stream_file st rq f ct))"
  by (rule hnd_safe_on_store) (rule store_invariant.redirect_or_stream_pres)

lemma maven_proxy_safe: "hnd_safe st any_op (maven_proxy_serve E up hc rq p ns sp st)"
proof (rule hnd_safeI)
  fix P
  assume inv: "store_invariant st any_op P"
  note pres = h_intros store_invariant.method_pres [OF inv] store_invariant.redirect_or_stream_pres [OF inv] any_op
  have rec: "act_pres P (maven_record_parents st (rq_now rq) p)"
    unfolding maven_record_parents_def by (intro pres)
  have fill: "act_pres P (maven_fill st (rq_now rq) p ann b)" for ann b
    unfolding maven_fill_def by (intro pres)
  have sum: "act_pres P (maven_compute_checksum E st alg f)" for alg f
    unfolding maven_compute_checksum_def by (intro pres)
  note defs = maven_proxy_serve_def maven_serve_catalog_def maven_serve_metadata_def maven_serve_artifact_def
    maven_serve_checksum_def maven_stream_and_cache_def pull_artifact_def after_fill_def maven_head_artifact_def
    h_not_found_def Let_def
  show "h_pres (\<lambda>u. P (fst u)) (maven_proxy_serve E up hc rq p ns sp st)"
    unfolding defs by (cases "mp_kind p") (simp_all only: path_kind.case, (intro pres rec fill sum)+)
qed

section \<open>Who can change what\<close>

definition maven_may_change ::
  "('b, 're) registry \<Rightarrow> int \<Rightarrow> 'b \<Rightarrow> 'b reg_event list \<Rightarrow> request \<Rightarrow> string \<Rightarrow> bool" where
  "maven_may_change r ttl b es rq key \<longleftrightarrow>
     (\<exists>p. maven_parse_path (rq_escaped_path rq) = Inr p \<and> in_tenant r (mp_namespace p) format_maven key
        \<and> (rq_method rq \<in> {''PUT'', ''POST''} \<and> hosted_writer r ttl b es rq (mp_namespace p)
           \<or> rq_method rq \<in> {''GET'', ''HEAD''} \<and> proxy_reader r ttl b es rq (mp_namespace p)))"

lemma maven_changes:
  assumes "ct_hooks (rg_catalog r) = [policy_invalidate]" "blob_bucket (st_ops (rg_store r)) objs"
  shows "changes_at objs (reg_run r ttl b es, x) (maven_may_change r ttl b es rq) (maven_serve_http E cfg r up rq)"
proof (cases "maven_parse_path (rq_escaped_path rq)")
  case (Inl e)
  then show ?thesis
    by (auto simp: maven_serve_http_def maven_download_def maven_upload_def intro!: c_intros)
next
  case (Inr p)
  have down: "changes_at objs (reg_run r ttl b es, x) (maven_may_change r ttl b es rq) (maven_download E cfg r up rq)"
    if "rq_method rq \<in> {''GET'', ''HEAD''}"
    unfolding maven_download_def Inr sum.case Let_def
  proof (intro c_proxy assms)
    show "maven_may_change r ttl b es rq key"
      if "proxy_reader r ttl b es rq (mp_namespace p)" "in_tenant r (mp_namespace p) format_maven key" for key
      using that Inr \<open>rq_method rq \<in> _\<close> by (auto simp: maven_may_change_def)
  qed (use assms(2) in \<open>auto intro!: changes_read maven_hosted_download_safe maven_proxy_safe\<close>)
  have up: "changes_at objs (reg_run r ttl b es, x) (maven_may_change r ttl b es rq) (maven_upload E cfg r rq)"
    if "rq_method rq \<in> {''PUT'', ''POST''}"
    unfolding maven_upload_def Inr sum.case
  proof (intro c_intros assms(1) changes_hosted [OF maven_hosted_upload_safe assms(2)])
    show "maven_may_change r ttl b es rq key"
      if "hosted_writer r ttl b es rq (mp_namespace p)" "in_tenant r (mp_namespace p) format_maven key" for key
      using that Inr \<open>rq_method rq \<in> _\<close> by (auto simp: maven_may_change_def)
  qed
  show ?thesis
    unfolding maven_serve_http_def by (intro c_intros down up) auto
qed

section \<open>What a proxy caches\<close>

definition maven_object :: "maven_path \<Rightarrow> store_object" where
  "maven_object p = VersionFile (mp_package p) (mp_version p) (mp_file p)"

lemma maven_fill_pres:
  assumes "store_invariant st (uploads_only ob D) P"
    and "maven_object p = ob \<Longrightarrow> bd_err b = None \<Longrightarrow> D (bd_data b)"
  shows "act_pres P (maven_fill st now p ann b)"
  unfolding maven_fill_def
  by (rule store_invariant.writes_pres(8) [OF assms(1)]) (use assms(2) in \<open>simp add: maven_object_def\<close>)

lemma maven_record_pres:
  assumes "store_invariant st (uploads_only ob D) P"
  shows "act_pres P (maven_record_parents st now p)"
  unfolding maven_record_parents_def
  by (intro h_intros store_invariant.writes_pres [OF assms]) simp_all

lemma maven_fills: "fills_only st (maven_object p) (\<lambda>b. in_store (maven_fill st now p ann b))"
  unfolding fills_only_def by (auto intro!: h_intros maven_fill_pres)

lemma maven_quiet:
  assumes "mp_kind p \<noteq> PathArtifact \<or> mp_checksum p = None \<and> rq_method rq = ''HEAD''"
  shows "hnd_safe st (uploads_only ob D) (maven_proxy_serve E up hc rq p ns sp st)"
proof (rule hnd_safeI)
  fix P
  assume inv: "store_invariant st (uploads_only ob D) P"
  note pres = h_intros store_invariant.reads_pres [OF inv] store_invariant.redirect_or_stream_pres [OF inv]
  note defs = maven_serve_catalog_def maven_serve_metadata_def h_not_found_def Let_def
  show "h_pres (\<lambda>u. P (fst u)) (maven_proxy_serve E up hc rq p ns sp st)"
  proof (cases "mp_kind p")
    case PathArtifact
    then show ?thesis
      using assms unfolding maven_proxy_serve_def maven_serve_artifact_def maven_head_artifact_def defs
      by (simp add: pres)
  qed (simp_all only: maven_proxy_serve_def path_kind.case defs, (intro pres)+)
qed

text \<open>The cold path of a \<open>GET\<close> of an artifact.\<close>

lemma maven_cold_artifact:
  assumes new: "new_bytes s objs ob w w' d"
    and run: "maven_serve_artifact E up hc s rq ns sp p rw (w, x) = (rw', w', x')"
    and get: "rq_method rq \<noteq> ''HEAD''" "mp_checksum p = None"
  obtains u1 u2 resp where "maven_allow E up hc rq sp p (ps_up x) = (True, u1)"
    "up ''GET'' (maven_upstream_url sp p) u1 = (Inr resp, u2)" "status_ok (ur_status resp)"
    "ob = maven_object p" "ur_body resp = \<lparr>bd_data = d, bd_err = None\<rparr>" "rq_client rq = None"
    "unsent rw \<Longrightarrow> response_status rw' = 200 \<and> wr_body rw' = wr_body rw @ d"
proof -
  from get have "maven_serve_artifact E up hc s rq ns sp p =
     h_store (in_store (file_exists s (maven_version_file s p (mp_file p))))
       (\<lambda>ex. if ex then on_store (redirect_or_stream_file s rq (maven_version_file s p (mp_file p)) (maven_proxy_type p))
          else h_neg_has rq ns format_maven (file_neg_key p) (h_done (write_store_error ErrNotFound))
            (h_up (maven_allow E up hc rq sp p)
              (\<lambda>ok. if ok then maven_stream_and_cache E up s rq ns sp p else h_done (write_store_error ErrNotFound))))"
    by (simp add: maven_serve_artifact_def Let_def cong: if_cong)
  from warm_miss [OF new run [unfolded this]] obtain w1 n where w1: "w_bucket w1 = w_bucket w"
    and n: "h_up (maven_allow E up hc rq sp p)
       (\<lambda>ok. if ok then maven_stream_and_cache E up s rq ns sp p else h_done (write_store_error ErrNotFound))
       rw (w1, x\<lparr>ps_neg := n\<rparr>) = (rw', w', x')" by metis
  note new1 = new_bytes_cong [OF w1 new]
  obtain ok u1 where al: "maven_allow E up hc rq sp p (ps_up x) = (ok, u1)" by (metis prod.collapse)
  have "w' \<noteq> w1" using new1 new_bytes_irrefl by metis
  with n al have ok: ok and
    pull: "maven_stream_and_cache E up s rq ns sp p rw (w1, x\<lparr>ps_neg := n, ps_up := u1\<rparr>) = (rw', w', x')"
    by (simp_all add: h_up_run h_done_def split: if_splits)
  show ?thesis
    by (rule pull_caches [OF new1 maven_fills follows_after_fill pull [unfolded maven_stream_and_cache_def Let_def]])
      (use that al ok maven_record_pres in \<open>auto intro!: h_intros\<close>)
qed

section \<open>Hosted checksum companions\<close>

lemma maven_store_safe:
  assumes "file_object (maven_level p) (mp_file p) = ob \<Longrightarrow> D data"
  shows "hnd_safe st (uploads_only ob D) (on_store (maven_store_upload E cfg st rq p data))"
proof (rule hnd_safe_on_store)
  fix P
  assume inv: "store_invariant st (uploads_only ob D) P"
  note pres = h_intros store_invariant.method_pres [OF inv]
  have "act_pres P (maven_ensure_parents st (rq_now rq) p)"
    unfolding maven_ensure_parents_def by (intro pres) simp_all
  moreover have "act_pres P (maven_add_file st (rq_now rq) p (bytes_body data) opts)" for opts
    using assms unfolding maven_add_file_def maven_level_def
    by (cases "mp_kind p") (simp_all add: pres bytes_body_def)
  ultimately show "h_pres P (maven_store_upload E cfg st rq p data)"
    unfolding maven_store_upload_def by (intro pres)
qed

lemma maven_verify_upload_Inr:
  assumes "blob_bucket (st_ops s) objs" "maven_verify_upload E s p alg data w = (Inr u, w1)"
  obtains t where "abs_store objs s w (file_object (maven_level p) (mp_target_file p)) = Some t"
    "equal_fold (hex_encode (mv_digest E alg t)) (first_field data)" "w_bucket w1 = w_bucket w"
proof -
  from assms(2) obtain t br where r: "file_read s (maven_file s p (mp_target_file p)) w = (Inr (t, br), w1)"
    and v: "verify_checksum (mv_digest E) alg (t, map_option ErrBackend br) data = None"
    unfolding maven_verify_upload_def by (auto elim!: act_bind_Inr)
  from v have "br = None" "equal_fold (hex_encode (mv_digest E alg t)) (first_field data)"
    by (auto simp: verify_checksum_def Let_def split: option.splits if_splits)
  with blob_bucket.file_read_abs [OF assms(1) _ refl] r have
    "abs_store objs s w (file_object (maven_level p) (mp_target_file p)) = Some t"
    by (simp add: maven_file_level)
  moreover have "w_bucket w1 = w_bucket w"
  proof -
    have "keeps (file_read s (maven_file s p (mp_target_file p)))" by (intro keeps_intros)
    with r show ?thesis by (metis keeps_def snd_conv)
  qed
  ultimately show ?thesis using that \<open>equal_fold _ _\<close> by blast
qed

lemma maven_body_data: "maven_read_upload_body cfg rq = Inr data \<Longrightarrow> data = bd_data (rq_body rq)"
  by (auto simp: maven_read_upload_body_def with_max_body_def Let_def split: option.splits if_splits)

section \<open>Properties\<close>


text \<open>C30: a checksum companion uploaded to a hosted namespace never contradicts its artifact: the only
  file the upload of one can leave is the companion, whose first field is the hexadecimal digest,
  in any case, of the bytes its target has in the store, and which is the uploaded body unchanged.\<close>

theorem maven_checksum_verified:
  assumes "blob_bucket (st_ops s) objs" "mp_checksum p = Some alg"
    and "maven_hosted_upload E cfg s rq p rw w = (rw', w')"
    and "abs_store objs s w' (file_object l n) = Some d" "abs_store objs s w (file_object l n) \<noteq> Some d"
  shows "file_object l n = file_object (maven_level p) (mp_file p) \<and> d = bd_data (rq_body rq)
    \<and> (\<exists>t. abs_store objs s w (file_object (maven_level p) (mp_target_file p)) = Some t
         \<and> equal_fold (hex_encode (mv_digest E alg t)) (first_field d))"
proof -
  obtain data where data: "maven_read_upload_body cfg rq = Inr data"
    using assms(3-5) by (cases "maven_read_upload_body cfg rq") (auto simp: maven_hosted_upload_def h_done_def)
  obtain v w1 where v: "maven_verify_upload E s p alg data w = (v, w1)" by (metis prod.collapse)
  have "keeps (maven_verify_upload E s p alg data)"
    unfolding maven_verify_upload_def by (intro keeps_intros)
  with v have k: "w_bucket w1 = w_bucket w" by (metis keeps_def snd_conv)
  have same: "abs_store objs s w1 = abs_store objs s w" using k by (simp add: abs_store_def fun_eq_iff)
  obtain u where u: "v = Inr u" and run: "on_store (maven_store_upload E cfg s rq p data) rw (w1, ()) = (rw', w', ())"
    using assms(2-5) data v same
    by (cases v) (auto simp: maven_hosted_upload_def h_check_def h_try_def h_done_def on_store_def split: if_splits)
  from maven_verify_upload_Inr [OF assms(1) v [unfolded u]] obtain t where
    t: "abs_store objs s w (file_object (maven_level p) (mp_target_file p)) = Some t"
      "equal_fold (hex_encode (mv_digest E alg t)) (first_field data)" by metis
  let ?D = "\<lambda>d. file_object l n = file_object (maven_level p) (mp_file p) \<and> d = data"
  have "?D d"
    by (rule hnd_safe_content [OF maven_store_safe assms(1) _ _ run assms(4)])
      (use assms(4,5) same in \<open>auto simp: abs_store_def split: if_splits\<close>)
  with t maven_body_data [OF data] show ?thesis by auto
qed

text \<open>The negative keys do not identify coordinates: groups that differ only in how they are split into
  segments share one, and the metadata of an artifact shares one with its own checksum companion.\<close>

lemma neg_keys_collide:
  "\<exists>p p'. maven_parse_path ''/n/maven2/a.b/x/1/f.jar'' = Inr p \<and> maven_parse_path ''/n/maven2/a/b/x/1/f.jar'' = Inr p'
     \<and> maven_object p \<noteq> maven_object p' \<and> file_neg_key p = file_neg_key p'"
  "\<exists>p p'. maven_parse_path ''/n/maven2/a/x/maven-metadata.xml'' = Inr p
     \<and> maven_parse_path ''/n/maven2/a/x/maven-metadata.xml.sha1'' = Inr p'
     \<and> maven_upstream_url sp p \<noteq> maven_upstream_url sp p' \<and> metadata_neg_key p = metadata_neg_key p'"
proof -
  let ?p = "\<lparr>mp_namespace = ''n'', mp_kind = PathArtifact, mp_group_path = [''a'', ''b''], mp_group_id = ''a.b'',
      mp_artifact_id = ''x'', mp_package = ''a/b/x'', mp_version = ''1'', mp_file = ''f.jar'',
      mp_checksum = None, mp_target_file = ''''\<rparr>"
  let ?m = "\<lambda>f c t. \<lparr>mp_namespace = ''n'', mp_kind = PathArtifactMetadata, mp_group_path = [''a''], mp_group_id = ''a'',
      mp_artifact_id = ''x'', mp_package = ''a/x'', mp_version = '''', mp_file = f, mp_checksum = c, mp_target_file = t\<rparr>"
  have "maven_parse_path ''/n/maven2/a/b/x/1/f.jar'' = Inr ?p"
    "maven_parse_path ''/n/maven2/a/x/maven-metadata.xml'' = Inr (?m ''maven-metadata.xml'' None '''')"
    "maven_parse_path ''/n/maven2/a/x/maven-metadata.xml.sha1''
      = Inr (?m ''maven-metadata.xml.sha1'' (Some SHA1) ''maven-metadata.xml'')"
    by code_simp+
  with demo_maven_paths(1) show
    "\<exists>p p'. maven_parse_path ''/n/maven2/a.b/x/1/f.jar'' = Inr p \<and> maven_parse_path ''/n/maven2/a/b/x/1/f.jar'' = Inr p'
      \<and> maven_object p \<noteq> maven_object p' \<and> file_neg_key p = file_neg_key p'"
    "\<exists>p p'. maven_parse_path ''/n/maven2/a/x/maven-metadata.xml'' = Inr p
     \<and> maven_parse_path ''/n/maven2/a/x/maven-metadata.xml.sha1'' = Inr p'
     \<and> maven_upstream_url sp p \<noteq> maven_upstream_url sp p' \<and> metadata_neg_key p = metadata_neg_key p'"
    by (simp_all add: maven_object_def file_neg_key_def metadata_neg_key_def maven_upstream_url_def coordinate_path_def)
qed

section \<open>Examples\<close>

definition demo_maven_env :: maven_env where
  "demo_maven_env = \<lparr>mv_digest = (\<lambda>_ d. d), mv_time = (\<lambda>_. ''t''), mv_last_updated = (\<lambda>_. None),
     mv_parse_time = (\<lambda>_. None), mv_parse_dur = (\<lambda>_. None)\<rparr>"

definition demo_jar :: "hash_alg option \<Rightarrow> maven_path" where
  "demo_jar alg =
     \<lparr>mp_namespace = ''n'', mp_kind = PathArtifact, mp_group_path = [''g''], mp_group_id = ''g'', mp_artifact_id = ''a'',
      mp_package = ''g/a'', mp_version = ''1'', mp_file = (if alg = None then ''f'' else ''f.sha1''),
      mp_checksum = alg, mp_target_file = (if alg = None then '''' else ''f'')\<rparr>"

definition demo_maven_get where
  "demo_maven_get =
     maven_proxy_serve demo_maven_env (demo_upstream 200 ''jar'') (new_client [])
       (demo_request ''GET'' '''' '''') (demo_jar None) ''n'' (demo_site_spec ''proxy'') (demo_store None) fresh_writer
       (demo_world [], \<lparr>ps_neg = neg_new 30, ps_up = ()\<rparr>)"


definition demo_maven_put where
  "demo_maven_put =
     maven_hosted_upload demo_maven_env \<lparr>mc_max_upload = 0, mc_allow_overwrite = False, mc_proxy_metadata_max = 0,
         mc_proxy_negative_ttl = 0\<rparr> (demo_store None) (demo_request ''PUT'' '''' ''6A6172  f'') (demo_jar (Some SHA1))
       fresh_writer (demo_world [(object_path ''npm/n'' (VersionFile ''g/a'' ''1'' ''f''), ''jar'')])"

theorem maven_checksum_verified_witness:
  "abs_store map_of (demo_store None) (snd demo_maven_put) (VersionFile ''g/a'' ''1'' ''f.sha1'') = Some ''6A6172  f''
    \<and> (\<exists>t. equal_fold (hex_encode t) (first_field ''6A6172  f''))"
proof -
  let ?ob = "file_object (LVer ''g/a'' ''1'') ''f.sha1''"
  let ?w = "demo_world [(object_path ''npm/n'' (VersionFile ''g/a'' ''1'' ''f''), ''jar'')]"
  have 1: "abs_store map_of (demo_store None) (snd demo_maven_put) ?ob = Some ''6A6172  f''" by code_simp
  have 2: "abs_store map_of (demo_store None) ?w ?ob = None" by code_simp
  have 3: "mp_checksum (demo_jar (Some SHA1)) = Some SHA1" by (simp add: demo_jar_def)
  obtain rw' w' where r: "demo_maven_put = (rw', w')" by (metis prod.collapse)
  have b: "blob_bucket (st_ops (demo_store None)) map_of" by (simp add: mem_bucket)
  from 2 have 2: "abs_store map_of (demo_store None) ?w ?ob \<noteq> Some ''6A6172  f''" by simp
  from maven_checksum_verified [OF b 3 r [unfolded demo_maven_put_def] 1 [unfolded r snd_conv] 2] 1
  show ?thesis by (auto simp: demo_maven_env_def)
qed

end
