(* ===== verification/Debian.thy ===== *)
theory Debian
  imports Upload_Laws
begin

text \<open>
  The Debian surface, \<open>codec.go\<close>, \<open>handler.go\<close> and \<open>proxy.go\<close> of \<open>pkg/surface/debian\<close>: a
  read-only surface that caches the index files of a proxy verbatim and its pool files as files of
  a version, and serves a hosted namespace from the store alone.
\<close>

section \<open>Paths\<close>

datatype debian_kind = PathIndex | PathPool

record debian_path =
  dp_namespace :: string
  dp_kind :: debian_kind
  dp_rest :: string
  dp_file :: string
  dp_pkg :: string
  dp_version :: string

definition source_archive_suffixes :: "string list" where
  "source_archive_suffixes =
     [''.orig.tar.gz'', ''.orig.tar.xz'', ''.orig.tar.bz2'', ''.orig.tar.zst'',
      ''.debian.tar.gz'', ''.debian.tar.xz'', ''.debian.tar.bz2'', ''.debian.tar.zst'',
      ''.tar.gz'', ''.tar.xz'', ''.tar.bz2'', ''.tar.zst'',
      ''.diff.gz'', ''.dsc'', ''.changes'', ''.buildinfo'']"

fun strip_first_suffix :: "string list \<Rightarrow> string \<Rightarrow> string" where
  "strip_first_suffix [] s = s"
| "strip_first_suffix (sfx # rest) s =
     (if has_suffix s sfx then trim_suffix s sfx else strip_first_suffix rest s)"

definition parse_pool_file :: "string \<Rightarrow> string \<times> string" where
  "parse_pool_file name =
     (let i = index_byte name CHR ''_''
      in if i \<le> 0 then (name, '''')
         else
           (let pkg = take (nat i) name; rest = drop (nat i + 1) name
            in if has_suffix name ''.deb'' \<or> has_suffix name ''.udeb''
               then (let j = index_byte rest CHR ''_''
                     in if j > 0 then (pkg, take (nat j) rest)
                        else (pkg, trim_suffix (trim_suffix rest ''.udeb'') ''.deb''))
               else (pkg, strip_first_suffix source_archive_suffixes rest)))"

definition debian_unescape :: "string \<Rightarrow> string res" where
  "debian_unescape seg =
     (case path_unescape seg of None \<Rightarrow> Inl ErrInvalidName | Some decoded \<Rightarrow> Inr decoded)"

definition validate_debian_segment :: "string \<Rightarrow> err option" where
  "validate_debian_segment seg =
     (if seg = '''' then Some ErrInvalidName
      else if seg = ''.'' \<or> seg = ''..'' then Some ErrInvalidName
      else if has_prefix seg ''.'' then Some ErrInvalidName
      else if CHR ''/'' \<in> set seg then Some ErrInvalidName
      else None)"

text \<open>One step of the loop over the segments.\<close>

definition debian_segment :: "string \<Rightarrow> string res" where
  "debian_segment seg =
     rbind (debian_unescape seg)
       (\<lambda>d. case validate_debian_segment d of Some e \<Rightarrow> Inl e | None \<Rightarrow> Inr d)"

definition pool_path :: "string \<Rightarrow> string \<Rightarrow> string \<Rightarrow> debian_path" where
  "pool_path ns rest name =
     (case parse_pool_file name of
        (pkg, version) \<Rightarrow>
          \<lparr>dp_namespace = ns, dp_kind = PathPool, dp_rest = rest, dp_file = name, dp_pkg = pkg,
           dp_version = (if version = '''' then name else version)\<rparr>)"

definition debian_parse_path :: "string \<Rightarrow> debian_path res" where
  "debian_parse_path escaped =
     (if \<not> has_prefix escaped ''/'' then Inl ErrInvalidName
      else
        (let raw = split_on CHR ''/'' (trim_prefix escaped ''/'')
         in if length raw < 3 then Inl ErrInvalidName
            else rbind (debian_unescape (raw ! 0)) (\<lambda>ns.
              case ns_validate_name ns of
                Some e \<Rightarrow> Inl e
              | None \<Rightarrow> rbind (debian_unescape (raw ! 1)) (\<lambda>root.
                  if root \<noteq> ''debian'' then Inl ErrInvalidName
                  else rbind (rmap debian_segment (drop 2 raw)) (\<lambda>decoded.
                    let rest = join ''/'' (drop 2 raw)
                    in if hd decoded = ''pool''
                       then (if length decoded < 2 then Inl ErrInvalidName
                             else Inr (pool_path ns rest (last decoded)))
                       else if hd decoded = ''dists''
                       then Inr \<lparr>dp_namespace = ns, dp_kind = PathIndex, dp_rest = rest,
                                 dp_file = '''', dp_pkg = '''', dp_version = ''''\<rparr>
                       else Inl ErrNotFound)))))"

definition index_content_type :: "string \<Rightarrow> string" where
  "index_content_type p =
     (if has_suffix p ''.gz'' then ''application/gzip''
      else if has_suffix p ''.xz'' then ''application/x-xz''
      else if has_suffix p ''.bz2'' then ''application/x-bzip2''
      else if has_suffix p ''.zst'' then ''application/zstd''
      else if has_suffix p ''.gpg'' then ''application/pgp-signature''
      else ''text/plain; charset=utf-8'')"

definition pool_content_type :: "string \<Rightarrow> string" where
  "pool_content_type name =
     (if has_suffix name ''.deb'' \<or> has_suffix name ''.udeb'' then ''application/vnd.debian.binary-package''
      else ''application/octet-stream'')"

definition index_neg_key :: "debian_path \<Rightarrow> string" where
  "index_neg_key p = ''debian:index:'' @ dp_rest p"

definition pool_neg_key :: "debian_path \<Rightarrow> string" where
  "pool_neg_key p = ''debian:pool:'' @ dp_pkg p @ '':'' @ dp_version p @ '':'' @ dp_file p"

definition index_cache_key :: "debian_path \<Rightarrow> string" where
  "index_cache_key p = ''debian:index:'' @ dp_rest p"

definition debian_upstream_url :: "spec \<Rightarrow> debian_path \<Rightarrow> string" where
  "debian_upstream_url sp p = trim_right_slash (px_upstream (sp_proxy sp)) @ ''/'' @ dp_rest p"

section \<open>Serving from the store\<close>

text \<open>\<open>serveCachedIndex\<close>: \<open>otherwise\<close> is what its caller does when it reports \<open>false\<close>.  Headers
  that it has set by then stay set.\<close>

definition serve_cached_index :: "'b store \<Rightarrow> request \<Rightarrow> debian_path \<Rightarrow> 'b hnd \<Rightarrow> 'b hnd" where
  "serve_cached_index s rq p otherwise =
     (let cf = store_cache s (index_cache_key p);
          body = (if rq_method rq = ''HEAD'' then h_done (write_header 200)
                  else h_try (file_read s cf) (\<lambda>e. otherwise)
                    (\<lambda>(data, broken). h_done (\<lambda>rw. copy_to_client data (write_header 200 rw))))
      in h_try (file_exists s cf) (\<lambda>e. otherwise)
           (\<lambda>ex. if \<not> ex then otherwise
            else h_then (header_set ''Content-Type'' (index_content_type (dp_rest p)))
              (h_try (file_meta s (rq_now rq) (rq_now rq) (rq_now rq) cf) (\<lambda>e. body)
                 (\<lambda>m. h_then
                    (\<lambda>rw. if m_size m > 0 then header_set ''Content-Length'' (format_int (m_size m)) rw else rw)
                    body))))"

definition pool_file :: "'b store \<Rightarrow> debian_path \<Rightarrow> file_handle" where
  "pool_file s p = new_file s (pkg_version (store_package (dp_pkg p)) (dp_version p)) (dp_file p)"

definition debian_serve_local :: "'b store \<Rightarrow> request \<Rightarrow> debian_path \<Rightarrow> 'b hnd" where
  "debian_serve_local s rq p =
     (case dp_kind p of
        PathPool \<Rightarrow>
          h_store (file_exists s (pool_file s p))
            (\<lambda>ex. if \<not> ex then h_done (write_store_error ErrNotFound)
             else redirect_or_stream_file s rq (pool_file s p) (pool_content_type (dp_file p)))
      | PathIndex \<Rightarrow> serve_cached_index s rq p (h_done (write_store_error ErrNotFound)))"

section \<open>The proxy\<close>

definition debian_head_index ::
  "'u upstream \<Rightarrow> 'b store \<Rightarrow> request \<Rightarrow> string \<Rightarrow> spec \<Rightarrow> debian_path
    \<Rightarrow> ('b world \<times> ('u, 'z) proxy_state_scheme) handler" where
  "debian_head_index up s rq ns sp p =
     (let stale = on_store (serve_cached_index s rq p (h_done write_upstream_unavailable))
      in h_up (client_head up (debian_upstream_url sp p))
           (\<lambda>res. case res of
              Inl e \<Rightarrow> stale
            | Inr resp \<Rightarrow>
                (if status_not_found (rs_status resp) then h_not_found rq ns format_debian (index_neg_key p)
                 else if status_ok (rs_status resp) then h_done (write_head_ok (index_content_type (dp_rest p)))
                 else stale)))"

definition debian_stream_index ::
  "'b store \<Rightarrow> request \<Rightarrow> debian_path \<Rightarrow> upstream_response \<Rightarrow> ('b world \<times> 'x) handler" where
  "debian_stream_index s rq p resp =
     tee_stream_to_store rq (ur_body resp) (index_content_type (dp_rest p)) (ur_length resp)
       (\<lambda>b. in_store (store_add_cache s (rq_now rq) (index_cache_key p) b)) (\<lambda>copy_err fill_err. h_done id)"

definition debian_serve_index ::
  "'u upstream \<Rightarrow> 'b store \<Rightarrow> request \<Rightarrow> string \<Rightarrow> spec \<Rightarrow> debian_path
    \<Rightarrow> ('b world \<times> ('u, 'z) proxy_state_scheme) handler" where
  "debian_serve_index up s rq ns sp p =
     (let stale = (\<lambda>bad. on_store (serve_cached_index s rq p (h_done bad)))
      in h_neg_has rq ns format_debian (index_neg_key p) (h_done (write_store_error ErrNotFound))
           (if rq_method rq = ''HEAD'' then debian_head_index up s rq ns sp p
            else h_up (client_stream up (debian_upstream_url sp p))
              (\<lambda>res. case res of
                 Inl e \<Rightarrow> stale write_upstream_unavailable
               | Inr resp \<Rightarrow>
                   (if status_not_found (ur_status resp) then h_not_found rq ns format_debian (index_neg_key p)
                    else if \<not> status_ok (ur_status resp)
                    then stale (if status_server_error (ur_status resp) then write_upstream_unavailable
                                else write_error 502 ''upstream index error'')
                    else debian_stream_index s rq p resp))))"

text \<open>A decision that needs a publish time denies.\<close>

definition debian_allow :: "(string \<Rightarrow> int option) \<Rightarrow> request \<Rightarrow> spec \<Rightarrow> debian_path \<Rightarrow> bool" where
  "debian_allow parse_dur rq sp p =
     (if px_filters (sp_proxy sp) = [] then True
      else case compile_chain parse_dur (px_filters (sp_proxy sp)) of
        Inl e \<Rightarrow> False
      | Inr ch \<Rightarrow>
          (let dec = decide_at ch \<lparr>ref_package = dp_pkg p, ref_version = dp_version p, ref_published_at = None\<rparr>
                 (rq_now rq)
           in if needs_metadata dec then False else allowed dec))"

definition debian_head_artifact ::
  "'u upstream \<Rightarrow> request \<Rightarrow> string \<Rightarrow> spec \<Rightarrow> debian_path \<Rightarrow> ('w \<times> ('u, 'z) proxy_state_scheme) handler" where
  "debian_head_artifact up rq ns sp p =
     h_up (client_head up (debian_upstream_url sp p))
       (\<lambda>res. case res of
          Inl e \<Rightarrow> h_done (write_error 502 ''upstream fetch failed'')
        | Inr resp \<Rightarrow>
            (if status_not_found (rs_status resp) then h_not_found rq ns format_debian (pool_neg_key p)
             else if status_ok (rs_status resp) then h_done (write_head_ok (pool_content_type (dp_file p)))
             else h_done (write_error 502 ''upstream unavailable'')))"

definition debian_artifact_annotations :: "(int \<Rightarrow> string) \<Rightarrow> debian_path \<Rightarrow> int \<Rightarrow> string \<Rightarrow> annotations" where
  "debian_artifact_annotations time p now upstream =
     [(''debian:file'', JStr (dp_file p)), (''debian:package'', JStr (dp_pkg p)),
      (''debian:version'', JStr (dp_version p)), (''debian:pool_path'', JStr (dp_rest p)),
      (''debian:uploaded_at'', JStr (time now))]
     @ (if upstream \<noteq> '''' then [(''debian:upstream_url'', JStr upstream)] else [])"

definition debian_record_parents :: "'b store \<Rightarrow> int \<Rightarrow> debian_path \<Rightarrow> ('b, unit) act" where
  "debian_record_parents s now p =
     act_bind
       (act_ensure (add_package s now (dp_pkg p) [WithAnnotations [(''debian:package'', JStr (dp_pkg p))]]))
       (\<lambda>_. act_ensure (pkg_add_version s now (store_package (dp_pkg p)) (dp_version p)
               [WithAnnotations [(''debian:version'', JStr (dp_version p))]]))"

text \<open>The layout of times and \<open>time.ParseDuration\<close> are parameters.\<close>

record debian_env =
  de_time :: "int \<Rightarrow> string"
  de_parse_dur :: "string \<Rightarrow> int option"

definition debian_stream_and_cache ::
  "debian_env \<Rightarrow> 'u upstream \<Rightarrow> 'b store \<Rightarrow> request \<Rightarrow> string \<Rightarrow> spec \<Rightarrow> debian_path
    \<Rightarrow> ('b world \<times> ('u, 'z) proxy_state_scheme) handler" where
  "debian_stream_and_cache E up s rq ns sp p =
     (let url = debian_upstream_url sp p
      in pull_artifact up rq ns format_debian (pool_neg_key p) url (pool_content_type (dp_file p))
           (\<lambda>b. in_store (version_add_file s (rq_now rq) (pkg_version (store_package (dp_pkg p)) (dp_version p))
                   (dp_file p) b [WithAnnotations (debian_artifact_annotations (de_time E) p (rq_now rq) url)]))
           (after_fill (in_store (debian_record_parents s (rq_now rq) p))))"

definition debian_serve_artifact ::
  "debian_env \<Rightarrow> 'u upstream \<Rightarrow> 'b store \<Rightarrow> request \<Rightarrow> string \<Rightarrow> spec \<Rightarrow> debian_path
    \<Rightarrow> ('b world \<times> ('u, 'z) proxy_state_scheme) handler" where
  "debian_serve_artifact E up s rq ns sp p =
     h_store (in_store (file_exists s (pool_file s p)))
       (\<lambda>ex. if ex then on_store (redirect_or_stream_file s rq (pool_file s p) (pool_content_type (dp_file p)))
        else h_neg_has rq ns format_debian (pool_neg_key p) (h_done (write_store_error ErrNotFound))
          (if rq_method rq = ''HEAD'' then debian_head_artifact up rq ns sp p
           else if \<not> debian_allow (de_parse_dur E) rq sp p then h_done (write_store_error ErrNotFound)
           else debian_stream_and_cache E up s rq ns sp p))"

definition debian_proxy_serve ::
  "debian_env \<Rightarrow> 'u upstream \<Rightarrow> request \<Rightarrow> debian_path \<Rightarrow> string \<Rightarrow> spec \<Rightarrow> 'b store
    \<Rightarrow> ('b world \<times> ('u, 'z) proxy_state_scheme) handler" where
  "debian_proxy_serve E up rq p ns sp s =
     (case dp_kind p of
        PathPool \<Rightarrow> debian_serve_artifact E up s rq ns sp p
      | PathIndex \<Rightarrow> debian_serve_index up s rq ns sp p)"

section \<open>Dispatch\<close>

definition debian_download ::
  "debian_env \<Rightarrow> ('b, 're) registry \<Rightarrow> 'u upstream \<Rightarrow> request
    \<Rightarrow> ('b, 're, ('u, 'z) proxy_state_scheme) sv_hnd" where
  "debian_download E r up rq =
     (case debian_parse_path (rq_escaped_path rq) of
        Inl e \<Rightarrow> h_done (write_store_error e)
      | Inr p \<Rightarrow>
          (let ns = dp_namespace p
           in open_store r rq ns format_debian NamespaceDataRead
                (\<lambda>st spec.
                   if is_proxy spec
                   then open_proxy_store r rq ns format_debian
                     (\<lambda>pst. sv_store pst (debian_proxy_serve E up rq p ns spec pst))
                   else sv_store st (on_store (debian_serve_local st rq p)))))"

definition debian_serve_http ::
  "debian_env \<Rightarrow> ('b, 're) registry \<Rightarrow> 'u upstream \<Rightarrow> request
    \<Rightarrow> ('b, 're, ('u, 'z) proxy_state_scheme) sv_hnd" where
  "debian_serve_http E r up rq =
     (if rq_method rq = ''GET'' \<or> rq_method rq = ''HEAD'' then debian_download E r up rq
      else h_done (write_method_not_allowed [''GET'', ''HEAD'']))"

definition debian_handler ::
  "debian_env \<Rightarrow> ('b, 're) registry \<Rightarrow> 'p oidc_lib \<Rightarrow> 'u upstream \<Rightarrow> request
    \<Rightarrow> ('p authn \<times> ('b, 're policy_cache) ns_world \<times> ('u, 'z) proxy_state_scheme) handler" where
  "debian_handler E r L up = auth_middleware (authenticate L) (debian_serve_http E r up)"

text \<open>The state of a new engine, for the configured lifetime of a remembered 404.\<close>

definition debian_new_proxy :: "int \<Rightarrow> 'u \<Rightarrow> 'u proxy_state" where
  "debian_new_proxy negative_ttl u = \<lparr>ps_neg = neg_new negative_ttl, ps_up = u\<rparr>"

end
