(* ===== verification/Debian_Laws.thy ===== *)
theory Debian_Laws
  imports Debian
begin

text \<open>What the Debian surface promises: it never writes for a hosted namespace, and a proxy's cache
  holds what the upstream delivered.\<close>

section \<open>Frames\<close>

lemma h_pres_cached_index:
  assumes "store_invariant st ok P" "h_pres P otherwise"
  shows "h_pres P (serve_cached_index st rq p otherwise)"
  unfolding serve_cached_index_def Let_def
  by (intro h_intros store_invariant.reads_pres [OF assms(1)] assms(2))

lemma debian_local_safe: "hnd_safe st ok (on_store (debian_serve_local st rq p))"
proof (rule hnd_safe_on_store)
  fix P
  assume inv: "store_invariant st ok P"
  note pres = h_intros store_invariant.reads_pres [OF inv] store_invariant.redirect_or_stream_pres [OF inv]
    h_pres_cached_index [OF inv]
  show "h_pres P (debian_serve_local st rq p)"
    unfolding debian_serve_local_def by (cases "dp_kind p") (simp_all only: debian_kind.case, (intro pres)+)
qed

definition debian_object :: "debian_path \<Rightarrow> store_object" where
  "debian_object p =
     (case dp_kind p of
        PathPool \<Rightarrow> VersionFile (dp_pkg p) (dp_version p) (dp_file p)
      | PathIndex \<Rightarrow> StoreCache (index_cache_key p))"

lemma debian_fills:
  "dp_kind p = PathPool \<Longrightarrow> fills_only st (debian_object p)
     (\<lambda>b. in_store (version_add_file st now (pkg_version (store_package (dp_pkg p)) (dp_version p)) (dp_file p) b opts))"
  "dp_kind p = PathIndex \<Longrightarrow> fills_only st (debian_object p)
     (\<lambda>b. in_store (store_add_cache st now (index_cache_key p) b))"
  unfolding fills_only_def debian_object_def
  by (auto intro!: h_intros store_invariant.writes_pres)

lemma debian_follows:
  "is_blob ob \<Longrightarrow> follows_fill st ob (after_fill (in_store (debian_record_parents st now p)))"
  "follows_fill st ob (\<lambda>copy_err fill_err. h_done id)"
proof -
  show "follows_fill st ob (after_fill (in_store (debian_record_parents st now p)))" if "is_blob ob"
    unfolding debian_record_parents_def
    by (rule follows_after_fill, intro h_intros store_invariant.writes_pres) (assumption | simp)+
  show "follows_fill st ob (\<lambda>copy_err fill_err. h_done id)"
    by (simp add: follows_fill_def h_pres_done) (simp add: h_done_def)
qed

lemma debian_proxy_safe: "hnd_safe st any_op (debian_proxy_serve E up rq p ns sp st)"
proof (rule hnd_safeI)
  fix P
  assume inv: "store_invariant st any_op P"
  note pres = h_intros store_invariant.method_pres [OF inv] store_invariant.redirect_or_stream_pres [OF inv]
    h_pres_cached_index [OF inv] any_op
  note defs = debian_proxy_serve_def debian_serve_artifact_def debian_serve_index_def debian_head_index_def
    debian_head_artifact_def debian_stream_index_def debian_stream_and_cache_def debian_record_parents_def
    pull_artifact_def after_fill_def h_not_found_def Let_def
  show "h_pres (\<lambda>u. P (fst u)) (debian_proxy_serve E up rq p ns sp st)"
    unfolding defs by (cases "dp_kind p") (simp_all only: debian_kind.case, (intro pres)+)
qed

section \<open>Who can change what\<close>

definition debian_may_change ::
  "('b, 're) registry \<Rightarrow> int \<Rightarrow> 'b \<Rightarrow> 'b reg_event list \<Rightarrow> request \<Rightarrow> string \<Rightarrow> bool" where
  "debian_may_change r ttl b es rq key \<longleftrightarrow>
     rq_method rq \<in> {''GET'', ''HEAD''}
     \<and> (\<exists>p. debian_parse_path (rq_escaped_path rq) = Inr p \<and> in_tenant r (dp_namespace p) format_debian key
          \<and> proxy_reader r ttl b es rq (dp_namespace p))"

lemma debian_changes:
  assumes "ct_hooks (rg_catalog r) = [policy_invalidate]" "blob_bucket (st_ops (rg_store r)) objs"
  shows "changes_at objs (reg_run r ttl b es, x) (debian_may_change r ttl b es rq) (debian_serve_http E r up rq)"
proof (cases "debian_parse_path (rq_escaped_path rq)")
  case (Inl e)
  then show ?thesis by (auto simp: debian_serve_http_def debian_download_def intro!: c_intros)
next
  case (Inr p)
  have "changes_at objs (reg_run r ttl b es, x) (debian_may_change r ttl b es rq) (debian_download E r up rq)"
    if "rq_method rq \<in> {''GET'', ''HEAD''}"
    unfolding debian_download_def Inr sum.case Let_def
  proof (intro c_proxy assms)
    show "debian_may_change r ttl b es rq key"
      if "proxy_reader r ttl b es rq (dp_namespace p)" "in_tenant r (dp_namespace p) format_debian key" for key
      using that Inr \<open>rq_method rq \<in> _\<close> by (auto simp: debian_may_change_def)
  qed (use assms(2) in \<open>auto intro!: changes_read debian_local_safe debian_proxy_safe\<close>)
  then show ?thesis
    unfolding debian_serve_http_def by (intro c_intros) auto
qed

section \<open>What the proxy caches\<close>

lemma debian_quiet: "hnd_safe st ok (on_store (serve_cached_index st rq p (h_done f)))"
  by (rule hnd_safe_on_store) (intro h_pres_cached_index h_pres_done)

lemma debian_head_quiet: "hnd_safe st ok (debian_head_index up st rq ns sp p)"
  unfolding debian_head_index_def h_not_found_def Let_def
  by (rule hnd_safeI, intro h_intros h_pres_cached_index) auto

text \<open>A cold request for an index file.\<close>

lemma debian_cold_index:
  assumes new: "new_bytes s objs ob w w' d" and kind: "dp_kind p = PathIndex"
    and run: "debian_serve_index up s rq ns sp p rw (w, x) = (rw', w', x')"
  obtains resp u where "rq_method rq \<noteq> ''HEAD''" "up ''GET'' (debian_upstream_url sp p) (ps_up x) = (Inr resp, u)"
    "status_ok (ur_status resp)" "ob = debian_object p" "ur_body resp = \<lparr>bd_data = d, bd_err = None\<rparr>"
    "rq_client rq = None" "unsent rw \<Longrightarrow> response_status rw' = 200 \<and> wr_body rw' = wr_body rw @ d"
proof -
  let ?miss = "if rq_method rq = ''HEAD'' then debian_head_index up s rq ns sp p
      else h_up (client_stream up (debian_upstream_url sp p))
        (\<lambda>res. case res of
           Inl e \<Rightarrow> on_store (serve_cached_index s rq p (h_done write_upstream_unavailable))
         | Inr resp \<Rightarrow>
             (if status_not_found (ur_status resp) then h_not_found rq ns format_debian (index_neg_key p)
              else if \<not> status_ok (ur_status resp)
              then on_store (serve_cached_index s rq p (h_done (if status_server_error (ur_status resp)
                       then write_upstream_unavailable else write_error 502 ''upstream index error'')))
              else debian_stream_index s rq p resp))"
  have stuck: "w' \<noteq> w" using new new_bytes_irrefl by metis
  have quiet: "hnd_safe s (uploads_only ob (\<lambda>_. False)) h \<Longrightarrow> h rw (w, y) \<noteq> (rw', w', x')" for h y
    using new_bytes_content [OF new] by metis
  obtain n where n: "?miss rw (w, x\<lparr>ps_neg := n\<rparr>) = (rw', w', x')"
    using run stuck unfolding debian_serve_index_def Let_def
    by (rule_tac h_neg_has_cases [of rq ns format_debian "index_neg_key p" "h_done (write_store_error ErrNotFound)" ?miss rw w x])
      (auto simp: h_done_def)
  have get: "rq_method rq \<noteq> ''HEAD''" using n quiet [OF debian_head_quiet] by (auto split: if_splits)
  obtain res u where up: "up ''GET'' (debian_upstream_url sp p) (ps_up x) = (res, u)" by (metis prod.collapse)
  obtain resp where res: "res = Inr resp" and st: "status_ok (ur_status resp)"
    and tee: "debian_stream_index s rq p resp rw (w, x\<lparr>ps_neg := n, ps_up := u\<rparr>) = (rw', w', x')"
    using n get up quiet [OF debian_quiet] stuck
    by (cases res) (auto simp: h_up_run client_stream_def h_not_found_def h_neg_mark_def h_done_def split: if_splits)
  from tee_caches [OF new debian_fills(2) [OF kind] debian_follows(2) tee [unfolded debian_stream_index_def]]
  show ?thesis using that [OF get, of resp u] up res st by simp
qed

lemma debian_cold_artifact:
  assumes new: "new_bytes s objs ob w w' d" and kind: "dp_kind p = PathPool"
    and run: "debian_serve_artifact E up s rq ns sp p rw (w, x) = (rw', w', x')"
  obtains resp u where "rq_method rq \<noteq> ''HEAD''" "debian_allow (de_parse_dur E) rq sp p"
    "up ''GET'' (debian_upstream_url sp p) (ps_up x) = (Inr resp, u)"
    "status_ok (ur_status resp)" "ob = debian_object p" "ur_body resp = \<lparr>bd_data = d, bd_err = None\<rparr>"
    "rq_client rq = None" "unsent rw \<Longrightarrow> response_status rw' = 200 \<and> wr_body rw' = wr_body rw @ d"
proof -
  from warm_miss [OF new run [unfolded debian_serve_artifact_def]] obtain w1 n where w1: "w_bucket w1 = w_bucket w"
    and n: "(if rq_method rq = ''HEAD'' then debian_head_artifact up rq ns sp p
       else if \<not> debian_allow (de_parse_dur E) rq sp p then h_done (write_store_error ErrNotFound)
       else debian_stream_and_cache E up s rq ns sp p) rw (w1, x\<lparr>ps_neg := n\<rparr>) = (rw', w', x')" by metis
  note new1 = new_bytes_cong [OF w1 new]
  have "w' \<noteq> w1" using new1 new_bytes_irrefl by metis
  moreover have "hnd_safe s (uploads_only ob (\<lambda>_. False)) (debian_head_artifact up rq ns sp p)"
    unfolding debian_head_artifact_def h_not_found_def by (rule hnd_safeI, intro h_intros)
  then have "debian_head_artifact up rq ns sp p rw (w1, y) \<noteq> (rw', w', x')" for y
    using new_bytes_content [OF new1] by metis
  ultimately have ok: "rq_method rq \<noteq> ''HEAD''" "debian_allow (de_parse_dur E) rq sp p"
    and pull: "debian_stream_and_cache E up s rq ns sp p rw (w1, x\<lparr>ps_neg := n\<rparr>) = (rw', w', x')"
    using n by (auto simp: h_done_def split: if_splits)
  show ?thesis
    by (rule pull_caches [OF new1 debian_fills(1) [OF kind] debian_follows(1) pull [unfolded debian_stream_and_cache_def Let_def]])
      (use that [OF ok] in auto)
qed

section \<open>Properties\<close>


text \<open>The store's location of a pool file leaves its directory out, so two files of an upstream that
  differ only in their directory share one; and some accepted names are not names of the store.\<close>

lemma pool_directory_ignored:
  "\<exists>p p'. debian_parse_path ''/n/debian/pool/main/a_1_x.deb'' = Inr p
     \<and> debian_parse_path ''/n/debian/pool/contrib/a_1_x.deb'' = Inr p'
     \<and> debian_upstream_url sp p \<noteq> debian_upstream_url sp p' \<and> debian_object p = debian_object p'
     \<and> pool_neg_key p = pool_neg_key p'"
proof -
  let ?p = "\<lambda>rest. \<lparr>dp_namespace = ''n'', dp_kind = PathPool, dp_rest = rest, dp_file = ''a_1_x.deb'', dp_pkg = ''a'',
      dp_version = ''1''\<rparr>"
  have "debian_parse_path ''/n/debian/pool/main/a_1_x.deb'' = Inr (?p ''pool/main/a_1_x.deb'')"
    "debian_parse_path ''/n/debian/pool/contrib/a_1_x.deb'' = Inr (?p ''pool/contrib/a_1_x.deb'')"
    by code_simp+
  then show ?thesis by (simp add: debian_upstream_url_def debian_object_def pool_neg_key_def)
qed

lemma accepted_pool_version_invalid:
  "\<exists>p. debian_parse_path ''/n/debian/pool/a_.1_x.deb'' = Inr p \<and> \<not> valid_name (dp_version p)"
proof -
  have "debian_parse_path ''/n/debian/pool/a_.1_x.deb'' = Inr
      \<lparr>dp_namespace = ''n'', dp_kind = PathPool, dp_rest = ''pool/a_.1_x.deb'', dp_file = ''a_.1_x.deb'', dp_pkg = ''a'',
       dp_version = ''.1''\<rparr>" by code_simp
  then show ?thesis by (simp add: valid_name_iff)
qed

definition demo_index_path :: debian_path where
  "demo_index_path = \<lparr>dp_namespace = ''n'', dp_kind = PathIndex, dp_rest = ''dists/InRelease'', dp_file = '''',
     dp_pkg = '''', dp_version = ''''\<rparr>"

definition demo_debian_get where
  "demo_debian_get =
     debian_proxy_serve \<lparr>de_time = (\<lambda>_. ''t''), de_parse_dur = (\<lambda>_. None)\<rparr> (demo_upstream 200 ''idx'')
       (demo_request ''GET'' '''' '''') demo_index_path ''n'' (demo_site_spec ''proxy'') (demo_store None) fresh_writer
       (demo_world [], \<lparr>ps_neg = neg_new 30, ps_up = ()\<rparr>)"


end
