(* ===== verification/Npm_Names.thy ===== *)
theory Npm_Names
  imports Npm_Name Blob_Properties
begin

text \<open>
  The npm codec: package names survive their store form and are valid names of the store, and the
  stream of an attachment delivers the bytes that were encoded.
\<close>

section \<open>Names\<close>

lemma name_segment_None:
  "validate_name_segment s = None \<longleftrightarrow> s \<noteq> '''' \<and> list_all name_char s \<and> hd s \<noteq> CHR ''.'' \<and> hd s \<noteq> CHR ''_''"
  by (cases s) (auto simp: validate_name_segment_def has_prefix_def list_all_iff list_ex_iff split: if_splits)

lemma name_char_plain: "name_char c \<Longrightarrow> c \<noteq> CHR ''/'' \<and> c \<noteq> CHR 0x00 \<and> c \<noteq> CHR ''@''"
  by (auto simp: name_char_def is_lower_def is_digit_def)

lemma index_byte_nonneg: "\<not> index_byte s c < 0 \<longleftrightarrow> c \<in> set s"
  by (simp add: index_byte_def)

lemma index_byte_split:
  "c \<in> set s \<Longrightarrow> s = take (nat (index_byte s c)) s @ c # drop (nat (index_byte s c) + 1) s"
proof -
  assume c: "c \<in> set s"
  then have d: "dropWhile (\<lambda>x. x \<noteq> c) s = c # tl (dropWhile (\<lambda>x. x \<noteq> c) s)"
    by (metis (mono_tags, lifting) dropWhile_eq_Nil_conv hd_Cons_tl hd_dropWhile)
  have i: "nat (index_byte s c) = length (takeWhile (\<lambda>x. x \<noteq> c) s)" using c by (simp add: index_byte_def)
  have "take (nat (index_byte s c)) s = takeWhile (\<lambda>x. x \<noteq> c) s" unfolding i by (rule takeWhile_eq_take [symmetric])
  moreover have "drop (nat (index_byte s c) + 1) s = tl (dropWhile (\<lambda>x. x \<noteq> c) s)"
    unfolding i by (simp add: dropWhile_eq_drop tl_drop drop_Suc)
  ultimately show ?thesis using d by (metis takeWhile_dropWhile_id)
qed

lemma index_byte_at: "c \<notin> set a \<Longrightarrow> index_byte (a @ c # b) c = int (length a)"
proof -
  assume "c \<notin> set a"
  then have "takeWhile (\<lambda>x. x \<noteq> c) (a @ c # b) = a" by (subst takeWhile_append2) auto
  then show ?thesis by (simp add: index_byte_def)
qed

text \<open>The two wire forms.\<close>

lemma parse_package_name_Inr:
  assumes "parse_package_name raw = Inr p"
  obtains (plain) "p = \<lparr>pn_original = raw, pn_scope = '''', pn_name = raw\<rparr>" "validate_name_segment raw = None"
  | (scoped) scope name where "raw = ''@'' @ scope @ ''/'' @ name"
      "p = \<lparr>pn_original = raw, pn_scope = scope, pn_name = name\<rparr>"
      "validate_name_segment scope = None" "validate_name_segment name = None"
proof (cases "has_prefix raw ''@''")
  case True
  then obtain rest where raw: "raw = CHR ''@'' # rest" by (auto simp: has_prefix_def prefix_def)
  with assms have "\<not> index_byte rest CHR ''/'' < 0"
    by (auto simp: parse_package_name_def has_prefix_def Let_def split: if_splits)
  then have "CHR ''/'' \<in> set rest" by (simp add: index_byte_nonneg)
  from index_byte_split [OF this] assms raw show ?thesis
    by (intro scoped [of "take (nat (index_byte rest CHR ''/'')) rest" "drop (nat (index_byte rest CHR ''/'') + 1) rest"])
      (auto simp: parse_package_name_def has_prefix_def Let_def split: if_splits option.splits)
next
  case False
  with assms show ?thesis
    by (intro plain) (auto simp: parse_package_name_def Let_def split: if_splits option.splits)
qed

text \<open>C40: package names survive the store: an accepted name is recovered exactly from its store form,
  which is a valid name of the store; so distinct names never share a package.\<close>

theorem npm_names_roundtrip:
  assumes "parse_package_name raw = Inr p"
  shows "decode_core_package (pn_core p) = Inr p \<and> pn_original p = raw \<and> valid_name (pn_core p)"
  using assms
proof (cases rule: parse_package_name_Inr)
  case plain
  then have "raw \<noteq> ''''" by (simp add: name_segment_None)
  with plain show ?thesis
    by (auto simp: pn_core_def pn_scoped_def decode_core_package_def has_prefix_def valid_name_iff)
next
  case (scoped scope name)
  then have s: "scope \<noteq> ''''" "CHR ''/'' \<notin> set scope"
    using name_char_plain by (auto simp: name_segment_None list_all_iff)
  from index_byte_at [OF s(2), of name] scoped s show ?thesis
    by (auto simp: pn_core_def pn_scoped_def decode_core_package_def has_prefix_def valid_name_iff Let_def)
qed

theorem npm_names_roundtrip_witness:
  "decode_core_package (pn_core \<lparr>pn_original = ''@s/p'', pn_scope = ''s'', pn_name = ''p''\<rparr>)
    = Inr \<lparr>pn_original = ''@s/p'', pn_scope = ''s'', pn_name = ''p''\<rparr>"
proof -
  have "parse_package_name ''@s/p'' = Inr \<lparr>pn_original = ''@s/p'', pn_scope = ''s'', pn_name = ''p''\<rparr>" by code_simp
  from npm_names_roundtrip [OF this] show ?thesis by simp
qed

section \<open>Attachments\<close>

lemma dvd_steps:
  "3 dvd Suc (Suc (Suc n)) \<longleftrightarrow> 3 dvd n" "\<not> 3 dvd Suc 0" "\<not> 3 dvd Suc (Suc 0)"
  "4 dvd Suc (Suc (Suc (Suc n))) \<longleftrightarrow> 4 dvd n"
  by presburger+

lemma b64_encode_length: "4 dvd length (b64_encode s)"
  by (induction s rule: b64_encode.induct) (auto simp: Let_def dvd_steps)

lemma b64_encode_append:
  "3 dvd length a \<Longrightarrow> b64_encode (a @ b) = b64_encode a @ b64_encode b"
  by (induction a rule: b64_encode.induct) (auto simp: Let_def dvd_steps)

lemma b64_encode_length3: "3 dvd length a \<Longrightarrow> length (b64_encode a) = length a div 3 * 4"
  by (induction a rule: b64_encode.induct) (auto simp: Let_def dvd_steps)

lemma b64_encode_bound: "3 * length (b64_encode s) \<le> 4 * (length s + 2)"
  by (induction s rule: b64_encode.induct) (auto simp: Let_def)

lemma b64_chunk_encode: "b64_chunk (b64_encode s) = (s, True)"
proof (induction s rule: b64_encode.induct)
  case (2 x)
  have "b64_quanta std_alphabet True (b64_encode [x]) = Some [x]" by (rule b64_quanta_encode)
  then show ?case by (simp add: Let_def)
next
  case (3 x y)
  have "b64_quanta std_alphabet True (b64_encode [x, y]) = Some [x, y]" by (rule b64_quanta_encode)
  then show ?case by (simp add: Let_def)
next
  case (4 x y z rest)
  have q: "b64_quanta std_alphabet True (b64_encode [x, y, z]) = Some [x, y, z]" by (rule b64_quanta_encode)
  have "(of_char z :: nat) mod 64 < length std_alphabet" by (simp add: std_alphabet_facts)
  then have "std_alphabet ! (of_char z mod 64) \<in> set std_alphabet" by (rule nth_mem)
  then have "std_alphabet ! (of_char z mod 64) \<noteq> CHR ''=''"
    using std_alphabet_facts(3) by (auto simp: list_all_iff)
  with 4 q show ?case by (simp add: Let_def del: b64_quanta.simps)
qed simp

lemma b64_encode_no_breaks:
  "filter (\<lambda>c. c \<noteq> CHR 0x0A \<and> c \<noteq> CHR 0x0D) (b64_encode s) = b64_encode s"
  using b64_encode_chars [of _ s] std_alphabet_facts(3) by (auto simp: filter_id_conv list_all_iff)

lemma b64_stream_chunk:
  assumes "r \<noteq> []" "take 1024 r = b64_encode s"
  shows "b64_stream out [] r = b64_stream (out @ s) [] (drop 1024 r)"
proof -
  have ne: "b64_encode s \<noteq> []" using assms by (metis take_eq_Nil zero_neq_numeral)
  then have l: "\<not> length (b64_encode s) < 4" "length (b64_encode s) div 4 * 4 = length (b64_encode s)"
    using b64_encode_length [of s] by (auto dest: dvd_imp_le)
  have "b64_stream out [] r = b64_stream out (b64_encode s) (drop 1024 r)"
    using assms by (subst b64_stream.simps) (simp add: b64_encode_no_breaks)
  also have "\<dots> = b64_stream (out @ s) [] (drop 1024 r)"
    using l by (subst b64_stream.simps) (simp add: b64_chunk_encode)
  finally show ?thesis .
qed

lemma b64_stream_end: "b64_stream out [] [] = bytes_body out"
  by (subst b64_stream.simps) simp

lemma b64_stream_long:
  assumes "768 \<le> length s"
  shows "b64_stream out [] (b64_encode s) = b64_stream (out @ take 768 s) [] (b64_encode (drop 768 s))"
proof -
  have "length (take 768 s) = 768" using assms by simp
  then have e: "b64_encode s = b64_encode (take 768 s) @ b64_encode (drop 768 s)" "length (b64_encode (take 768 s)) = 1024"
    using b64_encode_append [of "take 768 s" "drop 768 s"] b64_encode_length3 [of "take 768 s"]
    by simp_all
  then have "b64_encode s \<noteq> []" "take 1024 (b64_encode s) = b64_encode (take 768 s)"
    "drop 1024 (b64_encode s) = b64_encode (drop 768 s)" by auto
  then show ?thesis by (simp add: b64_stream_chunk)
qed

lemma b64_stream_short:
  assumes "length s < 768" "s \<noteq> []"
  shows "b64_stream out [] (b64_encode s) = bytes_body (out @ s)"
proof -
  have "length (b64_encode s) \<le> 1024"
    using b64_encode_bound [of s] assms(1) b64_encode_length [of s] by auto
  moreover have "b64_encode s \<noteq> []" using assms(2) by (cases s rule: b64_encode.cases) (auto simp: Let_def)
  ultimately show ?thesis by (simp add: b64_stream_chunk b64_stream_end)
qed

lemma b64_stream_encode: "b64_stream out [] (b64_encode s) = bytes_body (out @ s)"
proof (induction "length s" arbitrary: s out rule: less_induct)
  case less
  consider "s = []" | "s \<noteq> []" "length s < 768" | "768 \<le> length s" by fastforce
  then show ?case
  proof cases
    case 1
    then show ?thesis by (simp add: b64_stream_end)
  next
    case 2
    then show ?thesis by (simp add: b64_stream_short)
  next
    case 3
    have "b64_stream (out @ take 768 s) [] (b64_encode (drop 768 s)) = bytes_body ((out @ take 768 s) @ drop 768 s)"
      by (rule less) (use 3 in auto)
    with b64_stream_long [OF 3] show ?thesis by simp
  qed
qed

text \<open>Whatever its length, an attachment is decoded to the bytes that the client encoded.\<close>

lemma tarball_stream_encode: "tarball_stream (b64_encode bytes) = bytes_body bytes"
  by (simp add: tarball_stream_def trim_space_b64 b64_stream_encode)

end
