(* ===== verification/Fetch_Laws.thy ===== *)
theory Fetch_Laws
  imports Memo_Fetch Upload_Laws
begin

text \<open>
  Where a document served by a metadata fetch comes from: the burst memo, the store (the snapshot or
  a synthesized document), or a parsed successful answer of the upstream at the document's URL.
\<close>

definition stored_document ::
  "(string \<Rightarrow> 'v option) \<Rightarrow> 'b store \<Rightarrow> string \<Rightarrow> ('b, 'v option) act \<Rightarrow> 'b world \<Rightarrow> 'v \<Rightarrow> bool" where
  "stored_document decode s key synth w v \<longleftrightarrow>
     (\<exists>w1. w_bucket w1 = w_bucket w
        \<and> (fst (read_snapshot decode s (store_cache s key) w1) = Inr (Some v) \<or> fst (synth w1) = Inr (Some v)))"

definition fetched_document ::
  "'u upstream \<Rightarrow> http_client \<Rightarrow> string \<Rightarrow> (response \<Rightarrow> 'v option) \<Rightarrow> 'u \<Rightarrow> 'v \<Rightarrow> bool" where
  "fetched_document up hc url parse u v \<longleftrightarrow>
     (\<exists>resp u'. client_get up hc url u = (Inr resp, u') \<and> status_ok (rs_status resp) \<and> parse resp = Some v)"

lemma stored_document_cong:
  "w_bucket w1 = w_bucket w \<Longrightarrow> stored_document d s key synth w1 = stored_document d s key synth w"
  unfolding stored_document_def by simp

text \<open>A fetch in continuation style calls its continuation once; it makes only calls \<open>ok\<close> allows, and
  what it hands on satisfies \<open>K\<close>.\<close>

definition delivers ::
  "'b store \<Rightarrow> (store_op \<Rightarrow> bool) \<Rightarrow> ('v \<Rightarrow> bool)
    \<Rightarrow> (('v res \<Rightarrow> ('b world \<times> 'x) handler) \<Rightarrow> ('b world \<times> 'x) handler) \<Rightarrow> 'b world \<Rightarrow> 'x \<Rightarrow> bool" where
  "delivers s ok K H w x \<longleftrightarrow>
     (\<forall>k rw. \<exists>r w1 x1. H k rw (w, x) = k r rw (w1, x1) \<and> (\<forall>P. store_invariant s ok P \<longrightarrow> P w \<longrightarrow> P w1)
        \<and> (\<forall>v. r = Inr v \<longrightarrow> K v))"

lemma deliversD:
  assumes "delivers s ok K H w x"
  shows "\<exists>r w1 x1. H k rw (w, x) = k r rw (w1, x1) \<and> (\<forall>P. store_invariant s ok P \<longrightarrow> P w \<longrightarrow> P w1)
    \<and> (\<forall>v. r = Inr v \<longrightarrow> K v)"
  using assms unfolding delivers_def by blast

lemma deliversI:
  assumes "\<And>k rw. \<exists>r w1 x1. H k rw (w, x) = k r rw (w1, x1) \<and> (\<forall>P. store_invariant s ok P \<longrightarrow> P w \<longrightarrow> P w1)
    \<and> (\<forall>v. r = Inr v \<longrightarrow> K v)"
  shows "delivers s ok K H w x"
  using assms unfolding delivers_def by blast

section \<open>The fallback\<close>

lemma keeps_after: "keeps m \<Longrightarrow> w_bucket (after m w) = w_bucket w"
  by (simp add: keeps_def)

lemma act_catch_run:
  "fst (act_catch m f w) = fst (f (fst (m w)) (after m w))"
  by (simp add: act_catch_def split: prod.split)

lemma act_bind_result:
  assumes "fst (act_bind m f w) = Inr y"
  obtains x where "fst (m w) = Inr x" "fst (f x (after m w)) = Inr y"
  using assms by (auto simp: act_bind_def split: prod.splits sum.splits)

lemma fallback_stored:
  assumes "fst (fallback_document decode s key synth w) = Inr v"
  shows "stored_document decode s key synth w v"
proof -
  let ?cf = "store_cache s key"
  from assms [unfolded fallback_document_def] obtain r where
    r: "fst (existing_snapshot decode s ?cf w) = Inr r"
    and v: "fst ((case r of Some p \<Rightarrow> act_ret p
      | None \<Rightarrow> act_bind synth (\<lambda>r. case r of Some p \<Rightarrow> act_ret p | None \<Rightarrow> act_fail err_upstream_unavailable))
        (after (existing_snapshot decode s ?cf) w)) = Inr v"
    by (rule act_bind_result)
  have kept: "w_bucket (after (existing_snapshot decode s ?cf) w) = w_bucket w"
    by (rule keeps_after) (intro keeps_intros)
  show ?thesis
  proof (cases r)
    case None
    with v have "fst (synth (after (existing_snapshot decode s ?cf) w)) = Inr (Some v)"
      by (auto elim!: act_bind_result simp: act_ret_def act_fail_def split: option.splits)
    with kept show ?thesis unfolding stored_document_def by metis
  next
    case (Some p)
    with v have p: "p = v" by (simp add: act_ret_def)
    have "w_bucket (after (file_exists s ?cf) w) = w_bucket w" by (rule keeps_after) (intro keeps_intros)
    moreover from r Some p have "fst (read_snapshot decode s ?cf (after (file_exists s ?cf) w)) = Inr (Some v)"
      by (auto simp: existing_snapshot_def act_catch_run act_ret_def split: sum.splits if_splits)
    ultimately show ?thesis unfolding stored_document_def by metis
  qed
qed

section \<open>The fetch\<close>

lemma store_act_preserves:
  "act_pres P m \<Longrightarrow> P w \<Longrightarrow> P (after m w)"
  by (simp add: act_pres_def)

lemma refresh_delivers:
  assumes cache: "\<And>b. ok (OpAddCache (rq_now rq) LStore key b)" and synth: "keeps synth"
  shows "delivers s ok
    (\<lambda>v. stored_document decode s key synth w v \<or> fetched_document up hc url parse (ps_up x) v)
    (refresh_document up hc s rq ns fmt key url parse pr (fallback_document decode s key synth)) w x"
proof (rule deliversI)
  fix k rw
  let ?fb = "fallback_document decode s key synth"
  let ?K = "\<lambda>v. stored_document decode s key synth w v \<or> fetched_document up hc url parse (ps_up x) v"
  obtain res u where get: "client_get up hc url (ps_up x) = (res, u)" by (metis prod.collapse)
  let ?x = "x\<lparr>ps_up := u\<rparr>"
  have fall: "\<exists>r w1. h_try (in_store ?fb) (\<lambda>e. k (Inl e)) (\<lambda>p. k (Inr p)) rw (w, ?x) = k r rw (w1, ?x)
      \<and> (\<forall>P. store_invariant s ok P \<longrightarrow> P w \<longrightarrow> P w1) \<and> (\<forall>v. r = Inr v \<longrightarrow> ?K v)"
  proof (intro exI conjI allI impI)
    show "h_try (in_store ?fb) (\<lambda>e. k (Inl e)) (\<lambda>p. k (Inr p)) rw (w, ?x) = k (result ?fb w) rw (after ?fb w, ?x)"
      by (auto simp: h_try_def in_store_def split: prod.split sum.split)
    show "P (after ?fb w)" if "store_invariant s ok P" "P w" for P
      by (rule store_act_preserves [OF store_invariant.keeps_pres [OF that(1)] that(2)])
        (intro keeps_intros synth)
    show "?K v" if "result ?fb w = Inr v" for v
      using fallback_stored [OF that] by blast
  qed
  show "\<exists>r w1 x1. refresh_document up hc s rq ns fmt key url parse pr ?fb k rw (w, x) = k r rw (w1, x1)
      \<and> (\<forall>P. store_invariant s ok P \<longrightarrow> P w \<longrightarrow> P w1) \<and> (\<forall>v. r = Inr v \<longrightarrow> ?K v)"
  proof (cases "\<exists>resp p. res = Inr resp \<and> \<not> status_not_found (rs_status resp) \<and> status_ok (rs_status resp) \<and> parse resp = Some p")
    case True
    then obtain resp p where ok: "res = Inr resp" "\<not> status_not_found (rs_status resp)" "status_ok (rs_status resp)"
      "parse resp = Some p" by blast
    let ?add = "store_add_cache s (rq_now rq) key (bytes_body (pr p))"
    show ?thesis
    proof (intro exI conjI allI impI)
      show "refresh_document up hc s rq ns fmt key url parse pr ?fb k rw (w, x)
          = k (Inr p) rw (after ?add w, ?x\<lparr>ps_neg := neg_delete ns fmt key (ps_neg ?x)\<rparr>)"
        using ok get by (auto simp: refresh_document_def Let_def h_up_run h_best_effort_def h_try_def in_store_def h_neg_delete_def
            split: prod.split sum.split)
      show "P (after ?add w)" if "store_invariant s ok P" "P w" for P
        by (rule store_act_preserves [OF store_invariant.writes_pres(9) [OF that(1) cache] that(2)])
      show "?K v" if "Inr p = Inr v" for v
        using that ok get unfolding fetched_document_def by blast
    qed
  next
    case False
    show ?thesis
    proof (cases "\<exists>resp. res = Inr resp \<and> status_not_found (rs_status resp)")
      case True
      then have "refresh_document up hc s rq ns fmt key url parse pr ?fb k rw (w, x)
          = k (Inl ErrNotFound) rw (w, ?x\<lparr>ps_neg := neg_mark (rq_now rq) ns fmt key (ps_neg ?x)\<rparr>)"
        using get by (auto simp: refresh_document_def Let_def h_up_run h_neg_mark_def)
      then show ?thesis by blast
    next
      case nf: False
      have "refresh_document up hc s rq ns fmt key url parse pr ?fb k rw (w, x)
          = h_try (in_store ?fb) (\<lambda>e. k (Inl e)) (\<lambda>p. k (Inr p)) rw (w, ?x)"
        using get nf False by (cases res) (auto simp: refresh_document_def Let_def h_up_run split: option.splits)
      with fall show ?thesis by metis
    qed
  qed
qed

lemma fetch_delivers:
  assumes load: "\<And>n. delivers s ok K load w (x\<lparr>ps_neg := n\<rparr>)"
  shows "delivers s ok (\<lambda>v. burst_get ttl (rq_now rq) (memo_key ns name) (ms_memo x) = Some v \<or> K v)
    (fetch_document ttl rq ns fmt name nk load) w x"
proof (rule deliversI)
  fix k rw
  let ?m = "memo_key ns name"
  let ?put = "\<lambda>v y. y\<lparr>ms_memo := burst_put ttl (rq_now rq) ?m v (ms_memo y)\<rparr>"
  show "\<exists>r w1 x1. fetch_document ttl rq ns fmt name nk load k rw (w, x) = k r rw (w1, x1)
      \<and> (\<forall>P. store_invariant s ok P \<longrightarrow> P w \<longrightarrow> P w1)
      \<and> (\<forall>v. r = Inr v \<longrightarrow> burst_get ttl (rq_now rq) ?m (ms_memo x) = Some v \<or> K v)"
  proof (cases "burst_get ttl (rq_now rq) ?m (ms_memo x)")
    case (Some v)
    then have "fetch_document ttl rq ns fmt name nk load k rw (w, x) = k (Inr v) rw (w, x)"
      by (simp add: fetch_document_def h_memo_get_def Let_def)
    with Some show ?thesis by blast
  next
    case None
    obtain has n where neg: "neg_has (rq_now rq) ns fmt nk (ps_neg x) = (has, n)" by (metis prod.collapse)
    show ?thesis
    proof (cases has)
      case True
      with None neg have "fetch_document ttl rq ns fmt name nk load k rw (w, x) = k (Inl ErrNotFound) rw (w, x\<lparr>ps_neg := n\<rparr>)"
        by (simp add: fetch_document_def h_memo_get_def h_neg_has_def Let_def)
      then show ?thesis by blast
    next
      case False
      let ?k = "\<lambda>r. case r of Inl e \<Rightarrow> k (Inl e) | Inr v \<Rightarrow> h_memo_put ttl rq ?m v (k (Inr v))"
      have run: "fetch_document ttl rq ns fmt name nk load k rw (w, x) = load ?k rw (w, x\<lparr>ps_neg := n\<rparr>)"
        using None neg False by (simp add: fetch_document_def h_memo_get_def h_neg_has_def Let_def)
      from deliversD [OF load [of n], of ?k rw] obtain r w1 x1 where
        d: "load ?k rw (w, x\<lparr>ps_neg := n\<rparr>) = ?k r rw (w1, x1)"
          "\<forall>P. store_invariant s ok P \<longrightarrow> P w \<longrightarrow> P w1" "\<forall>v. r = Inr v \<longrightarrow> K v"
        by (elim exE conjE)
      have "\<exists>x2. ?k r rw (w1, x1) = k r rw (w1, x2)"
        by (cases r) (auto simp: h_memo_put_def)
      with run d show ?thesis by metis
    qed
  qed
qed

section \<open>Blobs around a fetch\<close>

text \<open>Steps that upload nothing to a blob are passed over when its new bytes are traced back.\<close>

lemma new_bytes_pass:
  assumes new: "new_bytes s objs ob w w' d"
    and keep: "\<And>P. store_invariant s (uploads_only ob (\<lambda>_. False)) P \<Longrightarrow> P w \<Longrightarrow> P w1"
  shows "new_bytes s objs ob w1 w' d"
proof (cases "valid_object ob")
  case True
  from new have ob: "is_blob ob" "blob_bucket (st_ops s) objs" by (simp_all add: new_bytes_def)
  have "holds_only s objs ob (abs_store objs s w ob) (\<lambda>_. False) w1"
    by (rule keep [OF holds_only_invariant [OF True ob(1)]]) (simp add: holds_only_def)
  with new ob show ?thesis by (auto simp: new_bytes_def holds_only_def)
next
  case False
  with new show ?thesis by (auto simp: new_bytes_def abs_store_def)
qed

lemma new_bytes_quiet:
  assumes "new_bytes s objs ob w w' d" "hnd_safe s (uploads_only ob (\<lambda>_. False)) h"
  shows "h rw (w, x) \<noteq> (rw', w', x')"
  using new_bytes_content [OF assms] by metis

lemma store_miss:
  fixes w :: "'b world"
  assumes new: "new_bytes s objs ob w w' d" and m: "keeps m"
    and run: "h_store (in_store m) k rw (w, x) = (rw', w', x')"
  obtains v w1 where "result m w = Inr v" "w_bucket w1 = w_bucket w" "new_bytes s objs ob w1 w' d"
    "k v rw (w1, x) = (rw', w', x')"
proof -
  obtain res w1 where ex: "m w = (res, w1)" by (metis prod.collapse)
  with m have w1: "w_bucket w1 = w_bucket w" by (metis keeps_def snd_conv)
  note new1 = new_bytes_cong [OF w1 new]
  have stuck: "w' \<noteq> w1" using new1 new_bytes_irrefl by metis
  with run ex obtain v where "res = Inr v" "k v rw (w1, x) = (rw', w', x')"
    by (auto simp: h_store_def h_try_def in_store_def h_done_def split: sum.splits)
  with that ex w1 new1 show ?thesis by simp
qed

text \<open>What a request writes after a document was handed on.\<close>

lemma delivered_new:
  fixes w :: "'b world"
  assumes new: "new_bytes s objs ob w w' d" and H: "delivers s (uploads_only ob (\<lambda>_. False)) K H w x"
    and run: "H (\<lambda>r. case r of Inl e \<Rightarrow> h_done (g e) | Inr v \<Rightarrow> k v) rw (w, x) = (rw', w', x')"
  obtains v w1 x1 where "K v" "new_bytes s objs ob w1 w' d" "k v rw (w1, x1) = (rw', w', x')"
proof -
  let ?k = "\<lambda>r. case r of Inl e \<Rightarrow> h_done (g e) | Inr v \<Rightarrow> k v"
  from deliversD [OF H, of ?k rw] obtain r w1 x1 where h: "H ?k rw (w, x) = ?k r rw (w1, x1)"
    and pass: "\<forall>P. store_invariant s (uploads_only ob (\<lambda>_. False)) P \<longrightarrow> P w \<longrightarrow> P w1"
    and src: "\<forall>v. r = Inr v \<longrightarrow> K v" by (elim exE conjE)
  have new1: "new_bytes s objs ob w1 w' d" by (rule new_bytes_pass [OF new]) (use pass in blast)
  show ?thesis
  proof (cases r)
    case (Inl e)
    with h run new1 show ?thesis by (auto simp: h_done_def new_bytes_irrefl)
  next
    case (Inr v)
    with that [OF _ new1] src h run show ?thesis by simp
  qed
qed

text \<open>A request that writes did not find its file.\<close>

lemma file_miss:
  fixes w :: "'b world"
  assumes new: "new_bytes s objs ob w w' d"
    and run: "h_store (in_store (file_exists s f)) (\<lambda>ex. if ex then on_store (redirect_or_stream_file s rq f ct) else miss)
        rw (w, x) = (rw', w', x')"
  obtains w1 where "w_bucket w1 = w_bucket w" "new_bytes s objs ob w1 w' d" "miss rw (w1, x) = (rw', w', x')"
proof -
  have "keeps (file_exists s f)" by (intro keeps_intros)
  from store_miss [OF new this run] obtain ex w1 where
    w1: "w_bucket w1 = w_bucket w" "new_bytes s objs ob w1 w' d"
    and go: "(if ex then on_store (redirect_or_stream_file s rq f ct) else miss) rw (w1, x) = (rw', w', x')" by metis
  have "hnd_safe s (uploads_only ob (\<lambda>_. False)) (on_store (redirect_or_stream_file s rq f ct))"
    by (rule hnd_safe_on_store) (rule store_invariant.redirect_or_stream_pres)
  from new_bytes_quiet [OF w1(2) this, of rw x rw' x'] go that [OF w1] show ?thesis by (simp split: if_splits)
qed

section \<open>Objects left alone\<close>

text \<open>Calls that do not touch an object leave it as it is.\<close>

definition spares :: "store_object \<Rightarrow> store_op \<Rightarrow> bool" where
  "spares ob op \<longleftrightarrow> ob \<notin> set (op_objects op)"

definition holds :: "'b store \<Rightarrow> ('b \<Rightarrow> string \<rightharpoonup> string) \<Rightarrow> store_object \<Rightarrow> string option \<Rightarrow> 'b world \<Rightarrow> bool" where
  "holds s objs ob v w \<longleftrightarrow> (blob_bucket (st_ops s) objs \<longrightarrow> abs_store objs s w ob = v)"

lemma spares_invariant: "store_invariant s (spares ob) (holds s objs ob v)"
proof
  show "holds s objs ob v w \<longleftrightarrow> holds s objs ob v w'" if "w_bucket w = w_bucket w'" for w w'
    using that by (simp add: holds_def abs_store_def)
next
  fix op
  assume op: "spares ob op"
  show "act_pres (holds s objs ob v) (run_op s op)"
    unfolding act_pres_def holds_def
  proof (intro allI impI)
    fix w
    assume w: "blob_bucket (st_ops s) objs \<longrightarrow> abs_store objs s w ob = v" and b: "blob_bucket (st_ops s) objs"
    show "abs_store objs s (after (run_op s op) w) ob = v"
    proof (cases "valid_object ob")
      case True
      from blob_bucket.run_op_frame [OF b prod.collapse [symmetric] refl True, of op w] op w b True show ?thesis
        by (simp add: abs_store_def spares_def)
    qed (use w b in \<open>simp add: abs_store_def\<close>)
  qed
qed

lemma spared:
  assumes "act_pres (holds s objs ob (abs_store objs s w ob)) m" "blob_bucket (st_ops s) objs"
  shows "abs_store objs s (after m w) ob = abs_store objs s w ob"
  using store_act_preserves [OF assms(1), of w] assms(2) by (simp add: holds_def)

text \<open>A successful \<open>AddFile\<close> of a version in the terms of the abstract store.\<close>

lemma version_file_stored:
  assumes "blob_bucket (st_ops s) objs" "\<And>d. st_decode s d \<noteq> Inl ErrNotFound"
    and "version_add_file s now (pkg_version (store_package P) V) n b opts w = (Inr f, w1)"
  obtains "abs_store objs s w1 (VersionFile P V n) = Some (bd_data b)" "bd_err b = None"
    "expected_ok s (bd_data b) (cc_expected (new_create_config opts))"
    "cc_allow_overwrite (new_create_config opts) \<or> abs_store objs s w (VersionFile P V n) = None"
proof -
  have "run_op s (OpAddFile now (LVer P V) n b opts) w = (Inr (), w1)"
    using assms(3) by (simp add: version_add_file_def act_void_def act_bind_def act_ret_def)
  then show ?thesis
    by (rule upload_stored [OF assms(1) _ assms(2)]) (rule that; simp)
qed

end
