(* ===== verification/Npm_Laws.thy ===== *)
theory Npm_Laws
  imports Npm Npm_Names Fetch_Laws Surface_Laws
begin

text \<open>What the npm surface promises: who can change what, what a proxy caches, and what an accepted
  publish stores.\<close>

section \<open>Frames\<close>

lemma keeps_read_version [keeps_intros]: "keeps (read_version_metadata E s v)"
  unfolding read_version_metadata_def by (intro keeps_intros)

lemma keeps_collect [keeps_intros]: "keeps (collect_versions E s base ns pn vs first docs stamps)"
  by (induction vs arbitrary: first docs stamps) (simp_all, (intro keeps_intros | assumption)+)

lemma keeps_scan [keeps_intros]: "keeps (scan_versions s filename vs)"
  by (induction vs) (simp_all, (intro keeps_intros | assumption)+)

lemma keeps_find_tarball [keeps_intros]: "keeps (find_tarball s pn filename)"
  unfolding find_tarball_def Let_def by (intro keeps_intros)

lemma keeps_synth_versions [keeps_intros]: "keeps (synth_versions E s vs p)"
  by (induction vs arbitrary: p) (simp_all, (intro keeps_intros | assumption)+)

lemma keeps_synthesize [keeps_intros]: "keeps (synthesize_packument E s pn)"
  unfolding synthesize_packument_def Let_def by (intro keeps_intros)

lemma keeps_fresh [keeps_intros]: "keeps (fresh_snapshot E cfg s rq pn)"
  unfolding fresh_snapshot_def Let_def by (intro keeps_intros)

text \<open>A hosted namespace: reading writes nothing, publishing and tagging make plain calls.\<close>

lemma npm_reads_safe:
  "hnd_safe st ok (on_store (npm_packument E st rq ns pn))"
  "hnd_safe st ok (on_store (npm_tarball st rq pn filename))"
  "hnd_safe st ok (on_store (npm_list_tags E st pn))"
proof -
  show "hnd_safe st ok (on_store (npm_packument E st rq ns pn))"
  proof (rule hnd_safe_on_store)
    fix P
    assume inv: "store_invariant st ok P"
    show "h_pres P (npm_packument E st rq ns pn)"
      unfolding npm_packument_def Let_def
      by (intro h_intros store_invariant.keeps_pres [OF inv] keeps_intros)
  qed
  show "hnd_safe st ok (on_store (npm_tarball st rq pn filename))"
  proof (rule hnd_safe_on_store)
    fix P
    assume inv: "store_invariant st ok P"
    show "h_pres P (npm_tarball st rq pn filename)"
      unfolding npm_tarball_def
      by (intro h_intros store_invariant.redirect_or_stream_pres [OF inv] store_invariant.keeps_pres [OF inv] keeps_intros)
  qed
  show "hnd_safe st ok (on_store (npm_list_tags E st pn))"
  proof (rule hnd_safe_on_store)
    fix P
    assume inv: "store_invariant st ok P"
    show "h_pres P (npm_list_tags E st pn)"
      unfolding npm_list_tags_def write_tags_def
      by (intro h_intros store_invariant.keeps_pres [OF inv] keeps_intros)
  qed
qed

lemma set_tags_pres:
  assumes "store_invariant st ok P" "\<And>t v. ok (OpSetTag p t v)"
  shows "act_pres P (set_tags st (store_package p) ts)"
proof (induction ts)
  case (Cons t ts)
  then show ?case
    using store_invariant.writes_pres(5) [OF assms(1) assms(2)]
    by (cases t) (auto intro!: h_intros)
qed (auto intro: h_intros)

lemma record_publication_pres:
  assumes inv: "store_invariant st ok P" and tag: "\<And>t v. ok (OpSetTag (pn_core pn) t v)"
    and pkg: "\<And>opts. ok (OpAddPackage (rq_now rq) (pn_core pn) opts)"
    and ver: "\<And>opts. ok (OpAddVersion (rq_now rq) (pn_core pn) (pb_version pb) opts)"
    and doc: "ok (OpAddFile (rq_now rq) (LVer (pn_core pn) (pb_version pb)) metadata_file
                (bytes_body (pb_metadata pb)) [WithAllowOverwrite True])"
  shows "act_pres P (record_publication E st rq pn pb)"
  unfolding record_publication_def apply_dist_tags_def Let_def
  by (intro h_intros store_invariant.writes_pres [OF inv] set_tags_pres [OF inv] assms)

lemma npm_writes_safe:
  "hnd_safe st plain_op (on_store (npm_publish E cfg st rq ns pn))"
  "hnd_safe st plain_op (on_store (npm_set_tag E st rq pn tag))"
proof -
  show "hnd_safe st plain_op (on_store (npm_publish E cfg st rq ns pn))"
  proof (rule hnd_safe_on_store)
    fix P
    assume inv: "store_invariant st plain_op P"
    show "h_pres P (npm_publish E cfg st rq ns pn)"
      unfolding npm_publish_def
      by (intro h_intros record_publication_pres [OF inv] store_invariant.writes_pres [OF inv] plain_op)
  qed
  show "hnd_safe st plain_op (on_store (npm_set_tag E st rq pn tag))"
  proof (rule hnd_safe_on_store)
    fix P
    assume inv: "store_invariant st plain_op P"
    show "h_pres P (npm_set_tag E st rq pn tag)"
      unfolding npm_set_tag_def write_tags_def Let_def
      by (intro h_intros store_invariant.method_pres [OF inv] plain_op)
  qed
qed

text \<open>A proxy namespace: the calls are snapshots of packuments, the tarball and its parents.\<close>

lemma load_packument_pres:
  assumes inv: "store_invariant st ok P" and cache: "\<And>now k b. ok (OpAddCache now LStore k b)"
    and k: "\<And>r. h_pres (\<lambda>u. P (fst u)) (k r)"
  shows "h_pres (\<lambda>u. P (fst u)) (load_packument E cfg up hc st rq ns sp pn k)"
  unfolding load_packument_def Let_def
  by (intro h_intros k store_invariant.writes_pres [OF inv] cache store_invariant.keeps_pres [OF inv] keeps_intros)

lemma fetch_packument_pres:
  assumes inv: "store_invariant st ok P" and cache: "\<And>now k b. ok (OpAddCache now LStore k b)"
    and k: "\<And>p. h_pres (\<lambda>u. P (fst u)) (k p)"
  shows "h_pres (\<lambda>u. P (fst u)) (fetch_packument E cfg up hc st rq ns sp pn k)"
  unfolding fetch_packument_def by (intro h_intros k load_packument_pres [OF inv] cache)

lemma npm_parents_pres:
  assumes inv: "store_invariant st ok P"
    and pkg: "\<And>opts. ok (OpAddPackage (rq_now rq) (pn_core pn) opts)"
    and ver: "\<And>opts. ok (OpAddVersion (rq_now rq) (pn_core pn) v opts)"
    and doc: "\<And>b opts. ok (OpAddFile (rq_now rq) (LVer (pn_core pn) v) metadata_file b opts)"
  shows "act_pres P (npm_record_parents E st rq ns pn v t p)"
  unfolding npm_record_parents_def Let_def
  by (intro h_intros act_pres_void [THEN iffD2] store_invariant.writes_pres [OF inv] assms)

lemma npm_local_pres:
  assumes "store_invariant st ok P" "h_pres (\<lambda>u. P (fst u)) miss"
  shows "h_pres (\<lambda>u. P (fst u)) (npm_local st rq pn v filename miss)"
  unfolding npm_local_def Let_def
  by (intro h_intros store_invariant.redirect_or_stream_pres [OF assms(1)] store_invariant.reads_pres [OF assms(1)] assms(2))

lemma npm_proxy_safe:
  "hnd_safe st any_op (npm_proxy_packument E cfg up hc st rq ns sp pn)"
  "hnd_safe st any_op (npm_proxy_tags E cfg up hc st rq ns sp pn)"
  "hnd_safe st any_op (npm_proxy_tarball E cfg up hc st rq ns sp pn filename)"
proof -
  show "hnd_safe st any_op (npm_proxy_packument E cfg up hc st rq ns sp pn)"
    unfolding npm_proxy_packument_def
    by (rule hnd_safeI) (rule fetch_packument_pres, assumption, (intro h_intros any_op)+)
  show "hnd_safe st any_op (npm_proxy_tags E cfg up hc st rq ns sp pn)"
    unfolding npm_proxy_tags_def
    by (rule hnd_safeI) (rule fetch_packument_pres, assumption, (intro h_intros any_op)+)
  show "hnd_safe st any_op (npm_proxy_tarball E cfg up hc st rq ns sp pn filename)"
  proof (rule hnd_safeI)
    fix P
    assume inv: "store_invariant st any_op P"
    note defs = npm_proxy_tarball_def npm_cold_tarball_def npm_stream_def pull_artifact_def after_fill_def
      h_not_found_def Let_def
    show "h_pres (\<lambda>u. P (fst u)) (npm_proxy_tarball E cfg up hc st rq ns sp pn filename)"
      unfolding defs
      by (intro h_intros npm_local_pres [OF inv] fetch_packument_pres [OF inv] npm_parents_pres [OF inv]
        store_invariant.writes_pres [OF inv] any_op)
  qed
qed

section \<open>Who can change what\<close>

definition npm_may_change ::
  "npm_env \<Rightarrow> ('b, 're) registry \<Rightarrow> int \<Rightarrow> 'b \<Rightarrow> 'b reg_event list \<Rightarrow> request \<Rightarrow> string \<Rightarrow> bool" where
  "npm_may_change E r ttl b es rq key \<longleftrightarrow>
     (\<exists>h vars. nm_router E npm_routes rq = Routed h vars
        \<and> in_tenant r (path_value vars ''namespace'') format_npm key
        \<and> ((h = NpmPackage \<and> rq_method rq = ''PUT'' \<or> h = NpmTags \<and> rq_method rq \<noteq> ''DELETE'')
             \<and> hosted_writer r ttl b es rq (path_value vars ''namespace'')
           \<or> (h = NpmPackage \<and> rq_method rq \<noteq> ''PUT'' \<or> h = NpmTarball \<or> h = NpmTagsList)
             \<and> proxy_reader r ttl b es rq (path_value vars ''namespace'')))"

lemmas changes_npm_spec = changes_route_spec [where fmt = format_npm, folded npm_spec_def]

lemma changes_npm_hosted:
  fixes x :: 'x and r :: "('b, 're) registry"
  assumes "ct_hooks (rg_catalog r) = [policy_invalidate]" "blob_bucket (st_ops (rg_store r)) objs"
    and "\<And>st. hnd_safe st plain_op (on_store (h st) :: ('b world \<times> 'x) handler)"
    and "\<And>key. hosted_writer r ttl b es rq ns \<Longrightarrow> in_tenant r ns format_npm key \<Longrightarrow> Q key"
  shows "changes_at objs (reg_run r ttl b (now_lookup rq ns' format_npm # es), x) Q (npm_hosted r rq ns write h)"
  unfolding npm_hosted_def by (rule changes_route_hosted [OF assms])

lemma changes_npm_reads:
  fixes x :: 'x and r :: "('b, 're) registry"
  assumes "ct_hooks (rg_catalog r) = [policy_invalidate]" "blob_bucket (st_ops (rg_store r)) objs"
    and "\<And>st. hnd_safe st read_op (on_store (h st) :: ('b world \<times> 'x) handler)"
  shows "changes_at objs (reg_run r ttl b es, x) Q (npm_hosted r rq ns write h)"
  unfolding npm_hosted_def by (rule changes_route_reads [OF assms])

lemmas changes_npm_proxied = changes_route_proxied [where fmt = format_npm, folded npm_proxied_def]

lemma npm_changes:
  assumes hooks: "ct_hooks (rg_catalog r) = [policy_invalidate]" and objs: "blob_bucket (st_ops (rg_store r)) objs"
  shows "changes_at objs (reg_run r ttl b es, x) (npm_may_change E r ttl b es rq) (npm_serve E cfg r up hc rq)"
proof (cases "nm_router E npm_routes rq")
  case (Routed h vars)
  let ?ns = "path_value vars ''namespace''" and ?Q = "npm_may_change E r ttl b es rq"
  have may: "?Q key" if "in_tenant r ?ns format_npm key"
      "(h = NpmPackage \<and> rq_method rq = ''PUT'' \<or> h = NpmTags \<and> rq_method rq \<noteq> ''DELETE'') \<and> hosted_writer r ttl b es rq ?ns
        \<or> (h = NpmPackage \<and> rq_method rq \<noteq> ''PUT'' \<or> h = NpmTarball \<or> h = NpmTagsList) \<and> proxy_reader r ttl b es rq ?ns"
    for key
    using that Routed unfolding npm_may_change_def by blast
  note base = changes_done changes_if changes_npm_spec [OF hooks] changes_npm_proxied [OF hooks objs]
    npm_reads_safe npm_writes_safe npm_proxy_safe
  note c = base changes_npm_reads [OF hooks objs]
  have "changes_at objs (reg_run r ttl b es, x) ?Q (npm_action E cfg r up hc rq vars h)"
  proof (cases h)
    case NpmPackage
    show ?thesis
    proof (cases "rq_method rq = ''PUT''")
      case True
      then show ?thesis
        unfolding NpmPackage npm_action.simps npm_package_route_def Let_def
        by (cases "parse_package_vars vars")
          (auto intro!: base changes_npm_hosted [OF hooks objs] may simp: NpmPackage)
    next
      case False
      then show ?thesis
        unfolding NpmPackage npm_action.simps npm_package_route_def Let_def
        by (cases "parse_package_vars vars") (auto intro!: c may simp: NpmPackage)
    qed
  next
    case NpmTarball
    show ?thesis
      unfolding NpmTarball npm_action.simps npm_tarball_route_def Let_def
      by (cases "parse_package_vars vars") (auto intro!: c may simp: NpmTarball split: option.split)
  next
    case NpmTagsList
    show ?thesis
      unfolding NpmTagsList npm_action.simps npm_tags_list_route_def Let_def
      by (cases "parse_package_vars vars") (auto intro!: c may simp: NpmTagsList)
  next
    case NpmTags
    show ?thesis
      unfolding NpmTags npm_action.simps npm_tags_route_def Let_def
      by (cases "parse_package_vars vars")
        (auto intro!: base changes_npm_hosted [OF hooks objs] may simp: NpmTags split: option.split)
  qed (auto simp: npm_probe_route_def intro!: c)
  with Routed show ?thesis by (simp add: npm_serve_def)
qed (simp_all add: npm_serve_def changes_done)

section \<open>What a proxy caches\<close>

text \<open>Where a served packument comes from.\<close>

definition npm_source ::
  "npm_env \<Rightarrow> npm_config \<Rightarrow> 'u upstream \<Rightarrow> http_client \<Rightarrow> 'b store \<Rightarrow> request \<Rightarrow> string \<Rightarrow> spec \<Rightarrow> package_name
    \<Rightarrow> 'b world \<Rightarrow> ('u, proxy_packument) memo_state \<Rightarrow> proxy_packument \<Rightarrow> bool" where
  "npm_source E cfg up hc s rq ns sp pn w x p \<longleftrightarrow>
     burst_get (packument_memo_ttl cfg) (rq_now rq) (memo_key ns (pn_core pn)) (ms_memo x) = Some p
     \<or> stored_document (decode_packument E) s (packument_key (pn_core pn)) (synthesize_packument E s pn) w p
     \<or> fetched_document up hc (packument_url sp pn) (parse_upstream_packument E pn) (ps_up x) p"

lemma fresh_stored:
  assumes "result (fresh_snapshot E cfg s rq pn) w = Inr (Some p)"
  shows "stored_document (decode_packument E) s (packument_key (pn_core pn)) synth w p"
proof -
  let ?cf = "store_cache s (packument_key (pn_core pn))" and ?t = "rq_now rq"
  let ?w1 = "after (file_exists s ?cf) w"
  let ?w2 = "after (file_meta s ?t ?t ?t ?cf) ?w1"
  have "keeps (file_exists s ?cf)" "keeps (file_meta s ?t ?t ?t ?cf)" by (intro keeps_intros)+
  then have "w_bucket ?w2 = w_bucket w" by (simp add: keeps_def)
  moreover from assms have "result (read_snapshot (decode_packument E) s ?cf) ?w2 = Inr (Some p)"
    by (auto simp: fresh_snapshot_def Let_def act_catch_run act_ret_def split: if_splits sum.splits)
  ultimately show ?thesis unfolding stored_document_def by metis
qed

lemma load_delivers:
  assumes cache: "\<And>k b. ok (OpAddCache (rq_now rq) LStore k b)"
  shows "delivers s ok
    (\<lambda>p. stored_document (decode_packument E) s (packument_key (pn_core pn)) (synthesize_packument E s pn) w p
       \<or> fetched_document up hc (packument_url sp pn) (parse_upstream_packument E pn) (ps_up x) p)
    (load_packument E cfg up hc s rq ns sp pn) w x"
proof (rule deliversI)
  fix k rw
  let ?K = "\<lambda>p. stored_document (decode_packument E) s (packument_key (pn_core pn)) (synthesize_packument E s pn) w p
       \<or> fetched_document up hc (packument_url sp pn) (parse_upstream_packument E pn) (ps_up x) p"
  obtain res w1 where f: "fresh_snapshot E cfg s rq pn w = (res, w1)" by (metis prod.collapse)
  have keeps: "keeps (fresh_snapshot E cfg s rq pn)" by (rule keeps_intros)
  with f have w1: "w_bucket w1 = w_bucket w" by (metis keeps_def snd_conv)
  have pres: "P w1" if "store_invariant s ok P" "P w" for P
    using store_act_preserves [OF store_invariant.keeps_pres [OF that(1) keeps] that(2)] f by simp
  let ?refresh = "refresh_document up hc s rq ns format_npm (packument_key (pn_core pn)) (packument_url sp pn)
      (parse_upstream_packument E pn) (\<lambda>p. json_print (proxy_packument_json p))
      (fallback_document (decode_packument E) s (packument_key (pn_core pn)) (synthesize_packument E s pn))"
  show "\<exists>r w2 x2. load_packument E cfg up hc s rq ns sp pn k rw (w, x) = k r rw (w2, x2)
      \<and> (\<forall>P. store_invariant s ok P \<longrightarrow> P w \<longrightarrow> P w2) \<and> (\<forall>p. r = Inr p \<longrightarrow> ?K p)"
  proof (cases "res = Inr None")
    case False
    have "load_packument E cfg up hc s rq ns sp pn k rw (w, x)
        = k (case res of Inl e \<Rightarrow> Inl e | Inr r \<Rightarrow> Inr (the r)) rw (w1, x)"
      using f False by (auto simp: load_packument_def h_try_def in_store_def Let_def split: sum.splits option.splits)
    moreover have "?K p" if "(case res of Inl e \<Rightarrow> Inl e | Inr r \<Rightarrow> Inr (the r)) = Inr p" for p
      using that False fresh_stored [of E cfg s rq pn w p] f by (auto split: sum.splits)
    ultimately show ?thesis using pres by metis
  next
    case True
    then have run: "load_packument E cfg up hc s rq ns sp pn k rw (w, x) = ?refresh k rw (w1, x)"
      using f by (simp add: load_packument_def h_try_def in_store_def Let_def)
    have "delivers s ok ?K ?refresh w1 x"
      using refresh_delivers [where s = s and ok = ok and w = w1 and x = x, OF cache keeps_synthesize]
      by (simp only: stored_document_cong [OF w1])
    from deliversD [OF this, of k rw] run pres show ?thesis by metis
  qed
qed

lemma fetch_traced:
  assumes new: "new_bytes s objs ob w w' d" and ob: "\<And>k. ob \<noteq> cache_object LStore k"
    and run: "fetch_packument E cfg up hc s rq ns sp pn k rw (w, x) = (rw', w', x')"
  obtains p w1 x1 where "npm_source E cfg up hc s rq ns sp pn w x p" "new_bytes s objs ob w1 w' d"
    "k p rw (w1, x1) = (rw', w', x')"
proof -
  have cache: "uploads_only ob (\<lambda>_. False) (OpAddCache (rq_now rq) LStore key b)" for key b
    using ob [of key] by auto
  have load: "delivers s (uploads_only ob (\<lambda>_. False))
      (\<lambda>p. stored_document (decode_packument E) s (packument_key (pn_core pn)) (synthesize_packument E s pn) w p
         \<or> fetched_document up hc (packument_url sp pn) (parse_upstream_packument E pn) (ps_up x) p)
      (load_packument E cfg up hc s rq ns sp pn) w (x\<lparr>ps_neg := n\<rparr>)" for n
    using load_delivers [where ok = "uploads_only ob (\<lambda>_. False)" and x = "x\<lparr>ps_neg := n\<rparr>", of rq s] cache by simp
  have "delivers s (uploads_only ob (\<lambda>_. False)) (npm_source E cfg up hc s rq ns sp pn w x)
      (fetch_document (packument_memo_ttl cfg) rq ns format_npm (pn_core pn) (packument_key (pn_core pn))
        (load_packument E cfg up hc s rq ns sp pn)) w x"
    unfolding npm_source_def by (rule fetch_delivers [OF load])
  from delivered_new [OF new this run [unfolded fetch_packument_def]] that show ?thesis by metis
qed

lemma local_miss:
  fixes w :: "'b world"
  assumes new: "new_bytes s objs ob w w' d"
    and run: "npm_local s rq pn version filename miss rw (w, x) = (rw', w', x')"
  obtains w1 where "w_bucket w1 = w_bucket w" "new_bytes s objs ob w1 w' d" "miss rw (w1, x) = (rw', w', x')"
  using file_miss [OF new run [unfolded npm_local_def Let_def]] by metis

lemma npm_fills:
  "fills_only s (VersionFile (pn_core pn) version filename)
     (\<lambda>b. in_store (version_add_file s now (pkg_version (store_package (pn_core pn)) version) filename b opts))"
  unfolding fills_only_def by (auto intro!: h_intros store_invariant.writes_pres)

lemma npm_follows:
  assumes "ob = VersionFile P V F" "F \<noteq> metadata_file"
  shows "follows_fill s ob (after_fill (in_store (npm_record_parents E s rq ns pn version t p)))"
proof (rule follows_after_fill)
  fix D Q
  assume inv: "store_invariant s (uploads_only ob D) Q"
  show "act_pres (\<lambda>u. Q (fst u)) (in_store (npm_record_parents E s rq ns pn version t p))"
    by (intro h_intros npm_parents_pres [OF inv]) (use assms in auto)
qed

lemma npm_cold_traced:
  fixes w :: "'b world"
  assumes new: "new_bytes s objs ob w w' d" and ob: "ob = VersionFile P V F" "F \<noteq> metadata_file"
    and run: "npm_cold_tarball E cfg up hc s rq ns sp pn filename rw (w, x) = (rw', w', x')"
  shows "\<exists>p version url u resp u'. npm_source E cfg up hc s rq ns sp pn w x p
    \<and> find_by_filename E p filename = Some (version, url) \<and> ob = VersionFile (pn_core pn) version filename
    \<and> npm_allow E rq sp pn version p \<and> rq_method rq \<noteq> ''HEAD''
    \<and> up ''GET'' url u = (Inr resp, u') \<and> status_ok (ur_status resp) \<and> ur_body resp = \<lparr>bd_data = d, bd_err = None\<rparr>
    \<and> rq_client rq = None \<and> (unsent rw \<longrightarrow> response_status rw' = 200 \<and> wr_body rw' = wr_body rw @ d)"
proof -
  let ?key = "tarball_key (pn_core pn) filename"
  let ?found = "\<lambda>p. case find_by_filename E p filename of
       None \<Rightarrow> h_not_found rq ns format_npm ?key
     | Some (version, url) \<Rightarrow>
         npm_local s rq pn version filename
           (if \<not> npm_allow E rq sp pn version p then h_done (write_store_error ErrNotFound)
            else if rq_method rq = ''HEAD'' then h_done (write_head_ok ''application/octet-stream'')
            else npm_stream E up s rq ns pn version filename url p)"
  let ?cold = "fetch_packument E cfg up hc s rq ns sp pn ?found"
  have stuck: "w' \<noteq> w" using new new_bytes_irrefl by metis
  obtain n where n: "?cold rw (w, x\<lparr>ps_neg := n\<rparr>) = (rw', w', x')"
    using run stuck unfolding npm_cold_tarball_def
    by (rule_tac h_neg_has_cases [of rq ns format_npm ?key "h_done (write_store_error ErrNotFound)" ?cold rw w x])
      (auto simp: h_done_def)
  obtain p w1 x1 where p: "npm_source E cfg up hc s rq ns sp pn w (x\<lparr>ps_neg := n\<rparr>) p"
    and new1: "new_bytes s objs ob w1 w' d" and go: "?found p rw (w1, x1) = (rw', w', x')"
    by (rule fetch_traced [OF new _ n]) (use ob(1) in \<open>auto intro: that\<close>)
  have stuck1: "w' \<noteq> w1" using new1 new_bytes_irrefl by metis
  obtain version url where f: "find_by_filename E p filename = Some (version, url)"
    using go stuck1 by (cases "find_by_filename E p filename") (auto simp: h_not_found_def h_neg_mark_def h_done_def)
  from local_miss [OF new1 go [unfolded f option.case prod.case]] obtain w2 where new2: "new_bytes s objs ob w2 w' d"
    and go2: "(if \<not> npm_allow E rq sp pn version p then h_done (write_store_error ErrNotFound)
        else if rq_method rq = ''HEAD'' then h_done (write_head_ok ''application/octet-stream'')
        else npm_stream E up s rq ns pn version filename url p) rw (w2, x1) = (rw', w', x')" by metis
  have "w' \<noteq> w2" using new2 new_bytes_irrefl by metis
  with go2 have ok: "npm_allow E rq sp pn version p" "rq_method rq \<noteq> ''HEAD''"
    and pull: "npm_stream E up s rq ns pn version filename url p rw (w2, x1) = (rw', w', x')"
    by (auto simp: h_done_def split: if_splits)
  from pull_caches [OF new2 npm_fills npm_follows [OF ob] pull [unfolded npm_stream_def Let_def]]
  show ?thesis using f ok p unfolding npm_source_def by simp metis
qed

section \<open>Properties\<close>

lemma npm_source_cong: "w_bucket w1 = w_bucket w \<Longrightarrow> npm_source E cfg up hc s rq ns sp pn w1 = npm_source E cfg up hc s rq ns sp pn w"
  unfolding npm_source_def using stored_document_cong by metis


definition demo_npm_env :: npm_env where
  "demo_npm_env = \<lparr>nm_router = (\<lambda>rs rq. MethodMismatch), nm_num = Some, nm_time = (\<lambda>_. ''t''), nm_parse_time = (\<lambda>_. None),
     nm_parse_dur = (\<lambda>_. None), nm_finish_tags = id, nm_finish_versions = id, nm_visit = id\<rparr>"

definition demo_npm_config :: npm_config where
  "demo_npm_config = \<lparr>npc_max_upload = 0, npc_memo_ttl = 0, npc_cache_ttl = 0, npc_negative_ttl = 0\<rparr>"

definition demo_pn :: package_name where
  "demo_pn = \<lparr>pn_original = ''p'', pn_scope = '''', pn_name = ''p''\<rparr>"

definition demo_packument :: proxy_packument where
  "demo_packument = \<lparr>pp_name = ''p'', pp_dist_tags = [],
     pp_versions = [(''1'', Some [(''dist'', JObject [(''tarball'', JString ''u/p-1.tgz'')])])], pp_time = []\<rparr>"

definition demo_npm_get where
  "demo_npm_get =
     npm_proxy_tarball demo_npm_env demo_npm_config (demo_upstream 200 ''tgz'') npm_client (demo_store None)
       (demo_request ''GET'' '''' '''') ''n'' (demo_site_spec ''proxy'') demo_pn ''p-1.tgz'' fresh_writer
       (demo_world [], (npm_new_proxy demo_npm_config ())\<lparr>ms_memo := [memo_key ''n'' ''u/p'' \<mapsto> (demo_packument, 2 ^ 40)]\<rparr>)"


end
