(* ===== verification/Npm_Publish.thy ===== *)
theory Npm_Publish
  imports Npm_Laws
begin

text \<open>What an accepted npm publish leaves in the store, and where the handler falls short of its comments.\<close>

section \<open>The document\<close>

text \<open>What an accepted document contains.\<close>

definition publishes ::
  "npm_env \<Rightarrow> npm_config \<Rightarrow> request \<Rightarrow> package_name \<Rightarrow> publication \<Rightarrow> publish_doc \<Rightarrow> any_map \<Rightarrow> attachment \<Rightarrow> bool" where
  "publishes E cfg rq pn pb doc m att \<longleftrightarrow>
     (\<exists>raw j. read_capped_body (npm_upload_limit cfg) (rq_body rq) = (raw, False, None)
        \<and> decode_publish raw = Some doc \<and> pd_versions doc = [(pb_version pb, j)]
        \<and> decode_any_object (nm_num E) j = Some (Some m))
     \<and> pd_name doc = pn_original pn \<and> npm_validate_version (pb_version pb) = None
     \<and> tarball_storage_name pn (pb_version pb) (any_object m ''dist'') = Inr (pb_tarball pb)
     \<and> pick_attachment (pd_attachments doc) (pb_tarball pb) pn (pb_version pb) = Some att
     \<and> expected_digests (any_object m ''dist'') = Some (pb_expected pb)
     \<and> pb_body pb = tarball_stream (at_data att)"

lemma read_publication_Inr:
  assumes "read_publication E cfg rq ns pn = Inr pb"
  shows "\<exists>doc m att. publishes E cfg rq pn pb doc m att
    \<and> pb_metadata pb = json_print (json_map (published_metadata m (any_object m ''dist'')
        (tarball_url (request_base_url rq) ns pn (pb_tarball pb))))"
proof -
  obtain raw doc version j m att where p: "read_capped_body (npm_upload_limit cfg) (rq_body rq) = (raw, False, None)"
    "decode_publish raw = Some doc" "pd_name doc = pn_original pn" "pd_versions doc = [(version, j)]"
    "npm_validate_version version = None" "decode_any_object (nm_num E) j = Some (Some m)"
    "tarball_storage_name pn version (any_object m ''dist'') = Inr (pb_tarball pb)"
    "pick_attachment (pd_attachments doc) (pb_tarball pb) pn version = Some att"
    "expected_digests (any_object m ''dist'') = Some (pb_expected pb)" "pb_version pb = version"
    "pb_body pb = tarball_stream (at_data att)"
    "pb_metadata pb = json_print (json_map (published_metadata m (any_object m ''dist'')
        (tarball_url (request_base_url rq) ns pn (pb_tarball pb))))"
    using assms
    by (auto simp: read_publication_def Let_def split: prod.splits if_splits option.splits list.splits sum.splits)
  then show ?thesis unfolding publishes_def by blast
qed

lemma storage_name_tgz:
  assumes "tarball_storage_name pn version dist = Inr f"
  shows "suffix ''.tgz'' f"
  using assms
  by (auto simp: tarball_storage_name_def validate_tarball_name_def suffix_def has_suffix_def Let_def split: if_splits option.splits)

section \<open>After the tarball\<close>

lemma tgz_not_metadata: "suffix ''.tgz'' f \<Longrightarrow> f \<noteq> metadata_file"
  by (auto simp: metadata_file_def suffix_def)

lemma record_publication_spares:
  assumes "F \<noteq> metadata_file" "blob_bucket (st_ops s) objs"
  shows "abs_store objs s (after (record_publication E s rq pn pb) w) (VersionFile P V F)
    = abs_store objs s w (VersionFile P V F)"
  by (rule spared [OF record_publication_pres [OF spares_invariant] assms(2)])
    (use assms(1) in \<open>simp_all add: spares_def\<close>)

text \<open>A sequence that succeeds, cut after its first action.\<close>

lemma result_bind:
  "result (act_bind m f) w = Inr y \<Longrightarrow> \<exists>x. result m w = Inr x \<and> result (f x) (after m w) = Inr y \<and> after (act_bind m f) w = after (f x) (after m w)"
  by (auto simp: act_bind_def split: prod.splits sum.splits)

lemma tags_spare:
  assumes "blob_bucket (st_ops s) objs"
  shows "abs_store objs s (after (apply_dist_tags s (store_package P) tags v) w) (VersionFile Q V F)
    = abs_store objs s w (VersionFile Q V F)"
proof (rule spared [OF _ assms])
  note inv = spares_invariant [of s "VersionFile Q V F" objs "abs_store objs s w (VersionFile Q V F)"]
  show "act_pres (holds s objs (VersionFile Q V F) (abs_store objs s w (VersionFile Q V F)))
      (apply_dist_tags s (store_package P) tags v)"
    unfolding apply_dist_tags_def
    by (intro h_intros store_invariant.writes_pres [OF inv] set_tags_pres [OF inv]) (simp_all add: spares_def)
qed

lemma record_publication_stored:
  assumes "blob_bucket (st_ops s) objs" "\<And>d. st_decode s d \<noteq> Inl ErrNotFound"
    and "result (record_publication E s rq pn pb) w = Inr u"
  shows "abs_store objs s (after (record_publication E s rq pn pb) w)
      (VersionFile (pn_core pn) (pb_version pb) metadata_file) = Some (pb_metadata pb)"
proof -
  let ?add = "version_add_file s (rq_now rq) (pkg_version (store_package (pn_core pn)) (pb_version pb)) metadata_file
      (bytes_body (pb_metadata pb)) [WithAllowOverwrite True]"
  let ?tags = "apply_dist_tags s (store_package (pn_core pn)) (pb_tags pb) (pb_version pb)"
  note run = result_bind [OF assms(3) [unfolded record_publication_def Let_def]]
  then obtain w0 where run2: "\<exists>x. result (act_bind (act_ensure (pkg_add_version s (rq_now rq) (store_package (pn_core pn)) (pb_version pb)
          [WithAnnotations (version_annotations pn (pb_version pb) (nm_time E (rq_now rq)))]))
        (\<lambda>_. act_bind ?add (\<lambda>_. ?tags))) w0 = Inr u"
    and w0: "after (record_publication E s rq pn pb) w = after (act_bind (act_ensure (pkg_add_version s (rq_now rq)
          (store_package (pn_core pn)) (pb_version pb) [WithAnnotations (version_annotations pn (pb_version pb) (nm_time E (rq_now rq)))]))
        (\<lambda>_. act_bind ?add (\<lambda>_. ?tags))) w0"
    unfolding record_publication_def Let_def by blast
  then obtain w1 where run3: "result (act_bind ?add (\<lambda>_. ?tags)) w1 = Inr u"
    and w1: "after (record_publication E s rq pn pb) w = after (act_bind ?add (\<lambda>_. ?tags)) w1"
    using result_bind by metis
  from result_bind [OF run3] obtain f where add: "result ?add w1 = Inr f"
    and w': "after (record_publication E s rq pn pb) w = after ?tags (after ?add w1)"
    unfolding w1 by blast
  from add have "?add w1 = (Inr f, after ?add w1)" by (metis prod.collapse)
  from version_file_stored [OF assms(1,2) this] have
    "abs_store objs s (after ?add w1) (VersionFile (pn_core pn) (pb_version pb) metadata_file)
      = Some (bd_data (bytes_body (pb_metadata pb)))" by blast
  then show ?thesis unfolding w' tags_spare [OF assms(1)] by (simp add: bytes_body_def)
qed

section \<open>Properties\<close>

lemma refused_not_201:
  assumes "unsent rw"
  shows "response_status (write_store_error e rw) \<noteq> 201" "response_status (abort_response rw) \<noteq> 201"
    "st \<noteq> 201 \<Longrightarrow> response_status (write_error st msg rw) \<noteq> 201"
  using write_store_error_response [OF assms, of e] write_error_response [OF assms] assms
  by (auto simp: abort_response_def response_status_def unsent_def)

lemma read_publication_Inl:
  assumes "read_publication E cfg rq ns pn = Inl bad" "unsent rw"
  shows "response_status (bad rw) \<noteq> 201"
  using assms refused_not_201 [OF assms(2)]
  by (auto simp: read_publication_def Let_def split: prod.splits if_splits option.splits list.splits sum.splits)


definition demo_publish_body :: string where
  "demo_publish_body =
     ''{\"name\":\"p\",\"versions\":{\"1\":{}},\"_attachments\":{\"f\":{\"data\":\"YWI=\"}}}''"

definition demo_publish where
  "demo_publish =
     npm_publish demo_npm_env demo_npm_config (demo_store None) (demo_request ''PUT'' '''' demo_publish_body) ''n'' demo_pn
       fresh_writer (demo_world [])"


section \<open>Where the handler falls short\<close>

text \<open>A version document \<open>null\<close> is accepted by the checks and makes the handler panic.\<close>

lemma null_version_aborts:
  assumes "read_capped_body (npm_upload_limit cfg) (rq_body rq) = (raw, False, None)" "decode_publish raw = Some doc"
    and "pd_name doc = pn_original pn" "pd_versions doc = [(v, JNull)]" "npm_validate_version v = None"
    and "pick_attachment (pd_attachments doc) (pn_name pn @ ''-'' @ v @ ''.tgz'') pn v = Some att"
  shows "npm_publish E cfg s rq ns pn rw w = (abort_response rw, w)"
  using assms
  by (simp add: npm_publish_def read_publication_def decode_any_object_def tarball_storage_name_def
      expected_digests_def h_done_def)

text \<open>A publish whose dist-tag is refused is answered below 500 with an error, but its tarball and
  document stay: publishing again with a correct tag is refused as a conflict.\<close>

lemma bad_tag_after_tarball:
  assumes "validate_tag t = Some e"
  shows "result (apply_dist_tags s p [(t, v)] v') w = Inl e \<and> after (apply_dist_tags s p [(t, v)] v') w = w"
  using assms by (simp add: apply_dist_tags_def act_bind_def act_fail_def)

text \<open>A truncated attachment fails with an error that is not recognised as corrupt base64.\<close>

lemma truncated_attachment: "bd_err (tarball_stream ''YWI'') = Some err_unexpected_eof \<and> err_unexpected_eof \<noteq> err_corrupt"
  by (rule conjI) code_simp+

end
