(* ===== verification/Pypi_Laws.thy ===== *)
theory Pypi_Laws
  imports Pypi Fetch_Laws Surface_Laws
begin

text \<open>What the PyPI surface promises: who can change what, what a proxy caches, and what an accepted
  upload stores.\<close>

section \<open>Frames\<close>

lemma keeps_file_links [keeps_intros]: "keeps (file_links s rq ns project v fs)"
  by (induction fs) (simp_all, (intro keeps_intros | assumption)+)

lemma keeps_version_links [keeps_intros]: "keeps (version_links s rq ns project vs)"
  by (induction vs) (simp_all, (intro keeps_intros | assumption)+)

lemma keeps_build_page [keeps_intros]: "keeps (build_project_page s rq ns project p)"
  unfolding build_project_page_def by (intro keeps_intros)

lemma keeps_synth_files [keeps_intros]: "keeps (synth_files s rq v fs)"
  by (induction fs) (simp_all, (intro keeps_intros | assumption)+)

lemma keeps_synth_index [keeps_intros]: "keeps (synth_index s rq vs)"
  by (induction vs) (simp_all, (intro keeps_intros | assumption)+)

lemma keeps_synthesize_index [keeps_intros]: "keeps (synthesize_index s rq project)"
  unfolding synthesize_index_def Let_def by (intro keeps_intros)

lemma h_pres_page_invalidate [h_intros]:
  "h_pres (\<lambda>u. P (fst u)) k \<Longrightarrow> h_pres (\<lambda>u. P (fst u)) (h_page_invalidate key k)"
  by (auto simp: h_pres_def h_page_invalidate_def)

lemma h_pres_page_get:
  assumes "act_pres P load" "\<And>p. h_pres (\<lambda>u. P (fst u)) (k p)"
  shows "h_pres (\<lambda>u. P (fst u)) (h_page_get rq key load k)"
proof -
  have fin: "h_pres (\<lambda>u. P (fst u)) (h_page_finish rq key g p (k p))" for g p
    using assms(2) by (auto simp: h_pres_def h_page_finish_def)
  have "h_pres (\<lambda>u. P (fst u)) (h_store (in_store load) k)"
    "h_pres (\<lambda>u. P (fst u)) (h_store (in_store load) (\<lambda>p. h_page_finish rq key g p (k p)))" for g
    by (intro h_intros assms fin)+
  with assms(2) show ?thesis
    unfolding h_pres_def h_page_get_def Let_def by (auto split: option.split)
qed

lemma pypi_reads_safe:
  "hnd_safe st ok (pypi_root_index st rq)"
  "hnd_safe st ok (pypi_project_index E st rq ns project)"
  "hnd_safe st ok (pypi_download st rq f)"
proof -
  show "hnd_safe st ok (pypi_root_index st rq)"
  proof (rule hnd_safeI)
    fix P
    assume inv: "store_invariant st ok P"
    show "h_pres (\<lambda>u. P (fst u)) (pypi_root_index st rq)"
      unfolding pypi_root_index_def by (intro h_intros store_invariant.keeps_pres [OF inv] keeps_intros)
  qed
  show "hnd_safe st ok (pypi_project_index E st rq ns project)"
  proof (rule hnd_safeI)
    fix P
    assume inv: "store_invariant st ok P"
    show "h_pres (\<lambda>u. P (fst u)) (pypi_project_index E st rq ns project)"
      unfolding pypi_project_index_def Let_def
      by (intro h_intros h_pres_page_get store_invariant.keeps_pres [OF inv] keeps_intros)
  qed
  show "hnd_safe st ok (pypi_download st rq f)"
    unfolding pypi_download_def by (rule hnd_safe_on_store) (rule store_invariant.redirect_or_stream_pres)
qed

lemma store_upload_pres:
  assumes inv: "store_invariant st ok P"
    and pkg: "\<And>opts. ok (OpAddPackage (rq_now rq) (pu_project u) opts)"
    and ver: "\<And>opts. ok (OpAddVersion (rq_now rq) (pu_project u) (pu_version u) opts)"
    and up: "\<And>an. ok (OpAddFile (rq_now rq) (LVer (pu_project u) (pu_version u)) (pu_filename u) (bytes_body (pu_data u))
        [WithAnnotations an])"
  shows "act_pres P (store_upload E st rq u)"
  unfolding store_upload_def Let_def
  by (intro h_intros act_pres_void [THEN iffD2] store_invariant.writes_pres [OF inv] assms)

lemma pypi_upload_safe: "hnd_safe st plain_op (pypi_upload E W cfg st rq ns)"
proof (rule hnd_safeI)
  fix P
  assume inv: "store_invariant st plain_op P"
  show "h_pres (\<lambda>u. P (fst u)) (pypi_upload E W cfg st rq ns)"
    unfolding pypi_upload_def by (intro h_intros store_upload_pres [OF inv] plain_op)
qed

lemma fetch_index_pres:
  assumes inv: "store_invariant st ok P" and cache: "\<And>now k b. ok (OpAddCache now LStore k b)"
    and k: "\<And>ix. h_pres (\<lambda>u. P (fst u)) (k ix)"
  shows "h_pres (\<lambda>u. P (fst u)) (fetch_index E cfg up hc st rq ns sp project k)"
  unfolding fetch_index_def load_index_def
  by (intro h_intros k store_invariant.writes_pres [OF inv] cache store_invariant.keeps_pres [OF inv] keeps_intros)

lemma pypi_parents_pres:
  assumes inv: "store_invariant st ok P"
    and pkg: "\<And>opts. ok (OpAddPackage (rq_now rq) project opts)"
    and ver: "\<And>opts. ok (OpAddVersion (rq_now rq) project v opts)"
  shows "act_pres P (pypi_record_parents st rq project v)"
  unfolding pypi_record_parents_def by (intro h_intros store_invariant.writes_pres [OF inv] assms)

lemma pypi_proxy_safe:
  "hnd_safe st any_op (pypi_proxy_index E cfg up hc st rq ns sp raw)"
  "hnd_safe st any_op (pypi_proxy_download E cfg up hc st rq ns sp raw version filename)"
proof -
  show "hnd_safe st any_op (pypi_proxy_index E cfg up hc st rq ns sp raw)"
  proof (rule hnd_safeI)
    fix P
    assume inv: "store_invariant st any_op P"
    show "h_pres (\<lambda>u. P (fst u)) (pypi_proxy_index E cfg up hc st rq ns sp raw)"
      unfolding pypi_proxy_index_def by (intro h_intros fetch_index_pres [OF inv] any_op)
  qed
  show "hnd_safe st any_op (pypi_proxy_download E cfg up hc st rq ns sp raw version filename)"
  proof (rule hnd_safeI)
    fix P
    assume inv: "store_invariant st any_op P"
    show "h_pres (\<lambda>u. P (fst u)) (pypi_proxy_download E cfg up hc st rq ns sp raw version filename)"
      unfolding pypi_proxy_download_def pypi_cold_download_def pypi_stream_def pull_artifact_def after_fill_def
        h_not_found_def Let_def
      by (intro h_intros hnd_safeD [OF pypi_reads_safe(3) inv] fetch_index_pres [OF inv] pypi_parents_pres [OF inv]
        store_invariant.writes_pres [OF inv] store_invariant.reads_pres [OF inv] any_op)
  qed
qed

section \<open>Who can change what\<close>

definition pypi_may_change ::
  "pypi_wire \<Rightarrow> ('b, 're) registry \<Rightarrow> int \<Rightarrow> 'b \<Rightarrow> 'b reg_event list \<Rightarrow> request \<Rightarrow> string \<Rightarrow> bool" where
  "pypi_may_change W r ttl b es rq key \<longleftrightarrow>
     (\<exists>h vars. pw_router W pypi_routes rq = Routed h vars
        \<and> in_tenant r (path_value vars ''namespace'') format_pypi key
        \<and> (h = PypiUpload \<and> hosted_writer r ttl b es rq (path_value vars ''namespace'')
           \<or> h \<noteq> PypiUpload \<and> proxy_reader r ttl b es rq (path_value vars ''namespace'')))"

lemmas changes_pypi_spec = changes_route_spec [where fmt = format_pypi, folded pypi_spec_def]
lemmas changes_pypi_hosted = changes_route_hosted [where fmt = format_pypi, folded pypi_hosted_def]
lemmas changes_pypi_reads = changes_route_reads [where fmt = format_pypi, folded pypi_hosted_def]
lemmas changes_pypi_proxied = changes_route_proxied [where fmt = format_pypi, folded pypi_proxied_def]

lemma pypi_changes:
  assumes hooks: "ct_hooks (rg_catalog r) = [policy_invalidate]" and objs: "blob_bucket (st_ops (rg_store r)) objs"
  shows "changes_at objs (reg_run r ttl b es, x) (pypi_may_change W r ttl b es rq) (pypi_serve E W cfg r up hc rq)"
proof (cases "pw_router W pypi_routes rq")
  case (Routed h vars)
  let ?ns = "path_value vars ''namespace''" and ?Q = "pypi_may_change W r ttl b es rq"
  have may: "?Q key" if "in_tenant r ?ns format_pypi key"
      "h = PypiUpload \<and> hosted_writer r ttl b es rq ?ns \<or> h \<noteq> PypiUpload \<and> proxy_reader r ttl b es rq ?ns" for key
    using that Routed unfolding pypi_may_change_def by blast
  note base = changes_done changes_if changes_pypi_spec [OF hooks] changes_pypi_proxied [OF hooks objs]
    hnd_safe_any [OF pypi_reads_safe(1)] pypi_reads_safe pypi_upload_safe pypi_proxy_safe
  note c = base changes_pypi_reads [OF hooks objs]
  have "changes_at objs (reg_run r ttl b es, x) ?Q (pypi_action E W cfg r up hc rq vars h)"
  proof (cases h)
    case PypiUpload
    then show ?thesis by (auto intro!: base changes_pypi_hosted [OF hooks objs] may)
  next
    case PypiRoot
    then show ?thesis by (auto intro!: c may)
  next
    case PypiProject
    show ?thesis
      unfolding PypiProject pypi_action.simps Let_def
      by (cases "normalize_project (py_lower E) (path_value vars ''project'')")
        (auto intro!: c may simp: PypiProject simp del: reg_run.simps)
  next
    case PypiDownload
    show ?thesis
      unfolding PypiDownload pypi_action.simps Let_def
      by (cases "check_download E (path_value vars ''project'') (path_value vars ''version'') (path_value vars ''filename'')")
        (auto intro!: c may simp: PypiDownload simp del: reg_run.simps)
  qed
  with Routed show ?thesis by (simp add: pypi_serve_def)
qed (simp_all add: pypi_serve_def changes_done)

section \<open>What a proxy caches\<close>

text \<open>Where a served index comes from.\<close>

definition pypi_source ::
  "pypi_env \<Rightarrow> pypi_config \<Rightarrow> 'u upstream \<Rightarrow> http_client \<Rightarrow> 'b store \<Rightarrow> request \<Rightarrow> string \<Rightarrow> spec \<Rightarrow> string
    \<Rightarrow> 'b world \<Rightarrow> 'u pypi_state \<Rightarrow> proxy_index \<Rightarrow> bool" where
  "pypi_source E cfg up hc s rq ns sp project w x ix \<longleftrightarrow>
     burst_get (proxy_index_ttl cfg) (rq_now rq) (memo_key ns project) (ms_memo x) = Some ix
     \<or> stored_document (decode_index E) s (simple_key project) (synthesize_index s rq project) w ix
     \<or> fetched_document up hc (simple_url sp project) (parse_upstream_index E (simple_url sp project) project) (ps_up x) ix"

lemma pypi_source_cong:
  "w_bucket w1 = w_bucket w \<Longrightarrow> pypi_source E cfg up hc s rq ns sp p w1 = pypi_source E cfg up hc s rq ns sp p w"
  unfolding pypi_source_def using stored_document_cong by metis

lemma index_traced:
  assumes new: "new_bytes s objs ob w w' d" and ob: "\<And>k. ob \<noteq> cache_object LStore k"
    and run: "fetch_index E cfg up hc s rq ns sp project k rw (w, x) = (rw', w', x')"
  obtains ix w1 x1 where "pypi_source E cfg up hc s rq ns sp project w x ix" "new_bytes s objs ob w1 w' d"
    "k ix rw (w1, x1) = (rw', w', x')"
proof -
  have cache: "uploads_only ob (\<lambda>_. False) (OpAddCache (rq_now rq) LStore key b)" for key b
    using ob [of key] by auto
  have load: "delivers s (uploads_only ob (\<lambda>_. False))
      (\<lambda>ix. stored_document (decode_index E) s (simple_key project) (synthesize_index s rq project) w ix
         \<or> fetched_document up hc (simple_url sp project) (parse_upstream_index E (simple_url sp project) project) (ps_up x) ix)
      (load_index E up hc s rq ns sp project) w (x\<lparr>ps_neg := n\<rparr>)" for n
    using refresh_delivers [where s = s and ok = "uploads_only ob (\<lambda>_. False)" and x = "x\<lparr>ps_neg := n\<rparr>",
        OF cache keeps_synthesize_index]
    unfolding load_index_def by simp
  have "delivers s (uploads_only ob (\<lambda>_. False)) (pypi_source E cfg up hc s rq ns sp project w x)
      (fetch_document (proxy_index_ttl cfg) rq ns format_pypi project (simple_key project)
        (load_index E up hc s rq ns sp project)) w x"
    unfolding pypi_source_def by (rule fetch_delivers [OF load])
  from delivered_new [OF new this run [unfolded fetch_index_def]] that show ?thesis by metis
qed

lemma pypi_fills:
  "fills_only s (VersionFile project version filename)
     (\<lambda>b. in_store (version_add_file s now (pkg_version (store_package project) version) filename b opts))"
  unfolding fills_only_def by (auto intro!: h_intros store_invariant.writes_pres)

lemma pypi_follows:
  assumes "ob = VersionFile P V F"
  shows "follows_fill s ob (after_fill (in_store (pypi_record_parents s rq project version)))"
proof (rule follows_after_fill)
  fix D Q
  assume inv: "store_invariant s (uploads_only ob D) Q"
  show "act_pres (\<lambda>u. Q (fst u)) (in_store (pypi_record_parents s rq project version))"
    by (intro h_intros pypi_parents_pres [OF inv]) (use assms in auto)
qed

lemma pypi_cold_traced:
  fixes w :: "'b world"
  assumes new: "new_bytes s objs ob w w' d" and ob: "ob = VersionFile P V F"
    and run: "pypi_cold_download E cfg up hc s rq ns sp project version filename rw (w, x) = (rw', w', x')"
  shows "\<exists>ix f v u resp u'. pypi_source E cfg up hc s rq ns sp project w x ix
    \<and> index_find ix filename version = Some f \<and> if_upstream_url f \<noteq> '''' \<and> ob = VersionFile project version filename
    \<and> fst (pypi_allow E up hc rq sp project version filename f v) \<and> rq_method rq \<noteq> ''HEAD''
    \<and> up ''GET'' (if_upstream_url f) u = (Inr resp, u') \<and> status_ok (ur_status resp)
    \<and> ur_body resp = \<lparr>bd_data = d, bd_err = None\<rparr>
    \<and> rq_client rq = None \<and> (unsent rw \<longrightarrow> response_status rw' = 200 \<and> wr_body rw' = wr_body rw @ d)"
proof -
  let ?key = "pypi_file_key project version filename"
  let ?go = "\<lambda>f ok. if \<not> ok then h_done (write_store_error ErrNotFound)
     else if rq_method rq = ''HEAD'' then h_done (write_head_ok ''application/octet-stream'')
     else pypi_stream E up s rq ns project version filename f"
  let ?found = "\<lambda>ix. case index_find ix filename version of
       None \<Rightarrow> h_not_found rq ns format_pypi ?key
     | Some f \<Rightarrow> (if if_upstream_url f = '''' then h_not_found rq ns format_pypi ?key
         else h_up (pypi_allow E up hc rq sp project version filename f) (?go f))"
  let ?cold = "fetch_index E cfg up hc s rq ns sp project ?found"
  have stuck: "w' \<noteq> w" using new new_bytes_irrefl by metis
  obtain n where n: "?cold rw (w, x\<lparr>ps_neg := n\<rparr>) = (rw', w', x')"
    using run stuck unfolding pypi_cold_download_def Let_def
    by (rule_tac h_neg_has_cases [of rq ns format_pypi ?key "h_done (write_store_error ErrNotFound)" ?cold rw w x])
      (auto simp: h_done_def)
  obtain ix w1 x1 where ix: "pypi_source E cfg up hc s rq ns sp project w (x\<lparr>ps_neg := n\<rparr>) ix"
    and new1: "new_bytes s objs ob w1 w' d" and go: "?found ix rw (w1, x1) = (rw', w', x')"
    by (rule index_traced [OF new _ n]) (use ob in \<open>auto intro: that\<close>)
  have stuck1: "w' \<noteq> w1" using new1 new_bytes_irrefl by metis
  obtain f where f: "index_find ix filename version = Some f" "if_upstream_url f \<noteq> ''''"
    and up: "h_up (pypi_allow E up hc rq sp project version filename f) (?go f) rw (w1, x1) = (rw', w', x')"
    using go stuck1
    by (auto simp: h_not_found_def h_neg_mark_def h_done_def split: option.splits if_splits)
  obtain ok u1 where a: "pypi_allow E up hc rq sp project version filename f (ps_up x1) = (ok, u1)" by (metis prod.collapse)
  from up a stuck1 have ok: ok "rq_method rq \<noteq> ''HEAD''"
    and pull: "pypi_stream E up s rq ns project version filename f rw (w1, x1\<lparr>ps_up := u1\<rparr>) = (rw', w', x')"
    by (auto simp: h_up_run h_done_def split: if_splits)
  from pull_caches [OF new1 pypi_fills pypi_follows [OF ob] pull [unfolded pypi_stream_def]]
  show ?thesis using f ok a ix unfolding pypi_source_def by simp (metis fst_conv)
qed

section \<open>Properties\<close>


definition demo_pypi_env :: pypi_env where
  "demo_pypi_env = \<lparr>py_media = (\<lambda>_. None), py_lower = id, py_order = id, py_time = (\<lambda>_. ''t''), py_parse_time = (\<lambda>_. None),
     py_json_time = (\<lambda>_. None), py_parse_dur = (\<lambda>_. None), py_html = (\<lambda>_. None), py_url_ok = (\<lambda>_. True),
     py_url_join = (\<lambda>b u. u), py_sha256 = (\<lambda>d. ''h'')\<rparr>"

definition demo_pypi_config :: pypi_config where
  "demo_pypi_config = \<lparr>pyc_max_upload = 0, pyc_simple_ttl = 10, pyc_index_ttl = 0, pyc_negative_ttl = 0\<rparr>"

definition demo_index :: proxy_index where
  "demo_index = \<lparr>ix_name = ''p'', ix_files = [\<lparr>if_filename = ''p-1.zip'', if_upstream_url = ''u/p-1.zip'', if_sha256 = '''',
     if_requires = '''', if_version = ''1'', if_upload_time = None\<rparr>]\<rparr>"

definition demo_pypi_get where
  "demo_pypi_get =
     pypi_proxy_download demo_pypi_env demo_pypi_config (demo_upstream 200 ''zip'') pypi_client (demo_store None)
       (demo_request ''GET'' '''' '''') ''n'' (demo_site_spec ''proxy'') ''P'' ''1'' ''p-1.zip'' fresh_writer
       (demo_world [], (pypi_new_handler demo_pypi_config ())\<lparr>ms_memo := [memo_key ''n'' ''p'' \<mapsto> (demo_index, 2 ^ 40)]\<rparr>)"


end
