(* ===== verification/Pypi_Upload.thy ===== *)
theory Pypi_Upload
  imports Pypi_Laws
begin

text \<open>What an accepted PyPI upload leaves in the store and in the page cache.\<close>

text \<open>What an accepted form contains.\<close>

definition uploads_form ::
  "pypi_env \<Rightarrow> pypi_wire \<Rightarrow> pypi_config \<Rightarrow> request \<Rightarrow> upload_doc \<Rightarrow> bool" where
  "uploads_form E W cfg rq u \<longleftrightarrow>
     (let fo = pu_form u; declared = trim_space (form_value fo ''sha256_digest'')
      in pw_form W rq (with_max_body (pypi_upload_limit cfg) (rq_body rq)) = Inr fo
         \<and> normalize_project (py_lower E) (form_value fo ''name'') = Inr (pu_project u)
         \<and> pu_version u = form_value fo ''version'' \<and> pypi_validate_version (pu_version u) = None
         \<and> fo_content fo = Some (pu_filename u, pu_data u) \<and> pypi_validate_filename (pu_filename u) = None
         \<and> (declared = '''' \<or> equal_fold (hex_encode (py_sha256 E (pu_data u))) (trim_space declared)))"

lemma read_upload_Inr: "read_upload E W cfg rq = Inr u \<Longrightarrow> uploads_form E W cfg rq u"
  by (auto simp: read_upload_def uploads_form_def verify_declared_sha256_def Let_def
      split: sum.splits if_splits option.splits prod.splits)

lemma refused_not_created:
  assumes "unsent rw"
  shows "response_status (write_store_error e rw) \<noteq> 201"
    "st \<noteq> 201 \<Longrightarrow> response_status (write_error st msg rw) \<noteq> 201"
  using write_store_error_response [OF assms, of e] write_error_response [OF assms] by auto

lemma read_upload_Inl:
  assumes "read_upload E W cfg rq = Inl bad" "unsent rw"
  shows "response_status (bad rw) \<noteq> 201"
  using assms refused_not_created [OF assms(2)]
  by (auto simp: read_upload_def Let_def split: sum.splits if_splits option.splits prod.splits)

lemma store_upload_stored:
  assumes "blob_bucket (st_ops s) objs" "\<And>d. st_decode s d \<noteq> Inl ErrNotFound"
    and "store_upload E s rq u w = (Inr x, w')"
  shows "abs_store objs s w (VersionFile (pu_project u) (pu_version u) (pu_filename u)) = None
    \<and> abs_store objs s w' (VersionFile (pu_project u) (pu_version u) (pu_filename u)) = Some (pu_data u)"
proof -
  let ?ob = "VersionFile (pu_project u) (pu_version u) (pu_filename u)" and ?now = "rq_now rq"
  let ?P = "store_package (pu_project u)"
  let ?opts = "[WithAnnotations (pypi_upload_annotations (pu_form u) (pu_project u) (pu_version u) (pu_filename u) (py_time E ?now))]"
  let ?pkg = "act_ensure (add_package s ?now (pu_project u) [WithAnnotations [(''pypi:name'', JStr (pu_project u))]])"
  let ?ver = "act_ensure (pkg_add_version s ?now ?P (pu_version u) [WithAnnotations [(''pypi:version'', JStr (pu_version u))]])"
  let ?add = "version_add_file s ?now (pkg_version ?P (pu_version u)) (pu_filename u) (bytes_body (pu_data u)) ?opts"
  obtain w1 w2 where 1: "?pkg w = (Inr (), w1)" and 2: "?ver w1 = (Inr (), w2)" and add: "act_void ?add w2 = (Inr x, w')"
    using assms(3) unfolding store_upload_def Let_def by (elim act_bind_Inr) (rule that; simp)
  then obtain f where 3: "?add w2 = (Inr f, w')"
    unfolding act_void_def by (elim act_bind_Inr) (simp add: act_ret_def that)
  note inv = spares_invariant [of s ?ob objs]
  have "act_pres (holds s objs ?ob v) ?pkg" for v
    by (rule act_pres_ensure, rule store_invariant.writes_pres(1) [OF inv]) (simp add: spares_def)
  from spared [OF this assms(1)] 1 have s1: "abs_store objs s w1 ?ob = abs_store objs s w ?ob" by (metis snd_conv)
  have "act_pres (holds s objs ?ob v) ?ver" for v
    by (rule act_pres_ensure, rule store_invariant.writes_pres(3) [OF inv]) (simp add: spares_def)
  from spared [OF this assms(1)] 2 have same: "abs_store objs s w2 ?ob = abs_store objs s w ?ob" by (metis s1 snd_conv)
  have "\<not> cc_allow_overwrite (new_create_config [WithAnnotations an])" for an
    by (simp add: new_create_config_def empty_config_def)
  then show ?thesis
    by (rule_tac version_file_stored [OF assms(1,2) 3]) (simp add: same bytes_body_def)
qed

text \<open>C36: a PyPI upload that is answered 201 stored what its form declared: a valid version and file
  name of the project under its normalized name; the file did not exist before, and now it is exactly
  the uploaded content, whose SHA-256 is the declared one if one was declared; and the page cache no
  longer holds a page of the project.\<close>

theorem pypi_upload_stores:
  assumes "blob_bucket (st_ops s) objs" "\<And>d. st_decode s d \<noteq> Inl ErrNotFound"
    and "pypi_upload E W cfg s rq ns rw (w, x) = (rw', w', x')" "unsent rw" "response_status rw' = 201"
  shows "\<exists>u. uploads_form E W cfg rq u
    \<and> abs_store objs s w (VersionFile (pu_project u) (pu_version u) (pu_filename u)) = None
    \<and> abs_store objs s w' (VersionFile (pu_project u) (pu_version u) (pu_filename u)) = Some (pu_data u)
    \<and> (0 < pgc_ttl (py_pages x) \<longrightarrow> pgc_entries (py_pages x') (page_key ns (pu_project u)) = None)"
proof (cases "read_upload E W cfg rq")
  case (Inl bad)
  with assms(3-) read_upload_Inl [OF Inl assms(4)] show ?thesis by (simp add: pypi_upload_def h_done_def)
next
  case (Inr u)
  obtain res w1 where s: "store_upload E s rq u w = (res, w1)" by (metis prod.collapse)
  obtain v where v: "res = Inr v"
    using assms(3,5) Inr s refused_not_created [OF assms(4)]
    by (cases res) (auto simp: pypi_upload_def h_store_def h_try_def in_store_def h_done_def)
  then have "w' = w1" "x' = x\<lparr>py_pages := page_invalidate (page_key ns (pu_project u)) (py_pages x)\<rparr>"
    using assms(3) Inr s
    by (auto simp: pypi_upload_def h_store_def h_try_def in_store_def h_done_def h_page_invalidate_def)
  with store_upload_stored [OF assms(1,2) s [unfolded v]] read_upload_Inr [OF Inr] show ?thesis
    by (intro exI [of _ u]) (simp add: page_invalidate_def)
qed

definition demo_pypi_wire :: pypi_wire where
  "demo_pypi_wire = \<lparr>pw_router = (\<lambda>rs rq. MethodMismatch),
     pw_form = (\<lambda>rq b. Inr \<lparr>fo_values = [(''name'', ''P.x''), (''version'', ''1'')], fo_content = Some (''p-1.zip'', bd_data b)\<rparr>)\<rparr>"

definition demo_pypi_upload where
  "demo_pypi_upload =
     pypi_upload demo_pypi_env demo_pypi_wire demo_pypi_config (demo_store None) (demo_request ''POST'' '''' ''zip'') ''n''
       fresh_writer (demo_world [], pypi_new_handler demo_pypi_config ())"

theorem pypi_upload_stores_witness:
  "response_status (fst demo_pypi_upload) = 201
    \<and> (\<exists>u. uploads_form demo_pypi_env demo_pypi_wire demo_pypi_config (demo_request ''POST'' '''' ''zip'') u
        \<and> abs_store map_of (demo_store None) (fst (snd demo_pypi_upload))
            (VersionFile (pu_project u) (pu_version u) (pu_filename u)) = Some (pu_data u))"
proof -
  have 1: "response_status (fst demo_pypi_upload) = 201" by code_simp
  obtain rw' w' x' where r: "demo_pypi_upload = (rw', w', x')" by (metis prod.collapse)
  have b: "blob_bucket (st_ops (demo_store None)) map_of" by (simp add: mem_bucket)
  have c: "st_decode (demo_store None) d \<noteq> Inl ErrNotFound" for d by (simp add: demo_store_def)
  from pypi_upload_stores [OF b c r [unfolded demo_pypi_upload_def] unsent_fresh 1 [unfolded r fst_conv]] 1
  show ?thesis unfolding r fst_conv snd_conv by blast
qed

end
