(* ===== verification/Pypi_Page.thy ===== *)
theory Pypi_Page
  imports Pypi_Laws Blob_Listing Blob_Roundtrip
begin

text \<open>What a hosted PyPI project page lists.\<close>

section \<open>The links of one version\<close>

text \<open>A link is of a file's metadata, read in some world with the same bucket.\<close>

definition links_file :: "'b store \<Rightarrow> request \<Rightarrow> string \<Rightarrow> string \<Rightarrow> version \<Rightarrow> 'b world \<Rightarrow> file_handle \<Rightarrow> file_link \<Rightarrow> bool" where
  "links_file s rq ns project v w f l \<longleftrightarrow>
     (\<exists>m w1 w2. w_bucket w1 = w_bucket w \<and> file_meta s (rq_now rq) (rq_now rq) (rq_now rq) f w1 = (Inr m, w2)
        \<and> l = page_link ns project (v_name v) (f_name f) m)"

lemma links_file_cong: "w_bucket w1 = w_bucket w \<Longrightarrow> links_file s rq ns project v w1 = links_file s rq ns project v w"
  by (simp add: links_file_def fun_eq_iff)

lemma keeps_bucket: "keeps m \<Longrightarrow> m w = (x, w1) \<Longrightarrow> w_bucket w1 = w_bucket w"
  by (metis keeps_def snd_conv)

lemma file_links_all:
  "file_links s rq ns project v fs w = (Inr ls, w') \<Longrightarrow> list_all2 (links_file s rq ns project v w) fs ls"
proof (induction fs arbitrary: w ls w')
  case Nil
  then show ?case by (simp add: act_ret_def)
next
  case (Cons f fs)
  obtain m w1 where m: "file_meta s (rq_now rq) (rq_now rq) (rq_now rq) f w = (Inr m, w1)"
    and rest: "act_bind (file_links s rq ns project v fs)
        (\<lambda>ls. act_ret (page_link ns project (v_name v) (f_name f) m # ls)) w1 = (Inr ls, w')"
    using Cons.prems unfolding file_links.simps by (rule act_bind_Inr)
  from rest obtain ls' w2 where tl: "file_links s rq ns project v fs w1 = (Inr ls', w2)"
    and hd: "act_ret (page_link ns project (v_name v) (f_name f) m # ls') w2 = (Inr ls, w')"
    by (rule act_bind_Inr)
  from hd have ls: "ls = page_link ns project (v_name v) (f_name f) m # ls'" by (simp add: act_ret_def)
  have "keeps (file_meta s (rq_now rq) (rq_now rq) (rq_now rq) f)" by (intro keeps_intros)
  from keeps_bucket [OF this m] have b: "w_bucket w1 = w_bucket w" .
  have "links_file s rq ns project v w f (page_link ns project (v_name v) (f_name f) m)"
    unfolding links_file_def using m by blast
  with Cons.IH [OF tl] show ?case by (simp add: ls links_file_cong [OF b])
qed

section \<open>The links of all versions\<close>

definition links_version :: "'b store \<Rightarrow> request \<Rightarrow> string \<Rightarrow> string \<Rightarrow> 'b world \<Rightarrow> version \<Rightarrow> file_link list \<Rightarrow> bool" where
  "links_version s rq ns project w v ls \<longleftrightarrow>
     (\<exists>fs w1 w2. w_bucket w1 = w_bucket w \<and> version_files s v w1 = (Inr fs, w2)
        \<and> list_all2 (links_file s rq ns project v w) fs ls)"

lemma links_version_cong:
  assumes "w_bucket w1 = w_bucket w"
  shows "links_version s rq ns project w1 = links_version s rq ns project w"
  by (simp add: links_version_def links_file_cong [OF assms] assms fun_eq_iff)

lemma version_links_all:
  "version_links s rq ns project vs w = (Inr ls, w')
    \<Longrightarrow> \<exists>lss. ls = concat lss \<and> list_all2 (links_version s rq ns project w) vs lss"
proof (induction vs arbitrary: w ls w')
  case Nil
  then show ?case by (simp add: act_ret_def)
next
  case (Cons v vs)
  obtain fs w1 where fs: "version_files s v w = (Inr fs, w1)"
    and r1: "act_bind (file_links s rq ns project v fs)
        (\<lambda>ls. act_bind (version_links s rq ns project vs) (\<lambda>ls'. act_ret (ls @ ls'))) w1 = (Inr ls, w')"
    using Cons.prems unfolding version_links.simps by (rule act_bind_Inr)
  from r1 obtain l1 w2 where l1: "file_links s rq ns project v fs w1 = (Inr l1, w2)"
    and r2: "act_bind (version_links s rq ns project vs) (\<lambda>ls'. act_ret (l1 @ ls')) w2 = (Inr ls, w')"
    by (rule act_bind_Inr)
  from r2 obtain l2 w3 where l2: "version_links s rq ns project vs w2 = (Inr l2, w3)"
    and app: "act_ret (l1 @ l2) w3 = (Inr ls, w')"
    by (rule act_bind_Inr)
  from app have ls: "ls = l1 @ l2" by (simp add: act_ret_def)
  have "keeps (version_files s v)" "keeps (file_links s rq ns project v fs)" by (intro keeps_intros)+
  from keeps_bucket [OF this(1) fs] keeps_bucket [OF this(2) l1]
  have b: "w_bucket w1 = w_bucket w" "w_bucket w2 = w_bucket w" by simp_all
  have "links_version s rq ns project w v l1"
    unfolding links_version_def using fs file_links_all [OF l1] by (auto simp: links_file_cong [OF b(1)])
  moreover from Cons.IH [OF l2] obtain lss where
    "l2 = concat lss" "list_all2 (links_version s rq ns project w) vs lss"
    unfolding links_version_cong [OF b(2)] by blast
  ultimately show ?case using ls by (intro exI [of _ "l1 # lss"]) simp
qed

section \<open>The page\<close>

lemma list_all2_partner:
  assumes "list_all2 P xs ys"
  shows "y \<in> set ys \<Longrightarrow> \<exists>x \<in> set xs. P x y" "x \<in> set xs \<Longrightarrow> \<exists>y \<in> set ys. P x y"
  using assms by (induction rule: list_all2_induct) auto

text \<open>\<open>Versions\<close> and \<open>Files\<close> give handles of valid names.\<close>

lemma listed_versions:
  assumes "blob_bucket (st_ops s) objs" "owns_scope objs s w" "pkg_versions s (store_package p) w = (Inr vs, w')"
    and "v \<in> set vs"
  shows "v = pkg_version (store_package p) (v_name v)" "valid_name p" "valid_name (v_name v)"
proof -
  have "v_name v \<in> set (map v_name vs)" using assms(4) by simp
  with versions_complete [OF assms(1-3)] obtain ob where
    ob: "abs_store objs s w ob \<noteq> None" "object_version ob = Some (p, v_name v)" by blast
  then show val: "valid_name p" "valid_name (v_name v)"
    using abs_valid [OF ob(1)] by (cases ob; auto simp: valid_object_def)+
  have "v_pkg v = store_package p" "v_err v = None"
    using assms(3,4) by (auto simp: pkg_versions_def dest!: enter_Inr(2) elim!: act_bind_Inr simp: act_ret_def)
  moreover have "first_err [validate_name p, validate_name (v_name v)] = None"
    using val by (simp add: first_err_eq_None)
  ultimately show "v = pkg_version (store_package p) (v_name v)"
    by (simp add: pkg_version_def store_package_def del: first_err.simps)
qed

lemma listed_files:
  assumes "version_files s v w = (Inr fs, w')" "f \<in> set fs"
  shows "f = new_file s v (f_name f)"
proof -
  from assms obtain n where "f = new_file s v n"
    by (auto simp: version_files_def dest!: enter_Inr(2) elim!: act_bind_Inr simp: act_ret_def)
  then show ?thesis by (simp add: new_file_def)
qed

text \<open>A link of a page is that of a stored file, and every stored file has one.\<close>

lemma page_links:
  assumes b: "blob_bucket (st_ops s) objs" and owns: "owns_scope objs s w"
    and page: "build_project_page s rq ns p (store_package p) w = (Inr page, w')"
  shows "l \<in> set (pg_files page) \<Longrightarrow> \<exists>v n m w1 w2. abs_store objs s w (VersionFile p v n) \<noteq> None \<and> w_bucket w1 = w_bucket w
      \<and> file_meta s (rq_now rq) (rq_now rq) (rq_now rq) (level_file s (LVer p v) n) w1 = (Inr m, w2) \<and> l = page_link ns p v n m"
    and "abs_store objs s w (VersionFile p v n) \<noteq> None \<Longrightarrow> \<exists>m. page_link ns p v n m \<in> set (pg_files page)"
proof -
  obtain vs w0 where vs: "pkg_versions s (store_package p) w = (Inr vs, w0)"
    and r: "act_bind (version_links s rq ns p vs)
        (\<lambda>ls. act_ret \<lparr>pg_name = p, pg_files = sort_key fl_filename (sort_key fl_url ls)\<rparr>) w0 = (Inr page, w')"
    using page unfolding build_project_page_def by (rule act_bind_Inr)
  from r obtain ls w1 where ls: "version_links s rq ns p vs w0 = (Inr ls, w1)"
    and pg: "act_ret \<lparr>pg_name = p, pg_files = sort_key fl_filename (sort_key fl_url ls)\<rparr> w1 = (Inr page, w')"
    by (rule act_bind_Inr)
  from pg have files: "set (pg_files page) = set ls" by (auto simp: act_ret_def)
  have "keeps (pkg_versions s (store_package p))" by (intro keeps_intros)
  from keeps_bucket [OF this vs] have w0: "w_bucket w0 = w_bucket w" .
  from version_links_all [OF ls] obtain lss where lss: "ls = concat lss"
    and all: "list_all2 (links_version s rq ns p w) vs lss" unfolding links_version_cong [OF w0] by blast
  have level: "level_files s (LVer p (v_name v)) = version_files s v"
    and here: "\<And>n. new_file s v n = level_file s (LVer p (v_name v)) n" if "v \<in> set vs" for v
    using listed_versions(1) [OF b owns vs that] by (simp_all add: level_files_def)
  have names: "set (map f_name fs) = {n. abs_store objs s w (VersionFile p (v_name v) n) \<noteq> None}"
    if "v \<in> set vs" "w_bucket wa = w_bucket w" "version_files s v wa = (Inr fs, wb)" for v fs wa wb
  proof -
    have "owns_scope objs s wa" "abs_store objs s wa = abs_store objs s w"
      using owns that(2) by (simp_all add: owns_scope_def abs_store_def fun_eq_iff)
    with files_complete [OF b _ that(3) [folded level [OF that(1)]]] show ?thesis by simp
  qed
  show "\<exists>v n m w1 w2. abs_store objs s w (VersionFile p v n) \<noteq> None \<and> w_bucket w1 = w_bucket w
      \<and> file_meta s (rq_now rq) (rq_now rq) (rq_now rq) (level_file s (LVer p v) n) w1 = (Inr m, w2) \<and> l = page_link ns p v n m"
    if l: "l \<in> set (pg_files page)"
  proof -
    from l files lss obtain ks where ks: "ks \<in> set lss" "l \<in> set ks" by auto
    from list_all2_partner(1) [OF all ks(1)] obtain x where
      v: "links_version s rq ns p w x ks" "x \<in> set vs" by blast
    then obtain fs wa wb where fs: "w_bucket wa = w_bucket w" "version_files s x wa = (Inr fs, wb)"
      "list_all2 (links_file s rq ns p x w) fs ks" unfolding links_version_def by blast
    from list_all2_partner(1) [OF fs(3) ks(2)] obtain f where f: "f \<in> set fs" "links_file s rq ns p x w f l" by blast
    have "abs_store objs s w (VersionFile p (v_name x) (f_name f)) \<noteq> None"
      using names [OF v(2) fs(1,2)] f(1) by auto
    moreover from f(2) obtain m w1 w2 where "w_bucket w1 = w_bucket w"
      "file_meta s (rq_now rq) (rq_now rq) (rq_now rq) f w1 = (Inr m, w2)" "l = page_link ns p (v_name x) (f_name f) m"
      unfolding links_file_def by blast
    ultimately show ?thesis
      using here [OF v(2), of "f_name f"] listed_files [OF fs(2) f(1)] by metis
  qed
  show "\<exists>m. page_link ns p v n m \<in> set (pg_files page)" if n: "abs_store objs s w (VersionFile p v n) \<noteq> None"
  proof -
    have "v \<in> set (map v_name vs)" unfolding versions_complete [OF b owns vs] using n by force
    then obtain x where x: "x \<in> set vs" "v_name x = v" by auto
    from list_all2_partner(2) [OF all x(1)] obtain ks where ks: "ks \<in> set lss" "links_version s rq ns p w x ks" by blast
    then obtain fs wa wb where fs: "w_bucket wa = w_bucket w" "version_files s x wa = (Inr fs, wb)"
      "list_all2 (links_file s rq ns p x w) fs ks" unfolding links_version_def by blast
    have "n \<in> set (map f_name fs)" using names [OF x(1) fs(1,2)] n x(2) by simp
    then obtain f where f: "f \<in> set fs" "f_name f = n" by auto
    from list_all2_partner(2) [OF fs(3) f(1)] obtain l where "l \<in> set ks" "links_file s rq ns p x w f l" by blast
    with f(2) x(2) ks(1) show ?thesis unfolding files lss links_file_def by force
  qed
qed


definition demo_page :: project_page where
  "demo_page =
     (case fst (build_project_page (demo_store None) (demo_request ''GET'' '''' '''') ''n'' ''a'' (store_package ''a'') demo_listed) of
        Inr p \<Rightarrow> p)"


end
