(* ===== verification/Echo.thy ===== *)
theory Echo
  imports Proxy_Plane
begin

text \<open>
  The diagnostic surface \<open>pkg/surface/echo\<close>: an authorized read or write of a namespace's store, and
  the caller's identity echoed.  The texts of errors are a parameter.
\<close>

definition echo_write_error :: "(err \<Rightarrow> string) \<Rightarrow> err \<Rightarrow> writer \<Rightarrow> writer" where
  "echo_write_error T e =
     write_json (if e = NsErrNotFound then 404 else if e = ErrUnauthorized then 403
                 else if e = NsErrInvalidName then 400 else 500)
       (json_map [(''error'', JString (T e))])"

definition echo_response :: "string \<Rightarrow> bool \<Rightarrow> auth_context \<Rightarrow> json" where
  "echo_response ns write ac =
     JObject ([(''namespace'', JString ns), (''op'', JString (if write then ''write'' else ''read'')),
               (''issuer'', JString (ac_issuer ac)), (''id'', JString (ac_id ac))]
       @ (if ac_email ac = '''' then [] else [(''email'', JString (ac_email ac))])
       @ [(''kind'', JString (ac_kind ac))])"

text \<open>A caller without an identity cannot come through the middleware: the handler would panic.\<close>

definition echo_store :: "(err \<Rightarrow> string) \<Rightarrow> 'b store \<Rightarrow> request \<Rightarrow> string \<Rightarrow> bool \<Rightarrow> ('b world \<times> 'x) handler" where
  "echo_store T s rq ns write =
     h_try (in_store (if write then act_ensure (add_package s (rq_now rq) ''echo-probe'' []) else act_void (store_packages s)))
       (\<lambda>e. h_done (echo_write_error T e))
       (\<lambda>_. h_done (case rq_auth rq of None \<Rightarrow> abort_response | Some ac \<Rightarrow> write_json 200 (echo_response ns write ac)))"

definition echo_serve ::
  "(err \<Rightarrow> string) \<Rightarrow> ('b, 're) registry \<Rightarrow> request \<Rightarrow> string \<Rightarrow> bool \<Rightarrow> ('b, 're, 'x) sv_hnd" where
  "echo_serve T r rq ns write rw s =
     (case authorized_store r (rq_now rq) (rq_now rq) (rq_now rq) ns format_pypi (rq_auth rq) (fst s) of
        (Inl e, sv1) \<Rightarrow> (echo_write_error T e rw, sv1, snd s)
      | (Inr (st, _), sv1) \<Rightarrow> sv_store st (echo_store T st rq ns write) rw (sv1, snd s))"

definition echo_routes :: "bool route list" where
  "echo_routes =
     [Route ''GET'' [Wild ''namespace'', Lit ''echo''] False, Route ''PUT'' [Wild ''namespace'', Lit ''echo''] True]"

definition echo_handler ::
  "(err \<Rightarrow> string) \<Rightarrow> ('b, 're) registry \<Rightarrow> 'p oidc_lib \<Rightarrow> request
    \<Rightarrow> ('p authn \<times> ('b, 're policy_cache) ns_world \<times> 'x) handler" where
  "echo_handler T r L rq =
     serve_mux echo_routes
       (\<lambda>write b. auth_middleware (authenticate L) (\<lambda>rq. echo_serve T r rq (path_value b ''namespace'') write) rq) rq"

section \<open>What it may change\<close>

text \<open>The surface does not look at the mode: a writer of a proxy namespace can write through it.\<close>

definition named_writer ::
  "('b, 're) registry \<Rightarrow> int \<Rightarrow> 'b \<Rightarrow> 'b reg_event list \<Rightarrow> request \<Rightarrow> string \<Rightarrow> bool" where
  "named_writer r ttl b es rq ns \<longleftrightarrow> (\<exists>sp. recent_spec r ttl b es (rq_now rq) ns sp \<and> may_write r rq sp)"

lemma changes_at_cong: "(\<And>rw. snd (h rw s) = snd (h' rw s)) \<Longrightarrow> changes_at objs s Q h = changes_at objs s Q h'"
  by (simp add: changes_at_def)

lemma echo_store_safe:
  "hnd_safe st plain_op (echo_store T st rq ns True)" "hnd_safe st read_op (echo_store T st rq ns False)"
proof -
  show "hnd_safe st plain_op (echo_store T st rq ns True)"
  proof (rule hnd_safeI)
    fix P
    assume inv: "store_invariant st plain_op P"
    show "h_pres (\<lambda>u. P (fst u)) (echo_store T st rq ns True)"
      unfolding echo_store_def by (simp, intro h_intros store_invariant.writes_pres(1) [OF inv] plain_op)
  qed
  show "hnd_safe st read_op (echo_store T st rq ns False)"
  proof (rule hnd_safeI)
    fix P
    assume inv: "store_invariant st read_op P"
    show "h_pres (\<lambda>u. P (fst u)) (echo_store T st rq ns False)"
      unfolding echo_store_def
      by (simp, intro h_intros act_pres_void [THEN iffD2] store_invariant.keeps_pres [OF inv] keeps_intros)
  qed
qed

lemma echo_changes:
  fixes x :: 'x and r :: "('b, 're) registry"
  assumes hooks: "ct_hooks (rg_catalog r) = [policy_invalidate]" and objs: "blob_bucket (st_ops (rg_store r)) objs"
  shows "changes_at objs (reg_run r ttl b es, x)
    (\<lambda>key. write \<and> in_tenant r ns format_pypi key \<and> named_writer r ttl b es rq ns) (echo_serve T r rq ns write)"
proof -
  let ?Q = "\<lambda>key. write \<and> in_tenant r ns format_pypi key \<and> named_writer r ttl b es rq ns"
  have "snd (echo_serve T r rq ns write rw s)
      = snd (open_store r rq ns format_pypi NamespaceDataRead (\<lambda>st _. sv_store st (echo_store T st rq ns write)) rw s)"
    for rw and s :: "('b, 're policy_cache) ns_world \<times> 'x"
    by (simp add: echo_serve_def open_store_def split: prod.split sum.split)
  moreover have "changes_at objs (reg_run r ttl b es, x) ?Q
      (open_store r rq ns format_pypi NamespaceDataRead (\<lambda>st _. sv_store st (echo_store T st rq ns write)))"
  proof (rule changes_open_store [OF hooks])
    fix st spec
    assume st: "recent_spec r ttl b es (rq_now rq) ns spec" "st_scope st = scope_of (rg_prefix r) ns format_pypi"
      "st_ops st = st_ops (rg_store r)" "guard_verdict st True = None \<Longrightarrow> may_write r rq spec"
    show "changes_at objs (reg_run r ttl b (now_lookup rq ns format_pypi # es), x) ?Q (sv_store st (echo_store T st rq ns write))"
    proof (cases "write")
      case True
      show ?thesis
        by (rule changes_write) (use True st objs echo_store_safe(1) in \<open>auto simp: in_tenant_def named_writer_def\<close>)
    next
      case False
      show ?thesis
        by (rule changes_read) (use False st objs echo_store_safe(2) in auto)
    qed
  qed
  ultimately show ?thesis using changes_at_cong [of "echo_serve T r rq ns write"] by blast
qed

end
