(* ===== verification/Server.thy ===== *)
theory Server
  imports Config Observability Echo Generic_Laws Maven_Laws Debian_Laws Npm_Laws Pypi_Laws Admin_Laws
begin

text \<open>
  How the servers are put together, \<open>pkg/command\<close>: a validated configuration selects one format,
  the authenticator and the bounds of its surface; the observability wrapper stands in front.  The
  composition theorem says who can change the bucket through a running data plane.  Listening,
  signals and shutdown (\<open>pkg/serving\<close>), the flag parser and the bucket drivers are not modelled.
\<close>

section \<open>The data plane\<close>

record plane_env =
  pv_maven :: maven_env
  pv_debian :: debian_env
  pv_npm :: npm_env
  pv_pypi :: pypi_env
  pv_wire :: pypi_wire
  pv_generic :: generic_env
  pv_error_text :: "err \<Rightarrow> string"

text \<open>The state of every surface; a server builds one, and only that one's part ever changes.\<close>

record 'u plane_state =
  pl_maven :: "'u proxy_state"
  pl_debian :: "'u proxy_state"
  pl_npm :: "('u, proxy_packument) memo_state"
  pl_pypi :: "'u pypi_state"

definition maven_config_of :: "runtime_config \<Rightarrow> maven_config" where
  "maven_config_of c =
     \<lparr>mc_max_upload = rt_maven_max_upload c, mc_allow_overwrite = False, mc_proxy_metadata_max = 0, mc_proxy_negative_ttl = 0\<rparr>"

definition pypi_config_of :: "runtime_config \<Rightarrow> pypi_config" where
  "pypi_config_of c =
     \<lparr>pyc_max_upload = rt_pypi_max_upload c, pyc_simple_ttl = rt_pypi_simple_index_ttl c,
      pyc_index_ttl = rt_pypi_index_ttl c, pyc_negative_ttl = rt_pypi_negative_ttl c\<rparr>"

definition npm_config_of :: "runtime_config \<Rightarrow> npm_config" where
  "npm_config_of c =
     \<lparr>npc_max_upload = rt_npm_max_upload c, npc_memo_ttl = rt_npm_memo_ttl c, npc_cache_ttl = rt_npm_cache_ttl c,
      npc_negative_ttl = rt_npm_negative_ttl c\<rparr>"

definition generic_config_of :: "runtime_config \<Rightarrow> generic_config" where
  "generic_config_of c =
     \<lparr>gc_max_upload = rt_generic_max_upload c, gc_allow_overwrite = rt_generic_allow_overwrite c\<rparr>"

definition new_plane :: "runtime_config \<Rightarrow> 'u \<Rightarrow> 'u plane_state" where
  "new_plane c u =
     \<lparr>pl_maven = maven_new_proxy (maven_config_of c) u, pl_debian = debian_new_proxy (rt_debian_negative_ttl c) u,
      pl_npm = npm_new_proxy (npm_config_of c) u, pl_pypi = pypi_new_handler (pypi_config_of c) u\<rparr>"

text \<open>A handler on one part of the plane's state.\<close>

definition on_part ::
  "('x \<Rightarrow> 'y) \<Rightarrow> ('y \<Rightarrow> 'x \<Rightarrow> 'x) \<Rightarrow> ('a \<times> 'w \<times> 'y) handler \<Rightarrow> ('a \<times> 'w \<times> 'x) handler" where
  "on_part get put h rw s =
     (case h rw (fst s, fst (snd s), get (snd (snd s))) of
        (rw', a, w, y) \<Rightarrow> (rw', a, w, put y (snd (snd s))))"

definition format_surface ::
  "plane_env \<Rightarrow> runtime_config \<Rightarrow> ('b, 're) registry \<Rightarrow> 'p oidc_lib \<Rightarrow> 'u upstream \<Rightarrow> request
    \<Rightarrow> ('p authn \<times> ('b, 're policy_cache) ns_world \<times> 'u plane_state) handler" where
  "format_surface V c r L up rq =
     (if rt_repo_type c = ''echo'' then echo_handler (pv_error_text V) r L rq
      else if rt_repo_type c = ''pypi'' then
        on_part pl_pypi (\<lambda>y x. x\<lparr>pl_pypi := y\<rparr>) (pypi_handler (pv_pypi V) (pv_wire V) (pypi_config_of c) r L up rq)
      else if rt_repo_type c = ''maven'' then
        on_part pl_maven (\<lambda>y x. x\<lparr>pl_maven := y\<rparr>) (maven_handler (pv_maven V) (maven_config_of c) r L up rq)
      else if rt_repo_type c = ''npm'' then
        on_part pl_npm (\<lambda>y x. x\<lparr>pl_npm := y\<rparr>) (npm_handler (pv_npm V) (npm_config_of c) r L up rq)
      else if rt_repo_type c = ''debian'' then
        on_part pl_debian (\<lambda>y x. x\<lparr>pl_debian := y\<rparr>) (debian_handler (pv_debian V) r L up rq)
      else if rt_repo_type c = ''generic'' then generic_handler (pv_generic V) (generic_config_of c) r L rq
      else h_done (http_error 404 ''404 page not found''))"

text \<open>The mux in front has the one pattern \<open>/\<close>, so all it does is to clean paths.\<close>

definition data_plane ::
  "plane_env \<Rightarrow> runtime_config \<Rightarrow> ('b, 're) registry \<Rightarrow> 'p oidc_lib \<Rightarrow> 'u upstream \<Rightarrow> request
    \<Rightarrow> ('p authn \<times> ('b, 're policy_cache) ns_world \<times> 'u plane_state) handler" where
  "data_plane V c r L up rq =
     (let p = mux_clean_path (rq_escaped_path rq)
      in if p \<noteq> rq_escaped_path rq then h_done (\<lambda>rw. write_header 301 (header_set ''Location'' p rw))
         else format_surface V c r L up rq)"

section \<open>The servers\<close>

definition probe_key :: "string \<Rightarrow> string" where
  "probe_key bucket_prefix =
     Root @ (if bucket_prefix = '''' then '''' else bucket_prefix @ ''/'') @ ''.readyz-probe''"

definition bucket_pinger :: "'b bucket_ops \<Rightarrow> string \<Rightarrow> 'b \<Rightarrow> err option" where
  "bucket_pinger ops bucket_prefix b =
     (case bo_exists ops b (probe_key bucket_prefix) of Inl e \<Rightarrow> Some (ErrBackend e) | Inr _ \<Rightarrow> None)"

text \<open>What a process is built from besides its flags: the bucket, codecs and hashes (in \<open>sb_store\<close>).\<close>

record ('b, 're) server_base =
  sb_store :: "'b store"
  sb_env :: "'re ns_env"
  sb_encode :: "spec \<Rightarrow> string res"
  sb_decode :: "string \<Rightarrow> spec res"
  sb_build :: "string \<times> string \<times> string"
  sb_length :: "request \<Rightarrow> int"
  sb_labels :: "request \<Rightarrow> request_labels"
  sb_metrics :: "writer \<Rightarrow> writer"

definition new_catalog :: "('b, 're) server_base \<Rightarrow> string \<Rightarrow> ('b, 'c, 're) catalog" where
  "new_catalog B bucket_prefix =
     \<lparr>ct_ops = st_ops (sb_store B), ct_root = root_prefix bucket_prefix, ct_hooks = [], ct_env = sb_env B,
      ct_encode = sb_encode B, ct_decode = sb_decode B\<rparr>"

definition plane_registry :: "('b, 're) server_base \<Rightarrow> runtime_config \<Rightarrow> ('b, 're) registry" where
  "plane_registry B c =
     new_registry (new_catalog B (rt_bucket_prefix c)) (rt_bucket_prefix c)
       ((sb_store B)\<lparr>st_metrics := True\<rparr>)"

definition obs_config_of ::
  "('b, 're) server_base \<Rightarrow> runtime_config \<Rightarrow> ('s \<Rightarrow> err option \<times> 's) \<Rightarrow> 's obs_config" where
  "obs_config_of B c ping =
     \<lparr>ob_ping = Some ping, ob_metrics = (if rt_enable_metrics c then Some (sb_metrics B) else None),
      ob_metrics_path = rt_metrics_path c, ob_build = sb_build B, ob_length = sb_length B, ob_labels = sb_labels B\<rparr>"

definition new_obs :: obs_state where "new_obs = \<lparr>os_ready = None, os_events = []\<rparr>"

definition data_server ::
  "('b, 're) server_base \<Rightarrow> plane_env \<Rightarrow> runtime_config \<Rightarrow> 'p oidc_lib \<Rightarrow> 'u upstream \<Rightarrow> request
    \<Rightarrow> (obs_state \<times> 'p authn \<times> ('b, 're policy_cache) ns_world \<times> 'u plane_state) handler" where
  "data_server B V c L up =
     obs_wrap
       (obs_config_of B c
          (\<lambda>s. (bucket_pinger (st_ops (sb_store B)) (rt_bucket_prefix c) (nw_bucket (fst (snd s))), s)))
       (data_plane V c (plane_registry B c) L up)"

text \<open>\<open>runServe\<close>: the server and the state it starts in, or the flags that are wrong.\<close>

definition run_serve ::
  "('b, 're) server_base \<Rightarrow> plane_env \<Rightarrow> flag_source \<Rightarrow> 'p oidc_lib \<Rightarrow> 'u upstream \<Rightarrow> 'b \<Rightarrow> 'u
    \<Rightarrow> string list + (request \<Rightarrow> (obs_state \<times> 'p authn \<times> ('b, 're policy_cache) ns_world \<times> 'u plane_state) handler)
        \<times> obs_state \<times> 'p authn \<times> ('b, 're policy_cache) ns_world \<times> 'u plane_state" where
  "run_serve B V v L up b u =
     (case resolve_config True v of
        Inl errs \<Rightarrow> Inl errs
      | Inr c \<Rightarrow>
          Inr (data_server B V c L up, new_obs,
            build_authenticator (rt_disable_authn c) (rt_authn_oidc_issuers c) (rt_authn_oidc_audience c),
            \<lparr>nw_bucket = b, nw_hooked = new_policy_cache default_policy_cache_ttl\<rparr>, new_plane c u))"

text \<open>The control plane: its routes are below one prefix, which gets its trailing slash by a redirect.\<close>

definition admin_plane :: "('b, 'c, 're) admin_env \<Rightarrow> request \<Rightarrow> ('b, 'c) adm" where
  "admin_plane E rq =
     (let p = mux_clean_path (rq_escaped_path rq); segs = mux_segments p
      in if segs = [''admin'', ''v1''] then h_done (\<lambda>rw. write_header 301 (header_set ''Location'' (p @ ''/'') rw))
         else if p \<noteq> rq_escaped_path rq then h_done (\<lambda>rw. write_header 301 (header_set ''Location'' p rw))
         else if take 2 segs = [''admin'', ''v1''] then admin_handler E rq
         else h_done (http_error 404 ''404 page not found''))"

definition admin_server ::
  "('b, 're) server_base \<Rightarrow> ('b, 'c, 're) admin_env \<Rightarrow> runtime_config \<Rightarrow> request \<Rightarrow> (obs_state \<times> ('b, 'c) ns_world) handler" where
  "admin_server B E c =
     obs_wrap (obs_config_of B c (\<lambda>s. (catalog_ping (ad_catalog E) (nw_bucket s), s))) (admin_plane E)"

definition run_admin_serve ::
  "('b, 're) server_base \<Rightarrow> (string \<Rightarrow> string option) \<Rightarrow> (err \<Rightarrow> string) \<Rightarrow> flag_source \<Rightarrow> 'b \<Rightarrow> 'c
    \<Rightarrow> string list + (request \<Rightarrow> (obs_state \<times> ('b, 'c) ns_world) handler) \<times> obs_state \<times> ('b, 'c) ns_world" where
  "run_admin_serve B num T v b h =
     (case resolve_config False v of
        Inl errs \<Rightarrow> Inl errs
      | Inr c \<Rightarrow>
          Inr (admin_server B \<lparr>ad_catalog = new_catalog B (rt_bucket_prefix c), ad_num = num, ad_error_text = T\<rparr> c,
            new_obs, \<lparr>nw_bucket = b, nw_hooked = h\<rparr>))"

section \<open>Who can change the bucket\<close>

definition plane_format :: "runtime_config \<Rightarrow> string" where
  "plane_format c = (if rt_repo_type c = ''echo'' then format_pypi else rt_repo_type c)"

definition plane_may_change ::
  "runtime_config \<Rightarrow> ('b, 're) registry \<Rightarrow> int \<Rightarrow> 'b \<Rightarrow> 'b reg_event list \<Rightarrow> request \<Rightarrow> string \<Rightarrow> bool" where
  "plane_may_change c r ttl b es rq key \<longleftrightarrow>
     (\<exists>ns. in_tenant r ns (plane_format c) key
        \<and> (named_writer r ttl b es rq ns \<or> rt_repo_type c \<noteq> ''echo'' \<and> proxy_reader r ttl b es rq ns))"

text \<open>A handler behind the middleware that changes only what \<open>Q\<close> allows.\<close>

definition guarded ::
  "('b \<Rightarrow> string \<rightharpoonup> string) \<Rightarrow> (request \<Rightarrow> 'p authn \<Rightarrow> auth_context res \<times> 'p authn) \<Rightarrow> ('b, 're policy_cache) ns_world
    \<Rightarrow> (request \<Rightarrow> string \<Rightarrow> bool) \<Rightarrow> request \<Rightarrow> ('p authn \<times> ('b, 're policy_cache) ns_world \<times> 'x) handler \<Rightarrow> bool" where
  "guarded objs authn sv Q rq h \<longleftrightarrow>
     (\<forall>A x rw rw' A' sv' x' key. h rw (A, sv, x) = (rw', A', sv', x') \<longrightarrow> objs (nw_bucket sv') key \<noteq> objs (nw_bucket sv) key
        \<longrightarrow> (\<exists>ac. fst (authn rq A) = Inr ac \<and> Q (rq\<lparr>rq_auth := Some ac\<rparr>) key))"

lemma guarded_middleware:
  assumes "\<And>ac x. changes_at objs (sv, x) (Q' (rq\<lparr>rq_auth := Some ac\<rparr>)) (h (rq\<lparr>rq_auth := Some ac\<rparr>))"
    and "\<And>ac key. Q' (rq\<lparr>rq_auth := Some ac\<rparr>) key \<Longrightarrow> Q (rq\<lparr>rq_auth := Some ac\<rparr>) key"
  shows "guarded objs authn sv Q rq (auth_middleware authn h rq)"
  unfolding guarded_def
proof (intro allI impI)
  fix A x rw rw' A' sv' x' key
  assume run: "auth_middleware authn h rq rw (A, sv, x) = (rw', A', sv', x')"
    and new: "objs (nw_bucket sv') key \<noteq> objs (nw_bucket sv) key"
  from changes_middleware [OF assms(1) run] new obtain ac where
    "fst (authn rq A) = Inr ac" "Q' (rq\<lparr>rq_auth := Some ac\<rparr>) key" by auto
  with assms(2) show "\<exists>ac. fst (authn rq A) = Inr ac \<and> Q (rq\<lparr>rq_auth := Some ac\<rparr>) key" by blast
qed

lemma guarded_on_part:
  assumes "guarded objs authn sv Q rq h"
  shows "guarded objs authn sv Q rq (on_part get put h)"
  unfolding guarded_def
proof (intro allI impI)
  fix A x rw rw' A' sv' x' key
  assume run: "on_part get put h rw (A, sv, x) = (rw', A', sv', x')"
    and new: "objs (nw_bucket sv') key \<noteq> objs (nw_bucket sv) key"
  obtain y where "h rw (A, sv, get x) = (rw', A', sv', y)"
    using run by (auto simp: on_part_def split: prod.splits)
  with assms new show "\<exists>ac. fst (authn rq A) = Inr ac \<and> Q (rq\<lparr>rq_auth := Some ac\<rparr>) key"
    unfolding guarded_def by blast
qed

lemma guarded_done: "guarded objs authn sv Q rq (h_done f)"
  by (simp add: guarded_def h_done_def)

lemma guarded_if:
  "(c \<Longrightarrow> guarded objs authn sv Q rq h) \<Longrightarrow> (\<not> c \<Longrightarrow> guarded objs authn sv Q rq h')
    \<Longrightarrow> guarded objs authn sv Q rq (if c then h else h')"
  by simp

lemma guarded_mux:
  assumes "\<And>h b. mux_find rs (rq_method rq) (rq_escaped_path rq) = MuxFound h b \<Longrightarrow> guarded objs authn sv Q rq (run h b)"
  shows "guarded objs authn sv Q rq (serve_mux rs run rq)"
proof (cases "mux_find rs (rq_method rq) (rq_escaped_path rq)")
  case (MuxFound h b)
  then have "serve_mux rs run rq = run h b" by (simp add: serve_mux_def fun_eq_iff)
  with assms [OF MuxFound] show ?thesis by simp
qed (simp_all add: guarded_def serve_mux_def)

lemma hosted_named: "hosted_writer r ttl b es rq ns \<Longrightarrow> named_writer r ttl b es rq ns"
  unfolding hosted_writer_def named_writer_def by blast

lemma plane_mayI:
  assumes "in_tenant r ns fmt key" "fmt = rt_repo_type c" "rt_repo_type c \<noteq> ''echo''"
    and "hosted_writer r ttl b es rq ns \<or> proxy_reader r ttl b es rq ns"
  shows "plane_may_change c r ttl b es rq key"
  unfolding plane_may_change_def plane_format_def using assms by (auto intro!: exI [of _ ns] intro: hosted_named)

lemma pypi_may: "rt_repo_type c = ''pypi'' \<Longrightarrow> pypi_may_change W r ttl b es rq key \<Longrightarrow> plane_may_change c r ttl b es rq key"
  unfolding pypi_may_change_def by (elim exE conjE) (rule plane_mayI, assumption, auto simp: format_pypi_def)

lemma maven_may: "rt_repo_type c = ''maven'' \<Longrightarrow> maven_may_change r ttl b es rq key \<Longrightarrow> plane_may_change c r ttl b es rq key"
  unfolding maven_may_change_def by (elim exE conjE) (rule plane_mayI, assumption, auto simp: format_maven_def)

lemma npm_may: "rt_repo_type c = ''npm'' \<Longrightarrow> npm_may_change E r ttl b es rq key \<Longrightarrow> plane_may_change c r ttl b es rq key"
  unfolding npm_may_change_def by (elim exE conjE) (rule plane_mayI, assumption, auto simp: format_npm_def)

lemma debian_may: "rt_repo_type c = ''debian'' \<Longrightarrow> debian_may_change r ttl b es rq key \<Longrightarrow> plane_may_change c r ttl b es rq key"
  unfolding debian_may_change_def by (elim exE conjE) (rule plane_mayI, assumption, auto simp: format_debian_def)

lemma generic_may: "rt_repo_type c = ''generic'' \<Longrightarrow> generic_may_change r ttl b es rq key \<Longrightarrow> plane_may_change c r ttl b es rq key"
  unfolding generic_may_change_def
  by (elim exE conjE, rule plane_mayI, unfold in_tenant_def, assumption)
    (auto simp: format_generic_def hosted_writer_def)

lemma echo_may:
  "rt_repo_type c = ''echo'' \<Longrightarrow> write \<and> in_tenant r ns format_pypi key \<and> named_writer r ttl b es rq ns
    \<Longrightarrow> plane_may_change c r ttl b es rq key"
  unfolding plane_may_change_def plane_format_def by auto

lemma format_surface_guarded:
  assumes hooks: "ct_hooks (rg_catalog r) = [policy_invalidate]" and objs: "blob_bucket (st_ops (rg_store r)) objs"
  shows "guarded objs (authenticate L) (reg_run r ttl b es) (plane_may_change c r ttl b es) rq (format_surface V c r L up rq)"
  unfolding format_surface_def echo_handler_def pypi_handler_def maven_handler_def npm_handler_def debian_handler_def
    generic_handler_def
  by (intro guarded_if guarded_on_part guarded_done guarded_mux)
    (rule guarded_middleware [OF echo_changes [OF hooks objs]], erule (1) echo_may
    | rule guarded_middleware [OF pypi_changes [OF hooks objs]], erule (1) pypi_may
    | rule guarded_middleware [OF maven_changes [OF hooks objs]], erule (1) maven_may
    | rule guarded_middleware [OF npm_changes [OF hooks objs]], erule (1) npm_may
    | rule guarded_middleware [OF debian_changes [OF hooks objs]], erule (1) debian_may
    | rule guarded_middleware [OF generic_mux_changes [OF hooks objs]], erule (1) generic_may)+

section \<open>Properties\<close>


text \<open>A server of the diagnostic surface over an in-memory bucket.\<close>

definition demo_base :: "(mem_bucket, string) server_base" where
  "demo_base =
     \<lparr>sb_store = demo_store None, sb_env = demo_env, sb_encode = (\<lambda>_. Inr ''{}''), sb_decode = (\<lambda>d. Inr (demo_site_spec '''')),
      sb_build = ('''', '''', ''''), sb_length = (\<lambda>_. 0), sb_labels = (\<lambda>_. \<lparr>rl_format = '''', rl_op = ''''\<rparr>), sb_metrics = id\<rparr>"

definition demo_flags :: flag_source where
  "demo_flags =
     \<lparr>fl_int = (\<lambda>k. if k = ''port'' then 8080 else 0),
      fl_string = (\<lambda>k. if k = ''bucket-url'' then ''mem://'' else if k = ''metrics-path'' then ''/metrics''
        else if k = ''log-level'' then ''info'' else if k = ''log-format'' then ''text'' else if k = ''repo-type'' then ''echo''
        else if k = ''authn-kind'' then ''oidc'' else if k = ''authn-oidc-audience'' then ''aud'' else ''''),
      fl_bool = (\<lambda>_. False), fl_strings = (\<lambda>_. [''i'']), fl_kind_set = False\<rparr>"

definition demo_runtime :: runtime_config where
  "demo_runtime = data_config demo_flags (shared_config demo_flags)"

definition demo_plane :: plane_env where
  "demo_plane =
     \<lparr>pv_maven = \<lparr>mv_digest = (\<lambda>_ d. d), mv_time = (\<lambda>_. ''''), mv_last_updated = (\<lambda>_. None), mv_parse_time = (\<lambda>_. None),
        mv_parse_dur = (\<lambda>_. None)\<rparr>,
      pv_debian = \<lparr>de_time = (\<lambda>_. ''''), de_parse_dur = (\<lambda>_. None)\<rparr>, pv_npm = demo_npm_env, pv_pypi = demo_pypi_env,
      pv_wire = \<lparr>pw_router = (\<lambda>_ _. MethodMismatch), pw_form = (\<lambda>_ _. Inl '''')\<rparr>, pv_generic = demo_generic_env,
      pv_error_text = (\<lambda>_. '''')\<rparr>"

definition demo_serve where
  "demo_serve =
     data_server demo_base demo_plane demo_runtime demo_oidc (demo_upstream 404 '''') (demo_request ''PUT'' ''/n/echo'' '''')
       fresh_writer (new_obs, demo_authn, reg_run (plane_registry demo_base demo_runtime) 10 demo_bucket [], new_plane demo_runtime ())"

lemma demo_flags_resolve: "resolve_config True demo_flags = Inr demo_runtime"
  unfolding demo_runtime_def by (simp add: resolve_config_def Let_def) code_simp

lemma demo_serve_returns: "\<not> wr_aborted (fst demo_serve)"
  by code_simp


end
